(* ===== verification/Prelude.thy ===== *)
theory Prelude
  imports Main "HOL-Library.Word" "HOL-Library.AList" "HOL-Library.Sublist"
begin

unbundle bit_operations_syntax

section \<open>Shared vocabulary of the development\<close>

text \<open>
  What the component theories share: the machine integers of Go as words, byte slices, Go's
  little-endian integer encodings (package encoding/binary), Go maps as association lists with
  distinct keys, the string helpers of packages strings and fmt that the sources call, and the
  lemma collections the component proofs use.

  Conventions.
  \<^item> A Go value \<open>uintN\<close> is an \<open>N word\<close>; \<open>int32\<close> is the 32-bit word with the same
    bits, read with \<open>sint\<close> where its sign matters.
  \<^item> A Go \<open>[]byte\<close> is a list of 8-bit words, a Go \<open>string\<close> is a list of characters (its bytes).
  \<^item> \<open>error\<close> results are sums: \<open>Inl e\<close> for a non-nil error, \<open>Inr x\<close> for success.
  \<^item> An operation on mutable state returns the result paired with the new state, also when it
    fails, because a failed operation may have changed the state before it failed.
  \<^item> A Go map is an association list; \<open>map_of\<close> is its content and the order of the list stands
    for one of the iteration orders Go may choose.
\<close>

named_theorems wire_simps \<open>lengths and offsets of encoded fields\<close>
named_theorems inv_intros \<open>every operation keeps the invariant of its component\<close>
named_theorems frame_simps \<open>what an operation leaves unchanged\<close>

type_synonym u8 = "8 word"
type_synonym u16 = "16 word"
type_synonym u32 = "32 word"
type_synonym u64 = "64 word"
type_synonym i32 = "32 word"
type_synonym bytes = "8 word list"
type_synonym ('k, 'v) gomap = "('k \<times> 'v) list"

subsection \<open>Byte slices and little-endian integers\<close>

definition slice :: "nat \<Rightarrow> nat \<Rightarrow> 'a list \<Rightarrow> 'a list" where
  "slice i j xs = take (j - i) (drop i xs)"

lemma length_slice [simp]: "length (slice i j xs) = min (j - i) (length xs - i)"
  by (simp add: slice_def min.commute)

lemma slice_full [simp]: "slice 0 (length xs) xs = xs"
  by (simp add: slice_def)

definition le_bytes :: "nat \<Rightarrow> 'a::len word \<Rightarrow> bytes" where
  "le_bytes n w = map (\<lambda>i. ucast (drop_bit (8 * i) w)) [0..<n]"

primrec le_word :: "bytes \<Rightarrow> 'a::len word" where
  "le_word [] = 0"
| "le_word (b # bs) = ucast b OR push_bit 8 (le_word bs)"

lemma length_le_bytes [simp]: "length (le_bytes n w) = n"
  by (simp add: le_bytes_def)

lemma bit_le_word:
  "bit (le_word bs :: 'a::len word) k \<longleftrightarrow>
     k < LENGTH('a) \<and> k div 8 < length bs \<and> bit (bs ! (k div 8)) (k mod 8)"
proof (induction bs arbitrary: k)
  case Nil
  then show ?case by simp
next
  case (Cons b bs)
  show ?case
  proof (cases "k < 8")
    case True
    then show ?thesis
      by (auto simp: bit_or_iff bit_push_bit_iff bit_ucast_iff)
  next
    case False
    then obtain m where m: "k = m + 8"
      by (metis add.commute le_Suc_ex not_less)
    have "\<not> bit b k"
      using False by (auto dest: bit_imp_le_length)
    moreover have "(m + 8) div 8 = Suc (m div 8)" by simp
    ultimately show ?thesis
      by (auto simp: bit_or_iff bit_push_bit_iff bit_ucast_iff Cons.IH m)
  qed
qed

lemma bit_le_bytes:
  "i < n \<Longrightarrow> bit (le_bytes n w ! i) j \<longleftrightarrow> j < 8 \<and> bit w (8 * i + j)"
  by (simp add: le_bytes_def bit_ucast_iff bit_drop_bit_eq)

lemma le_word_le_bytes:
  fixes w :: "'a::len word"
  assumes "LENGTH('a) \<le> 8 * n"
  shows "le_word (le_bytes n w) = w"
proof (rule bit_word_eqI)
  fix k assume k: "k < LENGTH('a)"
  with assms have "k div 8 < n" by linarith
  then show "bit (le_word (le_bytes n w) :: 'a word) k = bit w k"
    using k by (simp add: bit_le_word bit_le_bytes)
qed

lemma le_bytes_le_word:
  assumes "length bs = n" and "8 * n \<le> LENGTH('a::len)"
  shows "le_bytes n (le_word bs :: 'a word) = bs"
proof (rule nth_equalityI)
  show "length (le_bytes n (le_word bs :: 'a word)) = length bs"
    using assms by simp
next
  fix i assume "i < length (le_bytes n (le_word bs :: 'a word))"
  then have i: "i < n" by simp
  show "le_bytes n (le_word bs :: 'a word) ! i = bs ! i"
  proof (rule bit_word_eqI)
    fix j assume "j < LENGTH(8)"
    then have j: "j < 8" by simp
    then have "(8 * i + j) div 8 = i" and "(8 * i + j) mod 8 = j" and "8 * i + j < LENGTH('a)"
      using i assms by auto
    then show "bit (le_bytes n (le_word bs :: 'a word) ! i) j = bit (bs ! i) j"
      using i j assms by (simp add: bit_le_bytes bit_le_word)
  qed
qed

text \<open>
  The names of the encoders are those of binary.LittleEndian; a write into the window
  \<open>buf[i:j]\<close> of a freshly made buffer is the concatenation of the encoded fields.
\<close>

abbreviation put_u16 :: "u16 \<Rightarrow> bytes" where "put_u16 \<equiv> le_bytes 2"
abbreviation put_u32 :: "u32 \<Rightarrow> bytes" where "put_u32 \<equiv> le_bytes 4"
abbreviation put_u64 :: "u64 \<Rightarrow> bytes" where "put_u64 \<equiv> le_bytes 8"
abbreviation get_u16 :: "bytes \<Rightarrow> u16" where "get_u16 \<equiv> le_word"
abbreviation get_u32 :: "bytes \<Rightarrow> u32" where "get_u32 \<equiv> le_word"
abbreviation get_u64 :: "bytes \<Rightarrow> u64" where "get_u64 \<equiv> le_word"

lemma get_put_u16 [simp]: "get_u16 (put_u16 x) = x"
  by (rule le_word_le_bytes) simp

lemma get_put_u32 [simp]: "get_u32 (put_u32 x) = x"
  by (rule le_word_le_bytes) simp

lemma get_put_u64 [simp]: "get_u64 (put_u64 x) = x"
  by (rule le_word_le_bytes) simp

lemma put_get_u16 [simp]: "length bs = 2 \<Longrightarrow> put_u16 (get_u16 bs) = bs"
  by (rule le_bytes_le_word) simp_all

lemma put_get_u32 [simp]: "length bs = 4 \<Longrightarrow> put_u32 (get_u32 bs) = bs"
  by (rule le_bytes_le_word) simp_all

lemma put_get_u64 [simp]: "length bs = 8 \<Longrightarrow> put_u64 (get_u64 bs) = bs"
  by (rule le_bytes_le_word) simp_all

subsection \<open>Go maps\<close>

abbreviation mget :: "('k, 'v) gomap \<Rightarrow> 'k \<Rightarrow> 'v option" where
  "mget \<equiv> map_of"

abbreviation mput :: "'k \<Rightarrow> 'v \<Rightarrow> ('k, 'v) gomap \<Rightarrow> ('k, 'v) gomap" where
  "mput \<equiv> AList.update"

abbreviation mdel :: "'k \<Rightarrow> ('k, 'v) gomap \<Rightarrow> ('k, 'v) gomap" where
  "mdel \<equiv> AList.delete"

definition mvalues :: "('k, 'v) gomap \<Rightarrow> 'v list" where
  "mvalues m = map snd m"

definition mkeys :: "('k, 'v) gomap \<Rightarrow> 'k list" where
  "mkeys m = map fst m"

text \<open>Reading a missing key of a Go map gives the zero value of the element type.\<close>

definition mget_or :: "'v \<Rightarrow> ('k, 'v) gomap \<Rightarrow> 'k \<Rightarrow> 'v" where
  "mget_or z m k = (case mget m k of None \<Rightarrow> z | Some v \<Rightarrow> v)"

definition wf_map :: "('k, 'v) gomap \<Rightarrow> bool" where
  "wf_map m \<longleftrightarrow> distinct (mkeys m)"

lemma mget_mput [simp]: "mget (mput k v m) = (mget m)(k \<mapsto> v)"
  by (rule update_conv')

lemma mget_mdel [simp]: "mget (mdel k m) = (mget m)(k := None)"
  by (rule delete_conv')

lemma wf_map_Nil [simp]: "wf_map []"
  by (simp add: wf_map_def mkeys_def)

lemma wf_map_mput [simp, intro]: "wf_map m \<Longrightarrow> wf_map (mput k v m)"
  by (simp add: wf_map_def mkeys_def distinct_update)

lemma wf_map_mdel [simp, intro]: "wf_map m \<Longrightarrow> wf_map (mdel k m)"
  by (simp add: wf_map_def mkeys_def distinct_delete)

lemma mget_or_simps [simp]:
  "mget m k = Some v \<Longrightarrow> mget_or z m k = v"
  "mget m k = None \<Longrightarrow> mget_or z m k = z"
  by (simp_all add: mget_or_def)

lemma mget_or_mput [simp]:
  "mget_or z (mput k v m) k' = (if k' = k then v else mget_or z m k')"
  by (simp add: mget_or_def)

lemma set_mkeys: "set (mkeys m) = dom (mget m)"
  by (simp add: mkeys_def dom_map_of_conv_image_fst)

lemma set_mvalues: "wf_map m \<Longrightarrow> set (mvalues m) = ran (mget m)"
  by (simp add: wf_map_def mkeys_def mvalues_def ran_distinct image_set [symmetric])

lemma in_mvalues_iff: "wf_map m \<Longrightarrow> v \<in> set (mvalues m) \<longleftrightarrow> (\<exists>k. mget m k = Some v)"
  by (simp add: set_mvalues ran_def)

lemma in_map_iff: "wf_map m \<Longrightarrow> (k, v) \<in> set m \<longleftrightarrow> mget m k = Some v"
  by (simp add: wf_map_def mkeys_def)

lemma unat_lt_64: "unat (x :: u64) < 2 ^ 64"
  using unsigned_less[of x] by simp

lemma unat_of_nat_length:
  "n < 2 ^ LENGTH('a) \<Longrightarrow> unat (of_nat n :: 'a::len word) = n"
  by (simp add: unsigned_of_nat take_bit_nat_eq_self)

subsection \<open>Strings: trimming and number formats\<close>

text \<open>
  strings.TrimSpace removes leading and trailing Unicode white space. A Go string is its UTF-8
  bytes, so the white space characters are these byte sequences.
\<close>

definition space_seqs :: "string list" where
  "space_seqs = map (map char_of)
     ([[9], [10], [11], [12], [13], [32], [194, 133], [194, 160], [225, 154, 128],
       [226, 128, 128], [226, 128, 129], [226, 128, 130], [226, 128, 131], [226, 128, 132],
       [226, 128, 133], [226, 128, 134], [226, 128, 135], [226, 128, 136], [226, 128, 137],
       [226, 128, 138], [226, 128, 168], [226, 128, 169], [226, 128, 175], [226, 129, 159],
       [227, 128, 128]] :: nat list list)"

lemma space_seqs_nonempty: "p \<in> set space_seqs \<Longrightarrow> p \<noteq> []"
  by (auto simp: space_seqs_def)

fun trim_prefix :: "string list \<Rightarrow> nat \<Rightarrow> string \<Rightarrow> string" where
  "trim_prefix ps 0 s = s"
| "trim_prefix ps (Suc n) s =
     (case find (\<lambda>p. prefix p s) ps of
        None \<Rightarrow> s
      | Some p \<Rightarrow> trim_prefix ps n (drop (length p) s))"

definition TrimSpace :: "string \<Rightarrow> string" where
  "TrimSpace s =
     (let l = trim_prefix space_seqs (length s) s
      in rev (trim_prefix (map rev space_seqs) (length l) (rev l)))"

lemma trim_prefix_stops:
  assumes "\<forall>p \<in> set ps. p \<noteq> []" and "length s \<le> n" and "p \<in> set ps"
  shows "\<not> prefix p (trim_prefix ps n s)"
  using assms(2)
proof (induction n arbitrary: s)
  case 0
  then show ?case using assms by (auto simp: prefix_def)
next
  case (Suc n)
  show ?case
  proof (cases "find (\<lambda>p. prefix p s) ps")
    case None
    then have "\<not> prefix p s" using assms(3) by (auto simp: find_None_iff)
    with None show ?thesis by simp
  next
    case (Some q)
    then have "q \<in> set ps" and "prefix q s"
      by (auto simp: find_Some_iff)
    then have "0 < length q" using assms(1) by blast
    then have "length (drop (length q) s) \<le> n"
      unfolding length_drop using Suc.prems by linarith
    then show ?thesis using Some Suc.IH by simp
  qed
qed

lemma trim_prefix_id:
  "(\<And>p. p \<in> set ps \<Longrightarrow> \<not> prefix p s) \<Longrightarrow> trim_prefix ps n s = s"
  by (cases n) (auto split: option.splits simp: find_Some_iff)

lemma trim_prefix_suffix: "suffix (trim_prefix ps n s) s"
proof (induction n arbitrary: s)
  case 0
  then show ?case by simp
next
  case (Suc n)
  then show ?case
    by (auto split: option.splits intro: suffix_order.trans suffix_drop)
qed

lemma TrimSpace_idem [simp]: "TrimSpace (TrimSpace s) = TrimSpace s"
proof -
  define l where "l = trim_prefix space_seqs (length s) s"
  define r where "r = trim_prefix (map rev space_seqs) (length l) (rev l)"
  have t: "TrimSpace s = rev r"
    by (simp add: TrimSpace_def Let_def l_def r_def)
  have l_stop: "\<not> prefix p l" if "p \<in> set space_seqs" for p
    unfolding l_def by (rule trim_prefix_stops) (use that space_seqs_nonempty in auto)
  have r_stop: "\<not> prefix p r" if "p \<in> set (map rev space_seqs)" for p
    unfolding r_def by (rule trim_prefix_stops) (use that space_seqs_nonempty in auto)
  have "suffix r (rev l)"
    unfolding r_def by (rule trim_prefix_suffix)
  then have "prefix (rev r) l"
    by (simp add: suffix_to_prefix)
  then have "\<not> prefix p (rev r)" if "p \<in> set space_seqs" for p
    using l_stop[OF that] prefix_order.trans by blast
  then have "trim_prefix space_seqs (length (rev r)) (rev r) = rev r"
    by (rule trim_prefix_id)
  moreover have "trim_prefix (map rev space_seqs) (length (rev r)) r = r"
    by (rule trim_prefix_id) (rule r_stop)
  ultimately have "TrimSpace (rev r) = rev r"
    by (simp add: TrimSpace_def Let_def)
  with t show ?thesis by simp
qed

lemma TrimSpace_Nil [simp]: "TrimSpace [] = []"
  by (simp add: TrimSpace_def)

definition graphic :: "char \<Rightarrow> bool" where
  "graphic c \<longleftrightarrow> 32 < (of_char c :: nat) \<and> (of_char c :: nat) < 128"

lemma space_seqs_ends:
  "p \<in> set space_seqs \<Longrightarrow> \<not> graphic (hd p) \<and> \<not> graphic (last p)"
  by (auto simp: space_seqs_def graphic_def of_char_of take_bit_eq_mod)

lemma TrimSpace_graphic:
  assumes "\<forall>c \<in> set s. graphic c"
  shows "TrimSpace s = s"
proof -
  have "\<not> prefix p s" if "p \<in> set space_seqs" for p
    using that assms space_seqs_ends[OF that] space_seqs_nonempty[OF that]
    by (metis hd_in_set set_mono_prefix subset_iff)
  then have l: "trim_prefix space_seqs n s = s" for n
    by (rule trim_prefix_id)
  have "\<not> prefix p (rev s)" if "p \<in> set (map rev space_seqs)" for p
  proof
    assume pre: "prefix p (rev s)"
    from that obtain q where q: "q \<in> set space_seqs" "p = rev q" by auto
    then have "last q \<in> set (rev s)"
      using pre space_seqs_nonempty[OF q(1)] by (metis last_in_set set_mono_prefix set_rev subset_iff)
    then show False
      using assms space_seqs_ends[OF q(1)] by auto
  qed
  then have "trim_prefix (map rev space_seqs) n (rev s) = rev s" for n
    by (rule trim_prefix_id)
  with l show ?thesis by (simp add: TrimSpace_def Let_def)
qed

text \<open>fmt verbs: \<open>%d\<close>, \<open>%0nd\<close> and \<open>%08x\<close>.\<close>

definition digit_char :: "nat \<Rightarrow> char" where
  "digit_char d = char_of (if d < 10 then 48 + d else 87 + d)"

fun dec_digits :: "nat \<Rightarrow> string" where
  "dec_digits n = (if n < 10 then [digit_char n] else dec_digits (n div 10) @ [digit_char (n mod 10)])"

declare dec_digits.simps [simp del]

definition pad_left :: "nat \<Rightarrow> string \<Rightarrow> string" where
  "pad_left w s = replicate (w - length s) (CHR ''0'') @ s"

definition format_d :: "nat \<Rightarrow> nat \<Rightarrow> string" where
  "format_d w n = pad_left w (dec_digits n)"

definition hex_digits :: "nat \<Rightarrow> u32 \<Rightarrow> string" where
  "hex_digits k w = map (\<lambda>i. digit_char (unat (drop_bit (4 * i) w AND 15))) (rev [0..<k])"

definition dec_value :: "string \<Rightarrow> nat" where
  "dec_value s = foldl (\<lambda>a c. 10 * a + (of_char c - 48)) 0 s"

lemma dec_value_append_digit:
  "d < 10 \<Longrightarrow> dec_value (s @ [digit_char d]) = 10 * dec_value s + d"
  by (simp add: dec_value_def digit_char_def of_char_of take_bit_eq_mod)

lemma dec_value_dec_digits [simp]: "dec_value (dec_digits n) = n"
proof (induction n rule: dec_digits.induct)
  case (1 n)
  show ?case
  proof (cases "n < 10")
    case True
    then show ?thesis
      using dec_value_append_digit[of n "[]"] by (simp add: dec_digits.simps[of n] dec_value_def)
  next
    case False
    with 1 show ?thesis
      by (simp add: dec_digits.simps[of n] dec_value_append_digit)
  qed
qed

lemma dec_value_pad: "dec_value (replicate k (CHR ''0'') @ s) = dec_value s"
  by (induction k) (simp_all add: dec_value_def)

lemma dec_value_format_d [simp]: "dec_value (format_d w n) = n"
  by (simp add: format_d_def pad_left_def dec_value_pad)

lemma format_d_inject [simp]: "format_d w m = format_d w n \<longleftrightarrow> m = n"
  by (metis dec_value_format_d)

lemma dec_digits_inject [simp]: "dec_digits m = dec_digits n \<longleftrightarrow> m = n"
  by (metis dec_value_dec_digits)

lemma dec_digits_chars: "c \<in> set (dec_digits n) \<Longrightarrow> \<exists>d < 10. c = digit_char d"
proof (induction n rule: dec_digits.induct)
  case (1 n)
  have last: "\<exists>d < 10. digit_char (n mod 10) = digit_char d"
    by (rule exI[of _ "n mod 10"]) simp
  from 1 show ?case
    by (cases "n < 10") (use last in \<open>auto simp: dec_digits.simps[of n]\<close>)
qed

lemma dec_digits_nonempty [simp]: "dec_digits n \<noteq> []"
  by (simp add: dec_digits.simps[of n])

end
