(* ===== verification/Hashes.thy ===== *)
theory Hashes
  imports Prelude
begin

unbundle bit_operations_syntax

section \<open>Checksums and message authentication of the Go standard library\<close>

text \<open>
  The wire codecs call hash/crc32 with the Castagnoli table and crypto/hmac over crypto/sha256.
  Both are library code of the language, so they are modelled here as functions that compute:
  \<open>crc32c\<close> is crc32.Checksum with the reflected polynomial 0x82F63B78, \<open>sha256\<close> is FIPS 180-4 and
  \<open>hmac_sha256\<close> is RFC 2104 with the 64 byte block of SHA-256.
\<close>

subsection \<open>CRC32C\<close>

definition crc_shift :: "u32 \<Rightarrow> u32" where
  "crc_shift c = (if bit c 0 then drop_bit 1 c XOR 0x82F63B78 else drop_bit 1 c)"

definition crc_byte :: "u8 \<Rightarrow> u32 \<Rightarrow> u32" where
  "crc_byte b c = (crc_shift ^^ 8) (c XOR ucast b)"

definition crc32c :: "bytes \<Rightarrow> u32" where
  "crc32c bs = NOT (fold crc_byte bs (NOT 0))"

lemma crc32c_empty [simp]: "crc32c [] = 0"
  by (simp add: crc32c_def)

lemma crc32c_append: "crc32c (xs @ ys) = NOT (fold crc_byte ys (NOT (crc32c xs)))"
  by (simp add: crc32c_def)

text \<open>
  The checksum tells apart two messages that differ in one aligned 32-bit field: a step of the register is
  invertible, and four bytes enter it like a word.
\<close>

lemma crc_shift_inj: "inj crc_shift"
proof (rule injI)
  fix c d assume eq: "crc_shift c = crc_shift d"
  have top: "bit (crc_shift x) 31 = bit x 0" for x
    using bit_imp_le_length[of x 32] by (auto simp: crc_shift_def bit_simps)
  then have low: "bit c 0 = bit d 0"
    using eq by metis
  then have "drop_bit 1 c = drop_bit 1 d"
    using eq by (auto simp: crc_shift_def bit_eq_iff bit_simps split: if_splits)
  then have "bit c (Suc n) = bit d (Suc n)" for n
    by (metis bit_drop_bit_eq comp_apply plus_1_eq_Suc)
  with low show "c = d"
    by (metis bit_eqI not0_implies_Suc)
qed

lemma crc_shift_high: "\<not> bit d 0 \<Longrightarrow> crc_shift (c XOR d) = crc_shift c XOR drop_bit 1 d"
  by (simp add: crc_shift_def bit_eq_iff bit_simps) auto

lemma crc_shifts_high:
  "(\<forall>i < n. \<not> bit d i) \<Longrightarrow> (crc_shift ^^ n) (c XOR d) = (crc_shift ^^ n) c XOR drop_bit n d"
proof (induction n arbitrary: c d)
  case (Suc n)
  have "(crc_shift ^^ Suc n) (c XOR d) = (crc_shift ^^ n) (crc_shift c XOR drop_bit 1 d)"
    using Suc.prems by (simp add: funpow_Suc_right crc_shift_high del: funpow.simps)
  also have "\<dots> = (crc_shift ^^ n) (crc_shift c) XOR drop_bit n (drop_bit 1 d)"
    using Suc.prems by (intro Suc.IH) (simp add: bit_simps)
  finally show ?case
    by (simp add: funpow_Suc_right del: funpow.simps)
qed simp

lemma le_bytes_Suc: "le_bytes (Suc n) w = ucast w # le_bytes n (drop_bit 8 w)"
proof -
  have "[0..<Suc n] = 0 # map Suc [0..<n]"
    by (simp add: upt_conv_Cons map_Suc_upt del: upt_Suc)
  then show ?thesis
    by (simp add: le_bytes_def add.commute)
qed

lemma crc_bytes_word:
  "(\<forall>i \<ge> 8 * n. \<not> bit x i) \<Longrightarrow> fold crc_byte (le_bytes n (x :: u32)) c = (crc_shift ^^ (8 * n)) (c XOR x)"
proof (induction n arbitrary: x c)
  case 0
  then have "x = 0"
    by (simp add: bit_eq_iff)
  then show ?case
    by (simp add: le_bytes_def)
next
  case (Suc n)
  let ?low = "ucast (ucast x :: u8) :: u32"
  have low: "bit ?low i \<longleftrightarrow> i < 8 \<and> bit x i" for i
    by (auto simp: bit_simps dest: bit_imp_le_length)
  have "fold crc_byte (le_bytes (Suc n) x) c = (crc_shift ^^ (8 * n)) (crc_byte (ucast x) c XOR drop_bit 8 x)"
    using Suc.prems by (simp add: le_bytes_Suc Suc.IH bit_simps)
  also have "crc_byte (ucast x) c XOR drop_bit 8 x = (crc_shift ^^ 8) (c XOR ?low) XOR drop_bit 8 (x XOR ?low)"
    unfolding crc_byte_def by (rule arg_cong2[of _ _ _ _ "(XOR)"]) (simp_all add: bit_eq_iff low bit_simps)
  also have "\<dots> = (crc_shift ^^ 8) ((c XOR ?low) XOR (x XOR ?low))"
    by (rule crc_shifts_high[symmetric]) (simp add: low bit_simps)
  also have "(c XOR ?low) XOR (x XOR ?low) = c XOR x"
    by (auto simp: bit_eq_iff bit_simps)
  finally show ?case
    by (simp add: funpow_add add.commute[of 8])
qed

lemma xor_self_cancel: "c XOR x = d XOR x \<Longrightarrow> c = (d :: u32)"
  by (auto simp: bit_eq_iff bit_simps)

lemma crc_byte_inj: "crc_byte b c = crc_byte b d \<Longrightarrow> c = d"
  unfolding crc_byte_def using inj_fn[OF crc_shift_inj, of 8] by (metis injD xor_self_cancel)

lemma crc_fold_inj: "fold crc_byte bs c = fold crc_byte bs d \<Longrightarrow> c = d"
  by (induction bs arbitrary: c d) (auto dest: crc_byte_inj)

lemma crc32c_detects_field:
  assumes "crc32c (xs @ put_u32 a @ ys) = crc32c (xs @ put_u32 b @ ys)"
  shows "a = b"
proof -
  let ?c = "fold crc_byte xs (NOT 0)"
  have "fold crc_byte ys (fold crc_byte (put_u32 a) ?c) = fold crc_byte ys (fold crc_byte (put_u32 b) ?c)"
    using assms by (simp add: crc32c_def)
  then have "fold crc_byte (put_u32 a) ?c = fold crc_byte (put_u32 b) ?c"
    by (rule crc_fold_inj)
  moreover have "fold crc_byte (put_u32 x) ?c = (crc_shift ^^ 32) (?c XOR x)" for x
    using crc_bytes_word[of 4 x ?c] bit_imp_le_length[of x] by force
  ultimately show ?thesis
    using inj_fn[OF crc_shift_inj, of 32] by (metis injD xor.commute xor_self_cancel)
qed

subsection \<open>SHA-256 and HMAC\<close>

definition rotr :: "nat \<Rightarrow> u32 \<Rightarrow> u32" where
  "rotr n w = drop_bit n w OR push_bit (32 - n) w"

text \<open>
  The constants of SHA-256 are, by their definition in the standard, the first 32 bits of the
  fractional parts of the cube roots of the first 64 primes and of the square roots of the first
  eight. \<open>root_bits k n b 0\<close> is the integer \<open>k\<close>-th root of \<open>n\<close>, found bit by bit from bit \<open>b\<close> down.
\<close>

fun root_bits :: "nat \<Rightarrow> int \<Rightarrow> nat \<Rightarrow> int \<Rightarrow> int" where
  "root_bits k n 0 r = (if (r + 1) ^ k \<le> n then r + 1 else r)"
| "root_bits k n (Suc b) r =
     root_bits k n b (if (r + 2 ^ Suc b) ^ k \<le> n then r + 2 ^ Suc b else r)"

definition sha_primes :: "nat list" where
  "sha_primes = filter (\<lambda>p. \<forall>d \<in> set [2..<p]. p mod d \<noteq> 0) [2..<312]"

definition sha_K :: "u32 list" where
  "sha_K = map (\<lambda>p. of_int (root_bits 3 (int p * 2 ^ 96) 40 0)) sha_primes"

definition sha_H0 :: "u32 list" where
  "sha_H0 = map (\<lambda>p. of_int (root_bits 2 (p * 2 ^ 64) 40 0)) [2, 3, 5, 7, 11, 13, 17, 19]"

definition be_bytes :: "nat \<Rightarrow> 'a::len word \<Rightarrow> bytes" where
  "be_bytes n w = rev (le_bytes n w)"

definition be_word :: "bytes \<Rightarrow> u32" where
  "be_word bs = le_word (rev bs)"

definition sha_pad :: "bytes \<Rightarrow> bytes" where
  "sha_pad bs =
     bs @ [0x80] @ replicate ((55 + 64 - length bs mod 64) mod 64) 0
        @ be_bytes 8 (of_nat (8 * length bs) :: u64)"

fun chunks :: "nat \<Rightarrow> nat \<Rightarrow> 'a list \<Rightarrow> 'a list list" where
  "chunks 0 k xs = []"
| "chunks (Suc n) k xs = take k xs # chunks n k (drop k xs)"

definition sched_word :: "u32 list \<Rightarrow> u32" where
  "sched_word w =
     (let n = length w; x15 = w ! (n - 15); x2 = w ! (n - 2);
          s0 = rotr 7 x15 XOR rotr 18 x15 XOR drop_bit 3 x15;
          s1 = rotr 17 x2 XOR rotr 19 x2 XOR drop_bit 10 x2
      in w ! (n - 16) + s0 + w ! (n - 7) + s1)"

definition schedule :: "bytes \<Rightarrow> u32 list" where
  "schedule blk = ((\<lambda>w. w @ [sched_word w]) ^^ 48) (map be_word (chunks 16 4 blk))"

type_synonym sha_state = "u32 list"

definition sha_round :: "u32 \<times> u32 \<Rightarrow> sha_state \<Rightarrow> sha_state" where
  "sha_round kw st =
     (case st of
        [a, b, c, d, e, f, g, h] \<Rightarrow>
          let s1 = rotr 6 e XOR rotr 11 e XOR rotr 25 e;
              ch = (e AND f) XOR (NOT e AND g);
              t1 = h + s1 + ch + fst kw + snd kw;
              s0 = rotr 2 a XOR rotr 13 a XOR rotr 22 a;
              maj = (a AND b) XOR (a AND c) XOR (b AND c);
              t2 = s0 + maj
          in [t1 + t2, a, b, c, d + t1, e, f, g]
      | _ \<Rightarrow> st)"

definition sha_block :: "bytes \<Rightarrow> sha_state \<Rightarrow> sha_state" where
  "sha_block blk st = map2 (+) st (fold sha_round (zip sha_K (schedule blk)) st)"

definition sha256 :: "bytes \<Rightarrow> bytes" where
  "sha256 bs =
     (let p = sha_pad bs
      in concat (map (be_bytes 4)
           (fold sha_block (chunks (length p div 64) 64 p)
              sha_H0)))"

definition hmac_sha256 :: "bytes \<Rightarrow> bytes \<Rightarrow> bytes" where
  "hmac_sha256 key msg =
     (let k0 = (if length key > 64 then sha256 key else key);
          k = k0 @ replicate (64 - length k0) 0
      in sha256 (map (\<lambda>b. b XOR 0x5c) k @ sha256 (map (\<lambda>b. b XOR 0x36) k @ msg)))"

lemma length_be_bytes [simp]: "length (be_bytes n w) = n"
  by (simp add: be_bytes_def)

lemma length_sha_H0 [simp]: "length sha_H0 = 8"
  by (simp add: sha_H0_def)

lemma length_sha_round: "length st = 8 \<Longrightarrow> length (sha_round kw st) = 8"
  by (auto simp: sha_round_def Let_def split: list.splits)

lemma length_fold_sha_round: "length st = 8 \<Longrightarrow> length (fold sha_round kws st) = 8"
  by (induction kws arbitrary: st) (simp_all add: length_sha_round)

lemma length_sha_block: "length st = 8 \<Longrightarrow> length (sha_block blk st) = 8"
  by (simp add: sha_block_def length_fold_sha_round)

lemma length_fold_sha_block: "length st = 8 \<Longrightarrow> length (fold sha_block blks st) = 8"
  by (induction blks arbitrary: st) (simp_all add: length_sha_block)

lemma length_concat_be4: "length (concat (map (be_bytes 4) (ws :: u32 list))) = 4 * length ws"
  by (induction ws) simp_all

lemma length_sha256 [simp]: "length (sha256 bs) = 32"
  by (simp add: sha256_def Let_def length_concat_be4 length_fold_sha_block)

lemma length_hmac_sha256 [simp]: "length (hmac_sha256 key msg) = 32"
  by (simp add: hmac_sha256_def Let_def)

end
