(* ===== verification/WireV1.thy ===== *)
theory WireV1
  imports Hashes
begin

unbundle bit_operations_syntax

section \<open>Wire protocol version 1 (protocol/wirev1)\<close>

text \<open>
  The frame codec of the host-gateway dataplane: the 56 byte request header, the 76 byte response
  header and the fixed payload bodies. The stream decoder and the connections are in \<open>WireStream\<close>.
  A message is a byte list. The Go encoders write each field into a window of a zeroed buffer;
  here the message is the concatenation of the encoded fields in the same order.
\<close>

subsection \<open>Constants and structures (types.go)\<close>

definition Magic :: u32 where "Magic = 0x4E4D4252"
definition VersionV1 :: u16 where "VersionV1 = 1"
definition HeaderSize :: u16 where "HeaderSize = 56"
definition ResponseHdrLen :: u16 where "ResponseHdrLen = 76"

definition OpRead :: u32 where "OpRead = 0x0001"
definition OpWrite :: u32 where "OpWrite = 0x0002"
definition OpFlush :: u32 where "OpFlush = 0x0003"
definition OpDiscard :: u32 where "OpDiscard = 0x0004"
definition OpWriteZeroes :: u32 where "OpWriteZeroes = 0x0005"
definition OpHeartbeat :: u32 where "OpHeartbeat = 0x0006"
definition OpPathProbe :: u32 where "OpPathProbe = 0x0007"
definition OpGetVolumeInfo :: u32 where "OpGetVolumeInfo = 0x0008"
definition OpReadResp :: u32 where "OpReadResp = 0x8001"
definition OpWriteResp :: u32 where "OpWriteResp = 0x8002"
definition OpFlushResp :: u32 where "OpFlushResp = 0x8003"
definition OpDiscardResp :: u32 where "OpDiscardResp = 0x8004"
definition OpWriteZeroesResp :: u32 where "OpWriteZeroesResp = 0x8005"

lemmas op_defs = OpRead_def OpWrite_def OpFlush_def OpDiscard_def OpWriteZeroes_def
  OpHeartbeat_def OpPathProbe_def OpGetVolumeInfo_def OpReadResp_def OpWriteResp_def
  OpFlushResp_def OpDiscardResp_def OpWriteZeroesResp_def

definition FlagChecksum :: u32 where "FlagChecksum = push_bit 2 1"

definition StatusOK :: i32 where "StatusOK = 0"
definition ErrBadMagic :: i32 where "ErrBadMagic = 1"
definition ErrUnsupportedVersion :: i32 where "ErrUnsupportedVersion = 2"
definition ErrUnauthorized :: i32 where "ErrUnauthorized = 3"
definition ErrNoSuchVolume :: i32 where "ErrNoSuchVolume = 4"
definition ErrGenerationMismatch :: i32 where "ErrGenerationMismatch = 5"
definition ErrInvalidRange :: i32 where "ErrInvalidRange = 6"
definition ErrPathDraining :: i32 where "ErrPathDraining = 7"
definition ErrNoHealthyReplica :: i32 where "ErrNoHealthyReplica = 8"
definition ErrQuorumFailed :: i32 where "ErrQuorumFailed = 9"
definition ErrTimeout :: i32 where "ErrTimeout = 10"
definition ErrRetryable :: i32 where "ErrRetryable = 11"
definition ErrBusy :: i32 where "ErrBusy = 12"
definition ErrChecksum :: i32 where "ErrChecksum = 13"
definition ErrInternal :: i32 where "ErrInternal = 14"

lemmas status_defs = StatusOK_def ErrBadMagic_def ErrUnsupportedVersion_def ErrUnauthorized_def
  ErrNoSuchVolume_def ErrGenerationMismatch_def ErrInvalidRange_def ErrPathDraining_def
  ErrNoHealthyReplica_def ErrQuorumFailed_def ErrTimeout_def ErrRetryable_def ErrBusy_def
  ErrChecksum_def ErrInternal_def

record Header =
  hMagic :: u32
  hVersion :: u16
  hHeaderLen :: u16
  hOp :: u32
  hFlags :: u32
  hRequestID :: u64
  hVolumeID :: u64
  hGeneration :: u64
  hOffsetBytes :: u64
  hLengthBytes :: u32
  hCRC32C :: u32

record ResponseHeader =
  rBase :: Header
  rStatusCode :: i32
  rBackendLatencyUS :: u32
  rGatewayLatencyUS :: u32
  rPathID :: u32
  rReserved :: u32

record WriteTag =
  wtHostID :: u64
  wtBootIDHash :: u64
  wtSequenceNo :: u64

text \<open>
  The error values of codec.go, body.go, stream_decoder.go and conn.go. The formatted errors of
  body.go carry the offending length; \<open>ErrReader\<close> is an error the underlying reader returned.
\<close>

datatype wire_error =
    ErrShortMessage
  | ErrBadHeaderLen
  | ErrBadMagicValue
  | ErrBadVersionValue
  | ErrLengthMismatch
  | ErrHeaderCRC32C
  | ErrPayloadCRC32C
  | ErrResponseHeaderLen
  | ErrFrameTooLarge
  | ErrPayloadLength nat
  | ErrMessageTooLong nat
  | ErrEOF
  | ErrReader
  | ErrNoHandler u32
  | ErrHandler string

subsection \<open>The message codec (codec.go)\<close>

definition NewRequestHeader :: "u32 \<Rightarrow> u64 \<Rightarrow> u64 \<Rightarrow> u64 \<Rightarrow> u64 \<Rightarrow> u32 \<Rightarrow> Header" where
  "NewRequestHeader op requestID volumeID generation offset flags =
     \<lparr>hMagic = Magic, hVersion = VersionV1, hHeaderLen = HeaderSize, hOp = op, hFlags = flags,
      hRequestID = requestID, hVolumeID = volumeID, hGeneration = generation,
      hOffsetBytes = offset, hLengthBytes = 0, hCRC32C = 0\<rparr>"

definition putHeaderWithoutCRC :: "Header \<Rightarrow> bytes" where
  "putHeaderWithoutCRC h =
     put_u32 (hMagic h) @ put_u16 (hVersion h) @ put_u16 (hHeaderLen h) @ put_u32 (hOp h) @
     put_u32 (hFlags h) @ put_u64 (hRequestID h) @ put_u64 (hVolumeID h) @
     put_u64 (hGeneration h) @ put_u64 (hOffsetBytes h) @ put_u32 (hLengthBytes h) @ put_u32 0"

definition parseHeader :: "bytes \<Rightarrow> Header" where
  "parseHeader src =
     \<lparr>hMagic = get_u32 (slice 0 4 src),
      hVersion = get_u16 (slice 4 6 src),
      hHeaderLen = get_u16 (slice 6 8 src),
      hOp = get_u32 (slice 8 12 src),
      hFlags = get_u32 (slice 12 16 src),
      hRequestID = get_u64 (slice 16 24 src),
      hVolumeID = get_u64 (slice 24 32 src),
      hGeneration = get_u64 (slice 32 40 src),
      hOffsetBytes = get_u64 (slice 40 48 src),
      hLengthBytes = get_u32 (slice 48 52 src),
      hCRC32C = get_u32 (slice 52 56 src)\<rparr>"

definition opUsesLengthAsRangeWithoutRequestPayload :: "u32 \<Rightarrow> bool" where
  "opUsesLengthAsRangeWithoutRequestPayload op \<longleftrightarrow> op \<in> {OpRead, OpDiscard, OpWriteZeroes}"

text \<open>
  The checks recompute a header checksum over a copy of the header whose checksum field is zeroed,
  of which they take the bytes before that field.
\<close>

definition header_crc :: "bytes \<Rightarrow> u32" where
  "header_crc src =
     (let tmp = take (unat HeaderSize - 4) src @ replicate 4 0
      in crc32c (take (unat HeaderSize - 4) tmp))"

definition EncodeMessage :: "Header \<Rightarrow> bytes \<Rightarrow> bytes" where
  "EncodeMessage h0 payload =
     (let h = h0\<lparr>hMagic := Magic, hVersion := VersionV1, hHeaderLen := HeaderSize,
                 hLengthBytes := of_nat (length payload)\<rparr>;
          msg = putHeaderWithoutCRC h;
          crc = (if hFlags h AND FlagChecksum \<noteq> 0 then crc32c payload
                 else crc32c (take (unat HeaderSize - 4) msg))
      in take (unat HeaderSize - 4) msg @ put_u32 crc @ payload)"

definition DecodeMessage :: "bytes \<Rightarrow> wire_error + (Header \<times> bytes)" where
  "DecodeMessage msg =
     (if length msg < unat HeaderSize then Inl ErrShortMessage
      else let h = parseHeader (take (unat HeaderSize) msg) in
        if hMagic h \<noteq> Magic then Inl ErrBadMagicValue
        else if hVersion h \<noteq> VersionV1 then Inl ErrBadVersionValue
        else if hHeaderLen h \<noteq> HeaderSize then Inl ErrBadHeaderLen
        else if opUsesLengthAsRangeWithoutRequestPayload (hOp h) \<and> length msg = unat HeaderSize then
          (if hCRC32C h \<noteq> header_crc msg then Inl ErrHeaderCRC32C else Inr (h, []))
        else if length msg \<noteq> unat HeaderSize + unat (hLengthBytes h) then Inl ErrLengthMismatch
        else let payload = drop (unat HeaderSize) msg in
          if hFlags h AND FlagChecksum \<noteq> 0 then
            (if hCRC32C h \<noteq> crc32c payload then Inl ErrPayloadCRC32C else Inr (h, payload))
          else
            (if hCRC32C h \<noteq> header_crc msg then Inl ErrHeaderCRC32C else Inr (h, payload)))"

definition put_response_tail :: "ResponseHeader \<Rightarrow> bytes" where
  "put_response_tail r =
     put_u32 (rStatusCode r) @ put_u32 (rBackendLatencyUS r) @ put_u32 (rGatewayLatencyUS r) @
     put_u32 (rPathID r) @ put_u32 (rReserved r)"

definition EncodeResponseHeader :: "ResponseHeader \<Rightarrow> bytes" where
  "EncodeResponseHeader r =
     (let base = (rBase r)\<lparr>hMagic := Magic, hVersion := VersionV1, hHeaderLen := ResponseHdrLen,
                           hLengthBytes := 0\<rparr>;
          buf = putHeaderWithoutCRC base;
          crc = crc32c (take (unat HeaderSize - 4) buf)
      in take (unat HeaderSize - 4) buf @ put_u32 crc @ put_response_tail r)"

definition EncodeResponseMessage :: "ResponseHeader \<Rightarrow> bytes \<Rightarrow> bytes" where
  "EncodeResponseMessage r payload =
     (let base = (rBase r)\<lparr>hMagic := Magic, hVersion := VersionV1, hHeaderLen := ResponseHdrLen,
                           hLengthBytes := of_nat (length payload)\<rparr>;
          buf = putHeaderWithoutCRC base;
          crc = (if hFlags base AND FlagChecksum \<noteq> 0 then crc32c payload else header_crc buf)
      in take (unat HeaderSize - 4) buf @ put_u32 crc @ put_response_tail r @ payload)"

definition parse_response :: "bytes \<Rightarrow> ResponseHeader" where
  "parse_response buf =
     \<lparr>rBase = parseHeader (take (unat HeaderSize) buf),
      rStatusCode = get_u32 (slice 56 60 buf),
      rBackendLatencyUS = get_u32 (slice 60 64 buf),
      rGatewayLatencyUS = get_u32 (slice 64 68 buf),
      rPathID = get_u32 (slice 68 72 buf),
      rReserved = get_u32 (slice 72 76 buf)\<rparr>"

definition DecodeResponseHeader :: "bytes \<Rightarrow> wire_error + ResponseHeader" where
  "DecodeResponseHeader buf =
     (if length buf < unat ResponseHdrLen then Inl ErrShortMessage
      else let base = parseHeader (take (unat HeaderSize) buf) in
        if hMagic base \<noteq> Magic then Inl ErrBadMagicValue
        else if hVersion base \<noteq> VersionV1 then Inl ErrBadVersionValue
        else if hHeaderLen base \<noteq> ResponseHdrLen then Inl ErrResponseHeaderLen
        else if hCRC32C base \<noteq> header_crc buf then Inl ErrHeaderCRC32C
        else Inr (parse_response buf))"

definition DecodeResponseMessage :: "bytes \<Rightarrow> wire_error + (ResponseHeader \<times> bytes)" where
  "DecodeResponseMessage buf =
     (if length buf < unat ResponseHdrLen then Inl ErrShortMessage
      else let base = parseHeader (take (unat HeaderSize) buf) in
        if hMagic base \<noteq> Magic then Inl ErrBadMagicValue
        else if hVersion base \<noteq> VersionV1 then Inl ErrBadVersionValue
        else if hHeaderLen base \<noteq> ResponseHdrLen then Inl ErrResponseHeaderLen
        else let r = parse_response buf in
          if length buf \<noteq> unat ResponseHdrLen + unat (hLengthBytes base) then Inl ErrLengthMismatch
          else let payload = drop (unat ResponseHdrLen) buf in
            if hFlags base AND FlagChecksum \<noteq> 0 then
              (if hCRC32C base \<noteq> crc32c payload then Inl ErrPayloadCRC32C else Inr (r, payload))
            else
              (if hCRC32C base \<noteq> header_crc buf then Inl ErrHeaderCRC32C else Inr (r, payload)))"

subsection \<open>Layout of a header\<close>

definition header_body :: "Header \<Rightarrow> bytes" where
  "header_body h =
     put_u32 (hMagic h) @ put_u16 (hVersion h) @ put_u16 (hHeaderLen h) @ put_u32 (hOp h) @
     put_u32 (hFlags h) @ put_u64 (hRequestID h) @ put_u64 (hVolumeID h) @
     put_u64 (hGeneration h) @ put_u64 (hOffsetBytes h) @ put_u32 (hLengthBytes h)"

lemma unat_sizes [simp, wire_simps]:
  "unat HeaderSize = 56" "unat ResponseHdrLen = 76"
  by (simp_all add: HeaderSize_def ResponseHdrLen_def)

lemma length_header_body [simp, wire_simps]: "length (header_body h) = 52"
  by (simp add: header_body_def)

lemma putHeader_body [wire_simps]: "putHeaderWithoutCRC h = header_body h @ put_u32 0"
  by (simp add: putHeaderWithoutCRC_def header_body_def)

lemma header_crc_eq [wire_simps]: "52 \<le> length src \<Longrightarrow> header_crc src = crc32c (take 52 src)"
  by (simp add: header_crc_def Let_def)

lemma header_body_crc_irrelevant [simp]: "header_body (h\<lparr>hCRC32C := c\<rparr>) = header_body h"
  by (simp add: header_body_def)

lemma parseHeader_body [wire_simps]:
  "parseHeader (header_body h @ put_u32 crc) = h\<lparr>hCRC32C := crc\<rparr>"
  by (simp add: parseHeader_def header_body_def slice_def)

lemma slice_adjacent: "i \<le> j \<Longrightarrow> j \<le> k \<Longrightarrow> slice i j xs @ slice j k xs = slice i k xs"
proof -
  assume "i \<le> j" and "j \<le> k"
  then have "slice j k xs = take (k - j) (drop (j - i) (drop i xs))"
    by (simp add: slice_def)
  moreover have "k - i = (j - i) + (k - j)"
    using \<open>i \<le> j\<close> \<open>j \<le> k\<close> by simp
  ultimately show ?thesis
    by (simp add: slice_def take_add)
qed

lemma header_body_parse:
  assumes "56 \<le> length src"
  shows "header_body (parseHeader src) = slice 0 52 src"
proof -
  have "header_body (parseHeader src) =
      slice 0 4 src @ slice 4 6 src @ slice 6 8 src @ slice 8 12 src @ slice 12 16 src @
      slice 16 24 src @ slice 24 32 src @ slice 32 40 src @ slice 40 48 src @ slice 48 52 src"
    using assms by (simp add: header_body_def parseHeader_def)
  also have "\<dots> = slice 0 52 src"
    by (simp add: slice_adjacent)
  finally show ?thesis .
qed

lemma header_split:
  assumes "56 \<le> length msg"
  shows "msg = header_body (parseHeader (take 56 msg)) @
           put_u32 (hCRC32C (parseHeader (take 56 msg))) @ drop 56 msg"
proof -
  have "header_body (parseHeader (take 56 msg)) = slice 0 52 (take 56 msg)"
    by (rule header_body_parse) (use assms in simp)
  moreover have "put_u32 (hCRC32C (parseHeader (take 56 msg))) = slice 52 56 (take 56 msg)"
    using assms by (simp add: parseHeader_def)
  moreover have "slice 0 52 (take 56 msg) @ slice 52 56 (take 56 msg) = take 56 msg"
    using assms slice_full[of "take 56 msg"] by (simp add: slice_adjacent min_absorb2)
  ultimately show ?thesis
    by (metis append.assoc append_take_drop_id)
qed

text \<open>The header a message carries: the caller's fields with the ones the encoder fixes.\<close>

definition wire_header :: "Header \<Rightarrow> bytes \<Rightarrow> Header" where
  "wire_header h payload =
     (let h' = h\<lparr>hMagic := Magic, hVersion := VersionV1, hHeaderLen := HeaderSize,
                 hLengthBytes := of_nat (length payload)\<rparr>
      in h'\<lparr>hCRC32C := (if hFlags h AND FlagChecksum \<noteq> 0 then crc32c payload
                       else crc32c (header_body h'))\<rparr>)"

lemma wire_header_fields [simp]:
  "hMagic (wire_header h p) = Magic"
  "hVersion (wire_header h p) = VersionV1"
  "hHeaderLen (wire_header h p) = HeaderSize"
  "hOp (wire_header h p) = hOp h"
  "hFlags (wire_header h p) = hFlags h"
  "hRequestID (wire_header h p) = hRequestID h"
  "hVolumeID (wire_header h p) = hVolumeID h"
  "hGeneration (wire_header h p) = hGeneration h"
  "hOffsetBytes (wire_header h p) = hOffsetBytes h"
  "hLengthBytes (wire_header h p) = of_nat (length p)"
  by (simp_all add: wire_header_def Let_def)

lemma wire_header_crc:
  "hCRC32C (wire_header h p) =
     (if hFlags h AND FlagChecksum \<noteq> 0 then crc32c p else crc32c (header_body (wire_header h p)))"
  by (simp add: wire_header_def Let_def)

lemma EncodeMessage_layout:
  "EncodeMessage h p =
     header_body (wire_header h p) @ put_u32 (hCRC32C (wire_header h p)) @ p"
  by (simp add: EncodeMessage_def Let_def putHeader_body wire_header_def)

lemma length_EncodeMessage [simp]: "length (EncodeMessage h p) = 56 + length p"
  by (simp add: EncodeMessage_layout)

lemma parse_EncodeMessage [simp]: "parseHeader (take 56 (EncodeMessage h p)) = wire_header h p"
  by (simp add: EncodeMessage_layout parseHeader_body)

lemma parse_EncodeMessage_empty [simp]: "parseHeader (EncodeMessage h []) = wire_header h []"
  using parse_EncodeMessage[of h "[]"] by (simp del: parse_EncodeMessage)

lemma header_crc_EncodeMessage [simp]:
  "header_crc (EncodeMessage h p) = crc32c (header_body (wire_header h p))"
  by (simp add: header_crc_eq EncodeMessage_layout)

subsection \<open>Round trip and soundness of the request codec\<close>

lemma decode_encode:
  assumes "length p < 2 ^ 32"
    and "\<not> (opUsesLengthAsRangeWithoutRequestPayload (hOp h) \<and> p = [] \<and>
            hFlags h AND FlagChecksum \<noteq> 0)"
  shows "DecodeMessage (EncodeMessage h p) = Inr (wire_header h p, p)"
proof -
  have len: "unat (of_nat (length p) :: u32) = length p"
    by (rule unat_of_nat_length) (use assms(1) in simp)
  have pay: "drop 56 (EncodeMessage h p) = p"
    by (simp add: EncodeMessage_layout)
  show ?thesis
    using assms(2) by (auto simp: DecodeMessage_def Let_def len pay wire_header_crc)
qed

text \<open>
  C15. Decoding an encoded request returns the payload and the header with the fields the encoder
  fixes, for every payload shorter than 4 GiB. The one excluded case is a header-only range
  request (read, discard, write zeroes) that asks for a payload checksum.
\<close>

theorem DecodeMessage_EncodeMessage:
  assumes "length p < 2 ^ 32"
    and "\<not> (opUsesLengthAsRangeWithoutRequestPayload (hOp h) \<and> p = [] \<and>
            hFlags h AND FlagChecksum \<noteq> 0)"
  shows "DecodeMessage (EncodeMessage h p) = Inr (wire_header h p, p)"
  using assms by (rule decode_encode)

theorem DecodeMessage_EncodeMessage_witness:
  "DecodeMessage (EncodeMessage (NewRequestHeader OpWrite 7 10 3 8192 FlagChecksum) [1, 2, 3]) =
     Inr (wire_header (NewRequestHeader OpWrite 7 10 3 8192 FlagChecksum) [1, 2, 3], [1, 2, 3])"
  by (rule DecodeMessage_EncodeMessage) simp_all

text \<open>
  The header checksum tells apart any two request ids with the same upper half: they differ only
  in the four bytes of the lower half.
\<close>

lemma put_u64_halves: "put_u64 x = put_u32 (ucast x) @ put_u32 (ucast (drop_bit 32 x))"
proof -
  have low: "ucast (drop_bit k (ucast x :: u32)) = (ucast (drop_bit k x) :: 8 word)" if "k \<le> 24" for k
    by (rule bit_word_eqI) (use that in \<open>auto simp: bit_ucast_iff bit_drop_bit_eq\<close>)
  have high: "ucast (drop_bit k (ucast (drop_bit 32 x) :: u32)) = (ucast (drop_bit (32 + k) x) :: 8 word)"
    if "k \<le> 24" for k
    by (rule bit_word_eqI) (use that in \<open>auto simp: bit_ucast_iff bit_drop_bit_eq ac_simps\<close>)
  have upt: "[0..<8] = [0, 1, 2, 3, 4, 5, 6, 7::nat]" "[0..<4] = [0, 1, 2, 3::nat]"
    by (simp_all add: upt_rec)
  show ?thesis
    unfolding le_bytes_def upt using low[of 0] high[of 0] by (simp add: low high)
qed

lemma request_id_crc:
  assumes crc: "crc32c (header_body (h\<lparr>hRequestID := a\<rparr>)) = crc32c (header_body (h\<lparr>hRequestID := b\<rparr>))"
    and upper: "drop_bit 32 a = drop_bit 32 b"
  shows "a = b"
proof -
  let ?xs = "put_u32 (hMagic h) @ put_u16 (hVersion h) @ put_u16 (hHeaderLen h) @ put_u32 (hOp h) @
     put_u32 (hFlags h)"
  let ?ys = "\<lambda>x. put_u32 (ucast (drop_bit 32 x)) @ put_u64 (hVolumeID h) @
     put_u64 (hGeneration h) @ put_u64 (hOffsetBytes h) @ put_u32 (hLengthBytes h)"
  have body: "header_body (h\<lparr>hRequestID := x\<rparr>) = ?xs @ put_u32 (ucast x) @ ?ys x" for x
    by (simp add: header_body_def put_u64_halves)
  have "(ucast a :: u32) = ucast b"
    using crc32c_detects_field[of ?xs "ucast a" "?ys a" "ucast b"] crc upper unfolding body by simp
  then have "bit a k = bit b k" if "k < 32" for k
    using that by (auto simp: bit_eq_iff bit_ucast_iff)
  moreover have "bit a (32 + k) = bit b (32 + k)" for k
    using upper by (metis bit_drop_bit_eq comp_apply)
  ultimately show ?thesis
    by (metis bit_eq_iff le_add_diff_inverse linorder_not_less)
qed

lemma range_request_decoded:
  assumes "opUsesLengthAsRangeWithoutRequestPayload (hOp h)" and "hFlags h AND FlagChecksum \<noteq> 0"
  shows "DecodeMessage (EncodeMessage h []) =
    (if crc32c (header_body (wire_header h [])) = 0 then Inr (wire_header h [], [])
     else Inl ErrHeaderCRC32C)"
  using assms by (simp add: DecodeMessage_def Let_def wire_header_crc)

text \<open>
  The checksum register as an integer, for evaluating checksums of concrete headers.
\<close>

fun crc_int_shifts :: "nat \<Rightarrow> int \<Rightarrow> int" where
  "crc_int_shifts 0 c = c"
| "crc_int_shifts (Suc n) c =
     crc_int_shifts n (if odd c then (c div 2) XOR 0x82F63B78 else c div 2)"

fun crc_int :: "int list \<Rightarrow> int \<Rightarrow> int" where
  "crc_int [] c = c"
| "crc_int (b # bs) c = crc_int bs (crc_int_shifts 8 (c XOR b))"

lemma uint_crc_shift:
  "uint (crc_shift c) = (if odd (uint c) then (uint c div 2) XOR 0x82F63B78 else uint c div 2)"
proof -
  have "bit c 0 \<longleftrightarrow> odd (uint c)"
    by (metis bit_0 bit_uint_iff len_gt_0)
  moreover have "uint (drop_bit 1 c) = uint c div 2"
    by (simp add: unsigned_drop_bit_eq drop_bit_eq_div uint_div)
  ultimately show ?thesis
    by (simp add: crc_shift_def unsigned_xor_eq)
qed

lemma uint_crc_shifts: "uint ((crc_shift ^^ n) c) = crc_int_shifts n (uint c)"
  by (induction n arbitrary: c) (simp_all add: funpow_Suc_right uint_crc_shift del: funpow.simps(2))

lemma uint_crc_bytes: "uint (fold crc_byte bs c) = crc_int (map uint bs) (uint c)"
proof -
  have "uint (ucast b :: u32) = uint b" for b :: u8
    by (simp add: unsigned_ucast_eq take_bit_int_eq_self uint_lt2p[THEN less_le_trans])
  then show ?thesis
    by (induction bs arbitrary: c) (simp_all add: crc_byte_def uint_crc_shifts unsigned_xor_eq)
qed

lemma crc32c_zero: "crc32c bs = 0 \<longleftrightarrow> crc_int (map uint bs) 0xFFFFFFFF = 0xFFFFFFFF"
proof -
  have "crc32c bs = 0 \<longleftrightarrow> uint (fold crc_byte bs (NOT 0)) = uint (NOT 0 :: u32)"
    unfolding crc32c_def by (metis bit.double_compl uint_word_of_int_eq word_uint_eq_iff)
  then show ?thesis
    by (simp add: uint_crc_bytes unsigned_minus_1_eq_mask mask_eq_exp_minus_1)
qed

text \<open>
  C17. The excluded case: a header-only range request encoded with the payload checksum flag
  carries the checksum of the empty payload, which is zero, while the decoder compares it with the
  header checksum. The decoder rejects the frame exactly when the header checksum is not zero, and
  it never is zero for two requests that differ only in the lower half of their request id: of the
  \<open>2 ^ 32\<close> requests that share everything else, at most one gets through.
\<close>

theorem checksummed_range_request_rejected:
  assumes "opUsesLengthAsRangeWithoutRequestPayload (hOp h)"
    and "hFlags h AND FlagChecksum \<noteq> 0"
    and "a \<noteq> b" and "drop_bit 32 a = drop_bit 32 b"
  shows "(DecodeMessage (EncodeMessage h []) = Inl ErrHeaderCRC32C
          \<longleftrightarrow> crc32c (header_body (wire_header h [])) \<noteq> 0)
     \<and> (DecodeMessage (EncodeMessage (h\<lparr>hRequestID := a\<rparr>) []) = Inl ErrHeaderCRC32C
        \<or> DecodeMessage (EncodeMessage (h\<lparr>hRequestID := b\<rparr>) []) = Inl ErrHeaderCRC32C)"
proof -
  have body: "header_body (wire_header (h\<lparr>hRequestID := x\<rparr>) [])
      = header_body ((wire_header h [])\<lparr>hRequestID := x\<rparr>)" for x
    by (simp add: header_body_def)
  have "crc32c (header_body (wire_header (h\<lparr>hRequestID := a\<rparr>) [])) \<noteq> 0
      \<or> crc32c (header_body (wire_header (h\<lparr>hRequestID := b\<rparr>) [])) \<noteq> 0"
    using request_id_crc[where h = "wire_header h []"] assms(3,4) unfolding body by metis
  then show ?thesis
    using range_request_decoded[of h] range_request_decoded[of "h\<lparr>hRequestID := a\<rparr>"]
      range_request_decoded[of "h\<lparr>hRequestID := b\<rparr>"] assms(1,2) by auto
qed

theorem checksummed_range_request_rejected_witness:
  "let h = NewRequestHeader OpDiscard 1 9 77 4096 FlagChecksum
   in DecodeMessage (EncodeMessage h []) = Inl ErrHeaderCRC32C
      \<and> (DecodeMessage (EncodeMessage (h\<lparr>hRequestID := 1\<rparr>) []) = Inl ErrHeaderCRC32C
          \<or> DecodeMessage (EncodeMessage (h\<lparr>hRequestID := 2\<rparr>) []) = Inl ErrHeaderCRC32C)"
proof -
  let ?h = "NewRequestHeader OpDiscard 1 9 77 4096 FlagChecksum"
  have "crc32c (header_body (wire_header ?h [])) \<noteq> 0"
    unfolding crc32c_zero by code_simp
  moreover have "drop_bit 32 (1::u64) = drop_bit 32 2"
    by simp
  ultimately show ?thesis
    using checksummed_range_request_rejected[of ?h 1 2]
    by (simp add: NewRequestHeader_def opUsesLengthAsRangeWithoutRequestPayload_def FlagChecksum_def)
qed

text \<open>
  C16. Whatever the decoder accepts is a well-formed frame: magic, version and header length are the
  protocol's, the bytes are exactly the parsed header followed by the payload, the payload length
  is the announced one (or the frame is a header-only range request), and the checksum the flags
  ask for matches.
\<close>

theorem DecodeMessage_sound:
  assumes "DecodeMessage msg = Inr (h, p)"
  shows "msg = header_body h @ put_u32 (hCRC32C h) @ p
       \<and> hMagic h = Magic \<and> hVersion h = VersionV1 \<and> hHeaderLen h = HeaderSize
       \<and> (length p = unat (hLengthBytes h)
            \<or> p = [] \<and> opUsesLengthAsRangeWithoutRequestPayload (hOp h))
       \<and> (hCRC32C h = crc32c (header_body h) \<or> hFlags h AND FlagChecksum \<noteq> 0 \<and> hCRC32C h = crc32c p)"
proof -
  have long: "56 \<le> length msg"
    using assms by (auto simp: DecodeMessage_def split: if_splits)
  have h: "h = parseHeader (take 56 msg)"
    using assms by (auto simp: DecodeMessage_def Let_def split: if_splits)
  have p: "p = drop 56 msg"
    using assms by (auto simp: DecodeMessage_def Let_def split: if_splits)
  have msg: "msg = header_body h @ put_u32 (hCRC32C h) @ p"
    unfolding h p by (rule header_split[OF long])
  have crc: "header_crc msg = crc32c (header_body h)"
    by (subst msg) (simp add: header_crc_eq)
  show ?thesis
    using assms long msg crc
    by (auto simp: DecodeMessage_def Let_def h[symmetric] p[symmetric] split: if_splits)
qed

theorem DecodeMessage_sound_witness:
  "let h = wire_header (NewRequestHeader OpWrite 7 10 3 8192 0) [1, 2, 3]
   in EncodeMessage (NewRequestHeader OpWrite 7 10 3 8192 0) [1, 2, 3] =
        header_body h @ put_u32 (hCRC32C h) @ [1, 2, 3] \<and> hMagic h = Magic"
proof -
  have "DecodeMessage (EncodeMessage (NewRequestHeader OpWrite 7 10 3 8192 0) [1, 2, 3]) =
      Inr (wire_header (NewRequestHeader OpWrite 7 10 3 8192 0) [1, 2, 3], [1, 2, 3])"
    by (rule decode_encode) simp_all
  from DecodeMessage_sound[OF this] show ?thesis by (simp add: Let_def)
qed

subsection \<open>Responses\<close>

definition wire_response :: "ResponseHeader \<Rightarrow> bytes \<Rightarrow> ResponseHeader" where
  "wire_response r p =
     (let b = (rBase r)\<lparr>hMagic := Magic, hVersion := VersionV1, hHeaderLen := ResponseHdrLen,
                        hLengthBytes := of_nat (length p)\<rparr>
      in r\<lparr>rBase := b\<lparr>hCRC32C := (if hFlags b AND FlagChecksum \<noteq> 0 then crc32c p
                                 else crc32c (header_body b))\<rparr>\<rparr>)"

lemma length_response_tail [simp]: "length (put_response_tail r) = 20"
  by (simp add: put_response_tail_def)

lemma EncodeResponseMessage_layout:
  "EncodeResponseMessage r p =
     header_body (rBase (wire_response r p)) @ put_u32 (hCRC32C (rBase (wire_response r p))) @
     put_response_tail r @ p"
  by (simp add: EncodeResponseMessage_def wire_response_def Let_def putHeader_body header_crc_eq)

lemma wire_response_fields [simp]:
  "hMagic (rBase (wire_response r p)) = Magic"
  "hVersion (rBase (wire_response r p)) = VersionV1"
  "hHeaderLen (rBase (wire_response r p)) = ResponseHdrLen"
  "hFlags (rBase (wire_response r p)) = hFlags (rBase r)"
  "hLengthBytes (rBase (wire_response r p)) = of_nat (length p)"
  "rStatusCode (wire_response r p) = rStatusCode r"
  "rPathID (wire_response r p) = rPathID r"
  by (simp_all add: wire_response_def Let_def)

lemma wire_response_crc:
  "hCRC32C (rBase (wire_response r p)) =
     (if hFlags (rBase r) AND FlagChecksum \<noteq> 0 then crc32c p
      else crc32c (header_body (rBase (wire_response r p))))"
  by (simp add: wire_response_def Let_def)

lemma parse_EncodeResponse:
  "parseHeader (take 56 (EncodeResponseMessage r p)) = rBase (wire_response r p)"
  "parse_response (EncodeResponseMessage r p) = wire_response r p"
  "header_crc (EncodeResponseMessage r p) = crc32c (header_body (rBase (wire_response r p)))"
proof -
  let ?w = "wire_response r p"
  show hdr: "parseHeader (take 56 (EncodeResponseMessage r p)) = rBase ?w"
    by (simp add: EncodeResponseMessage_layout parseHeader_body)
  have "parse_response (EncodeResponseMessage r p) =
      \<lparr>rBase = rBase ?w, rStatusCode = rStatusCode r, rBackendLatencyUS = rBackendLatencyUS r,
       rGatewayLatencyUS = rGatewayLatencyUS r, rPathID = rPathID r, rReserved = rReserved r\<rparr>"
    by (simp add: parse_response_def hdr)
      (simp add: EncodeResponseMessage_layout put_response_tail_def slice_def)
  also have "\<dots> = ?w"
    by (simp add: wire_response_def Let_def)
  finally show "parse_response (EncodeResponseMessage r p) = ?w" .
  show "header_crc (EncodeResponseMessage r p) = crc32c (header_body (rBase ?w))"
    by (simp add: header_crc_eq EncodeResponseMessage_layout)
qed

text \<open>C18. Decoding an encoded response returns the status, the latencies, the path and the payload.\<close>

theorem DecodeResponseMessage_EncodeResponseMessage:
  assumes "length p < 2 ^ 32"
  shows "DecodeResponseMessage (EncodeResponseMessage r p) = Inr (wire_response r p, p)"
proof -
  have len: "unat (of_nat (length p) :: u32) = length p"
    by (rule unat_of_nat_length) (use assms in simp)
  have "length (EncodeResponseMessage r p) = 76 + length p"
    and "drop 76 (EncodeResponseMessage r p) = p"
    by (simp_all add: EncodeResponseMessage_layout)
  then show ?thesis
    by (simp add: DecodeResponseMessage_def Let_def parse_EncodeResponse len wire_response_crc)
qed

theorem DecodeResponseMessage_EncodeResponseMessage_witness:
  "DecodeResponseMessage (EncodeResponseMessage
      \<lparr>rBase = NewRequestHeader OpReadResp 7 10 3 0 0, rStatusCode = -1, rBackendLatencyUS = 5,
       rGatewayLatencyUS = 6, rPathID = 1, rReserved = 0\<rparr> [9]) =
     Inr (wire_response
      \<lparr>rBase = NewRequestHeader OpReadResp 7 10 3 0 0, rStatusCode = -1, rBackendLatencyUS = 5,
       rGatewayLatencyUS = 6, rPathID = 1, rReserved = 0\<rparr> [9], [9])"
  by (rule DecodeResponseMessage_EncodeResponseMessage) simp

subsection \<open>Payload bodies (body.go)\<close>

record Hello =
  heHostID :: u64
  heBootIDHash :: u64
  heSessionNonce :: u64
  heClientCaps :: u32

record PathCapability =
  pcMaxIOSize :: u32
  pcMaxSegments :: u32
  pcSupportedOpsMask :: u64
  pcFeatures :: u32
  pcMaxInflightRequests :: u32
  pcMaxInflightBytes :: u64
  pcMaxZeroLikeIOSize :: u32

record ErrorDetail =
  edRetryAfterMS :: u32
  edDetailCode :: u32
  edMessage :: bytes

definition EncodeHelloPayload :: "Hello \<Rightarrow> bytes" where
  "EncodeHelloPayload h =
     put_u64 (heHostID h) @ put_u64 (heBootIDHash h) @ put_u64 (heSessionNonce h) @
     put_u32 (heClientCaps h)"

definition DecodeHelloPayload :: "bytes \<Rightarrow> wire_error + Hello" where
  "DecodeHelloPayload payload =
     (if length payload \<noteq> 28 then Inl (ErrPayloadLength (length payload))
      else Inr \<lparr>heHostID = get_u64 (slice 0 8 payload),
                heBootIDHash = get_u64 (slice 8 16 payload),
                heSessionNonce = get_u64 (slice 16 24 payload),
                heClientCaps = get_u32 (slice 24 28 payload)\<rparr>)"

definition EncodePathCapabilityPayload :: "PathCapability \<Rightarrow> bytes" where
  "EncodePathCapabilityPayload c =
     put_u32 (pcMaxIOSize c) @ put_u32 (pcMaxSegments c) @ put_u64 (pcSupportedOpsMask c) @
     put_u32 (pcFeatures c) @ put_u32 (pcMaxInflightRequests c) @ put_u64 (pcMaxInflightBytes c) @
     put_u32 (pcMaxZeroLikeIOSize c)"

definition DecodePathCapabilityPayload :: "bytes \<Rightarrow> wire_error + PathCapability" where
  "DecodePathCapabilityPayload payload =
     (if length payload \<noteq> 32 \<and> length payload \<noteq> 36 then Inl (ErrPayloadLength (length payload))
      else
        let c0 = \<lparr>pcMaxIOSize = get_u32 (slice 0 4 payload),
                  pcMaxSegments = get_u32 (slice 4 8 payload),
                  pcSupportedOpsMask = get_u64 (slice 8 16 payload),
                  pcFeatures = get_u32 (slice 16 20 payload),
                  pcMaxInflightRequests = get_u32 (slice 20 24 payload),
                  pcMaxInflightBytes = get_u64 (slice 24 32 payload),
                  pcMaxZeroLikeIOSize = 0\<rparr>;
            c1 = (if length payload \<ge> 36
                  then c0\<lparr>pcMaxZeroLikeIOSize := get_u32 (slice 32 36 payload)\<rparr> else c0);
            c2 = (if pcMaxZeroLikeIOSize c1 = 0
                  then c1\<lparr>pcMaxZeroLikeIOSize := pcMaxIOSize c1\<rparr> else c1)
        in Inr c2)"

definition EncodeWritePayload :: "WriteTag \<Rightarrow> bytes \<Rightarrow> bytes" where
  "EncodeWritePayload tag data =
     put_u64 (wtHostID tag) @ put_u64 (wtBootIDHash tag) @ put_u64 (wtSequenceNo tag) @ data"

definition DecodeWritePayload :: "bytes \<Rightarrow> wire_error + (WriteTag \<times> bytes)" where
  "DecodeWritePayload payload =
     (if length payload < 24 then Inl (ErrPayloadLength (length payload))
      else Inr (\<lparr>wtHostID = get_u64 (slice 0 8 payload),
                 wtBootIDHash = get_u64 (slice 8 16 payload),
                 wtSequenceNo = get_u64 (slice 16 24 payload)\<rparr>, drop 24 payload))"

definition EncodeErrorDetailPayload :: "ErrorDetail \<Rightarrow> wire_error + bytes" where
  "EncodeErrorDetailPayload e =
     (if length (edMessage e) > 0xFFFF then Inl (ErrMessageTooLong (length (edMessage e)))
      else Inr (put_u32 (edRetryAfterMS e) @ put_u32 (edDetailCode e) @
                put_u16 (of_nat (length (edMessage e))) @ edMessage e))"

definition DecodeErrorDetailPayload :: "bytes \<Rightarrow> wire_error + ErrorDetail" where
  "DecodeErrorDetailPayload payload =
     (if length payload < 10 then Inl (ErrPayloadLength (length payload))
      else let msgLen = unat (get_u16 (slice 8 10 payload)) in
        if length payload \<noteq> 10 + msgLen then Inl (ErrPayloadLength (length payload))
        else Inr \<lparr>edRetryAfterMS = get_u32 (slice 0 4 payload),
                  edDetailCode = get_u32 (slice 4 8 payload),
                  edMessage = drop 10 payload\<rparr>)"

text \<open>
  Every payload body survives the wire: hello and write payloads exactly, an error detail
  whenever its message fits the 16-bit length field, and a path capability up to the default of
  its zero-like size, which a receiver replaces by the I/O size when it is zero.
\<close>

theorem payload_bodies_round_trip:
  "DecodeHelloPayload (EncodeHelloPayload hello) = Inr hello
   \<and> DecodeWritePayload (EncodeWritePayload tag data) = Inr (tag, data)
   \<and> DecodePathCapabilityPayload (EncodePathCapabilityPayload c) =
       Inr (if pcMaxZeroLikeIOSize c = 0 then c\<lparr>pcMaxZeroLikeIOSize := pcMaxIOSize c\<rparr> else c)
   \<and> (case EncodeErrorDetailPayload e of
         Inl err \<Rightarrow> length (edMessage e) > 65535
       | Inr bs \<Rightarrow> DecodeErrorDetailPayload bs = Inr e)"
proof (intro conjI)
  show "DecodeHelloPayload (EncodeHelloPayload hello) = Inr hello"
    by (simp add: DecodeHelloPayload_def EncodeHelloPayload_def slice_def)
  show "DecodeWritePayload (EncodeWritePayload tag data) = Inr (tag, data)"
    by (simp add: DecodeWritePayload_def EncodeWritePayload_def slice_def)
  show "DecodePathCapabilityPayload (EncodePathCapabilityPayload c) =
       Inr (if pcMaxZeroLikeIOSize c = 0 then c\<lparr>pcMaxZeroLikeIOSize := pcMaxIOSize c\<rparr> else c)"
    by (simp add: DecodePathCapabilityPayload_def EncodePathCapabilityPayload_def slice_def Let_def)
  have "unat (of_nat (length (edMessage e)) :: u16) = length (edMessage e)"
    if "length (edMessage e) \<le> 65535"
    by (rule unat_of_nat_length) (use that in simp)
  then show "case EncodeErrorDetailPayload e of
         Inl err \<Rightarrow> length (edMessage e) > 65535
       | Inr bs \<Rightarrow> DecodeErrorDetailPayload bs = Inr e"
    by (auto simp: EncodeErrorDetailPayload_def DecodeErrorDetailPayload_def slice_def Let_def)
qed

end
