(* ===== verification/WireStream.thy ===== *)
theory WireStream
  imports WireV1
begin

unbundle bit_operations_syntax

section \<open>Stream decoding, connections and dispatch (protocol/wirev1)\<close>

text \<open>
  The incremental decoder (stream_decoder.go), the connection loops over an unreliable byte stream
  (conn.go) and the opcode dispatcher (dispatch.go). What the network delivers is an explicit list
  of events, one per call of the reader or writer, so that every chunking of the stream is covered.
\<close>

subsection \<open>The stream decoder (stream_decoder.go)\<close>

record StreamDecoder =
  sdBuf :: bytes
  sdMaxPayloadLen :: u32

definition NewStreamDecoder :: "u32 \<Rightarrow> StreamDecoder" where
  "NewStreamDecoder maxPayloadLen = \<lparr>sdBuf = [], sdMaxPayloadLen = maxPayloadLen\<rparr>"

definition Feed :: "StreamDecoder \<Rightarrow> bytes \<Rightarrow> StreamDecoder" where
  "Feed d chunk = (if length chunk = 0 then d else d\<lparr>sdBuf := sdBuf d @ chunk\<rparr>)"

text \<open>\<open>Inr None\<close> is \<open>ok=false\<close> without an error: more bytes are needed.\<close>

definition Next :: "StreamDecoder \<Rightarrow> (wire_error + (Header \<times> bytes) option) \<times> StreamDecoder" where
  "Next d =
     (if length (sdBuf d) < unat HeaderSize then (Inr None, d)
      else
        let probe = parseHeader (take (unat HeaderSize) (sdBuf d));
            skip1 = d\<lparr>sdBuf := drop 1 (sdBuf d)\<rparr>;
            range = opUsesLengthAsRangeWithoutRequestPayload (hOp probe)
        in if hMagic probe \<noteq> Magic then (Inl ErrBadMagicValue, skip1)
           else if hVersion probe \<noteq> VersionV1 then (Inl ErrBadVersionValue, skip1)
           else if hHeaderLen probe \<noteq> HeaderSize then (Inl ErrBadHeaderLen, skip1)
           else if \<not> range \<and> hLengthBytes probe > sdMaxPayloadLen d then (Inl ErrFrameTooLarge, d)
           else
             let frameLen = (if range then unat HeaderSize
                             else unat HeaderSize + unat (hLengthBytes probe))
             in if length (sdBuf d) < frameLen then (Inr None, d)
                else
                  let frame = take frameLen (sdBuf d);
                      d' = d\<lparr>sdBuf := drop frameLen (sdBuf d)\<rparr>
                  in case DecodeMessage frame of
                       Inl err \<Rightarrow> (Inl err, d')
                     | Inr hp \<Rightarrow> (Inr (Some hp), d'))"

definition Buffered :: "StreamDecoder \<Rightarrow> nat" where
  "Buffered d = length (sdBuf d)"

subsection \<open>Connections (conn.go)\<close>

datatype read_event = Data bytes | ReadFailed bool

text \<open>
  One \<open>Data\<close> event is one call of Read that returned these bytes without looking at its error;
  \<open>ReadFailed eof\<close> is a call that returned no byte and an error. \<open>None\<close> is a read that is still
  waiting when the events end.
\<close>

fun ReadFrame :: "StreamDecoder \<Rightarrow> read_event list \<Rightarrow>
    ((wire_error + (Header \<times> bytes)) \<times> StreamDecoder \<times> read_event list) option" where
  "ReadFrame d evs =
     (case Next d of
        (Inl err, d') \<Rightarrow> Some (Inl err, d', evs)
      | (Inr (Some hp), d') \<Rightarrow> Some (Inr hp, d', evs)
      | (Inr None, d') \<Rightarrow>
          (case evs of
             [] \<Rightarrow> None
           | Data bs # evs' \<Rightarrow> (if length bs > 0 then ReadFrame (Feed d' bs) evs' else ReadFrame d' evs')
           | ReadFailed eof # evs' \<Rightarrow>
               (if eof \<and> Buffered d' > 0 then Some (Inl ErrShortMessage, d', evs')
                else Some (Inl (if eof then ErrEOF else ErrReader), d', evs'))))"

declare ReadFrame.simps [simp del]

text \<open>
  Each call of Write accepts some bytes and may fail. The result is what was handed to the writer
  and how the loop ended; \<open>None\<close> is a write still in progress when the events end.
\<close>

fun write_loop :: "bytes \<Rightarrow> (nat \<times> bool) list \<Rightarrow> bytes \<times> (wire_error + unit) option" where
  "write_loop wbuf evs =
     (if wbuf = [] then ([], Some (Inr ()))
      else case evs of
        [] \<Rightarrow> ([], None)
      | (n, failed) # evs' \<Rightarrow>
          let sent = take n wbuf in
          if failed then (sent, Some (Inl ErrReader))
          else let (more, r) = write_loop (drop n wbuf) evs' in (sent @ more, r))"

declare write_loop.simps [simp del]

definition WriteFrame ::
    "u32 \<Rightarrow> Header \<Rightarrow> bytes \<Rightarrow> (nat \<times> bool) list \<Rightarrow> bytes \<times> (wire_error + unit) option" where
  "WriteFrame limit h payload evs =
     (if (of_nat (length payload) :: u32) > limit then ([], Some (Inl ErrFrameTooLarge))
      else write_loop (EncodeMessage h payload) evs)"

subsection \<open>Dispatch (dispatch.go)\<close>

type_synonym FrameHandler = "Header \<times> bytes \<Rightarrow> wire_error + bytes"
type_synonym Mux = "(u32, FrameHandler) gomap"

definition NewMux :: Mux where
  "NewMux = []"

definition Handle :: "Mux \<Rightarrow> Header \<times> bytes \<Rightarrow> wire_error + bytes" where
  "Handle m f =
     (case mget m (hOp (fst f)) of
        None \<Rightarrow> Inl (ErrNoHandler (hOp (fst f)))
      | Some h \<Rightarrow> h f)"

definition Register :: "Mux \<Rightarrow> u32 \<Rightarrow> FrameHandler \<Rightarrow> Mux" where
  "Register m op h = mput op h m"

definition RegisterHello :: "Mux \<Rightarrow> u32 \<Rightarrow> (Header \<Rightarrow> Hello \<Rightarrow> wire_error + bytes) \<Rightarrow> Mux" where
  "RegisterHello m op h =
     Register m op (\<lambda>f. case DecodeHelloPayload (snd f) of
        Inl err \<Rightarrow> Inl err | Inr body \<Rightarrow> h (fst f) body)"

definition RegisterPathCapability ::
    "Mux \<Rightarrow> u32 \<Rightarrow> (Header \<Rightarrow> PathCapability \<Rightarrow> wire_error + bytes) \<Rightarrow> Mux" where
  "RegisterPathCapability m op h =
     Register m op (\<lambda>f. case DecodePathCapabilityPayload (snd f) of
        Inl err \<Rightarrow> Inl err | Inr body \<Rightarrow> h (fst f) body)"

definition RegisterErrorDetail ::
    "Mux \<Rightarrow> u32 \<Rightarrow> (Header \<Rightarrow> ErrorDetail \<Rightarrow> wire_error + bytes) \<Rightarrow> Mux" where
  "RegisterErrorDetail m op h =
     Register m op (\<lambda>f. case DecodeErrorDetailPayload (snd f) of
        Inl err \<Rightarrow> Inl err | Inr body \<Rightarrow> h (fst f) body)"

subsection \<open>One frame through the decoder\<close>

text \<open>
  The frames a client may put on a version 1 stream: a payload within the limit, or a header-only
  range request without the payload checksum flag.
\<close>

definition stream_frame :: "u32 \<Rightarrow> Header \<times> bytes \<Rightarrow> bool" where
  "stream_frame limit f \<longleftrightarrow>
     (if opUsesLengthAsRangeWithoutRequestPayload (hOp (fst f))
      then snd f = [] \<and> hFlags (fst f) AND FlagChecksum = 0
      else length (snd f) \<le> unat limit)"

definition encode_frame :: "Header \<times> bytes \<Rightarrow> bytes" where
  "encode_frame f = EncodeMessage (fst f) (snd f)"

definition received :: "Header \<times> bytes \<Rightarrow> Header \<times> bytes" where
  "received f = (wire_header (fst f) (snd f), snd f)"

lemma stream_frame_short:
  assumes "stream_frame limit f"
  shows "length (snd f) < 2 ^ 32"
    and "unat (of_nat (length (snd f)) :: u32) = length (snd f)"
proof -
  have "unat limit < 2 ^ 32" using unsigned_less[of limit] by simp
  with assms show short: "length (snd f) < 2 ^ 32"
    by (auto simp: stream_frame_def split: if_splits)
  show "unat (of_nat (length (snd f)) :: u32) = length (snd f)"
    by (rule unat_of_nat_length) (use short in simp)
qed

lemma stream_frame_len:
  assumes "stream_frame limit f"
  shows "(if opUsesLengthAsRangeWithoutRequestPayload (hOp (fst f)) then 56
          else 56 + unat (of_nat (length (snd f)) :: u32)) = length (encode_frame f)"
  using assms stream_frame_short[OF assms] by (auto simp: stream_frame_def encode_frame_def)

lemma stream_frame_fits:
  assumes "stream_frame limit f" "\<not> opUsesLengthAsRangeWithoutRequestPayload (hOp (fst f))"
  shows "\<not> (of_nat (length (snd f)) :: u32) > limit"
  using assms stream_frame_short[OF assms(1)]
  by (auto simp: stream_frame_def word_less_nat_alt)

lemma probe_header:
  assumes "sdBuf d = take n (encode_frame f) @ rest" "56 \<le> n"
  shows "parseHeader (take 56 (sdBuf d)) = wire_header (fst f) (snd f)"
proof -
  have "take 56 (sdBuf d) = take 56 (EncodeMessage (fst f) (snd f))"
    using assms by (simp add: encode_frame_def min_def)
  then show ?thesis by simp
qed

lemma Next_frame:
  assumes "stream_frame (sdMaxPayloadLen d) f" "sdBuf d = encode_frame f @ rest"
  shows "Next d = (Inr (Some (received f)), d\<lparr>sdBuf := rest\<rparr>)"
proof -
  have dec: "DecodeMessage (encode_frame f) = Inr (received f)"
    unfolding encode_frame_def received_def
    by (rule decode_encode) (use assms(1) stream_frame_short in \<open>auto simp: stream_frame_def split: if_splits\<close>)
  have hdr: "parseHeader (take 56 (sdBuf d)) = wire_header (fst f) (snd f)"
    by (rule probe_header[where n = "length (encode_frame f)" and rest = rest])
      (use assms(2) in \<open>simp_all add: encode_frame_def\<close>)
  have long: "\<not> length (sdBuf d) < 56"
    using assms(2) by (simp add: encode_frame_def)
  show ?thesis
  proof (cases "opUsesLengthAsRangeWithoutRequestPayload (hOp (fst f))")
    case True
    with assms(1) have "length (encode_frame f) = 56"
      by (simp add: stream_frame_def encode_frame_def)
    with assms(2) have "take 56 (sdBuf d) = encode_frame f" "drop 56 (sdBuf d) = rest"
      by simp_all
    with True show ?thesis
      using hdr by (simp add: Next_def Let_def dec long)
  next
    case False
    let ?fl = "56 + length (snd f)"
    have "length (encode_frame f) = ?fl"
      by (simp add: encode_frame_def)
    with assms(2) have "take ?fl (sdBuf d) = encode_frame f" "drop ?fl (sdBuf d) = rest"
      "\<not> length (sdBuf d) < ?fl"
      by simp_all
    with False show ?thesis
      using stream_frame_fits[OF assms(1)] stream_frame_short(2)[OF assms(1)]
      by (simp add: Next_def Let_def hdr dec long)
  qed
qed

lemma Next_partial:
  assumes "stream_frame (sdMaxPayloadLen d) f" "sdBuf d = take n (encode_frame f)"
    "n < length (encode_frame f)"
  shows "Next d = (Inr None, d)"
proof (cases "n < 56")
  case True
  with assms show ?thesis by (simp add: Next_def encode_frame_def)
next
  case False
  have hdr: "parseHeader (take 56 (sdBuf d)) = wire_header (fst f) (snd f)"
    by (rule probe_header[where n = n and rest = "[]"]) (use assms(2) False in simp_all)
  have "length (sdBuf d) = n"
    using assms(2,3) by simp
  moreover have "(if opUsesLengthAsRangeWithoutRequestPayload (hOp (fst f)) then 56
          else 56 + unat (of_nat (length (snd f)) :: u32)) > n"
    using stream_frame_len[OF assms(1)] assms(3) by simp
  ultimately show ?thesis
    using stream_frame_fits[OF assms(1)] False
    by (cases "opUsesLengthAsRangeWithoutRequestPayload (hOp (fst f))") (simp_all add: Next_def Let_def hdr)
qed

lemma Feed_buf: "sdBuf (Feed d bs) = sdBuf d @ bs" "sdMaxPayloadLen (Feed d bs) = sdMaxPayloadLen d"
  by (simp_all add: Feed_def)

lemma Feed_Nil [simp]: "Feed d [] = d"
  by (simp add: Feed_def)

text \<open>
  A frame that the decoder recognises once it is complete, and waits for until then, is delivered however
  its bytes are split.
\<close>

lemma ReadFrame_whole:
  assumes whole: "\<And>d rest. sdMaxPayloadLen d = limit \<Longrightarrow> sdBuf d = w @ rest \<Longrightarrow>
      Next d = (Inr (Some f), d\<lparr>sdBuf := rest\<rparr>)"
    and part: "\<And>d n. sdMaxPayloadLen d = limit \<Longrightarrow> sdBuf d = take n w \<Longrightarrow> n < length w \<Longrightarrow> Next d = (Inr None, d)"
    and "sdMaxPayloadLen d = limit" "sdBuf d @ concat cs = w @ rest"
  shows "\<exists>d' cs'. ReadFrame d (map Data cs) = Some (Inr f, d', map Data cs')
           \<and> sdBuf d' @ concat cs' = rest \<and> sdMaxPayloadLen d' = limit"
  using assms(3,4)
proof (induction cs arbitrary: d)
  case Nil
  then have "Next d = (Inr (Some f), d\<lparr>sdBuf := rest\<rparr>)"
    by (intro whole) auto
  then show ?case
    using Nil by (intro exI[of _ "d\<lparr>sdBuf := rest\<rparr>"] exI[of _ "[]"]) (simp add: ReadFrame.simps)
next
  case (Cons c cs)
  show ?case
  proof (cases "length w \<le> length (sdBuf d)")
    case True
    define r where "r = drop (length w) (sdBuf d)"
    have buf: "sdBuf d = w @ r"
      using Cons.prems(2) True
      by (metis append_eq_append_conv_if append_take_drop_id r_def)
    then have "Next d = (Inr (Some f), d\<lparr>sdBuf := r\<rparr>)"
      by (intro whole Cons.prems(1))
    moreover have "r @ concat (c # cs) = rest"
      using Cons.prems(2) buf by simp
    ultimately show ?thesis
      using Cons.prems(1)
      by (intro exI[of _ "d\<lparr>sdBuf := r\<rparr>"] exI[of _ "c # cs"])
        (simp add: ReadFrame.simps[of d "Data c # map Data cs"])
  next
    case False
    have "sdBuf d = take (length (sdBuf d)) (sdBuf d @ concat (c # cs))"
      by simp
    also have "\<dots> = take (length (sdBuf d)) w"
      using Cons.prems(2) False by simp
    finally have "sdBuf d = take (length (sdBuf d)) w" .
    then have next_d: "Next d = (Inr None, d)"
      by (rule part[OF Cons.prems(1)]) (use False in simp)
    have "\<exists>d' cs'. ReadFrame (Feed d c) (map Data cs) = Some (Inr f, d', map Data cs')
           \<and> sdBuf d' @ concat cs' = rest \<and> sdMaxPayloadLen d' = limit"
      by (rule Cons.IH) (use Cons.prems in \<open>simp_all add: Feed_buf\<close>)
    then show ?thesis
      by (auto simp: ReadFrame.simps[of d "Data c # map Data cs"] next_d Feed_buf)
  qed
qed

lemma ReadFrame_frame:
  assumes "stream_frame (sdMaxPayloadLen d) f" "sdBuf d @ concat cs = encode_frame f @ rest"
  shows "\<exists>d' cs'. ReadFrame d (map Data cs) = Some (Inr (received f), d', map Data cs')
           \<and> sdBuf d' @ concat cs' = rest \<and> sdMaxPayloadLen d' = sdMaxPayloadLen d"
  by (rule ReadFrame_whole[OF Next_frame Next_partial refl assms(2)]) (simp_all add: assms(1))

subsection \<open>Whole streams\<close>

fun read_frames :: "nat \<Rightarrow> StreamDecoder \<Rightarrow> read_event list \<Rightarrow>
    ((Header \<times> bytes) list \<times> StreamDecoder \<times> read_event list) option" where
  "read_frames 0 d evs = Some ([], d, evs)"
| "read_frames (Suc n) d evs =
     (case ReadFrame d evs of
        Some (Inr f, d', evs') \<Rightarrow>
          map_option (\<lambda>(fs, r). (f # fs, r)) (read_frames n d' evs')
      | _ \<Rightarrow> None)"

lemma read_frames_stream:
  assumes "\<forall>f \<in> set fs. stream_frame (sdMaxPayloadLen d) f"
    and "sdBuf d @ concat cs = concat (map encode_frame fs)"
  shows "\<exists>d' evs'. read_frames (length fs) d (map Data cs) = Some (map received fs, d', evs')
           \<and> sdBuf d' = []"
  using assms
proof (induction fs arbitrary: d cs)
  case Nil
  then show ?case by simp
next
  case (Cons f fs)
  then obtain d' cs' where step: "ReadFrame d (map Data cs) = Some (Inr (received f), d', map Data cs')"
    and rest: "sdBuf d' @ concat cs' = concat (map encode_frame fs)"
    and limit: "sdMaxPayloadLen d' = sdMaxPayloadLen d"
    using ReadFrame_frame[of d f cs "concat (map encode_frame fs)"] by auto
  have "\<exists>d'' evs'. read_frames (length fs) d' (map Data cs') = Some (map received fs, d'', evs')
           \<and> sdBuf d'' = []"
    by (rule Cons.IH) (use Cons.prems limit rest in auto)
  with step show ?case by auto
qed

text \<open>
  C14. However the network splits the stream into reads, a connection returns exactly the frames the
  peer sent, in order, and no byte is left over.
\<close>

theorem stream_delivers_frames:
  assumes "\<forall>f \<in> set fs. stream_frame limit f"
    and "concat cs = concat (map encode_frame fs)"
  shows "\<exists>d' evs'. read_frames (length fs) (NewStreamDecoder limit) (map Data cs) =
            Some (map received fs, d', evs') \<and> Buffered d' = 0"
  using read_frames_stream[of fs "NewStreamDecoder limit" cs] assms
  by (simp add: NewStreamDecoder_def Buffered_def)

theorem stream_delivers_frames_witness:
  "let f = (NewRequestHeader OpWrite 1 2 3 4096 0, [1, 2, 3]);
       g = (NewRequestHeader OpRead 2 2 3 4096 0, []);
       wire = encode_frame f @ encode_frame g
   in \<exists>d' evs'. read_frames 2 (NewStreamDecoder 64) (map Data [take 57 wire, [], drop 57 wire]) =
            Some ([received f, received g], d', evs') \<and> Buffered d' = 0"
proof -
  let ?fs = "[(NewRequestHeader OpWrite 1 2 3 4096 0, [1, 2, 3]),
    (NewRequestHeader OpRead 2 2 3 4096 0, [])] :: (Header \<times> bytes) list"
  let ?wire = "concat (map encode_frame ?fs)"
  have "\<exists>d' evs'. read_frames (length ?fs) (NewStreamDecoder 64)
          (map Data [take 57 ?wire, [], drop 57 ?wire]) = Some (map received ?fs, d', evs')
          \<and> Buffered d' = 0"
    by (rule stream_delivers_frames)
      (simp_all only: concat.simps append_Nil append_Nil2 append_take_drop_id,
       simp add: stream_frame_def opUsesLengthAsRangeWithoutRequestPayload_def op_defs
         NewRequestHeader_def)
  then show ?thesis
    by (simp add: Let_def numeral_2_eq_2 del: read_frames.simps)
qed

subsection \<open>Writing a frame\<close>

lemma write_loop_sends:
  "write_loop wbuf evs = (sent, r) \<Longrightarrow> prefix sent wbuf \<and> (r = Some (Inr ()) \<longrightarrow> sent = wbuf)"
proof (induction wbuf evs arbitrary: sent r rule: write_loop.induct)
  case (1 wbuf evs)
  show ?case
  proof (cases "wbuf = [] \<or> evs = []")
    case True
    with "1.prems" show ?thesis by (auto simp: write_loop.simps[of wbuf evs] split: if_splits)
  next
    case False
    then obtain n failed evs' where evs: "evs = (n, failed) # evs'"
      by (cases evs) auto
    show ?thesis
    proof (cases failed)
      case True
      with "1.prems" evs False show ?thesis
        by (auto simp: write_loop.simps[of wbuf "(n, True) # evs'"] Let_def take_is_prefix)
    next
      case ok: False
      obtain more r' where rec: "write_loop (drop n wbuf) evs' = (more, r')"
        by (cases "write_loop (drop n wbuf) evs'")
      then have "prefix more (drop n wbuf) \<and> (r' = Some (Inr ()) \<longrightarrow> more = drop n wbuf)"
        using "1.IH"[OF _ evs] False ok by simp
      moreover have "sent = take n wbuf @ more" "r = r'"
        using "1.prems" evs False ok rec by (auto simp: write_loop.simps[of wbuf "(n, False) # evs'"] Let_def)
      ultimately show ?thesis
        by (metis append_take_drop_id same_prefix_prefix)
    qed
  qed
qed

text \<open>
  Whatever the writer accepts per call, a version 1 frame write hands over a prefix of the encoded
  frame, and all of it when it reports success.
\<close>

lemma WriteFrame_sends_frame:
  assumes "WriteFrame limit h payload evs = (sent, r)"
  shows "prefix sent (EncodeMessage h payload)
    \<and> (r = Some (Inr ()) \<longrightarrow> sent = EncodeMessage h payload
          \<and> (of_nat (length payload) :: u32) \<le> limit)"
  using assms write_loop_sends[of "EncodeMessage h payload" evs sent r]
  by (auto simp: WriteFrame_def split: if_splits)

end
