(* ===== verification/WireV2.thy ===== *)
theory WireV2
  imports WireV1
begin

section \<open>Wire protocol, version 2 (protocol/wirev2)\<close>

text \<open>
  The authenticated protocol: frame layout and codec (types.go, codec.go), the authentication tag
  (auth.go), the replay check (seq.go) and the frame reader (conn.go). Names that version 1 also has
  carry the suffix \<open>V2\<close>. The encoders of the source fill in the caller's header through a pointer;
  here they return it next to the frame. The JSON bodies of hello.go are records, their text form is
  that of the JSON library.
\<close>

subsection \<open>Constants and header (types.go)\<close>

definition MagicV2 :: u32 where "MagicV2 = 0x4E4D4252"
definition VersionV2 :: u16 where "VersionV2 = 2"
definition HeaderSizeV2 :: nat where "HeaderSizeV2 = 76"
definition AuthTagSize :: nat where "AuthTagSize = 32"
definition ResponseHeaderSizeV2 :: nat where "ResponseHeaderSizeV2 = HeaderSizeV2 + 20"

definition OpHello :: u32 where "OpHello = 0x0010"
definition OpHelloAck :: u32 where "OpHelloAck = 0x0011"
definition OpAuthErr :: u32 where "OpAuthErr = 0x0012"

definition ErrTokenExpired :: i32 where "ErrTokenExpired = 20"
definition ErrBadAuthTag :: i32 where "ErrBadAuthTag = 21"
definition ErrReplayDetected :: i32 where "ErrReplayDetected = 22"
definition ErrSessionClosed :: i32 where "ErrSessionClosed = 23"
definition ErrGenerationMatch :: i32 where "ErrGenerationMatch = 24"

lemmas v2_sizes = HeaderSizeV2_def AuthTagSize_def ResponseHeaderSizeV2_def
lemmas v2_ops = OpHello_def OpHelloAck_def OpAuthErr_def
lemmas v2_statuses = ErrTokenExpired_def ErrBadAuthTag_def ErrReplayDetected_def
  ErrSessionClosed_def ErrGenerationMatch_def

record HeaderV2 =
  h2Magic :: u32
  h2Version :: u16
  h2HeaderLen :: u16
  h2Op :: u32
  h2Flags :: u32
  h2RequestID :: u64
  h2VolumeID :: u64
  h2Generation :: u64
  h2SessionID :: u64
  h2SeqNo :: u64
  h2OffsetBytes :: u64
  h2LengthBytes :: u32
  h2AuthLen :: u16
  h2Reserved :: u16
  h2CRC32C :: u32

definition zero_header2 :: HeaderV2 where
  "zero_header2 =
     \<lparr>h2Magic = 0, h2Version = 0, h2HeaderLen = 0, h2Op = 0, h2Flags = 0, h2RequestID = 0,
      h2VolumeID = 0, h2Generation = 0, h2SessionID = 0, h2SeqNo = 0, h2OffsetBytes = 0,
      h2LengthBytes = 0, h2AuthLen = 0, h2Reserved = 0, h2CRC32C = 0\<rparr>"

record ResponseHeaderV2 =
  r2Base :: HeaderV2
  r2StatusCode :: i32
  r2BackendLatencyUS :: u32
  r2GatewayLatencyUS :: u32
  r2PathID :: u32
  r2Reserved :: u32

record HelloPayload =
  hpToken :: string
  hpClientNonce :: string
  hpDeviceID :: u32
  hpHostID :: string
  hpSupportedAuth :: "string list"
  hpRequestedPathID :: u32

record HelloAckPayload =
  haSessionID :: u64
  haServerNonce :: string
  haSelectedAuth :: string
  haExpiresAt :: string
  haPathID :: u32
  haMaxInflightRequests :: u32
  haMaxInflightBytes :: u64
  haMaxIOSize :: u32
  haMaxZeroLikeIOSize :: u32

datatype wire2_error =
    ErrShortMessageV2
  | ErrBadMagicValueV2
  | ErrBadVersionV2
  | ErrBadHeaderLenV2
  | ErrHeaderCRC32CV2
  | ErrLengthMismatchV2
  | ErrAuthTagLength
  | ErrAuthTagMismatch
  | ErrFrameTooLargeV2
  | ErrReplaySeq
  | ErrEOFV2
  | ErrUnexpectedEOFV2

subsection \<open>The codec (codec.go)\<close>

definition header_body2 :: "HeaderV2 \<Rightarrow> bytes" where
  "header_body2 h =
     put_u32 (h2Magic h) @ put_u16 (h2Version h) @ put_u16 (h2HeaderLen h) @ put_u32 (h2Op h) @
     put_u32 (h2Flags h) @ put_u64 (h2RequestID h) @ put_u64 (h2VolumeID h) @
     put_u64 (h2Generation h) @ put_u64 (h2SessionID h) @ put_u64 (h2SeqNo h) @
     put_u64 (h2OffsetBytes h) @ put_u32 (h2LengthBytes h) @ put_u16 (h2AuthLen h) @
     put_u16 (h2Reserved h)"

definition putHeaderWithoutCRCV2 :: "HeaderV2 \<Rightarrow> bytes" where
  "putHeaderWithoutCRCV2 h = header_body2 h @ put_u32 0"

definition parseHeaderV2 :: "bytes \<Rightarrow> HeaderV2" where
  "parseHeaderV2 src =
     \<lparr>h2Magic = get_u32 (slice 0 4 src),
      h2Version = get_u16 (slice 4 6 src),
      h2HeaderLen = get_u16 (slice 6 8 src),
      h2Op = get_u32 (slice 8 12 src),
      h2Flags = get_u32 (slice 12 16 src),
      h2RequestID = get_u64 (slice 16 24 src),
      h2VolumeID = get_u64 (slice 24 32 src),
      h2Generation = get_u64 (slice 32 40 src),
      h2SessionID = get_u64 (slice 40 48 src),
      h2SeqNo = get_u64 (slice 48 56 src),
      h2OffsetBytes = get_u64 (slice 56 64 src),
      h2LengthBytes = get_u32 (slice 64 68 src),
      h2AuthLen = get_u16 (slice 68 70 src),
      h2Reserved = get_u16 (slice 70 72 src),
      h2CRC32C = get_u32 (slice 72 76 src)\<rparr>"

definition EncodeMessageV2 :: "HeaderV2 \<Rightarrow> bytes \<Rightarrow> bytes \<Rightarrow> (wire2_error + bytes) \<times> HeaderV2" where
  "EncodeMessageV2 h0 payload authTag0 =
     (let needTag = (h2Op h0 \<noteq> OpHello \<and> h2Op h0 \<noteq> OpHelloAck)
      in if needTag \<and> length authTag0 \<noteq> AuthTagSize then (Inl ErrAuthTagLength, h0)
         else
           let authTag = (if \<not> needTag \<and> length authTag0 > 0 then [] else authTag0);
               h = h0\<lparr>h2Magic := MagicV2, h2Version := VersionV2,
                      h2HeaderLen := of_nat HeaderSizeV2,
                      h2LengthBytes := of_nat (length payload),
                      h2AuthLen := (if needTag \<and> length authTag = AuthTagSize
                                    then of_nat AuthTagSize else 0)\<rparr>;
               hdr = putHeaderWithoutCRCV2 h;
               crc = crc32c (take 72 hdr)
           in (Inr (take 72 hdr @ put_u32 crc @ payload @
                    (if h2AuthLen h > 0 then authTag else [])), h))"

definition DecodeMessageV2 :: "bytes \<Rightarrow> wire2_error + (HeaderV2 \<times> bytes \<times> bytes)" where
  "DecodeMessageV2 buf =
     (if length buf < HeaderSizeV2 then Inl ErrShortMessageV2
      else let h = parseHeaderV2 (take HeaderSizeV2 buf) in
        if h2Magic h \<noteq> MagicV2 then Inl ErrBadMagicValueV2
        else if h2Version h \<noteq> VersionV2 then Inl ErrBadVersionV2
        else if h2HeaderLen h \<noteq> of_nat HeaderSizeV2 then Inl ErrBadHeaderLenV2
        else let expectedLen = HeaderSizeV2 + unat (h2LengthBytes h) + unat (h2AuthLen h) in
          if length buf < expectedLen then Inl ErrShortMessageV2
          else if length buf > expectedLen then Inl ErrLengthMismatchV2
          else if h2CRC32C h \<noteq> crc32c (take 72 buf) then Inl ErrHeaderCRC32CV2
          else Inr (h, slice HeaderSizeV2 (HeaderSizeV2 + unat (h2LengthBytes h)) buf,
                    if h2AuthLen h > 0 then drop (HeaderSizeV2 + unat (h2LengthBytes h)) buf else []))"

definition put_response_tail2 :: "ResponseHeaderV2 \<Rightarrow> bytes" where
  "put_response_tail2 r =
     put_u32 (r2StatusCode r) @ put_u32 (r2BackendLatencyUS r) @ put_u32 (r2GatewayLatencyUS r) @
     put_u32 (r2PathID r) @ put_u32 (r2Reserved r)"

definition EncodeResponseMessageV2 ::
    "ResponseHeaderV2 \<Rightarrow> bytes \<Rightarrow> bytes \<Rightarrow> bytes \<times> ResponseHeaderV2" where
  "EncodeResponseMessageV2 r0 payload authTag =
     (let base = (r2Base r0)\<lparr>h2Magic := MagicV2, h2Version := VersionV2,
                   h2HeaderLen := of_nat ResponseHeaderSizeV2,
                   h2LengthBytes := of_nat (length payload),
                   h2AuthLen := (if length authTag = AuthTagSize then of_nat AuthTagSize else 0)\<rparr>;
          hdr = putHeaderWithoutCRCV2 base;
          crc = crc32c (take 72 hdr)
      in (take 72 hdr @ put_u32 crc @ put_response_tail2 r0 @ payload @
            (if h2AuthLen base > 0 then authTag else []),
          r0\<lparr>r2Base := base\<rparr>))"

definition DecodeResponseMessageV2 :: "bytes \<Rightarrow> wire2_error + (ResponseHeaderV2 \<times> bytes \<times> bytes)" where
  "DecodeResponseMessageV2 buf =
     (if length buf < ResponseHeaderSizeV2 then Inl ErrShortMessageV2
      else let base = parseHeaderV2 (take HeaderSizeV2 buf) in
        if h2Magic base \<noteq> MagicV2 \<or> h2Version base \<noteq> VersionV2 then Inl ErrBadMagicValueV2
        else if h2CRC32C base \<noteq> crc32c (take 72 buf) then Inl ErrHeaderCRC32CV2
        else
          let r = \<lparr>r2Base = base,
                   r2StatusCode = get_u32 (slice 76 80 buf),
                   r2BackendLatencyUS = get_u32 (slice 80 84 buf),
                   r2GatewayLatencyUS = get_u32 (slice 84 88 buf),
                   r2PathID = get_u32 (slice 88 92 buf),
                   r2Reserved = get_u32 (slice 92 96 buf)\<rparr>;
              expectedLen = ResponseHeaderSizeV2 + unat (h2LengthBytes base) + unat (h2AuthLen base);
              tagAt = ResponseHeaderSizeV2 + unat (h2LengthBytes base)
          in if length buf < expectedLen then Inl ErrShortMessageV2
             else Inr (r, slice ResponseHeaderSizeV2 tagAt buf,
                       if h2AuthLen base > 0 then take (unat (h2AuthLen base)) (drop tagAt buf) else []))"

subsection \<open>Authentication (auth.go) and replay (seq.go)\<close>

definition AAD :: "HeaderV2 \<Rightarrow> bytes" where
  "AAD h =
     put_u16 (h2Version h) @ put_u32 (h2Op h) @ put_u64 (h2RequestID h) @ put_u64 (h2VolumeID h) @
     put_u64 (h2Generation h) @ put_u64 (h2SessionID h) @ put_u64 (h2SeqNo h) @
     put_u64 (h2OffsetBytes h) @ put_u32 (h2LengthBytes h)"

definition ComputeAuthTag :: "bytes \<Rightarrow> HeaderV2 \<Rightarrow> bytes \<Rightarrow> bytes" where
  "ComputeAuthTag sessionKey h payload = hmac_sha256 sessionKey (AAD h @ payload)"

definition VerifyAuthTag :: "bytes \<Rightarrow> HeaderV2 \<Rightarrow> bytes \<Rightarrow> bytes \<Rightarrow> wire2_error + unit" where
  "VerifyAuthTag sessionKey h payload tag =
     (if length tag \<noteq> AuthTagSize then Inl ErrAuthTagMismatch
      else if tag \<noteq> ComputeAuthTag sessionKey h payload then Inl ErrAuthTagMismatch
      else Inr ())"

record SeqChecker =
  lastSeqNo :: u64

definition CheckNext :: "SeqChecker \<Rightarrow> u64 \<Rightarrow> (wire2_error + unit) \<times> SeqChecker" where
  "CheckNext s seq =
     (let next = lastSeqNo s + 1
      in if seq \<noteq> next then (Inl ErrReplaySeq, s) else (Inr (), s\<lparr>lastSeqNo := seq\<rparr>))"

definition LastSeq :: "SeqChecker \<Rightarrow> u64" where
  "LastSeq s = lastSeqNo s"

definition ResetSeq :: "SeqChecker \<Rightarrow> SeqChecker" where
  "ResetSeq s = s\<lparr>lastSeqNo := 0\<rparr>"

subsection \<open>Reading and writing frames (conn.go)\<close>

text \<open>
  \<open>io.ReadFull\<close> joins short reads, so a reader is the bytes that arrive before the stream ends.
\<close>

definition ReadFull :: "nat \<Rightarrow> bytes \<Rightarrow> (wire2_error + bytes) \<times> bytes" where
  "ReadFull n s =
     (if n \<le> length s then (Inr (take n s), drop n s)
      else (Inl (if s = [] then ErrEOFV2 else ErrUnexpectedEOFV2), []))"

definition ReadFrameV2 :: "u32 \<Rightarrow> bytes \<Rightarrow> (wire2_error + (bytes \<times> bytes)) \<times> HeaderV2 \<times> bytes" where
  "ReadFrameV2 maxPayloadLen s0 =
     (case ReadFull HeaderSizeV2 s0 of
        (Inl err, s1) \<Rightarrow> (Inl err, zero_header2, s1)
      | (Inr headerBuf, s1) \<Rightarrow>
          let h = parseHeaderV2 headerBuf in
          if h2Magic h \<noteq> MagicV2 \<or> h2Version h \<noteq> VersionV2 then (Inl ErrBadMagicValueV2, h, s1)
          else if h2LengthBytes h > maxPayloadLen then (Inl ErrFrameTooLargeV2, h, s1)
          else
            let tailLen = unat (h2LengthBytes h) + unat (h2AuthLen h);
                (tailRes, s2) = (if tailLen > 0 then ReadFull tailLen s1 else (Inr [], s1))
            in case tailRes of
                 Inl err \<Rightarrow> (Inl err, h, s2)
               | Inr payloadAndTag \<Rightarrow>
                   (case DecodeMessageV2 (headerBuf @ payloadAndTag) of
                      Inl err \<Rightarrow> (Inl err, h, s2)
                    | Inr (h', p2, t2) \<Rightarrow> (Inr (p2, t2), h', s2)))"

definition ParseVersion :: "bytes \<Rightarrow> (wire2_error + u16) \<times> bytes \<times> bytes" where
  "ParseVersion s0 =
     (case ReadFull 6 s0 of
        (Inl err, s1) \<Rightarrow> (Inl err, [], s1)
      | (Inr first6, s1) \<Rightarrow>
          if get_u32 (slice 0 4 first6) \<noteq> MagicV2 then (Inl ErrBadMagicValueV2, first6, s1)
          else (Inr (get_u16 (slice 4 6 first6)), first6, s1))"

subsection \<open>Layout lemmas\<close>

lemma length_header_body2 [simp]: "length (header_body2 h) = 72"
  by (simp add: header_body2_def)

lemma parseHeaderV2_body [wire_simps]:
  "parseHeaderV2 (header_body2 h @ put_u32 crc) = h\<lparr>h2CRC32C := crc\<rparr>"
  by (simp add: parseHeaderV2_def header_body2_def slice_def)

lemma header_body2_crc [simp]: "header_body2 (h\<lparr>h2CRC32C := c\<rparr>) = header_body2 h"
  by (simp add: header_body2_def)

lemma header_body2_parse:
  assumes "76 \<le> length src"
  shows "header_body2 (parseHeaderV2 src) = slice 0 72 src"
proof -
  have "header_body2 (parseHeaderV2 src) =
      slice 0 4 src @ slice 4 6 src @ slice 6 8 src @ slice 8 12 src @ slice 12 16 src @
      slice 16 24 src @ slice 24 32 src @ slice 32 40 src @ slice 40 48 src @ slice 48 56 src @
      slice 56 64 src @ slice 64 68 src @ slice 68 70 src @ slice 70 72 src"
    using assms by (simp add: header_body2_def parseHeaderV2_def)
  also have "\<dots> = slice 0 72 src"
    by (simp add: slice_adjacent)
  finally show ?thesis .
qed

lemma header2_split:
  assumes "76 \<le> length msg"
  shows "msg = header_body2 (parseHeaderV2 (take 76 msg)) @
           put_u32 (h2CRC32C (parseHeaderV2 (take 76 msg))) @ drop 76 msg"
proof -
  have "header_body2 (parseHeaderV2 (take 76 msg)) = slice 0 72 (take 76 msg)"
    by (rule header_body2_parse) (use assms in simp)
  moreover have "put_u32 (h2CRC32C (parseHeaderV2 (take 76 msg))) = slice 72 76 (take 76 msg)"
    using assms by (simp add: parseHeaderV2_def)
  moreover have "slice 0 72 (take 76 msg) @ slice 72 76 (take 76 msg) = take 76 msg"
    using assms slice_full[of "take 76 msg"] by (simp add: slice_adjacent min_absorb2)
  ultimately show ?thesis
    by (metis append.assoc append_take_drop_id)
qed

text \<open>What a frame carries for a caller's header and tag.\<close>

definition auth_op :: "u32 \<Rightarrow> bool" where
  "auth_op op \<longleftrightarrow> op \<noteq> OpHello \<and> op \<noteq> OpHelloAck"

definition wire_tag :: "HeaderV2 \<Rightarrow> bytes \<Rightarrow> bytes" where
  "wire_tag h tag = (if auth_op (h2Op h) then tag else [])"

definition sealed :: "HeaderV2 \<Rightarrow> HeaderV2" where
  "sealed h = h\<lparr>h2CRC32C := crc32c (header_body2 h)\<rparr>"

definition wire_header2 :: "HeaderV2 \<Rightarrow> bytes \<Rightarrow> HeaderV2" where
  "wire_header2 h payload =
     sealed (h\<lparr>h2Magic := MagicV2, h2Version := VersionV2, h2HeaderLen := of_nat HeaderSizeV2,
       h2LengthBytes := of_nat (length payload),
       h2AuthLen := (if auth_op (h2Op h) then of_nat AuthTagSize else 0)\<rparr>)"

lemma sealed_crc [simp]: "h2CRC32C (sealed h) = crc32c (header_body2 (sealed h))"
  by (simp add: sealed_def)

lemma wire_header2_fields [simp]:
  "h2Magic (wire_header2 h p) = MagicV2"
  "h2Version (wire_header2 h p) = VersionV2"
  "h2HeaderLen (wire_header2 h p) = of_nat HeaderSizeV2"
  "h2Op (wire_header2 h p) = h2Op h"
  "h2RequestID (wire_header2 h p) = h2RequestID h"
  "h2VolumeID (wire_header2 h p) = h2VolumeID h"
  "h2Generation (wire_header2 h p) = h2Generation h"
  "h2SessionID (wire_header2 h p) = h2SessionID h"
  "h2SeqNo (wire_header2 h p) = h2SeqNo h"
  "h2OffsetBytes (wire_header2 h p) = h2OffsetBytes h"
  "h2LengthBytes (wire_header2 h p) = of_nat (length p)"
  "h2AuthLen (wire_header2 h p) = (if auth_op (h2Op h) then 32 else 0)"
  "h2CRC32C (wire_header2 h p) = crc32c (header_body2 (wire_header2 h p))"
  by (simp_all add: wire_header2_def sealed_def AuthTagSize_def)

lemma EncodeMessageV2_layout:
  assumes "auth_op (h2Op h) \<longrightarrow> length tag = AuthTagSize"
  shows "fst (EncodeMessageV2 h p tag) =
    Inr (header_body2 (wire_header2 h p) @ put_u32 (h2CRC32C (wire_header2 h p)) @ p @ wire_tag h tag)"
  using assms
  by (auto simp: EncodeMessageV2_def Let_def putHeaderWithoutCRCV2_def wire_header2_def sealed_def
      auth_op_def wire_tag_def AuthTagSize_def)

lemma parse_frame2: "parseHeaderV2 (take 76 (header_body2 h @ put_u32 crc @ r)) = h\<lparr>h2CRC32C := crc\<rparr>"
  by (simp add: parseHeaderV2_body)

lemma DecodeMessageV2_layout:
  assumes "length p < 2 ^ 32" "auth_op (h2Op h) \<longrightarrow> length tag = AuthTagSize"
  defines "w \<equiv> wire_header2 h p"
  shows "DecodeMessageV2 (header_body2 w @ put_u32 (h2CRC32C w) @ p @ wire_tag h tag) =
    Inr (w, p, wire_tag h tag)"
proof -
  have len: "unat (of_nat (length p) :: u32) = length p"
    by (rule unat_of_nat_length) (use assms(1) in simp)
  have hdr: "w\<lparr>h2CRC32C := h2CRC32C w\<rparr> = w"
    by simp
  have tag: "length (wire_tag h tag) = unat (h2AuthLen w)"
    using assms(2) by (simp add: wire_tag_def w_def AuthTagSize_def)
  have none: "\<not> h2AuthLen w > 0 \<Longrightarrow> wire_tag h tag = []"
    by (simp add: wire_tag_def w_def split: if_splits)
  have "h2Magic w = MagicV2" "h2Version w = VersionV2" "h2HeaderLen w = 76"
    "unat (h2LengthBytes w) = length p" and crc: "crc32c (header_body2 w) = h2CRC32C w"
    using len by (simp_all add: w_def HeaderSizeV2_def)
  then show ?thesis
    using tag none
    by (auto simp: DecodeMessageV2_def Let_def v2_sizes parseHeaderV2_body hdr slice_def)
qed

subsection \<open>Frames on a stream\<close>

text \<open>
  C19. A version 2 frame written by the encoder is read back whole from any stream it starts: the
  payload, the tag (dropped for the two handshake operations) and the header with the fields the
  encoder fixes, and the reader stands at the byte after the frame.
\<close>

theorem ReadFrameV2_EncodeMessageV2:
  assumes "length p \<le> unat limit" "auth_op (h2Op h) \<longrightarrow> length tag = AuthTagSize"
  shows "\<exists>frame. fst (EncodeMessageV2 h p tag) = Inr frame
    \<and> ReadFrameV2 limit (frame @ rest) = (Inr (p, wire_tag h tag), wire_header2 h p, rest)"
proof -
  let ?w = "wire_header2 h p"
  let ?hdr = "header_body2 ?w @ put_u32 (h2CRC32C ?w)"
  let ?tail = "p @ wire_tag h tag"
  have "unat limit < 2 ^ 32"
    using unsigned_less[of limit] by simp
  with assms(1) have short: "length p < 2 ^ 32"
    by simp
  then have len: "unat (of_nat (length p) :: u32) = length p"
    by (intro unat_of_nat_length) simp
  have tail_len: "unat (h2LengthBytes ?w) + unat (h2AuthLen ?w) = length ?tail"
    using assms(2) len by (simp add: wire_tag_def AuthTagSize_def)
  have full: "ReadFull 76 (?hdr @ ?tail @ rest) = (Inr ?hdr, ?tail @ rest)"
    by (simp add: ReadFull_def)
  have rest_read: "(if length ?tail > 0 then ReadFull (length ?tail) (?tail @ rest)
      else (Inr [], ?tail @ rest)) = (Inr ?tail, rest)"
    by (simp add: ReadFull_def)
  have fits: "\<not> h2LengthBytes ?w > limit"
    using assms(1) len by (simp add: word_less_nat_alt)
  have dec: "DecodeMessageV2 (?hdr @ ?tail) = Inr (?w, p, wire_tag h tag)"
    using DecodeMessageV2_layout[OF short assms(2)] by (simp del: wire_header2_fields)
  have hdr: "parseHeaderV2 ?hdr = ?w"
    by (simp only: parseHeaderV2_body) simp
  have "ReadFrameV2 limit (?hdr @ ?tail @ rest) = (Inr (p, wire_tag h tag), ?w, rest)"
    unfolding ReadFrameV2_def HeaderSizeV2_def full
    using fits by (simp only: prod.case sum.case hdr Let_def tail_len rest_read dec) simp
  then show ?thesis
    using EncodeMessageV2_layout[OF assms(2), of p] by (simp del: wire_header2_fields)
qed

theorem ReadFrameV2_EncodeMessageV2_witness:
  "let h = zero_header2\<lparr>h2Op := OpWrite, h2SessionID := 9, h2SeqNo := 1\<rparr>; tag = replicate 32 7
   in \<exists>frame. fst (EncodeMessageV2 h [1, 2] tag) = Inr frame
     \<and> ReadFrameV2 4096 (frame @ [5]) = (Inr ([1, 2], tag), wire_header2 h [1, 2], [5])"
proof -
  let ?h = "zero_header2\<lparr>h2Op := OpWrite, h2SessionID := 9, h2SeqNo := 1\<rparr>"
  have "wire_tag ?h (replicate 32 7) = replicate 32 7"
    by (simp add: wire_tag_def auth_op_def v2_ops op_defs)
  then show ?thesis
    using ReadFrameV2_EncodeMessageV2[of "[1, 2]" 4096 ?h "replicate 32 7" "[5]"]
    by (simp add: Let_def AuthTagSize_def)
qed

subsection \<open>What a tag authenticates\<close>

lemma length_AAD [simp]: "length (AAD h) = 58"
  by (simp add: AAD_def)

definition authenticated_part ::
    "HeaderV2 \<Rightarrow> u16 \<times> u32 \<times> u64 \<times> u64 \<times> u64 \<times> u64 \<times> u64 \<times> u64 \<times> u32" where
  "authenticated_part h =
     (h2Version h, h2Op h, h2RequestID h, h2VolumeID h, h2Generation h, h2SessionID h, h2SeqNo h,
      h2OffsetBytes h, h2LengthBytes h)"

lemma put_inj:
  "put_u16 a = put_u16 a' \<longleftrightarrow> a = a'"
  "put_u32 b = put_u32 b' \<longleftrightarrow> b = b'"
  "put_u64 c = put_u64 c' \<longleftrightarrow> c = c'"
  by (metis get_put_u16, metis get_put_u32, metis get_put_u64)

lemma AAD_inject:
  "AAD h @ p = AAD h' @ p' \<longleftrightarrow> authenticated_part h = authenticated_part h' \<and> p = p'"
  by (simp add: AAD_def authenticated_part_def append_eq_append_conv put_inj conj_ac)

text \<open>
  C20. A tag the verifier accepts is the message authentication code, under the session key, of a
  string that determines the version, operation, request, volume, generation, session, sequence
  number, offset, length and payload of the frame: two frames with the same authenticated string
  agree on all of them, so moving a tag to another frame needs a collision of the code itself.
\<close>

theorem VerifyAuthTag_binds_frame:
  assumes "VerifyAuthTag key h p tag = Inr ()"
  shows "tag = hmac_sha256 key (AAD h @ p) \<and> length tag = AuthTagSize
    \<and> (\<forall>h' p'. VerifyAuthTag key h' p' tag = Inr () \<longrightarrow>
         authenticated_part h' = authenticated_part h \<and> p' = p
         \<or> AAD h' @ p' \<noteq> AAD h @ p \<and> hmac_sha256 key (AAD h' @ p') = hmac_sha256 key (AAD h @ p))"
  using assms AAD_inject
  by (auto simp: VerifyAuthTag_def ComputeAuthTag_def split: if_splits)

theorem VerifyAuthTag_binds_frame_witness:
  "let h = zero_header2\<lparr>h2Op := OpFlush\<rparr>; tag = ComputeAuthTag [1, 2, 3] h []
   in VerifyAuthTag [1, 2, 3] h [] tag = Inr () \<and> tag = hmac_sha256 [1, 2, 3] (AAD h @ [])"
proof -
  let ?h = "zero_header2\<lparr>h2Op := OpFlush\<rparr>"
  have ok: "VerifyAuthTag [1, 2, 3] ?h [] (ComputeAuthTag [1, 2, 3] ?h []) = Inr ()"
    by (simp add: VerifyAuthTag_def ComputeAuthTag_def AuthTagSize_def)
  then show ?thesis
    using VerifyAuthTag_binds_frame[OF ok] by (simp add: Let_def)
qed

subsection \<open>Replay protection\<close>

text \<open>The sequence numbers a checker accepts of a stream of frames, in order.\<close>

fun accepted_seqs :: "SeqChecker \<Rightarrow> u64 list \<Rightarrow> u64 list" where
  "accepted_seqs s [] = []"
| "accepted_seqs s (x # xs) =
     (case CheckNext s x of
        (Inl _, s') \<Rightarrow> accepted_seqs s' xs
      | (Inr _, s') \<Rightarrow> x # accepted_seqs s' xs)"

lemma accepted_seqs_consecutive:
  "accepted_seqs s xs = map (\<lambda>i. lastSeqNo s + 1 + of_nat i) [0..<length (accepted_seqs s xs)]"
proof (induction xs arbitrary: s)
  case (Cons x xs)
  show ?case
  proof (cases "x = lastSeqNo s + 1")
    case True
    then have "accepted_seqs s (x # xs) = x # accepted_seqs (s\<lparr>lastSeqNo := x\<rparr>) xs"
      by (simp add: CheckNext_def)
    moreover have "accepted_seqs (s\<lparr>lastSeqNo := x\<rparr>) xs =
        map (\<lambda>i. x + 1 + of_nat i) [0..<length (accepted_seqs (s\<lparr>lastSeqNo := x\<rparr>) xs)]"
      using Cons.IH[of "s\<lparr>lastSeqNo := x\<rparr>"] by simp
    ultimately show ?thesis
      using True by (simp add: upt_conv_Cons map_Suc_upt[symmetric] o_def ac_simps del: upt_Suc)
  next
    case False
    then show ?thesis
      using Cons.IH[of s] by (simp add: CheckNext_def)
  qed
qed simp

text \<open>
  Whatever arrives on a session, the accepted sequence numbers are exactly the consecutive ones
  after the last accepted one. In particular no number is accepted twice within the first 2^64
  accepted frames of a session.
\<close>

theorem CheckNext_no_replay:
  "accepted_seqs s xs = map (\<lambda>i. lastSeqNo s + 1 + of_nat i) [0..<length (accepted_seqs s xs)]
   \<and> (length (accepted_seqs s xs) \<le> 2 ^ 64 \<longrightarrow> distinct (accepted_seqs s xs))"
proof (intro conjI impI)
  let ?n = "length (accepted_seqs s xs)"
  show eq: "accepted_seqs s xs = map (\<lambda>i. lastSeqNo s + 1 + of_nat i) [0..<?n]"
    by (rule accepted_seqs_consecutive)
  assume "?n \<le> 2 ^ 64"
  then have "inj_on (\<lambda>i. lastSeqNo s + 1 + (of_nat i :: u64)) {0..<?n}"
    by (intro inj_onI) (auto dest!: arg_cong[where f = unat] simp: unsigned_of_nat take_bit_nat_eq_self)
  then have "distinct (map (\<lambda>i. lastSeqNo s + 1 + (of_nat i :: u64)) [0..<?n])"
    by (simp add: distinct_map)
  with eq show "distinct (accepted_seqs s xs)"
    by simp
qed

theorem CheckNext_no_replay_witness:
  "accepted_seqs \<lparr>lastSeqNo = 0\<rparr> [1, 1, 3, 2, 2, 3] = [1, 2, 3]
   \<and> distinct (accepted_seqs \<lparr>lastSeqNo = 0\<rparr> [1, 1, 3, 2, 2, 3])"
  using CheckNext_no_replay[of "\<lparr>lastSeqNo = 0\<rparr>" "[1, 1, 3, 2, 2, 3]"]
  by (simp add: CheckNext_def Let_def)

end
