(* ===== verification/VolumeId.thy ===== *)
theory VolumeId
  imports Prelude
begin

unbundle bit_operations_syntax

section \<open>Volume identifiers (volumeid)\<close>

text \<open>
  The canonical text form of a volume id: exactly eight hexadecimal digits of its low 32 bits. A
  parse result is the id, zero-extended to 64 bits, or an error. A string is its bytes; a rune
  outside ASCII is several bytes, none of which is a digit, so both loops over runes are loops over
  bytes here.
\<close>

definition VolumeIdLen :: nat where "VolumeIdLen = 8"

definition Format :: "u64 \<Rightarrow> string" where
  "Format volumeID = hex_digits 8 (ucast volumeID)"

definition is_dec :: "char \<Rightarrow> bool" where
  "is_dec r \<longleftrightarrow> of_char r \<ge> (48 :: nat) \<and> of_char r \<le> (57 :: nat)"

definition is_lower_hex :: "char \<Rightarrow> bool" where
  "is_lower_hex r \<longleftrightarrow> of_char r \<ge> (97 :: nat) \<and> of_char r \<le> (102 :: nat)"

definition is_upper_hex :: "char \<Rightarrow> bool" where
  "is_upper_hex r \<longleftrightarrow> of_char r \<ge> (65 :: nat) \<and> of_char r \<le> (70 :: nat)"

text \<open>strings.ToLower on ASCII letters, and strconv.ParseUint with base 16 and 32 bits.\<close>

definition lower_char :: "char \<Rightarrow> char" where
  "lower_char c =
     (if of_char c \<ge> (65 :: nat) \<and> of_char c \<le> (90 :: nat) then char_of (of_char c + (32 :: nat)) else c)"

definition hex_val :: "char \<Rightarrow> nat option" where
  "hex_val c =
     (if is_dec c then Some (of_char c - 48)
      else if is_lower_hex c then Some (of_char c - 87)
      else if is_upper_hex c then Some (of_char c - 55)
      else None)"

fun parse_hex :: "nat \<Rightarrow> string \<Rightarrow> nat option" where
  "parse_hex acc [] = Some acc"
| "parse_hex acc (c # cs) =
     (case hex_val c of None \<Rightarrow> None | Some d \<Rightarrow> parse_hex (16 * acc + d) cs)"

definition ParseUint16_32 :: "string \<Rightarrow> u64 option" where
  "ParseUint16_32 s =
     (if s = [] then None
      else case parse_hex 0 s of
        None \<Rightarrow> None
      | Some v \<Rightarrow> if v < 2 ^ 32 then Some (of_nat v) else None)"

datatype volume_id_error = ErrVolumeIdLength | ErrVolumeIdDigit | ErrVolumeIdNumber

definition Parse :: "string \<Rightarrow> volume_id_error + u64" where
  "Parse s0 =
     (let s = TrimSpace s0 in
      if length s \<noteq> VolumeIdLen then Inl ErrVolumeIdLength
      else if \<not> (\<forall>r \<in> set s. is_dec r \<or> is_lower_hex r \<or> is_upper_hex r) then Inl ErrVolumeIdDigit
      else case ParseUint16_32 (map lower_char s) of
             None \<Rightarrow> Inl ErrVolumeIdNumber
           | Some v \<Rightarrow> Inr v)"

definition ParseLowercase :: "string \<Rightarrow> volume_id_error + u64" where
  "ParseLowercase s0 =
     (let s = TrimSpace s0 in
      if length s \<noteq> VolumeIdLen then Inl ErrVolumeIdLength
      else if \<exists>r \<in> set s. of_char r < (48 :: nat) \<or> of_char r > (102 :: nat)
             \<or> (of_char r > (57 :: nat) \<and> of_char r < (97 :: nat)) then Inl ErrVolumeIdDigit
      else case ParseUint16_32 s of
             None \<Rightarrow> Inl ErrVolumeIdNumber
           | Some v \<Rightarrow> Inr v)"

subsection \<open>Digits\<close>

lemma digit_char_code: "d < 16 \<Longrightarrow> of_char (digit_char d) = (if d < 10 then 48 + d else 87 + d)"
  by (auto simp: digit_char_def of_char_of take_bit_eq_mod)

lemma digit_char_hex:
  assumes "d < 16"
  shows "hex_val (digit_char d) = Some d"
    and "is_dec (digit_char d) \<or> is_lower_hex (digit_char d)"
    and "lower_char (digit_char d) = digit_char d"
  using assms digit_char_code[OF assms]
  by (auto simp: hex_val_def is_dec_def is_lower_hex_def is_upper_hex_def lower_char_def)

lemma parse_hex_append:
  "parse_hex acc (xs @ ys) = (case parse_hex acc xs of None \<Rightarrow> None | Some v \<Rightarrow> parse_hex v ys)"
  by (induction xs arbitrary: acc) (auto split: option.splits)

lemma nibble: "unat (drop_bit (4 * k) (w :: u32) AND 15) = unat w div 16 ^ k mod 16"
proof -
  have "drop_bit (4 * k) w AND 15 = take_bit 4 (drop_bit (4 * k) w)"
    by (simp add: take_bit_eq_mask mask_eq_exp_minus_1)
  moreover have "unat w < 2 ^ 32"
    using unsigned_less[of w] by simp
  then have "unat (drop_bit (4 * k) w) = unat w div 2 ^ (4 * k)"
    by (simp only: unsigned_drop_bit_eq) (simp add: take_bit_nat_eq_self drop_bit_eq_div)
  ultimately have "unat (drop_bit (4 * k) w AND 15) = take_bit 4 (unat w div 2 ^ (4 * k))"
    by (simp only: unsigned_take_bit_eq)
  then show ?thesis
    by (simp add: take_bit_eq_mod power_mult)
qed

lemma hex_digits_Suc:
  "hex_digits (Suc k) w = digit_char (unat w div 16 ^ k mod 16) # hex_digits k w"
  by (simp add: hex_digits_def nibble)

lemma length_hex_digits [simp]: "length (hex_digits k w) = k"
  by (simp add: hex_digits_def)

lemma parse_hex_digits:
  "parse_hex acc (hex_digits k w) = Some (acc * 16 ^ k + unat w mod 16 ^ k)"
proof (induction k arbitrary: acc)
  case 0
  then show ?case by (simp add: hex_digits_def)
next
  case (Suc k)
  have "unat w mod (16 ^ k * 16) = 16 ^ k * (unat w div 16 ^ k mod 16) + unat w mod 16 ^ k"
    by (rule mod_mult2_eq)
  then show ?case
    using Suc.IH by (simp add: hex_digits_Suc digit_char_hex(1) algebra_simps)
qed

lemma hex_digits_chars:
  "c \<in> set (hex_digits k w) \<Longrightarrow> \<exists>d < 16. c = digit_char d"
proof (induction k)
  case 0
  then show ?case by (simp add: hex_digits_def)
next
  case (Suc k)
  have "unat w div 16 ^ k mod 16 < 16" by simp
  with Suc show ?case by (auto simp: hex_digits_Suc simp del: mod_less_divisor)
qed

lemma hex_digits_digits:
  assumes "c \<in> set (hex_digits k w)"
  shows "is_dec c \<or> is_lower_hex c" "lower_char c = c"
  using hex_digits_chars[OF assms] digit_char_hex(2,3) by auto

lemma unat_low_word: "unat (ucast (v :: u64) :: u32) = unat v mod 2 ^ 32"
  by (simp add: unsigned_ucast_eq take_bit_eq_mod)

lemma ParseUint_Format: "ParseUint16_32 (Format v) = Some (of_nat (unat v mod 2 ^ 32))"
proof -
  have "Format v \<noteq> []"
    by (simp add: Format_def hex_digits_Suc flip: length_greater_0_conv)
  then show ?thesis
    by (simp add: ParseUint16_32_def Format_def parse_hex_digits unat_low_word)
qed

lemma Format_digits:
  assumes "c \<in> set (Format v)"
  shows "is_dec c \<or> is_lower_hex c" "lower_char c = c" "graphic c"
  using hex_digits_digits[of c 8 "ucast v"] assms
  by (auto simp: Format_def graphic_def is_dec_def is_lower_hex_def)

lemma TrimSpace_Format [simp]: "TrimSpace (Format v) = Format v"
  by (rule TrimSpace_graphic) (simp add: Format_digits)

lemma length_Format [simp]: "length (Format v) = 8"
  by (simp add: Format_def)

lemma map_lower_Format: "map lower_char (Format v) = Format v"
  by (simp add: map_idI Format_digits)

text \<open>
  C21. Both parsers read the canonical text of a volume id back as its low 32 bits, so ids below
  2^32 survive the round trip exactly, and the canonical text is always eight lower-case digits.
\<close>

theorem Parse_Format:
  "Parse (Format v) = Inr (of_nat (unat v mod 2 ^ 32))
   \<and> ParseLowercase (Format v) = Inr (of_nat (unat v mod 2 ^ 32))
   \<and> length (Format v) = 8 \<and> list_all (\<lambda>c. is_dec c \<or> is_lower_hex c) (Format v)"
proof (intro conjI)
  have digits: "\<forall>c \<in> set (Format v). is_dec c \<or> is_lower_hex c \<or> is_upper_hex c"
    using Format_digits(1) by blast
  then show "Parse (Format v) = Inr (of_nat (unat v mod 2 ^ 32))"
    by (simp add: Parse_def VolumeIdLen_def map_lower_Format ParseUint_Format)
  have "\<not> (\<exists>r \<in> set (Format v). of_char r < (48 :: nat) \<or> of_char r > (102 :: nat)
      \<or> of_char r > (57 :: nat) \<and> of_char r < (97 :: nat))"
    using Format_digits(1)[of _ v] by (fastforce simp: is_dec_def is_lower_hex_def)
  then show "ParseLowercase (Format v) = Inr (of_nat (unat v mod 2 ^ 32))"
    by (auto simp: ParseLowercase_def VolumeIdLen_def ParseUint_Format Let_def)
  show "length (Format v) = 8" "list_all (\<lambda>c. is_dec c \<or> is_lower_hex c) (Format v)"
    by (simp_all add: list_all_iff Format_digits(1))
qed

lemma Format_inject:
  assumes "v < 2 ^ 32" "w < 2 ^ 32"
  shows "Format v = Format w \<longleftrightarrow> v = w"
proof
  have small: "of_nat (unat x mod 2 ^ 32) = x" if "x < 2 ^ 32" for x :: u64
    using that by (simp add: word_less_nat_alt)
  assume "Format v = Format w"
  then have "of_nat (unat v mod 2 ^ 32) = (of_nat (unat w mod 2 ^ 32) :: u64)"
    using ParseUint_Format[of v] ParseUint_Format[of w] by simp
  then show "v = w"
    using small assms by simp
qed simp

end
