(* ===== verification/VolumeTypes.thy ===== *)
theory VolumeTypes
  imports VolumeId
begin

section \<open>Volume metadata (gateway/service/repository.go)\<close>

text \<open>
  The records of the metadata repository and the pure functions on them: normalisation, the
  protected state, the immutability of a volume's geometry, key prefixes and the header of an
  encrypted chunk. The string-typed enumerations of the source are strings here, with the source's
  constants. Unix times are integers. A pointer that may be nil is an option.
\<close>

subsection \<open>Constants\<close>

definition DefaultBlockSize :: u32 where "DefaultBlockSize = 4096"
definition DefaultAllocationChunkSize :: u32 where "DefaultAllocationChunkSize = 64 * 1024"
definition DefaultAllocationPageSize :: u32 where "DefaultAllocationPageSize = 4 * 1024 * 1024"

definition VolumeAccessModeExclusive :: string where "VolumeAccessModeExclusive = ''exclusive''"
definition VolumeStateAvailable :: string where "VolumeStateAvailable = ''available''"
definition VolumeStateInUse :: string where "VolumeStateInUse = ''in_use''"
definition VolumeStateDisabled :: string where "VolumeStateDisabled = ''disabled''"
definition VolumeProtectedStateSealed :: string where "VolumeProtectedStateSealed = ''sealed''"
definition ProtectedWriteReasonSealedReadOnly :: string where
  "ProtectedWriteReasonSealedReadOnly = ''worm_sealed_read_only''"
definition RedundancyBackendReplicated :: string where "RedundancyBackendReplicated = ''replicated''"
definition GatewayStateUnknown :: string where "GatewayStateUnknown = ''unknown''"
definition GatewayStateUp :: string where "GatewayStateUp = ''up''"
definition GatewayStateDetached :: string where "GatewayStateDetached = ''detached''"
definition AllocationChunkKindData :: string where "AllocationChunkKindData = ''data''"
definition AllocationChunkKindZero :: string where "AllocationChunkKindZero = ''zero''"

lemmas state_strings = VolumeStateAvailable_def VolumeStateInUse_def VolumeStateDisabled_def
lemmas default_sizes = DefaultBlockSize_def DefaultAllocationChunkSize_def DefaultAllocationPageSize_def
lemmas kind_strings = AllocationChunkKindData_def AllocationChunkKindZero_def

text \<open>The error values of the service package, as service.go declares them.\<close>

datatype service_error =
    ErrVolumeNotFound
  | ErrVolumeDisabled
  | ErrBadAlignment
  | ErrDiscardAlignment
  | ErrOutOfRange
  | ErrBadDataLength
  | ErrHostIDRequired
  | ErrAttachmentIDRequired
  | ErrAttachConflict
  | ErrDetachConflict
  | ErrGatewayNotFound
  | ErrVolumeNameRequired
  | ErrVolumeNameConflict
  | ErrVolumeNotDetached
  | ErrVolumeHasObjects
  | ErrVolumeGeometryChange
  | ErrMetadataCASConflict
  | ErrWriterFenced
  | ErrNotSupported
  | ErrKeyAdmissionRejected
  | ErrProtectedWriteRejected
  | ErrSBS string bool
  | ErrDeadlineExceeded
  | ErrCanceled
  | ErrOther string

subsection \<open>Protected state\<close>

record VolumeProtectedState =
  psState :: string
  psReasonCode :: string
  psSealedObjectID :: string
  psSealOperationID :: string
  psPolicySnapshotID :: string
  psLifecycleState :: string
  psSourceVolumeID :: string

definition Normalize :: "VolumeProtectedState \<Rightarrow> VolumeProtectedState" where
  "Normalize p =
     \<lparr>psState = TrimSpace (psState p),
      psReasonCode = TrimSpace (psReasonCode p),
      psSealedObjectID = TrimSpace (psSealedObjectID p),
      psSealOperationID = TrimSpace (psSealOperationID p),
      psPolicySnapshotID = TrimSpace (psPolicySnapshotID p),
      psLifecycleState = TrimSpace (psLifecycleState p),
      psSourceVolumeID = TrimSpace (psSourceVolumeID p)\<rparr>"

definition IsZero :: "VolumeProtectedState \<Rightarrow> bool" where
  "IsZero p0 =
     (let p = Normalize p0
      in psState p = '''' \<and> psReasonCode p = '''' \<and> psSealedObjectID p = '''' \<and>
         psSealOperationID p = '''' \<and> psPolicySnapshotID p = '''' \<and>
         psLifecycleState p = '''' \<and> psSourceVolumeID p = '''')"

definition WriteRejectionReason :: "VolumeProtectedState \<Rightarrow> string option" where
  "WriteRejectionReason p0 =
     (let p = Normalize p0
      in if psState p \<noteq> VolumeProtectedStateSealed then None
         else if psReasonCode p = '''' then Some ProtectedWriteReasonSealedReadOnly
         else Some (psReasonCode p))"

lemma Normalize_idem [simp]: "Normalize (Normalize p) = Normalize p"
  by (simp add: Normalize_def)

lemma IsZero_Normalize [simp]: "IsZero (Normalize p) = IsZero p"
  by (simp add: IsZero_def)

lemma WriteRejectionReason_Normalize [simp]: "WriteRejectionReason (Normalize p) = WriteRejectionReason p"
  by (simp add: WriteRejectionReason_def)

subsection \<open>Volumes, attachments and status\<close>

record VolumeSpec =
  vID :: u64
  vName :: string
  vPrefix :: string
  vSizeBytes :: u64
  vBlockSize :: u32
  vChunkSizeBytes :: u32
  vExtentPageBytes :: u32
  vAccessMode :: string
  vState :: string
  vProtectedState :: "VolumeProtectedState option"
  vRedundancyBackend :: string
  vTopologyMode :: string
  vECProfileID :: string
  vECCodecID :: string
  vECDataShards :: u32
  vECParityShards :: u32
  vECStripeUnitBytes :: u32
  vECFailureDomain :: string
  vECMaxUnavailableFailureDomains :: u32
  vECMaxShardsPerFailureDomain :: u32
  vWeakPlacementAllowed :: bool

definition zero_volume :: VolumeSpec where
  "zero_volume =
     \<lparr>vID = 0, vName = '''', vPrefix = '''', vSizeBytes = 0, vBlockSize = 0, vChunkSizeBytes = 0,
      vExtentPageBytes = 0, vAccessMode = '''', vState = '''', vProtectedState = None,
      vRedundancyBackend = '''', vTopologyMode = '''', vECProfileID = '''', vECCodecID = '''',
      vECDataShards = 0, vECParityShards = 0, vECStripeUnitBytes = 0, vECFailureDomain = '''',
      vECMaxUnavailableFailureDomains = 0, vECMaxShardsPerFailureDomain = 0,
      vWeakPlacementAllowed = False\<rparr>"

record AttachmentRecord =
  aGeneration :: u64
  aHostID :: string
  aAttachmentID :: string
  aDeviceID :: u32
  aOwnerGatewayID :: string
  aLeaseID :: string
  aAttachedAtUnix :: int

definition zero_attachment :: AttachmentRecord where
  "zero_attachment =
     \<lparr>aGeneration = 0, aHostID = '''', aAttachmentID = '''', aDeviceID = 0, aOwnerGatewayID = '''',
      aLeaseID = '''', aAttachedAtUnix = 0\<rparr>"

record VolumeStatusRecord =
  sVolumeID :: u64
  sInUse :: bool
  sCurrentAttachmentID :: string
  sCurrentHostID :: string
  sCurrentGatewayID :: string
  sGatewayConnectionState :: string
  sDesiredActiveGatewaySet :: "string list"
  sObservedActiveGatewaySet :: "string list"
  sPathPlanRevision :: u64
  sAttachmentGeneration :: u64
  sWriterFencingEpoch :: u64
  sPathPlanNeedsAttention :: bool
  sPathPlanAttentionReasons :: "string list"
  sPathPlanRecommendedActions :: "string list"
  sPathPlanReapplyRequested :: bool
  sPathPlanReapplyReason :: string
  sPathPlanReapplyRequestedAtUnix :: int
  sRuntimePathNeedsAttention :: bool
  sRuntimePathAttentionReasons :: "string list"
  sRuntimePathRecommendedActions :: "string list"
  sRuntimePathFeedbackCount :: u64
  sLastRuntimePathFeedbackUnix :: int
  sRuntimePathFeedbackSourceHost :: string
  sRuntimePathReductionHoldUntilUnix :: int
  sRuntimePathExpansionBackoffLevel :: u32
  sRuntimePathExpansionEligibleAtUnix :: int
  sRuntimeAppliedPathPlanRevision :: u64
  sRuntimeAppliedPathReportedAtUnix :: int
  sRuntimeNoPathState :: string
  sRuntimeNoPathRetryMode :: string
  sRuntimeNoPathRetrySeconds :: u32
  sRuntimeNoPathQueuedReqs :: u64
  sRuntimeNoPathRequeuedReqs :: u64
  sRuntimeNoPathFailedReqs :: u64
  sRuntimeNoPathRecoveredReqs :: u64
  sRuntimeNoPathEnterCount :: u64
  sRuntimeNoPathLastReason :: string
  sRuntimeNoPathLastFeedbackUnix :: int
  sControllerReconcileRequestedAtUnix :: int
  sControllerReconcileReason :: string
  sControllerReconcileScheduledAtUnix :: int
  sControllerReconcileScheduledReason :: string
  sHandoffRequired :: bool
  sHandoffRequestedAtUnix :: int
  sHandoffAckedAtUnix :: int
  sHandoffAckedGeneration :: u64
  sHandoffCompletionEligibleAtUnix :: int
  sHandoffEscalationCount :: u64
  sHandoffNextEscalationAtUnix :: int
  sHandoffStage :: string
  sHandoffReason :: string
  sHandoffTargetGatewaySet :: "string list"

definition zero_status :: VolumeStatusRecord where
  "zero_status =
     \<lparr>sVolumeID = 0, sInUse = False, sCurrentAttachmentID = '''', sCurrentHostID = '''',
      sCurrentGatewayID = '''', sGatewayConnectionState = '''', sDesiredActiveGatewaySet = [],
      sObservedActiveGatewaySet = [], sPathPlanRevision = 0, sAttachmentGeneration = 0,
      sWriterFencingEpoch = 0, sPathPlanNeedsAttention = False, sPathPlanAttentionReasons = [],
      sPathPlanRecommendedActions = [], sPathPlanReapplyRequested = False,
      sPathPlanReapplyReason = '''', sPathPlanReapplyRequestedAtUnix = 0,
      sRuntimePathNeedsAttention = False, sRuntimePathAttentionReasons = [],
      sRuntimePathRecommendedActions = [], sRuntimePathFeedbackCount = 0,
      sLastRuntimePathFeedbackUnix = 0, sRuntimePathFeedbackSourceHost = '''',
      sRuntimePathReductionHoldUntilUnix = 0, sRuntimePathExpansionBackoffLevel = 0,
      sRuntimePathExpansionEligibleAtUnix = 0, sRuntimeAppliedPathPlanRevision = 0,
      sRuntimeAppliedPathReportedAtUnix = 0, sRuntimeNoPathState = '''',
      sRuntimeNoPathRetryMode = '''', sRuntimeNoPathRetrySeconds = 0, sRuntimeNoPathQueuedReqs = 0,
      sRuntimeNoPathRequeuedReqs = 0, sRuntimeNoPathFailedReqs = 0, sRuntimeNoPathRecoveredReqs = 0,
      sRuntimeNoPathEnterCount = 0, sRuntimeNoPathLastReason = '''',
      sRuntimeNoPathLastFeedbackUnix = 0, sControllerReconcileRequestedAtUnix = 0,
      sControllerReconcileReason = '''', sControllerReconcileScheduledAtUnix = 0,
      sControllerReconcileScheduledReason = '''', sHandoffRequired = False,
      sHandoffRequestedAtUnix = 0, sHandoffAckedAtUnix = 0, sHandoffAckedGeneration = 0,
      sHandoffCompletionEligibleAtUnix = 0, sHandoffEscalationCount = 0,
      sHandoffNextEscalationAtUnix = 0, sHandoffStage = '''', sHandoffReason = '''',
      sHandoffTargetGatewaySet = []\<rparr>"

record EndpointSpec =
  epAddress :: string
  epPort :: u16
  epUseTLS :: bool
  epServerName :: string
  epAuthMode :: string
  epPathID :: u32
  epPriority :: u32

record GatewayRecord =
  gSchemaVersion :: int
  gGatewayID :: string
  gProduct :: string
  gRole :: string
  gClusterID :: string
  gSBSClusterID :: string
  gConnectionState :: string
  gReadiness :: string
  gDrainState :: string
  gLastSeenUnix :: int
  gLeaseID :: string
  gLeaseExpiresAtUnix :: int
  gStartedAtUnix :: int
  gBuildVersion :: string
  gMetadataBackend :: string
  gMetadataRoot :: string
  gSBSClusterMetadataBackend :: string
  gSBSClusterMetadataRoot :: string
  gFailureDomain :: string
  gAdvertisedAddresses :: "string list"
  gCapabilities :: "string list"
  gControlEndpoints :: "EndpointSpec list"
  gDataplaneEndpoints :: "EndpointSpec list"
  gFirstError :: string
  gLastError :: string
  gRegistryRevision :: int

subsection \<open>Allocation pages and chunks\<close>

record PhysicalChunkRef =
  prStoreID :: string
  prShardID :: u32
  prChunkID :: u64

definition zero_ref :: PhysicalChunkRef where
  "zero_ref = \<lparr>prStoreID = '''', prShardID = 0, prChunkID = 0\<rparr>"

record ChunkPayloadEncryptionHeader =
  ehHeaderVersion :: int
  ehCipherSuite :: string
  ehEncryptionScope :: string
  ehSecurityPolicyID :: string
  ehPolicyGeneration :: u64
  ehKeyProviderID :: string
  ehDataKeyID :: string
  ehKeyID :: string
  ehKeyVersion :: u64
  ehKeyGeneration :: u64
  ehObjectID :: string
  ehBackendType :: string
  ehNonceHex :: string
  ehNonceSource :: string
  ehAADDigest :: string
  ehLogicalOffset :: u64
  ehPlaintextLength :: u64
  ehCiphertextLength :: u64
  ehAuthTagBytes :: int

record AllocationChunkRecord =
  xLogicalChunkStart :: u64
  xChunkCount :: u32
  xKind :: string
  xStoreID :: string
  xShardID :: u32
  xPhysicalChunkStart :: u64
  xPayloadEncryption :: "ChunkPayloadEncryptionHeader option"

record AllocationPageRecord =
  pgVolumeID :: u64
  pgPageNo :: u64
  pgPageBytes :: u32
  pgChunkSizeBytes :: u32
  pgRevision :: "64 word"
  pgExtents :: "AllocationChunkRecord list"

record AllocationChunkGarbageRecord =
  gcVolumeID :: u64
  gcStoreID :: string
  gcShardID :: u32
  gcChunkID :: u64
  gcEnqueuedAtUnix :: int

subsection \<open>Requests\<close>

record AttachRequest =
  arVolumeID :: u64
  arHostID :: string
  arDeviceID :: u32
  arGatewayID :: string

record DetachRequest =
  drVolumeID :: u64
  drHostID :: string
  drAttachmentID :: string

record VolumeCreateRequest =
  crName :: string
  crSizeBytes :: u64
  crBlockSize :: u32
  crChunkSizeBytes :: u32
  crExtentPageBytes :: u32
  crAccessMode :: string
  crState :: string

record VolumeUpdateRequest =
  urName :: "string option"
  urSizeBytes :: "u64 option"
  urBlockSize :: "u32 option"
  urChunkSizeBytes :: "u32 option"
  urExtentPageBytes :: "u32 option"
  urAccessMode :: "string option"
  urState :: "string option"

subsection \<open>Normalisation and geometry\<close>

definition NormalizeVolumeSpec :: "VolumeSpec \<Rightarrow> VolumeSpec" where
  "NormalizeVolumeSpec spec =
     spec\<lparr>vBlockSize := (if vBlockSize spec = 0 then DefaultBlockSize else vBlockSize spec),
          vChunkSizeBytes := (if vChunkSizeBytes spec = 0 then DefaultAllocationChunkSize
                              else vChunkSizeBytes spec),
          vExtentPageBytes := (if vExtentPageBytes spec = 0 then DefaultAllocationPageSize
                               else vExtentPageBytes spec),
          vAccessMode := (if vAccessMode spec = '''' then VolumeAccessModeExclusive
                          else vAccessMode spec),
          vState := (if vState spec = '''' then VolumeStateAvailable else vState spec),
          vRedundancyBackend := (if vRedundancyBackend spec = '''' then RedundancyBackendReplicated
                                 else vRedundancyBackend spec),
          vName := (if vName spec = '''' then vPrefix spec else vName spec),
          vProtectedState :=
            (case vProtectedState spec of
               None \<Rightarrow> None
             | Some p \<Rightarrow> (let protectedState = Normalize p
                          in if IsZero protectedState then None else Some protectedState))\<rparr>"

text \<open>A copy of a value; the copy of the source guards against sharing through a pointer.\<close>

definition cloneVolumeSpec :: "VolumeSpec \<Rightarrow> VolumeSpec" where
  "cloneVolumeSpec spec = spec"

definition geometry_ok :: "u32 option \<Rightarrow> u32 \<Rightarrow> u32 \<Rightarrow> bool" where
  "geometry_ok req dflt current =
     (case req of
        None \<Rightarrow> True
      | Some next \<Rightarrow> (if next = 0 then dflt else next) = current)"

definition ValidateImmutableVolumeGeometry ::
    "VolumeSpec \<Rightarrow> VolumeUpdateRequest \<Rightarrow> service_error + unit" where
  "ValidateImmutableVolumeGeometry current0 req =
     (let current = NormalizeVolumeSpec current0
      in if \<not> geometry_ok (urBlockSize req) DefaultBlockSize (vBlockSize current)
         then Inl ErrVolumeGeometryChange
         else if \<not> geometry_ok (urChunkSizeBytes req) DefaultAllocationChunkSize (vChunkSizeBytes current)
         then Inl ErrVolumeGeometryChange
         else if \<not> geometry_ok (urExtentPageBytes req) DefaultAllocationPageSize (vExtentPageBytes current)
         then Inl ErrVolumeGeometryChange
         else Inr ())"

definition CanonicalVolumeID :: "u64 \<Rightarrow> string" where
  "CanonicalVolumeID volumeID = Format volumeID"

definition BuildVolumePrefix :: "string \<Rightarrow> u64 \<Rightarrow> string" where
  "BuildVolumePrefix name volumeID = TrimSpace name @ ''-'' @ CanonicalVolumeID volumeID"

definition FormatAttachmentID :: "u64 \<Rightarrow> u64 \<Rightarrow> string" where
  "FormatAttachmentID volumeID generation =
     ''att-'' @ CanonicalVolumeID volumeID @ ''-'' @ format_d 4 (unat generation)"

definition NewGatewayRecord ::
    "int \<Rightarrow> string \<Rightarrow> string \<Rightarrow> EndpointSpec list \<Rightarrow> EndpointSpec list \<Rightarrow> GatewayRecord" where
  "NewGatewayRecord now gatewayID buildVersion controlEndpoints dataplaneEndpoints =
     \<lparr>gSchemaVersion = 1, gGatewayID = gatewayID, gProduct = ''namrbd'', gRole = ''block'',
      gClusterID = '''', gSBSClusterID = '''', gConnectionState = GatewayStateUp,
      gReadiness = ''ready'', gDrainState = ''active'', gLastSeenUnix = now, gLeaseID = '''',
      gLeaseExpiresAtUnix = 0, gStartedAtUnix = now, gBuildVersion = buildVersion,
      gMetadataBackend = '''', gMetadataRoot = '''', gSBSClusterMetadataBackend = '''',
      gSBSClusterMetadataRoot = '''', gFailureDomain = '''', gAdvertisedAddresses = [],
      gCapabilities = [''control-plane'', ''dataplane'', ''volume-spec-cache'', ''etcd-metadata''],
      gControlEndpoints = controlEndpoints, gDataplaneEndpoints = dataplaneEndpoints,
      gFirstError = '''', gLastError = '''', gRegistryRevision = 0\<rparr>"

subsection \<open>Headers of encrypted chunks\<close>

definition physicalChunkObjectIDForMetadata :: "VolumeSpec \<Rightarrow> PhysicalChunkRef \<Rightarrow> string" where
  "physicalChunkObjectIDForMetadata volume ref =
     (let base = ''replicated:'' @ CanonicalVolumeID (vID volume) @ '':'' @
                 dec_digits (unat (prChunkID ref))
      in if prStoreID ref = '''' \<and> prShardID ref = 0 then base
         else base @ '':'' @ prStoreID ref @ '':'' @ dec_digits (unat (prShardID ref)))"

definition normalize_header :: "ChunkPayloadEncryptionHeader \<Rightarrow> ChunkPayloadEncryptionHeader" where
  "normalize_header h =
     h\<lparr>ehCipherSuite := TrimSpace (ehCipherSuite h),
       ehEncryptionScope := TrimSpace (ehEncryptionScope h),
       ehSecurityPolicyID := TrimSpace (ehSecurityPolicyID h),
       ehKeyProviderID := TrimSpace (ehKeyProviderID h),
       ehDataKeyID := TrimSpace (ehDataKeyID h),
       ehKeyID := TrimSpace (ehKeyID h),
       ehObjectID := TrimSpace (ehObjectID h),
       ehBackendType := TrimSpace (ehBackendType h),
       ehNonceHex := TrimSpace (ehNonceHex h),
       ehNonceSource := TrimSpace (ehNonceSource h),
       ehAADDigest := TrimSpace (ehAADDigest h)\<rparr>"

text \<open>hex.DecodeString succeeds on an even number of hexadecimal digits.\<close>

definition hex_decodable :: "string \<Rightarrow> bool" where
  "hex_decodable s \<longleftrightarrow> even (length s) \<and> (\<forall>c \<in> set s. hex_val c \<noteq> None)"

definition ValidateForChunk ::
    "ChunkPayloadEncryptionHeader \<Rightarrow> VolumeSpec \<Rightarrow> PhysicalChunkRef \<Rightarrow> service_error + unit" where
  "ValidateForChunk h0 volume ref =
     (let h = normalize_header h0;
          chunkSize = (if vChunkSizeBytes volume = 0 then ucast DefaultAllocationChunkSize
                       else ucast (vChunkSizeBytes volume)) :: u64
      in if ehHeaderVersion h \<noteq> 1 then Inl (ErrOther ''header version'')
         else if ehCipherSuite h \<noteq> ''aes_256_gcm'' then Inl (ErrOther ''cipher_suite'')
         else if ehEncryptionScope h = '''' then Inl (ErrOther ''encryption_scope'')
         else if ehSecurityPolicyID h = '''' then Inl (ErrOther ''security_policy_id'')
         else if ehPolicyGeneration h = 0 then Inl (ErrOther ''policy_generation'')
         else if ehKeyProviderID h = '''' then Inl (ErrOther ''key_provider_id'')
         else if ehDataKeyID h = '''' then Inl (ErrOther ''data_key_id'')
         else if ehKeyID h = '''' then Inl (ErrOther ''key_id'')
         else if ehKeyVersion h = 0 then Inl (ErrOther ''key_version'')
         else if ehObjectID h = '''' then Inl (ErrOther ''object_id is required'')
         else if ehObjectID h \<noteq> physicalChunkObjectIDForMetadata volume ref
           then Inl (ErrOther ''object_id'')
         else if ehBackendType h \<noteq> ''replicated'' then Inl (ErrOther ''backend_type'')
         else if length (ehNonceHex h) \<noteq> 24 then Inl (ErrOther ''nonce_hex length'')
         else if \<not> hex_decodable (ehNonceHex h) then Inl (ErrOther ''nonce_hex'')
         else if ehNonceSource h = '''' then Inl (ErrOther ''nonce_source'')
         else if length (ehAADDigest h) \<noteq> 64 then Inl (ErrOther ''aad_digest length'')
         else if \<not> hex_decodable (ehAADDigest h) then Inl (ErrOther ''aad_digest'')
         else if ehLogicalOffset h \<noteq> prChunkID ref * chunkSize then Inl (ErrOther ''logical_offset'')
         else if ehPlaintextLength h \<noteq> chunkSize then Inl (ErrOther ''plaintext_length'')
         else if ehCiphertextLength h \<le> ehPlaintextLength h then Inl (ErrOther ''ciphertext_length'')
         else if ehAuthTagBytes h \<noteq> 16 then Inl (ErrOther ''auth_tag_bytes'')
         else Inr ())"

definition cloneChunkPayloadEncryptionHeader ::
    "ChunkPayloadEncryptionHeader option \<Rightarrow> ChunkPayloadEncryptionHeader option" where
  "cloneChunkPayloadEncryptionHeader header = header"

subsection \<open>Properties\<close>

definition normalized :: "VolumeSpec \<Rightarrow> bool" where
  "normalized v \<longleftrightarrow> NormalizeVolumeSpec v = v"

lemma default_nonzero [simp]:
  "DefaultBlockSize \<noteq> 0" "DefaultAllocationChunkSize \<noteq> 0" "DefaultAllocationPageSize \<noteq> 0"
  by (simp_all add: default_sizes)

lemma NormalizeVolumeSpec_idem [simp]:
  "NormalizeVolumeSpec (NormalizeVolumeSpec v) = NormalizeVolumeSpec v"
  by (simp add: NormalizeVolumeSpec_def Let_def VolumeAccessModeExclusive_def
      VolumeStateAvailable_def RedundancyBackendReplicated_def split: option.splits)

lemma normalized_Normalize [simp]: "normalized (NormalizeVolumeSpec v)"
  by (simp add: normalized_def)

lemma NormalizeVolumeSpec_fields [simp]:
  "vID (NormalizeVolumeSpec v) = vID v" "vPrefix (NormalizeVolumeSpec v) = vPrefix v"
  "vSizeBytes (NormalizeVolumeSpec v) = vSizeBytes v"
  "vBlockSize (NormalizeVolumeSpec v) \<noteq> 0" "vChunkSizeBytes (NormalizeVolumeSpec v) \<noteq> 0"
  "vExtentPageBytes (NormalizeVolumeSpec v) \<noteq> 0"
  by (simp_all add: NormalizeVolumeSpec_def)

lemma normalized_sizes:
  "normalized v \<Longrightarrow> vBlockSize v \<noteq> 0 \<and> vChunkSizeBytes v \<noteq> 0 \<and> vExtentPageBytes v \<noteq> 0"
  using NormalizeVolumeSpec_fields(4-6)[of v] by (simp add: normalized_def)

end
