(* ===== verification/Interfaces.thy ===== *)
theory Interfaces
  imports VolumeTypes
begin

section \<open>The metadata repository interface (gateway/service/repository.go)\<close>

text \<open>
  The interface \<open>MetadataRepository\<close> as a record of operations on a state \<open>'m\<close> of the repository.
  Queries return a result, updates a result and the next state. The clock and the random source of
  the implementations that read them are arguments.
\<close>

text \<open>A Go run-time panic as an error value.\<close>

definition panic :: service_error where "panic = ErrOther ''panic''"

record 'm MetadataRepository =
  mrEnsureVolume :: "VolumeSpec \<Rightarrow> 'm \<Rightarrow> (service_error + unit) \<times> 'm"
  mrCreateVolume :: "u32 option list \<Rightarrow> VolumeCreateRequest \<Rightarrow> 'm \<Rightarrow> (service_error + VolumeSpec) \<times> 'm"
  mrUpdateVolume :: "u64 \<Rightarrow> VolumeUpdateRequest \<Rightarrow> 'm \<Rightarrow> (service_error + VolumeSpec) \<times> 'm"
  mrDeleteVolume :: "u64 \<Rightarrow> 'm \<Rightarrow> (service_error + unit) \<times> 'm"
  mrGetVolume :: "u64 \<Rightarrow> 'm \<Rightarrow> service_error + VolumeSpec"
  mrGetVolumeStatus :: "u64 \<Rightarrow> 'm \<Rightarrow> service_error + VolumeStatusRecord"
  mrPutVolumeStatus :: "VolumeStatusRecord \<Rightarrow> 'm \<Rightarrow> (service_error + unit) \<times> 'm"
  mrListVolumes :: "'m \<Rightarrow> service_error + VolumeSpec list"
  mrSetVolumeState :: "u64 \<Rightarrow> string \<Rightarrow> 'm \<Rightarrow> (service_error + VolumeSpec) \<times> 'm"
  mrGetAttachment :: "u64 \<Rightarrow> 'm \<Rightarrow> service_error + AttachmentRecord"
  mrGetGeneration :: "u64 \<Rightarrow> 'm \<Rightarrow> service_error + u64"
  mrUnsafeClearAttachment :: "u64 \<Rightarrow> 'm \<Rightarrow> (service_error + AttachmentRecord) \<times> 'm"
  mrUnsafeSetGeneration :: "u64 \<Rightarrow> u64 \<Rightarrow> 'm \<Rightarrow> (service_error + u64) \<times> 'm"
  mrAttach :: "int \<Rightarrow> AttachRequest \<Rightarrow> 'm \<Rightarrow> (service_error + AttachmentRecord) \<times> 'm"
  mrDetach :: "DetachRequest \<Rightarrow> 'm \<Rightarrow> (service_error + AttachmentRecord) \<times> 'm"
  mrGetGateway :: "string \<Rightarrow> 'm \<Rightarrow> service_error + GatewayRecord"
  mrListGateways :: "'m \<Rightarrow> service_error + GatewayRecord list"
  mrPutGateway :: "GatewayRecord \<Rightarrow> 'm \<Rightarrow> (service_error + unit) \<times> 'm"
  mrGetExtentPage :: "u64 \<Rightarrow> u64 \<Rightarrow> 'm \<Rightarrow> service_error + AllocationPageRecord"
  mrListExtentPages :: "u64 \<Rightarrow> 'm \<Rightarrow> service_error + AllocationPageRecord list"
  mrPutExtentPage :: "AllocationPageRecord \<Rightarrow> 64 word \<Rightarrow> 'm \<Rightarrow>
    (service_error + AllocationPageRecord) \<times> 'm"
  mrAllocateChunkIDs :: "u64 \<Rightarrow> u32 \<Rightarrow> 'm \<Rightarrow> (service_error + u64) \<times> 'm"
  mrPutChunkGarbage :: "int \<Rightarrow> AllocationChunkGarbageRecord \<Rightarrow> 'm \<Rightarrow> (service_error + unit) \<times> 'm"
  mrListChunkGarbage :: "u64 \<Rightarrow> int \<Rightarrow> 'm \<Rightarrow> service_error + AllocationChunkGarbageRecord list"
  mrDeleteChunkGarbage :: "u64 \<Rightarrow> u64 \<Rightarrow> 'm \<Rightarrow> (service_error + unit) \<times> 'm"

subsection \<open>The contract of the extent pages\<close>

text \<open>
  What the data path and the garbage collector rely on. For a state of the repository, \<open>exts m v n\<close>
  are the extents of page \<open>n\<close> of volume \<open>v\<close>, \<open>rev m v n\<close> its revision, \<open>nxt m v\<close> the next chunk id
  of the volume, \<open>garb m v\<close> the chunks on its garbage list and \<open>vol m v\<close> its specification. Pages
  change only by a compare-and-swap on their revision; chunk ids are handed out from the counter.
  A call that fails may have changed only what the laws leave open.
\<close>

definition garbage_ref :: "AllocationChunkGarbageRecord \<Rightarrow> PhysicalChunkRef" where
  "garbage_ref g = \<lparr>prStoreID = gcStoreID g, prShardID = gcShardID g, prChunkID = gcChunkID g\<rparr>"

locale page_repository =
  fixes meta :: "'m MetadataRepository"
    and minv :: "'m \<Rightarrow> bool"
    and exts :: "'m \<Rightarrow> u64 \<Rightarrow> u64 \<Rightarrow> AllocationChunkRecord list"
    and rev :: "'m \<Rightarrow> u64 \<Rightarrow> u64 \<Rightarrow> 64 word"
    and nxt :: "'m \<Rightarrow> u64 \<Rightarrow> u64"
    and garb :: "'m \<Rightarrow> u64 \<Rightarrow> PhysicalChunkRef set"
    and vol :: "'m \<Rightarrow> u64 \<Rightarrow> VolumeSpec option"
  assumes get_page: "minv m \<Longrightarrow> mrGetExtentPage meta v n m = Inr p \<Longrightarrow>
      pgExtents p = exts m v n \<and> pgRevision p = rev m v n"
    and get_volume: "minv m \<Longrightarrow> mrGetVolume meta v m = Inr x \<Longrightarrow> vol m v = Some x"
    and list_pages: "minv m \<Longrightarrow> mrListExtentPages meta v m = Inr ps \<Longrightarrow> exts m v n \<noteq> [] \<Longrightarrow>
      \<exists>p \<in> set ps. pgExtents p = exts m v n"
    and list_garbage: "minv m \<Longrightarrow> mrListChunkGarbage meta v limit m = Inr gs \<Longrightarrow>
      garbage_ref ` set gs \<subseteq> garb m v"
    and put_page_frame: "minv m \<Longrightarrow> minv (snd (mrPutExtentPage meta p e m))
      \<and> nxt (snd (mrPutExtentPage meta p e m)) v = nxt m v
      \<and> garb (snd (mrPutExtentPage meta p e m)) v = garb m v
      \<and> vol (snd (mrPutExtentPage meta p e m)) v = vol m v"
    and put_page_ok: "minv m \<Longrightarrow> mrPutExtentPage meta p e m = (Inr p', m') \<Longrightarrow>
      e = rev m (pgVolumeID p) (pgPageNo p)
      \<and> exts m' v n = (if v = pgVolumeID p \<and> n = pgPageNo p then pgExtents p else exts m v n)
      \<and> rev m' v n = (if v = pgVolumeID p \<and> n = pgPageNo p then e + 1 else rev m v n)"
    and put_page_fail: "minv m \<Longrightarrow> mrPutExtentPage meta p e m = (Inl err, m') \<Longrightarrow>
      exts m' v n = exts m v n \<and> rev m' v n = rev m v n"
    and alloc_frame: "minv m \<Longrightarrow> minv (snd (mrAllocateChunkIDs meta v c m))
      \<and> exts (snd (mrAllocateChunkIDs meta v c m)) v' n = exts m v' n
      \<and> rev (snd (mrAllocateChunkIDs meta v c m)) v' n = rev m v' n
      \<and> garb (snd (mrAllocateChunkIDs meta v c m)) v' = garb m v'
      \<and> vol (snd (mrAllocateChunkIDs meta v c m)) v' = vol m v'"
    and alloc_ids: "minv m \<Longrightarrow> mrAllocateChunkIDs meta v c m = (Inr s, m') \<Longrightarrow> c \<noteq> 0 \<Longrightarrow>
      unat (nxt m v) + unat c < 2 ^ 64 \<Longrightarrow>
      s = nxt m v \<and> unat (nxt m' v) = unat s + unat c"
    and alloc_fail: "minv m \<Longrightarrow> mrAllocateChunkIDs meta v c m = (Inl err, m') \<Longrightarrow> nxt m' v' = nxt m v'"
    and nxt_pos: "minv m \<Longrightarrow> nxt m v \<noteq> 0"
    and garbage_frame: "minv m \<Longrightarrow> minv (snd (mrPutChunkGarbage meta now g m))
      \<and> exts (snd (mrPutChunkGarbage meta now g m)) v n = exts m v n
      \<and> rev (snd (mrPutChunkGarbage meta now g m)) v n = rev m v n
      \<and> nxt (snd (mrPutChunkGarbage meta now g m)) v = nxt m v
      \<and> vol (snd (mrPutChunkGarbage meta now g m)) v = vol m v
      \<and> garb (snd (mrPutChunkGarbage meta now g m)) v \<subseteq>
          (if v = gcVolumeID g then {garbage_ref g} else {}) \<union> garb m v"
    and delete_garbage_frame: "minv m \<Longrightarrow> minv (snd (mrDeleteChunkGarbage meta v' chunkID m))
      \<and> exts (snd (mrDeleteChunkGarbage meta v' chunkID m)) v n = exts m v n
      \<and> rev (snd (mrDeleteChunkGarbage meta v' chunkID m)) v n = rev m v n
      \<and> nxt (snd (mrDeleteChunkGarbage meta v' chunkID m)) v = nxt m v
      \<and> vol (snd (mrDeleteChunkGarbage meta v' chunkID m)) v = vol m v
      \<and> garb (snd (mrDeleteChunkGarbage meta v' chunkID m)) v \<subseteq> garb m v"

text \<open>A repository that does not fail on a volume it knows.\<close>

locale reliable_page_repository = page_repository +
  assumes get_page_returns: "minv m \<Longrightarrow> vol m v \<noteq> None \<Longrightarrow> \<exists>p. mrGetExtentPage meta v n m = Inr p"
    and put_page_returns: "minv m \<Longrightarrow> vol m (pgVolumeID p) \<noteq> None \<Longrightarrow>
      e = rev m (pgVolumeID p) (pgPageNo p) \<Longrightarrow> \<exists>p' m'. mrPutExtentPage meta p e m = (Inr p', m')"
    and alloc_returns: "minv m \<Longrightarrow> vol m v \<noteq> None \<Longrightarrow>
      \<exists>s m'. mrAllocateChunkIDs meta v c m = (Inr s, m')"
    and garbage_returns: "minv m \<Longrightarrow> vol m (gcVolumeID g) \<noteq> None \<Longrightarrow>
      \<exists>m'. mrPutChunkGarbage meta now g m = (Inr (), m')"

end
