(* ===== verification/ObjectStore.thy ===== *)
theory ObjectStore
  imports VolumeTypes "HOL-Library.List_Lexorder" "HOL-Library.Char_ord"
begin

section \<open>Object stores and chunk payloads (gateway/store, gateway/service/chunk_payload.go)\<close>

text \<open>
  The object store interface as a record of operations on a state of the store, the in-memory store
  that implements it, the keys of chunks and the payload repository that reads and writes whole
  chunks. The laws a client relies on are the locale \<open>object_store\<close>; the in-memory store satisfies
  them.
\<close>

subsection \<open>The interface (store.go)\<close>

record 'o ObjectStore =
  osGet :: "string \<Rightarrow> 'o \<Rightarrow> service_error + bytes option"
  osPut :: "string \<Rightarrow> bytes \<Rightarrow> 'o \<Rightarrow> (service_error + unit) \<times> 'o"
  osDelete :: "string \<Rightarrow> 'o \<Rightarrow> (service_error + unit) \<times> 'o"
  osList :: "string \<Rightarrow> string \<Rightarrow> int \<Rightarrow> 'o \<Rightarrow> service_error + (string list \<times> string)"

definition formatUint :: "u64 \<Rightarrow> string" where
  "formatUint v = dec_digits (unat v)"

definition BuildChunkKey :: "string \<Rightarrow> u64 \<Rightarrow> string" where
  "BuildChunkKey prefx chunkID = prefx @ '':chk:'' @ formatUint chunkID"

definition lowerHex8 :: "u32 \<Rightarrow> string" where
  "lowerHex8 v = hex_digits 8 v"

definition BuildBlockKey :: "string \<Rightarrow> u32 \<Rightarrow> string" where
  "BuildBlockKey prefx blockNo = prefx @ '';'' @ lowerHex8 blockNo"

subsection \<open>The in-memory store (memory.go)\<close>

type_synonym MemoryStore = "(string, bytes) gomap"

definition NewMemoryStore :: MemoryStore where
  "NewMemoryStore = []"

definition MemGet :: "string \<Rightarrow> MemoryStore \<Rightarrow> service_error + bytes option" where
  "MemGet key m = Inr (mget m key)"

definition MemSet :: "string \<Rightarrow> bytes \<Rightarrow> MemoryStore \<Rightarrow> (service_error + unit) \<times> MemoryStore" where
  "MemSet key val m = (Inr (), mput key val m)"

definition MemPut :: "string \<Rightarrow> bytes \<Rightarrow> MemoryStore \<Rightarrow> (service_error + unit) \<times> MemoryStore" where
  "MemPut key val m = MemSet key val m"

definition MemDelete :: "string \<Rightarrow> MemoryStore \<Rightarrow> (service_error + unit) \<times> MemoryStore" where
  "MemDelete key m = (Inr (), mdel key m)"

text \<open>
  The index of the first key after the cursor; the loop of the source leaves 0 when there are no
  keys and the number of keys when every key is at or before the cursor.
\<close>

fun cursor_start :: "string \<Rightarrow> nat \<Rightarrow> string list \<Rightarrow> nat" where
  "cursor_start cursor i [] = 0"
| "cursor_start cursor i [key] = (if key > cursor then i else Suc i)"
| "cursor_start cursor i (key # key' # keys) =
     (if key > cursor then i else cursor_start cursor (Suc i) (key' # keys))"

definition MemList :: "string \<Rightarrow> string \<Rightarrow> int \<Rightarrow> MemoryStore \<Rightarrow> service_error + (string list \<times> string)" where
  "MemList prefx cursor limit m =
     (let keys = sort (filter (\<lambda>key. length prefx = 0 \<or> length key \<ge> length prefx \<and>
                                 take (length prefx) key = prefx) (mkeys m));
          start = (if cursor \<noteq> '''' then cursor_start cursor 0 keys else 0)
      in if limit \<le> 0 \<or> int start + limit \<ge> int (length keys) then Inr (drop start keys, '''')
         else Inr (slice start (start + nat limit) keys, keys ! (start + nat limit - 1)))"

definition memoryStore :: "MemoryStore ObjectStore" where
  "memoryStore = \<lparr>osGet = MemGet, osPut = MemPut, osDelete = MemDelete, osList = MemList\<rparr>"

subsection \<open>Chunk payloads (chunk_payload.go)\<close>

definition buildPhysicalChunkKey :: "string \<Rightarrow> PhysicalChunkRef \<Rightarrow> string" where
  "buildPhysicalChunkKey prefx ref =
     (if prStoreID ref = '''' \<and> prShardID ref = 0 then BuildChunkKey prefx (prChunkID ref)
      else prefx @ '':store:'' @ prStoreID ref @ '':shard:'' @ dec_digits (unat (prShardID ref)) @
           '':chk:'' @ dec_digits (unat (prChunkID ref)))"

definition chunk_bytes :: "VolumeSpec \<Rightarrow> nat" where
  "chunk_bytes volume =
     (if vChunkSizeBytes volume = 0 then unat DefaultAllocationChunkSize
      else unat (vChunkSizeBytes volume))"

definition ReadChunkRef ::
    "'o ObjectStore \<Rightarrow> VolumeSpec \<Rightarrow> PhysicalChunkRef \<Rightarrow> 'o \<Rightarrow> service_error + bytes" where
  "ReadChunkRef os volume ref s =
     (case osGet os (buildPhysicalChunkKey (vPrefix volume) ref) s of
        Inl err \<Rightarrow> Inl err
      | Inr None \<Rightarrow> Inr (replicate (chunk_bytes volume) 0)
      | Inr (Some val) \<Rightarrow>
          if length val \<noteq> chunk_bytes volume then Inl (ErrOther ''invalid chunk size in store'')
          else Inr val)"

definition ReadChunk :: "'o ObjectStore \<Rightarrow> VolumeSpec \<Rightarrow> u64 \<Rightarrow> 'o \<Rightarrow> service_error + bytes" where
  "ReadChunk os volume chunkID s = ReadChunkRef os volume (zero_ref\<lparr>prChunkID := chunkID\<rparr>) s"

definition WriteChunkRef ::
    "'o ObjectStore \<Rightarrow> VolumeSpec \<Rightarrow> PhysicalChunkRef \<Rightarrow> bytes \<Rightarrow> 'o \<Rightarrow> (service_error + unit) \<times> 'o" where
  "WriteChunkRef os volume ref data s =
     (if length data \<noteq> chunk_bytes volume then (Inl (ErrOther ''invalid chunk payload size''), s)
      else osPut os (buildPhysicalChunkKey (vPrefix volume) ref) data s)"

definition WriteChunk ::
    "'o ObjectStore \<Rightarrow> VolumeSpec \<Rightarrow> u64 \<Rightarrow> bytes \<Rightarrow> 'o \<Rightarrow> (service_error + unit) \<times> 'o" where
  "WriteChunk os volume chunkID data s = WriteChunkRef os volume (zero_ref\<lparr>prChunkID := chunkID\<rparr>) data s"

definition DeleteChunkRef ::
    "'o ObjectStore \<Rightarrow> VolumeSpec \<Rightarrow> PhysicalChunkRef \<Rightarrow> 'o \<Rightarrow> (service_error + unit) \<times> 'o" where
  "DeleteChunkRef os volume ref s = osDelete os (buildPhysicalChunkKey (vPrefix volume) ref) s"

subsection \<open>Keys are injective\<close>

text \<open>
  A key ends in a decimal number after a colon, so reading it from the right recovers its parts.
\<close>

lemma dec_digits_no_colon: "CHR '':'' \<notin> set (dec_digits n)"
proof
  assume "CHR '':'' \<in> set (dec_digits n)"
  then obtain d where "d < 10" "CHR '':'' = digit_char d"
    using dec_digits_chars by blast
  then have "of_char (CHR '':'') = (of_char (digit_char d) :: nat)"
    by simp
  then show False
    using \<open>d < 10\<close> by (simp add: digit_char_def of_char_of take_bit_eq_mod)
qed

lemma append_colon_inject:
  assumes "xs @ CHR '':'' # a = ys @ CHR '':'' # b" "CHR '':'' \<notin> set a" "CHR '':'' \<notin> set b"
  shows "xs = ys \<and> a = b"
proof -
  have "takeWhile (\<lambda>c. c \<noteq> CHR '':'') (rev (xs @ CHR '':'' # a)) = rev a"
    "takeWhile (\<lambda>c. c \<noteq> CHR '':'') (rev (ys @ CHR '':'' # b)) = rev b"
    using assms(2,3) by (auto simp: takeWhile_tail)
  then have "a = b"
    using assms(1) by (metis rev_rev_ident)
  with assms(1) show ?thesis by simp
qed

lemma number_suffix_inject:
  "xs @ CHR '':'' # dec_digits m = ys @ CHR '':'' # dec_digits n \<longleftrightarrow> xs = ys \<and> m = n"
  using append_colon_inject[of xs "dec_digits m" ys "dec_digits n"] dec_digits_no_colon by auto

lemma chunk_key_shape:
  "buildPhysicalChunkKey prefx ref =
     (if prStoreID ref = '''' \<and> prShardID ref = 0 then prefx @ '':chk''
      else prefx @ '':store:'' @ prStoreID ref @ '':shard'' @ CHR '':'' # dec_digits (unat (prShardID ref)) @ '':chk'')
     @ CHR '':'' # dec_digits (unat (prChunkID ref))"
  by (simp add: buildPhysicalChunkKey_def BuildChunkKey_def formatUint_def)

lemma buildPhysicalChunkKey_inject:
  "buildPhysicalChunkKey prefx a = buildPhysicalChunkKey prefx b \<longleftrightarrow> a = b"
proof
  assume eq: "buildPhysicalChunkKey prefx a = buildPhysicalChunkKey prefx b"
  then have chunk: "prChunkID a = prChunkID b"
    unfolding chunk_key_shape number_suffix_inject by (simp add: word_unat_eq_iff)
  have head: "(if prStoreID a = '''' \<and> prShardID a = 0 then ''''
      else '':store:'' @ prStoreID a @ '':shard'' @ CHR '':'' # dec_digits (unat (prShardID a))) =
    (if prStoreID b = '''' \<and> prShardID b = 0 then ''''
      else '':store:'' @ prStoreID b @ '':shard'' @ CHR '':'' # dec_digits (unat (prShardID b)))"
    using eq unfolding chunk_key_shape number_suffix_inject
    by (auto split: if_splits)
  have "prStoreID a = prStoreID b \<and> prShardID a = prShardID b"
  proof (cases "prStoreID a = '''' \<and> prShardID a = 0")
    case True
    with head show ?thesis by (simp split: if_splits)
  next
    case False
    with head have b: "\<not> (prStoreID b = '''' \<and> prShardID b = 0)"
      by (auto split: if_splits)
    have "('':store:'' @ prStoreID a @ '':shard'') @ CHR '':'' # dec_digits (unat (prShardID a)) =
      ('':store:'' @ prStoreID b @ '':shard'') @ CHR '':'' # dec_digits (unat (prShardID b))"
      using head False b by simp
    then show ?thesis
      unfolding number_suffix_inject by (simp add: word_unat_eq_iff)
  qed
  with chunk show "a = b"
    by (cases a, cases b) simp
qed simp

subsection \<open>The contract of a store\<close>

text \<open>The payload of a chunk in a store whose values are \<open>content\<close>; a chunk that is not stored reads as zeroes.\<close>

definition chunk_payload :: "('o \<Rightarrow> string \<Rightarrow> bytes option) \<Rightarrow> VolumeSpec \<Rightarrow> PhysicalChunkRef \<Rightarrow> 'o \<Rightarrow> bytes" where
  "chunk_payload content v ref s =
     (case content s (buildPhysicalChunkKey (vPrefix v) ref) of
        None \<Rightarrow> replicate (chunk_bytes v) 0
      | Some b \<Rightarrow> b)"

text \<open>
  What a client may rely on: \<open>content s k\<close> is the value stored under a key. An operation that fails
  may or may not have happened, but never touches another key.
\<close>

locale object_store =
  fixes os :: "'o ObjectStore"
    and content :: "'o \<Rightarrow> string \<Rightarrow> bytes option"
  assumes get: "osGet os k s = Inr x \<Longrightarrow> x = content s k"
    and put_other: "k' \<noteq> k \<Longrightarrow> content (snd (osPut os k v s)) k' = content s k'"
    and put_same: "fst (osPut os k v s) = Inr () \<Longrightarrow> content (snd (osPut os k v s)) k = Some v"
    and delete_other: "k' \<noteq> k \<Longrightarrow> content (snd (osDelete os k s)) k' = content s k'"
    and delete_same: "fst (osDelete os k s) = Inr () \<Longrightarrow> content (snd (osDelete os k s)) k = None"
begin

lemma ReadChunkRef_payload:
  assumes "ReadChunkRef os v ref s = Inr b"
  shows "b = chunk_payload content v ref s \<and> length b = chunk_bytes v"
  using assms
  by (auto simp: ReadChunkRef_def chunk_payload_def dest!: get split: sum.splits option.splits if_splits)

lemma WriteChunkRef_payload:
  assumes "WriteChunkRef os v ref data s = (Inr (), s')"
  shows "chunk_payload content v ref s' = data \<and> length data = chunk_bytes v
    \<and> (\<forall>ref'. ref' \<noteq> ref \<longrightarrow> chunk_payload content v ref' s' = chunk_payload content v ref' s)"
  using assms put_same[of "buildPhysicalChunkKey (vPrefix v) ref" data s]
    put_other[of _ "buildPhysicalChunkKey (vPrefix v) ref" data s]
  by (auto simp: WriteChunkRef_def chunk_payload_def buildPhysicalChunkKey_inject split: if_splits)

lemma WriteChunkRef_other:
  assumes "WriteChunkRef os v ref data s = (r, s')" "ref' \<noteq> ref"
  shows "chunk_payload content v ref' s' = chunk_payload content v ref' s"
  using assms put_other[of "buildPhysicalChunkKey (vPrefix v) ref'" "buildPhysicalChunkKey (vPrefix v) ref" data s]
  by (auto simp: WriteChunkRef_def chunk_payload_def buildPhysicalChunkKey_inject split: if_splits)

lemma Delete_other_payload:
  assumes "ref' \<noteq> ref"
  shows "chunk_payload content v ref' (snd (osDelete os (buildPhysicalChunkKey (vPrefix v) ref) s)) = chunk_payload content v ref' s"
  using assms delete_other[of "buildPhysicalChunkKey (vPrefix v) ref'" "buildPhysicalChunkKey (vPrefix v) ref" s]
  by (simp add: chunk_payload_def buildPhysicalChunkKey_inject)

end

text \<open>A store whose calls do not fail.\<close>

locale reliable_object_store = object_store +
  assumes get_returns: "\<exists>x. osGet os k s = Inr x"
    and put_returns: "\<exists>s'. osPut os k v s = (Inr (), s')"
begin

lemma ReadChunkRef_returns:
  assumes "length (chunk_payload content v ref s) = chunk_bytes v"
  shows "ReadChunkRef os v ref s = Inr (chunk_payload content v ref s)"
proof -
  obtain x where x: "osGet os (buildPhysicalChunkKey (vPrefix v) ref) s = Inr x"
    using get_returns by blast
  then show ?thesis
    using get[OF x] assms by (auto simp: ReadChunkRef_def chunk_payload_def split: option.splits)
qed

lemma WriteChunkRef_returns:
  assumes "length data = chunk_bytes v"
  shows "\<exists>s'. WriteChunkRef os v ref data s = (Inr (), s')"
  using assms put_returns by (simp add: WriteChunkRef_def)

end

interpretation mem: object_store memoryStore "\<lambda>s k. mget s k"
  by unfold_locales
    (auto simp: memoryStore_def MemGet_def MemPut_def MemSet_def MemDelete_def)

interpretation mem: reliable_object_store memoryStore "\<lambda>s k. mget s k"
  by unfold_locales (auto simp: memoryStore_def MemGet_def MemPut_def MemSet_def)

subsection \<open>Listing by pages\<close>







end
