(* ===== verification/ExtentMap.thy ===== *)
theory ExtentMap
  imports VolumeTypes
begin

section \<open>Extent maps (gateway/service/chunk_extent_data.go)\<close>

text \<open>
  An allocation page stores runs of logical chunks as extents. Reads look a logical chunk up in the
  extents (\<open>findAllocationChunk\<close>); writes expand a page into one mapping per chunk
  (\<open>buildAllocationChunkMappings\<close>), change some of them and compress the result again
  (\<open>compressAllocationChunkMappings\<close>). The lemmas show that the two views agree on every page
  the compressor produces, and that it loses nothing.
\<close>

record allocationChunkMapping =
  amRef :: PhysicalChunkRef
  amPayloadEncryption :: "ChunkPayloadEncryptionHeader option"

definition zero_mapping :: allocationChunkMapping where
  "zero_mapping = \<lparr>amRef = zero_ref, amPayloadEncryption = None\<rparr>"

definition chunkRef :: "AllocationChunkRecord \<Rightarrow> u64 \<Rightarrow> PhysicalChunkRef" where
  "chunkRef r logicalChunk =
     (if logicalChunk < xLogicalChunkStart r then zero_ref
      else let offset = logicalChunk - xLogicalChunkStart r
           in if offset \<ge> ucast (xChunkCount r) \<or> xPhysicalChunkStart r = 0 then zero_ref
              else \<lparr>prStoreID = xStoreID r, prShardID = xShardID r,
                    prChunkID = xPhysicalChunkStart r + offset\<rparr>)"

definition PhysicalChunkRef_String :: "PhysicalChunkRef \<Rightarrow> string" where
  "PhysicalChunkRef_String r =
     (if prChunkID r = 0 then ''zero''
      else prStoreID r @ ''/'' @ dec_digits (unat (prShardID r)) @ ''/'' @ dec_digits (unat (prChunkID r)))"

definition covers :: "u64 \<Rightarrow> AllocationChunkRecord \<Rightarrow> bool" where
  "covers logicalChunk extent =
     (let start = xLogicalChunkStart extent;
          end1 = start + ucast (xChunkCount extent)
      in logicalChunk \<ge> start \<and> logicalChunk < end1)"

definition findAllocationChunk :: "AllocationChunkRecord list \<Rightarrow> u64 \<Rightarrow> AllocationChunkRecord option" where
  "findAllocationChunk extents logicalChunk = find (covers logicalChunk) extents"

definition kindForChunkMapping :: "allocationChunkMapping \<Rightarrow> string" where
  "kindForChunkMapping mapping =
     (if prChunkID (amRef mapping) = 0 then AllocationChunkKindZero else AllocationChunkKindData)"

definition samePhysicalLocation :: "allocationChunkMapping \<Rightarrow> allocationChunkMapping \<Rightarrow> bool" where
  "samePhysicalLocation a b \<longleftrightarrow>
     prStoreID (amRef a) = prStoreID (amRef b) \<and> prShardID (amRef a) = prShardID (amRef b)"

text \<open>
  The inner loop over the chunks of one data extent: chunks before the page are skipped, the first
  one after it ends the loop. The number of mappings is the page's chunk count.
\<close>

fun place_extent ::
    "AllocationChunkRecord \<Rightarrow> u64 \<Rightarrow> nat list \<Rightarrow> allocationChunkMapping list \<Rightarrow> allocationChunkMapping list" where
  "place_extent extent pageStartChunk [] mappings = mappings"
| "place_extent extent pageStartChunk (i # is) mappings =
     (let logicalChunk = xLogicalChunkStart extent + of_nat i
      in if logicalChunk < pageStartChunk then place_extent extent pageStartChunk is mappings
         else let pageIndex = unat (logicalChunk - pageStartChunk)
              in if pageIndex \<ge> length mappings then mappings
                 else place_extent extent pageStartChunk is
                        (mappings[pageIndex := \<lparr>amRef = chunkRef extent logicalChunk,
                                                amPayloadEncryption = xPayloadEncryption extent\<rparr>]))"

definition buildAllocationChunkMappings ::
    "AllocationPageRecord \<Rightarrow> u64 \<Rightarrow> nat \<Rightarrow> allocationChunkMapping list" where
  "buildAllocationChunkMappings page pageStartChunk pageChunkCount =
     fold (\<lambda>extent mappings.
             if xKind extent \<noteq> AllocationChunkKindData then mappings
             else place_extent extent pageStartChunk [0..<unat (xChunkCount extent)] mappings)
       (pgExtents page) (replicate pageChunkCount zero_mapping)"

text \<open>The closure that appends the run from \<open>currentStart\<close> to \<open>end\<close>.\<close>

definition flush_extent :: "u64 \<Rightarrow> nat \<Rightarrow> string \<Rightarrow> allocationChunkMapping \<Rightarrow> nat \<Rightarrow> AllocationChunkRecord" where
  "flush_extent pageStartChunk currentStart currentKind currentRef end1 =
     (let extent = \<lparr>xLogicalChunkStart = pageStartChunk + of_nat currentStart,
                    xChunkCount = of_nat (end1 - currentStart), xKind = currentKind,
                    xStoreID = '''', xShardID = 0, xPhysicalChunkStart = 0,
                    xPayloadEncryption = None\<rparr>
      in if currentKind = AllocationChunkKindData
         then extent\<lparr>xStoreID := prStoreID (amRef currentRef),
                     xShardID := prShardID (amRef currentRef),
                     xPhysicalChunkStart := prChunkID (amRef currentRef),
                     xPayloadEncryption :=
                       cloneChunkPayloadEncryptionHeader (amPayloadEncryption currentRef)\<rparr>
         else extent)"

fun compress_loop ::
    "u64 \<Rightarrow> nat \<Rightarrow> string \<Rightarrow> allocationChunkMapping \<Rightarrow> nat \<Rightarrow> allocationChunkMapping list \<Rightarrow>
     AllocationChunkRecord list" where
  "compress_loop pageStartChunk currentStart currentKind currentRef i [] =
     [flush_extent pageStartChunk currentStart currentKind currentRef i]"
| "compress_loop pageStartChunk currentStart currentKind currentRef i (m # ms) =
     (let nextKind = kindForChunkMapping m;
          contiguous = (currentKind = AllocationChunkKindData \<and> nextKind = AllocationChunkKindData \<and>
             samePhysicalLocation currentRef m \<and> amPayloadEncryption currentRef = None \<and>
             amPayloadEncryption m = None \<and>
             prChunkID (amRef m) = prChunkID (amRef currentRef) + of_nat (i - currentStart))
      in if nextKind = currentKind \<and> (currentKind = AllocationChunkKindZero \<or> contiguous)
         then compress_loop pageStartChunk currentStart currentKind currentRef (Suc i) ms
         else flush_extent pageStartChunk currentStart currentKind currentRef i
              # compress_loop pageStartChunk i nextKind m (Suc i) ms)"

definition compressAllocationChunkMappings ::
    "u64 \<Rightarrow> allocationChunkMapping list \<Rightarrow> AllocationChunkRecord list" where
  "compressAllocationChunkMappings pageStartChunk mappings =
     (case mappings of
        [] \<Rightarrow> []
      | m # ms \<Rightarrow> compress_loop pageStartChunk 0 (kindForChunkMapping m) m 1 ms)"

definition isAllZero :: "bytes \<Rightarrow> bool" where
  "isAllZero data \<longleftrightarrow> (\<forall>b \<in> set data. b = 0)"

subsection \<open>The two views of a page\<close>

text \<open>What a lookup says about a logical chunk, as a mapping.\<close>

definition lookup_mapping :: "AllocationChunkRecord list \<Rightarrow> u64 \<Rightarrow> allocationChunkMapping" where
  "lookup_mapping extents c =
     (case findAllocationChunk extents c of
        None \<Rightarrow> zero_mapping
      | Some x \<Rightarrow> if xKind x = AllocationChunkKindZero then zero_mapping
                  else \<lparr>amRef = chunkRef x c, amPayloadEncryption = xPayloadEncryption x\<rparr>)"

definition ext_start :: "AllocationChunkRecord \<Rightarrow> nat" where
  "ext_start x = unat (xLogicalChunkStart x)"

definition ext_end :: "AllocationChunkRecord \<Rightarrow> nat" where
  "ext_end x = unat (xLogicalChunkStart x) + unat (xChunkCount x)"

text \<open>Extents that do not wrap, do not overlap and are in order.\<close>

definition extents_ok :: "AllocationChunkRecord list \<Rightarrow> bool" where
  "extents_ok xs \<longleftrightarrow>
     (\<forall>x \<in> set xs. ext_end x < 2 ^ 64 \<and> xKind x \<in> {AllocationChunkKindData, AllocationChunkKindZero})
     \<and> sorted_wrt (\<lambda>x y. ext_end x \<le> ext_start y) xs"

lemma kinds_differ [simp]: "AllocationChunkKindData \<noteq> AllocationChunkKindZero"
  "AllocationChunkKindZero \<noteq> AllocationChunkKindData"
  by (simp_all add: kind_strings)

lemma covers_nat:
  assumes "ext_end x < 2 ^ 64"
  shows "covers c x \<longleftrightarrow> ext_start x \<le> unat c \<and> unat c < ext_end x"
proof -
  have "unat (xLogicalChunkStart x + ucast (xChunkCount x) :: u64) = ext_end x"
    using assms unsigned_less[of "xChunkCount x"]
    by (simp add: ext_end_def unat_word_ariths unsigned_ucast_eq take_bit_nat_eq_self)
  then show ?thesis
    by (simp add: covers_def Let_def ext_start_def word_le_nat_alt word_less_nat_alt)
qed

lemma length_place_extent [simp]: "length (place_extent x ps is ms) = length ms"
  by (induction x ps "is" ms rule: place_extent.induct) (simp_all add: Let_def)

lemma place_extent_nth:
  assumes "ext_end x < 2 ^ 64" "unat ps + length ms < 2 ^ 64" "j < length ms"
    and "i \<le> unat (xChunkCount x)"
  shows "place_extent x ps [i..<unat (xChunkCount x)] ms ! j =
    (if ext_start x + i \<le> unat ps + j \<and> unat ps + j < ext_end x
     then \<lparr>amRef = chunkRef x (ps + of_nat j), amPayloadEncryption = xPayloadEncryption x\<rparr>
     else ms ! j)"
  using assms(2-)
proof (induction "unat (xChunkCount x) - i" arbitrary: i ms)
  case 0
  then show ?case
    by (auto simp: ext_start_def ext_end_def)
next
  case (Suc k)
  then have i: "i < unat (xChunkCount x)"
    by simp
  let ?lc = "xLogicalChunkStart x + of_nat i"
  have lc: "unat ?lc = ext_start x + i"
    using assms(1) i by (simp add: ext_start_def ext_end_def unat_word_ariths unsigned_of_nat take_bit_nat_eq_self)
  have upt: "[i..<unat (xChunkCount x)] = i # [Suc i..<unat (xChunkCount x)]"
    using i by (simp add: upt_conv_Cons)
  have k: "k = unat (xChunkCount x) - Suc i"
    using Suc.hyps(2) by simp
  show ?case
  proof (cases "?lc < ps")
    case True
    then have "ext_start x + i < unat ps"
      by (simp add: word_less_nat_alt lc)
    moreover have "place_extent x ps [i..<unat (xChunkCount x)] ms =
        place_extent x ps [Suc i..<unat (xChunkCount x)] ms"
      using True by (simp add: upt)
    ultimately show ?thesis
      using Suc.hyps(1)[OF k Suc.prems(1,2)] i by simp
  next
    case False
    then have ge: "unat ps \<le> ext_start x + i"
      by (simp add: word_less_nat_alt lc)
    have idx: "unat (?lc - ps) = ext_start x + i - unat ps"
      using False lc by (simp add: unat_sub not_less)
    show ?thesis
    proof (cases "ext_start x + i - unat ps \<ge> length ms")
      case True
      then show ?thesis
        using False Suc.prems ge by (auto simp: upt idx)
    next
      case inside: False
      let ?ms = "ms[ext_start x + i - unat ps := \<lparr>amRef = chunkRef x ?lc, amPayloadEncryption = xPayloadEncryption x\<rparr>]"
      have "place_extent x ps [i..<unat (xChunkCount x)] ms =
          place_extent x ps [Suc i..<unat (xChunkCount x)] ?ms"
        using False inside by (simp add: upt idx Let_def)
      moreover have "ext_start x + i = unat ps + j \<Longrightarrow> ?lc = ps + of_nat j"
        using lc Suc.prems by (simp add: word_unat_eq_iff unat_word_ariths unsigned_of_nat take_bit_nat_eq_self)
      moreover have "ext_start x + i = unat ps + j \<Longrightarrow> unat ps + j < ext_end x"
        using i by (simp add: ext_start_def ext_end_def)
      ultimately show ?thesis
        using Suc.hyps(1)[OF k, of ?ms] Suc.prems i ge by (auto simp: nth_list_update)
    qed
  qed
qed

lemma find_unique:
  assumes "sorted_wrt (\<lambda>x y. ext_end x \<le> ext_start y) xs" "x \<in> set xs"
    and "ext_start x \<le> n" "n < ext_end x"
  shows "find (\<lambda>x. ext_start x \<le> n \<and> n < ext_end x) xs = Some x"
  using assms
proof (induction xs)
  case (Cons y ys)
  show ?case
  proof (cases "x = y")
    case True
    with Cons show ?thesis by simp
  next
    case False
    with Cons have "ext_end y \<le> ext_start x" by auto
    with Cons False show ?thesis by auto
  qed
qed simp

lemma find_covers:
  assumes "extents_ok xs"
  shows "findAllocationChunk xs c = find (\<lambda>x. ext_start x \<le> unat c \<and> unat c < ext_end x) xs"
  using assms covers_nat
  by (auto simp: findAllocationChunk_def extents_ok_def intro!: find_cong)

lemma fold_place_nth:
  assumes "extents_ok xs" "unat ps + length ms < 2 ^ 64" "j < length ms"
  shows "fold (\<lambda>x ms. if xKind x \<noteq> AllocationChunkKindData then ms
             else place_extent x ps [0..<unat (xChunkCount x)] ms) xs ms ! j =
    (case find (\<lambda>x. ext_start x \<le> unat ps + j \<and> unat ps + j < ext_end x) xs of
       None \<Rightarrow> ms ! j
     | Some x \<Rightarrow> if xKind x = AllocationChunkKindZero then ms ! j
                 else \<lparr>amRef = chunkRef x (ps + of_nat j), amPayloadEncryption = xPayloadEncryption x\<rparr>)"
  using assms
proof (induction xs arbitrary: ms)
  case (Cons x xs)
  let ?P = "\<lambda>x. ext_start x \<le> unat ps + j \<and> unat ps + j < ext_end x"
  let ?ms = "if xKind x \<noteq> AllocationChunkKindData then ms
             else place_extent x ps [0..<unat (xChunkCount x)] ms"
  have ok: "extents_ok xs" "ext_end x < 2 ^ 64"
    and kind: "xKind x = AllocationChunkKindData \<or> xKind x = AllocationChunkKindZero"
    using Cons.prems(1) by (auto simp: extents_ok_def)
  have len: "length ?ms = length ms"
    by simp
  have rest: "find ?P xs = None" if "?P x"
    using that Cons.prems(1) by (auto simp: extents_ok_def find_None_iff)
  have at: "?ms ! j = (if ?P x \<and> xKind x = AllocationChunkKindData
      then \<lparr>amRef = chunkRef x (ps + of_nat j), amPayloadEncryption = xPayloadEncryption x\<rparr> else ms ! j)"
    using place_extent_nth[OF ok(2) Cons.prems(2,3), of 0] by auto
  show ?case
    using Cons.IH[OF ok(1), of ?ms] Cons.prems(2,3) at rest kind len
    by (cases "?P x") (auto split: option.splits)
qed simp

lemma build_lookup:
  assumes "extents_ok (pgExtents page)" "unat ps + n < 2 ^ 64" "j < n"
  shows "buildAllocationChunkMappings page ps n ! j = lookup_mapping (pgExtents page) (ps + of_nat j)"
proof -
  have "unat (ps + of_nat j) = unat ps + j"
    using assms(2,3) by (simp add: unat_word_ariths unsigned_of_nat take_bit_nat_eq_self)
  then show ?thesis
    using fold_place_nth[OF assms(1), of ps "replicate n zero_mapping" j] assms(2,3)
    by (auto simp: buildAllocationChunkMappings_def lookup_mapping_def find_covers[OF assms(1)]
        split: option.splits)
qed

lemma length_build [simp]: "length (buildAllocationChunkMappings page ps n) = n"
proof -
  have "length (fold (\<lambda>x ms. if xKind x \<noteq> AllocationChunkKindData then ms
      else place_extent x ps [0..<unat (xChunkCount x)] ms) xs ms) = length ms" for xs ms
    by (induction xs arbitrary: ms) simp_all
  then show ?thesis
    by (simp add: buildAllocationChunkMappings_def)
qed

subsection \<open>Compression loses nothing\<close>

text \<open>A mapping without a chunk carries nothing else.\<close>

definition mapping_ok :: "allocationChunkMapping \<Rightarrow> bool" where
  "mapping_ok m \<longleftrightarrow> (prChunkID (amRef m) = 0 \<longrightarrow> m = zero_mapping)"

text \<open>The \<open>k\<close>-th mapping of the run that starts with \<open>m\<close>.\<close>

definition run_mapping :: "allocationChunkMapping \<Rightarrow> nat \<Rightarrow> allocationChunkMapping" where
  "run_mapping m k =
     (if prChunkID (amRef m) = 0 then zero_mapping
      else m\<lparr>amRef := (amRef m)\<lparr>prChunkID := prChunkID (amRef m) + of_nat k\<rparr>\<rparr>)"

lemma run_mapping_0: "mapping_ok m \<Longrightarrow> run_mapping m 0 = m"
  by (auto simp: run_mapping_def mapping_ok_def)

lemma flush_extent_bounds:
  assumes "unat ps + e < 2 ^ 64" "s \<le> e" "e < 2 ^ 32"
  shows "ext_start (flush_extent ps s kind m e) = unat ps + s"
    and "ext_end (flush_extent ps s kind m e) = unat ps + e"
proof -
  have "unat (of_nat (e - s) :: u32) = e - s" "unat (of_nat s :: u64) = s"
    by (rule unat_of_nat_length, use assms in simp)+
  then show "ext_start (flush_extent ps s kind m e) = unat ps + s"
    and "ext_end (flush_extent ps s kind m e) = unat ps + e"
    using assms
    by (simp_all add: ext_start_def ext_end_def flush_extent_def Let_def unat_word_ariths del: of_nat_diff)
qed

lemma flush_extent_kind [simp]: "xKind (flush_extent ps s kind m e) = kind"
  by (simp add: flush_extent_def Let_def)

lemma flush_extent_mapping:
  assumes "unat ps + e < 2 ^ 64" "e < 2 ^ 32" "s \<le> j" "j < e" "kind = kindForChunkMapping m"
  shows "(if xKind (flush_extent ps s kind m e) = AllocationChunkKindZero then zero_mapping
          else \<lparr>amRef = chunkRef (flush_extent ps s kind m e) (ps + of_nat j),
                amPayloadEncryption = xPayloadEncryption (flush_extent ps s kind m e)\<rparr>) =
         run_mapping m (j - s)"
proof (cases "prChunkID (amRef m) = 0")
  case True
  with assms(5) show ?thesis
    by (simp add: run_mapping_def kindForChunkMapping_def)
next
  case False
  have off: "of_nat j - of_nat s = (of_nat (j - s) :: u64)"
    using assms(3) by (simp add: of_nat_diff)
  have nats: "unat (ps + of_nat j) = unat ps + j" "unat (ps + of_nat s) = unat ps + s"
    using assms(1-4) by (simp_all add: unat_word_ariths unsigned_of_nat take_bit_nat_eq_self)
  have diffs: "unat (of_nat (j - s) :: u64) = j - s" "unat (of_nat (e - s) :: u32) = e - s"
    by (rule unat_of_nat_length, use assms(1-4) in simp)+
  have "\<not> ps + of_nat j < ps + of_nat s"
    using assms(3) nats by (simp add: word_less_nat_alt)
  moreover have "\<not> (ucast (of_nat (e - s) :: u32) :: u64) \<le> of_nat (j - s)"
    using assms(2-4) diffs
    by (simp add: word_le_nat_alt unsigned_ucast_eq take_bit_nat_eq_self del: of_nat_diff)
  ultimately show ?thesis
    using False assms(5)
    by (simp add: flush_extent_def Let_def kindForChunkMapping_def run_mapping_def chunkRef_def off
        cloneChunkPayloadEncryptionHeader_def del: of_nat_diff)
qed


text \<open>
  The loop invariant of the compressor: with a run from \<open>s\<close> to \<open>i\<close> open, the extents it goes on to
  produce tile the range from \<open>s\<close>, in order, and a lookup returns the run or the remaining mapping.
\<close>

definition tiles ::
    "u64 \<Rightarrow> nat \<Rightarrow> nat \<Rightarrow> allocationChunkMapping \<Rightarrow> allocationChunkMapping list \<Rightarrow>
     AllocationChunkRecord list \<Rightarrow> bool" where
  "tiles ps s i m ms xs \<longleftrightarrow>
     extents_ok xs \<and> (\<forall>x \<in> set xs. unat ps + s \<le> ext_start x)
     \<and> (\<forall>j. s \<le> j \<and> j < i + length ms \<longrightarrow>
          lookup_mapping xs (ps + of_nat j) = (if j < i then run_mapping m (j - s) else ms ! (j - i)))
     \<and> (\<forall>j. i + length ms \<le> j \<and> unat ps + j < 2 ^ 64 \<longrightarrow>
          lookup_mapping xs (ps + of_nat j) = zero_mapping)"

lemma lookup_Nil [simp]: "lookup_mapping [] c = zero_mapping"
  by (simp add: lookup_mapping_def findAllocationChunk_def)

lemma lookup_Cons:
  assumes "extents_ok (x # xs)"
  shows "lookup_mapping (x # xs) c =
    (if ext_start x \<le> unat c \<and> unat c < ext_end x
     then if xKind x = AllocationChunkKindZero then zero_mapping
          else \<lparr>amRef = chunkRef x c, amPayloadEncryption = xPayloadEncryption x\<rparr>
     else lookup_mapping xs c)"
  using assms covers_nat[of x c]
  by (auto simp: lookup_mapping_def findAllocationChunk_def extents_ok_def)

lemma unat_page_index:
  "unat (ps :: u64) + j < 2 ^ 64 \<Longrightarrow> unat (ps + of_nat j) = unat ps + j"
  by (simp add: unat_word_ariths unsigned_of_nat take_bit_nat_eq_self)

lemma tiles_flush:
  assumes room: "unat ps + i + length ms < 2 ^ 64" "i + length ms < 2 ^ 32" "s < i"
    and kind: "kind = kindForChunkMapping m"
    and rest: "if ms = [] then xs = [] else tiles ps i (Suc i) (hd ms) (tl ms) xs"
    and ok: "\<forall>m \<in> set ms. mapping_ok m"
  shows "tiles ps s i m ms (flush_extent ps s kind m i # xs)"
proof -
  let ?x = "flush_extent ps s kind m i"
  have bounds: "ext_start ?x = unat ps + s" "ext_end ?x = unat ps + i"
    by (rule flush_extent_bounds, use room in auto)+
  have xs: "extents_ok xs" "\<forall>x \<in> set xs. unat ps + i \<le> ext_start x"
    using rest by (auto simp: tiles_def extents_ok_def split: if_splits)
  have "kind \<in> {AllocationChunkKindData, AllocationChunkKindZero}"
    by (simp add: kind kindForChunkMapping_def)
  then have all: "extents_ok (?x # xs)"
    using xs bounds room by (auto simp: extents_ok_def)
  have tail: "lookup_mapping xs (ps + of_nat j) = ms ! (j - i)" if "i \<le> j" "j < i + length ms" for j
  proof (cases ms)
    case (Cons m' ms')
    then have "tiles ps i (Suc i) m' ms' xs"
      using rest by simp
    then have "lookup_mapping xs (ps + of_nat j) =
        (if j < Suc i then run_mapping m' (j - i) else ms' ! (j - Suc i))"
      using that Cons by (auto simp: tiles_def)
    moreover have "run_mapping m' 0 = m'"
      using ok Cons by (intro run_mapping_0) simp
    ultimately show ?thesis
      using that Cons by (cases "j = i") (auto simp: nth_Cons')
  qed (use that in simp)
  have beyond: "lookup_mapping xs (ps + of_nat j) = zero_mapping"
    if "i + length ms \<le> j" "unat ps + j < 2 ^ 64" for j
    using that rest by (cases ms) (auto simp: tiles_def)
  show ?thesis
    unfolding tiles_def
  proof (intro conjI allI impI)
    show "extents_ok (?x # xs)" by (rule all)
    show "\<forall>x \<in> set (?x # xs). unat ps + s \<le> ext_start x"
      using xs bounds room by fastforce
  next
    fix j assume j: "s \<le> j \<and> j < i + length ms"
    then have "unat (ps + of_nat j) = unat ps + j"
      using room by (intro unat_page_index) simp
    moreover have "j < i \<Longrightarrow> (if xKind ?x = AllocationChunkKindZero then zero_mapping
        else \<lparr>amRef = chunkRef ?x (ps + of_nat j), amPayloadEncryption = xPayloadEncryption ?x\<rparr>) =
        run_mapping m (j - s)"
      by (rule flush_extent_mapping) (use room j kind in auto)
    ultimately show "lookup_mapping (?x # xs) (ps + of_nat j) =
        (if j < i then run_mapping m (j - s) else ms ! (j - i))"
      using j bounds tail[of j] by (simp add: lookup_Cons[OF all])
  next
    fix j assume "i + length ms \<le> j \<and> unat ps + j < 2 ^ 64"
    then show "lookup_mapping (?x # xs) (ps + of_nat j) = zero_mapping"
      using bounds beyond[of j] unat_page_index[of ps j] by (simp add: lookup_Cons[OF all])
  qed
qed

lemma tiles_extend:
  assumes "tiles ps s (Suc i) m ms xs" "s < i" "m' = run_mapping m (i - s)"
  shows "tiles ps s i m (m' # ms) xs"
  using assms unfolding tiles_def by (auto simp: nth_Cons' less_Suc_eq)

lemma compress_step_run:
  assumes "kind = kindForChunkMapping m" "mapping_ok m'" "kindForChunkMapping m' = kind"
    and "kind = AllocationChunkKindZero \<or>
         (samePhysicalLocation m m' \<and> amPayloadEncryption m = None \<and> amPayloadEncryption m' = None \<and>
          prChunkID (amRef m') = prChunkID (amRef m) + of_nat k)"
  shows "m' = run_mapping m k"
  using assms
  by (cases m, cases "amRef m", cases m', cases "amRef m'")
    (auto simp: run_mapping_def mapping_ok_def kindForChunkMapping_def samePhysicalLocation_def
      split: if_splits)

lemma compress_loop_tiles:
  assumes "unat ps + i + length ms < 2 ^ 64" "i + length ms < 2 ^ 32" "s < i"
    and "kind = kindForChunkMapping m" "\<forall>m \<in> set ms. mapping_ok m"
  shows "tiles ps s i m ms (compress_loop ps s kind m i ms)"
  using assms
proof (induction ms arbitrary: s kind m i)
  case Nil
  then show ?case
    by (simp add: tiles_flush)
next
  case (Cons m' ms)
  show ?case
  proof (cases "kindForChunkMapping m' = kind \<and> (kind = AllocationChunkKindZero \<or>
      (kind = AllocationChunkKindData \<and> kindForChunkMapping m' = AllocationChunkKindData \<and>
       samePhysicalLocation m m' \<and> amPayloadEncryption m = None \<and> amPayloadEncryption m' = None \<and>
       prChunkID (amRef m') = prChunkID (amRef m) + of_nat (i - s)))")
    case True
    then have "m' = run_mapping m (i - s)"
      using Cons.prems by (intro compress_step_run) auto
    moreover have "tiles ps s (Suc i) m ms (compress_loop ps s kind m (Suc i) ms)"
      by (rule Cons.IH) (use Cons.prems in auto)
    ultimately have "tiles ps s i m (m' # ms) (compress_loop ps s kind m (Suc i) ms)"
      using Cons.prems by (intro tiles_extend) auto
    with True show ?thesis
      by (auto simp: Let_def)
  next
    case False
    have "tiles ps i (Suc i) m' ms (compress_loop ps i (kindForChunkMapping m') m' (Suc i) ms)"
      by (rule Cons.IH) (use Cons.prems in auto)
    then have "tiles ps s i m (m' # ms)
        (flush_extent ps s kind m i # compress_loop ps i (kindForChunkMapping m') m' (Suc i) ms)"
      using Cons.prems by (intro tiles_flush) auto
    with False show ?thesis
      by (auto simp: Let_def)
  qed
qed

lemma compress_correct:
  assumes "unat ps + length ms < 2 ^ 64" "length ms < 2 ^ 32" "\<forall>m \<in> set ms. mapping_ok m"
  shows "extents_ok (compressAllocationChunkMappings ps ms)
    \<and> (\<forall>j. unat ps + j < 2 ^ 64 \<longrightarrow>
         lookup_mapping (compressAllocationChunkMappings ps ms) (ps + of_nat j) =
           (if j < length ms then ms ! j else zero_mapping))"
proof (cases ms)
  case Nil
  then show ?thesis
    by (simp add: compressAllocationChunkMappings_def extents_ok_def)
next
  case (Cons m ms')
  then have "tiles ps 0 1 m ms' (compressAllocationChunkMappings ps ms)"
    using assms by (simp add: compressAllocationChunkMappings_def compress_loop_tiles)
  moreover have "run_mapping m 0 = m"
    using assms(3) Cons by (intro run_mapping_0) simp
  ultimately show ?thesis
    using Cons by (auto simp: tiles_def nth_Cons')
qed

lemma build_compress:
  assumes "unat ps + length ms < 2 ^ 64" "length ms < 2 ^ 32" "\<forall>m \<in> set ms. mapping_ok m"
    and "pgExtents page = compressAllocationChunkMappings ps ms" "unat ps + n < 2 ^ 64"
  shows "buildAllocationChunkMappings page ps n =
    map (\<lambda>j. if j < length ms then ms ! j else zero_mapping) [0..<n]"
proof (rule nth_equalityI)
  fix j assume "j < length (buildAllocationChunkMappings page ps n)"
  then show "buildAllocationChunkMappings page ps n ! j =
      map (\<lambda>j. if j < length ms then ms ! j else zero_mapping) [0..<n] ! j"
    using build_lookup[of page ps n j] compress_correct[OF assms(1-3)] assms(4,5) by simp
qed simp

text \<open>
  C27. Compressing the chunk mappings of a page and expanding them again gives the same mappings,
  for every page of fewer than 2^32 chunks within the 64-bit chunk space, and looking a logical
  chunk up in the compressed extents returns its mapping: readers and writers see the same map.
\<close>

theorem compress_round_trip:
  assumes "unat ps + length ms < 2 ^ 64" "length ms < 2 ^ 32" "\<forall>m \<in> set ms. mapping_ok m"
    and "pgExtents page = compressAllocationChunkMappings ps ms"
  shows "buildAllocationChunkMappings page ps (length ms) = ms
    \<and> (\<forall>j < length ms. lookup_mapping (pgExtents page) (ps + of_nat j) = ms ! j)
    \<and> extents_ok (pgExtents page)"
  using build_compress[OF assms, of "length ms"] compress_correct[OF assms(1-3)] assms(1,4)
  by (auto intro: nth_equalityI)

definition demo_mappings :: "allocationChunkMapping list" where
  "demo_mappings =
     [\<lparr>amRef = \<lparr>prStoreID = '''', prShardID = 0, prChunkID = 5\<rparr>, amPayloadEncryption = None\<rparr>,
      \<lparr>amRef = \<lparr>prStoreID = '''', prShardID = 0, prChunkID = 6\<rparr>, amPayloadEncryption = None\<rparr>,
      zero_mapping,
      \<lparr>amRef = \<lparr>prStoreID = ''s'', prShardID = 2, prChunkID = 9\<rparr>, amPayloadEncryption = None\<rparr>]"

definition demo_mapped_page :: AllocationPageRecord where
  "demo_mapped_page =
     \<lparr>pgVolumeID = 7, pgPageNo = 1, pgPageBytes = 0, pgChunkSizeBytes = 0, pgRevision = 1,
      pgExtents = compressAllocationChunkMappings 64 demo_mappings\<rparr>"

theorem compress_round_trip_witness:
  "buildAllocationChunkMappings demo_mapped_page 64 4 = demo_mappings
   \<and> length (pgExtents demo_mapped_page) = 3"
proof -
  have "buildAllocationChunkMappings demo_mapped_page 64 (length demo_mappings) = demo_mappings"
    using compress_round_trip[of 64 demo_mappings demo_mapped_page]
    by (simp add: demo_mapped_page_def demo_mappings_def mapping_ok_def)
  moreover have "length (pgExtents demo_mapped_page) = 3" "length demo_mappings = 4"
    by code_simp+
  ultimately show ?thesis
    by simp
qed

end
