(* ===== verification/ChunkExtent.thy ===== *)
theory ChunkExtent
  imports Interfaces ObjectStore ExtentMap
begin

unbundle bit_operations_syntax

section \<open>The chunk-extent data repository (gateway/service/chunk_extent_data.go)\<close>

text \<open>
  Reads and writes of byte ranges of a volume. A read looks its chunks up in the extent pages and
  copies the payloads. A write goes page by page: it reads the page, merges the new bytes into the
  chunks it touches, stores the merged chunks under fresh chunk ids, and publishes them by a
  compare-and-swap of the page, up to eight times.

  The phases of one page write are separate steps of a program counter (\<open>write_pc\<close>): between any two
  of them other gateways and the garbage collector may run. \<open>writePage\<close> runs the steps to the end
  without interference; the interleaved semantics is in \<open>ChunkWriters\<close>.

  The world is the state of the metadata repository and of the object store. The payload store of
  the source is always the plain \<open>chunkPayloadRepository\<close>, which has no encryption headers, so the
  type assertions to \<open>chunkPayloadEncryptionHeaderStore\<close> take their failing branch. The counters and
  durations of \<open>DataWriteStats\<close> are not modelled. A slice expression out of range and a division by
  zero panic in Go: the error \<open>panic\<close>. Sets of chunk references are lists without duplicates, one
  possible iteration order of the Go map.
\<close>

definition chunkExtentWriteRetryLimit :: nat where "chunkExtentWriteRetryLimit = 8"
definition chunkExtentWritePageLockStripes :: u64 where "chunkExtentWritePageLockStripes = 128"

type_synonym PhysicalChunkPlanner = "VolumeSpec \<Rightarrow> u64 \<Rightarrow> u64 \<Rightarrow> service_error + PhysicalChunkRef"

record ('m, 'o) chunkExtentDataRepository =
  ceMeta :: "'m MetadataRepository"
  ceChunks :: "'o ObjectStore"
  cePlanner :: "PhysicalChunkPlanner option"

definition NewChunkExtentDataRepositoryWithPlanner ::
    "'m MetadataRepository \<Rightarrow> 'o ObjectStore \<Rightarrow> PhysicalChunkPlanner option \<Rightarrow>
     ('m, 'o) chunkExtentDataRepository" where
  "NewChunkExtentDataRepositoryWithPlanner meta objects planner =
     \<lparr>ceMeta = meta, ceChunks = objects, cePlanner = planner\<rparr>"

definition NewChunkExtentDataRepository ::
    "'m MetadataRepository \<Rightarrow> 'o ObjectStore \<Rightarrow> ('m, 'o) chunkExtentDataRepository" where
  "NewChunkExtentDataRepository meta objects = NewChunkExtentDataRepositoryWithPlanner meta objects None"

definition minUint64 :: "u64 \<Rightarrow> u64 \<Rightarrow> u64" where
  "minUint64 a b = (if a < b then a else b)"

definition maxUint64 :: "u64 \<Rightarrow> u64 \<Rightarrow> u64" where
  "maxUint64 a b = (if a > b then a else b)"

text \<open>A slice expression of Go, and \<open>copy\<close> of \<open>src\<close> into \<open>dst[i:]\<close>.\<close>

definition slice_expr :: "u64 \<Rightarrow> u64 \<Rightarrow> bytes \<Rightarrow> service_error + bytes" where
  "slice_expr i j xs =
     (if unat i \<le> unat j \<and> unat j \<le> length xs then Inr (slice (unat i) (unat j) xs) else Inl panic)"

definition splice :: "nat \<Rightarrow> bytes \<Rightarrow> bytes \<Rightarrow> bytes" where
  "splice i src dst = take i dst @ src @ drop (i + length src) dst"

definition logicalChunkCountInPage :: "VolumeSpec \<Rightarrow> u64 \<Rightarrow> nat" where
  "logicalChunkCountInPage volume pageNo =
     (let chunkSize = ucast (vChunkSizeBytes volume) :: u64;
          pageBytes = ucast (vExtentPageBytes volume) :: u64;
          chunksPerPage = pageBytes div chunkSize;
          totalChunks = (vSizeBytes volume + chunkSize - 1) div chunkSize;
          pageStartChunk = pageNo * chunksPerPage
      in if pageStartChunk \<ge> totalChunks then 0
         else let remaining = totalChunks - pageStartChunk
              in unat (if remaining > chunksPerPage then chunksPerPage else remaining))"

definition writePageLock :: "u64 \<Rightarrow> u64 \<Rightarrow> u64" where
  "writePageLock volumeID pageNo =
     (let x0 = volumeID;
          x1 = x0 XOR (pageNo + 0x9e3779b97f4a7c15 + push_bit 6 x0 + drop_bit 2 x0);
          x2 = x1 XOR drop_bit 33 x1;
          x3 = x2 * 0xff51afd7ed558ccd;
          x4 = x3 XOR drop_bit 33 x3
      in x4 mod chunkExtentWritePageLockStripes)"

subsection \<open>Reads\<close>

definition readLogicalChunk ::
    "('m, 'o) chunkExtentDataRepository \<Rightarrow> VolumeSpec \<Rightarrow> AllocationPageRecord \<Rightarrow> u64 \<Rightarrow> 'o \<Rightarrow>
     service_error + bytes" where
  "readLogicalChunk r volume page logicalChunk s =
     (case findAllocationChunk (pgExtents page) logicalChunk of
        None \<Rightarrow> Inr (replicate (chunk_bytes volume) 0)
      | Some extent \<Rightarrow>
          if xKind extent = AllocationChunkKindZero then Inr (replicate (chunk_bytes volume) 0)
          else if xPayloadEncryption extent \<noteq> None
          then Inl (ErrOther ''payload store does not support encryption headers'')
          else ReadChunkRef (ceChunks r) volume (chunkRef extent logicalChunk) s)"

definition readChunkByMapping ::
    "('m, 'o) chunkExtentDataRepository \<Rightarrow> VolumeSpec \<Rightarrow> allocationChunkMapping \<Rightarrow> 'o \<Rightarrow>
     service_error + bytes" where
  "readChunkByMapping r volume mapping s =
     (if prChunkID (amRef mapping) = 0 then Inr (replicate (unat (vChunkSizeBytes volume)) 0)
      else if amPayloadEncryption mapping \<noteq> None
      then Inl (ErrOther ''payload store does not support encryption headers'')
      else ReadChunkRef (ceChunks r) volume (amRef mapping) s)"

text \<open>The loop of \<open>ReadAt\<close> over the logical chunks of the range, with its cache of pages.\<close>

fun read_chunks ::
    "('m, 'o) chunkExtentDataRepository \<Rightarrow> VolumeSpec \<Rightarrow> u64 \<Rightarrow> u64 \<Rightarrow> 'm \<times> 'o \<Rightarrow> u64 list \<Rightarrow>
     (u64, AllocationPageRecord) gomap \<Rightarrow> bytes \<Rightarrow> service_error + bytes" where
  "read_chunks r volume offsetBytes lengthBytes w [] pageCache out = Inr out"
| "read_chunks r volume offsetBytes lengthBytes w (logicalChunk # rest) pageCache out =
     (let chunkSize = ucast (vChunkSizeBytes volume) :: u64;
          chunksPerPage = ucast (vExtentPageBytes volume) div chunkSize;
          pageNo = logicalChunk div chunksPerPage
      in case (case mget pageCache pageNo of
                 Some page \<Rightarrow> Inr page
               | None \<Rightarrow> mrGetExtentPage (ceMeta r) (vID volume) pageNo (fst w)) of
           Inl err \<Rightarrow> Inl err
         | Inr page \<Rightarrow>
             case readLogicalChunk r volume page logicalChunk (snd w) of
               Inl err \<Rightarrow> Inl err
             | Inr chunkData \<Rightarrow>
                 let chunkStartOffset = logicalChunk * chunkSize;
                     copyStart = maxUint64 offsetBytes chunkStartOffset;
                     copyEnd = minUint64 (offsetBytes + lengthBytes) (chunkStartOffset + chunkSize);
                     outStart = copyStart - offsetBytes;
                     chunkOffset = copyStart - chunkStartOffset
                 in case (slice_expr outStart (outStart + (copyEnd - copyStart)) out,
                          slice_expr chunkOffset (chunkOffset + (copyEnd - copyStart)) chunkData) of
                      (Inr _, Inr src) \<Rightarrow>
                        read_chunks r volume offsetBytes lengthBytes w rest
                          (mput pageNo page pageCache) (splice (unat outStart) src out)
                    | _ \<Rightarrow> Inl panic)"

definition ReadAt ::
    "('m, 'o) chunkExtentDataRepository \<Rightarrow> VolumeSpec \<Rightarrow> u64 \<Rightarrow> u64 \<Rightarrow> 'm \<times> 'o \<Rightarrow> service_error + bytes" where
  "ReadAt r volume0 offsetBytes lengthBytes w =
     (let volume = NormalizeVolumeSpec volume0;
          chunkSize = ucast (vChunkSizeBytes volume) :: u64;
          chunksPerPage = ucast (vExtentPageBytes volume) div chunkSize;
          startChunk = offsetBytes div chunkSize;
          endChunk = (offsetBytes + lengthBytes - 1) div chunkSize
      in if lengthBytes = 0 then Inr []
         else if chunksPerPage = 0 then Inl panic
         else read_chunks r volume offsetBytes lengthBytes w
                (map of_nat [unat startChunk..<Suc (unat endChunk)]) []
                (replicate (unat lengthBytes) 0))"

subsection \<open>Page writes\<close>

text \<open>The arguments of one page write; the volume is normalised.\<close>

record pageWrite =
  pwVolume :: VolumeSpec
  pwPageNo :: u64
  pwOffsetBytes :: u64
  pwLengthBytes :: u64
  pwData :: bytes

text \<open>The locals \<open>writePage\<close> computes before its retry loop.\<close>

definition pwChunkSize :: "pageWrite \<Rightarrow> u64" where
  "pwChunkSize pw = ucast (vChunkSizeBytes (pwVolume pw))"

definition pwPageStartChunk :: "pageWrite \<Rightarrow> u64" where
  "pwPageStartChunk pw = pwPageNo pw * (ucast (vExtentPageBytes (pwVolume pw)) div pwChunkSize pw)"

definition pwPageChunkCount :: "pageWrite \<Rightarrow> nat" where
  "pwPageChunkCount pw = logicalChunkCountInPage (pwVolume pw) (pwPageNo pw)"

definition pwPageStartOffset :: "pageWrite \<Rightarrow> u64" where
  "pwPageStartOffset pw = pwPageStartChunk pw * pwChunkSize pw"

definition pwWriteStart :: "pageWrite \<Rightarrow> u64" where
  "pwWriteStart pw = maxUint64 (pwOffsetBytes pw) (pwPageStartOffset pw)"

definition pwWriteEnd :: "pageWrite \<Rightarrow> u64" where
  "pwWriteEnd pw =
     minUint64 (pwOffsetBytes pw + pwLengthBytes pw)
       (pwPageStartOffset pw + of_nat (pwPageChunkCount pw) * pwChunkSize pw)"

definition pwStartIndex :: "pageWrite \<Rightarrow> nat" where
  "pwStartIndex pw = unat ((pwWriteStart pw - pwPageStartOffset pw) div pwChunkSize pw)"

definition pwEndIndex :: "pageWrite \<Rightarrow> nat" where
  "pwEndIndex pw = unat ((pwWriteEnd pw - pwPageStartOffset pw - 1) div pwChunkSize pw)"

record pendingChunk =
  pcPageIndex :: nat
  pcPayload :: bytes
  pcRef :: PhysicalChunkRef

text \<open>The locals of one attempt.\<close>

record writeAttempt =
  waPage :: AllocationPageRecord
  waCurrent :: "allocationChunkMapping list"
  waNext :: "allocationChunkMapping list"
  waStale :: "PhysicalChunkRef list"
  waPending :: "pendingChunk list"
  waMergeable :: bool
  waNew :: "PhysicalChunkRef list"

definition begin_attempt :: "pageWrite \<Rightarrow> AllocationPageRecord \<Rightarrow> writeAttempt" where
  "begin_attempt pw page =
     (let currentMappings = buildAllocationChunkMappings page (pwPageStartChunk pw) (pwPageChunkCount pw)
      in \<lparr>waPage = page, waCurrent = currentMappings, waNext = currentMappings, waStale = [],
          waPending = [], waMergeable = True, waNew = []\<rparr>)"

text \<open>The merged content of one chunk: all new bytes, or the old chunk with the new bytes copied in.\<close>

definition merged_chunk ::
    "('m, 'o) chunkExtentDataRepository \<Rightarrow> pageWrite \<Rightarrow> allocationChunkMapping \<Rightarrow> u64 \<Rightarrow> u64 \<Rightarrow> u64 \<Rightarrow>
     'o \<Rightarrow> service_error + bytes" where
  "merged_chunk r pw current chunkStartOffset copyStart copyEnd s =
     (let srcStart = copyStart - pwOffsetBytes pw;
          copyLength = copyEnd - copyStart;
          src = slice_expr srcStart (srcStart + copyLength) (pwData pw)
      in if copyStart = chunkStartOffset \<and> copyEnd = chunkStartOffset + pwChunkSize pw then src
         else case readChunkByMapping r (pwVolume pw) current s of
                Inl err \<Rightarrow> Inl err
              | Inr chunkData \<Rightarrow>
                  let chunkOffset = copyStart - chunkStartOffset
                  in case (slice_expr chunkOffset (chunkOffset + copyLength) chunkData, src) of
                       (Inr _, Inr new) \<Rightarrow> Inr (splice (unat chunkOffset) new chunkData)
                     | _ \<Rightarrow> Inl panic)"

definition merge_index ::
    "('m, 'o) chunkExtentDataRepository \<Rightarrow> pageWrite \<Rightarrow> 'o \<Rightarrow> nat \<Rightarrow> writeAttempt \<Rightarrow>
     service_error + writeAttempt" where
  "merge_index r pw s pageIndex a =
     (let logicalChunk = pwPageStartChunk pw + of_nat pageIndex;
          chunkStartOffset = logicalChunk * pwChunkSize pw;
          copyStart = maxUint64 (pwOffsetBytes pw) chunkStartOffset;
          copyEnd = minUint64 (pwOffsetBytes pw + pwLengthBytes pw) (chunkStartOffset + pwChunkSize pw);
          fullOverwrite = (copyStart = chunkStartOffset \<and> copyEnd = chunkStartOffset + pwChunkSize pw);
          current = waCurrent a ! pageIndex
      in if copyStart \<ge> copyEnd then Inr a
         else case merged_chunk r pw current chunkStartOffset copyStart copyEnd s of
                Inl err \<Rightarrow> Inl err
              | Inr chunkData \<Rightarrow>
                  if isAllZero chunkData
                  then Inr (a\<lparr>waMergeable := False,
                              waStale := (if prChunkID (amRef current) \<noteq> 0
                                          then List.insert (amRef current) (waStale a) else waStale a),
                              waNext := (waNext a)[pageIndex := zero_mapping]\<rparr>)
                  else Inr (a\<lparr>waMergeable := (waMergeable a \<and> fullOverwrite),
                              waPending := waPending a @
                                [\<lparr>pcPageIndex = pageIndex, pcPayload = chunkData, pcRef = zero_ref\<rparr>]\<rparr>))"

fun merge_indices ::
    "('m, 'o) chunkExtentDataRepository \<Rightarrow> pageWrite \<Rightarrow> 'o \<Rightarrow> nat list \<Rightarrow> writeAttempt \<Rightarrow>
     service_error + writeAttempt" where
  "merge_indices r pw s [] a = Inr a"
| "merge_indices r pw s (i # is) a =
     (case merge_index r pw s i a of
        Inl err \<Rightarrow> Inl err
      | Inr a' \<Rightarrow> merge_indices r pw s is a')"

definition choosePhysicalChunkRef ::
    "('m, 'o) chunkExtentDataRepository \<Rightarrow> VolumeSpec \<Rightarrow> u64 \<Rightarrow> u64 \<Rightarrow> service_error + PhysicalChunkRef" where
  "choosePhysicalChunkRef r volume logicalChunk physicalChunkID =
     (if physicalChunkID = 0 then Inr zero_ref
      else case cePlanner r of
             None \<Rightarrow> Inr (zero_ref\<lparr>prChunkID := physicalChunkID\<rparr>)
           | Some planner \<Rightarrow>
               case planner volume logicalChunk physicalChunkID of
                 Inl err \<Rightarrow> Inl err
               | Inr ref \<Rightarrow>
                   Inr (if prChunkID ref = 0 then ref\<lparr>prChunkID := physicalChunkID\<rparr> else ref))"

fun recordGarbage ::
    "('m, 'o) chunkExtentDataRepository \<Rightarrow> int \<Rightarrow> VolumeSpec \<Rightarrow> PhysicalChunkRef list \<Rightarrow> 'm \<Rightarrow>
     (service_error + unit) \<times> 'm" where
  "recordGarbage r now volume [] m = (Inr (), m)"
| "recordGarbage r now volume (ref # refs) m =
     (case mrPutChunkGarbage (ceMeta r) now
             \<lparr>gcVolumeID = vID volume, gcStoreID = prStoreID ref, gcShardID = prShardID ref,
              gcChunkID = prChunkID ref, gcEnqueuedAtUnix = 0\<rparr> m of
        (Inl err, m') \<Rightarrow> (Inl err, m')
      | (Inr _, m') \<Rightarrow> recordGarbage r now volume refs m')"

text \<open>
  Storing the pending chunks under the allocated ids. A failure puts the chunks stored so far into
  the garbage list and returns the first error.
\<close>

fun store_pending ::
    "('m, 'o) chunkExtentDataRepository \<Rightarrow> int \<Rightarrow> pageWrite \<Rightarrow> u64 \<Rightarrow> pendingChunk list \<Rightarrow>
     writeAttempt \<Rightarrow> 'm \<times> 'o \<Rightarrow> (service_error + writeAttempt) \<times> ('m \<times> 'o)" where
  "store_pending r now pw chunkID [] a w = (Inr a, w)"
| "store_pending r now pw chunkID (chunk # rest) a (m, s) =
     (let fail = (\<lambda>err s'. case recordGarbage r now (pwVolume pw) (waNew a) m of
                             (Inl garbageErr, m') \<Rightarrow> (Inl garbageErr, (m', s'))
                           | (Inr _, m') \<Rightarrow> (Inl err, (m', s')));
          idx = pcPageIndex chunk
      in case choosePhysicalChunkRef r (pwVolume pw) (pwPageStartChunk pw + of_nat idx) chunkID of
           Inl err \<Rightarrow> fail err s
         | Inr ref \<Rightarrow>
             case WriteChunkRef (ceChunks r) (pwVolume pw) ref (pcPayload chunk) s of
               (Inl err, s') \<Rightarrow> fail err s'
             | (Inr _, s') \<Rightarrow>
                 let current = amRef (waCurrent a ! idx)
                 in store_pending r now pw (chunkID + 1) rest
                      (a\<lparr>waNew := List.insert ref (waNew a),
                         waPending := waPending a @ [chunk\<lparr>pcRef := ref\<rparr>],
                         waStale := (if prChunkID current \<noteq> 0 \<and> current \<noteq> ref
                                     then List.insert current (waStale a) else waStale a),
                         waNext := (waNext a)[idx := \<lparr>amRef = ref, amPayloadEncryption = None\<rparr>]\<rparr>)
                      (m, s'))"

text \<open>
  What an attempt publishes: its own mappings when the page has not changed since it was read; the
  pending chunks laid over the changed page when the write replaces whole chunks only; otherwise
  nothing, and the attempt is retried.
\<close>

record pageCommit =
  pmMappings :: "allocationChunkMapping list"
  pmRevision :: "64 word"
  pmStale :: "PhysicalChunkRef list"

definition merge_pending :: "writeAttempt \<Rightarrow> allocationChunkMapping list \<Rightarrow>
    allocationChunkMapping list \<times> PhysicalChunkRef list" where
  "merge_pending a latest0 =
     fold (\<lambda>chunk (latest, stale).
             let currentRef = amRef (latest ! pcPageIndex chunk)
             in (latest[pcPageIndex chunk := waNext a ! pcPageIndex chunk],
                 if prChunkID currentRef \<noteq> 0 \<and> currentRef \<noteq> pcRef chunk
                 then List.insert currentRef stale else stale))
       (waPending a) (latest0, [])"

definition plan_commit :: "pageWrite \<Rightarrow> writeAttempt \<Rightarrow> AllocationPageRecord \<Rightarrow> pageCommit option" where
  "plan_commit pw a commitPage =
     (if pgRevision commitPage \<noteq> pgRevision (waPage a)
      then if \<not> waMergeable a \<or> waPending a = [] then None
           else let (latest, stale) = merge_pending a (buildAllocationChunkMappings commitPage
                                        (pwPageStartChunk pw) (pwPageChunkCount pw))
                in Some \<lparr>pmMappings = latest, pmRevision = pgRevision commitPage, pmStale = stale\<rparr>
      else Some \<lparr>pmMappings = waNext a, pmRevision = pgRevision (waPage a), pmStale = waStale a\<rparr>)"

definition updated_page :: "pageWrite \<Rightarrow> pageCommit \<Rightarrow> AllocationPageRecord" where
  "updated_page pw c =
     \<lparr>pgVolumeID = vID (pwVolume pw), pgPageNo = pwPageNo pw,
      pgPageBytes = vExtentPageBytes (pwVolume pw), pgChunkSizeBytes = vChunkSizeBytes (pwVolume pw),
      pgRevision = 0, pgExtents = compressAllocationChunkMappings (pwPageStartChunk pw) (pmMappings c)\<rparr>"

subsubsection \<open>The steps of a page write\<close>

datatype write_pc =
    Loading nat
  | Merging nat AllocationPageRecord
  | Allocating nat writeAttempt
  | Storing nat writeAttempt u64
  | Validating nat writeAttempt
  | Committing nat writeAttempt pageCommit
  | Retrying nat writeAttempt
  | Committed "PhysicalChunkRef list"
  | Finished "service_error + unit"

fun write_step ::
    "('m, 'o) chunkExtentDataRepository \<Rightarrow> int \<Rightarrow> pageWrite \<Rightarrow> write_pc \<Rightarrow> 'm \<times> 'o \<Rightarrow>
     write_pc \<times> ('m \<times> 'o)" where
  "write_step r now pw (Loading attempt) (m, s) =
     (if attempt \<ge> chunkExtentWriteRetryLimit then (Finished (Inl ErrMetadataCASConflict), (m, s))
      else case mrGetExtentPage (ceMeta r) (vID (pwVolume pw)) (pwPageNo pw) m of
             Inl err \<Rightarrow> (Finished (Inl err), (m, s))
           | Inr page \<Rightarrow> (Merging attempt page, (m, s)))"
| "write_step r now pw (Merging attempt page) (m, s) =
     (case merge_indices r pw s [pwStartIndex pw..<Suc (pwEndIndex pw)] (begin_attempt pw page) of
        Inl err \<Rightarrow> (Finished (Inl err), (m, s))
      | Inr a \<Rightarrow> (if waPending a = [] then Validating attempt a else Allocating attempt a, (m, s)))"
| "write_step r now pw (Allocating attempt a) (m, s) =
     (case mrAllocateChunkIDs (ceMeta r) (vID (pwVolume pw)) (of_nat (length (waPending a))) m of
        (Inl err, m') \<Rightarrow> (Finished (Inl err), (m', s))
      | (Inr startChunkID, m') \<Rightarrow> (Storing attempt a startChunkID, (m', s)))"
| "write_step r now pw (Storing attempt a startChunkID) w =
     (case store_pending r now pw startChunkID (waPending a) (a\<lparr>waPending := []\<rparr>) w of
        (Inl err, w') \<Rightarrow> (Finished (Inl err), w')
      | (Inr a', w') \<Rightarrow> (Validating attempt a', w'))"
| "write_step r now pw (Validating attempt a) (m, s) =
     (case mrGetExtentPage (ceMeta r) (vID (pwVolume pw)) (pwPageNo pw) m of
        Inl err \<Rightarrow> (Finished (Inl err), (m, s))
      | Inr commitPage \<Rightarrow>
          (case plan_commit pw a commitPage of
             None \<Rightarrow> (Retrying attempt a, (m, s))
           | Some c \<Rightarrow> (Committing attempt a c, (m, s))))"
| "write_step r now pw (Committing attempt a c) (m, s) =
     (case mrPutExtentPage (ceMeta r) (updated_page pw c) (pmRevision c) m of
        (Inl err, m') \<Rightarrow>
          (if err = ErrMetadataCASConflict then (Retrying attempt a, (m', s))
           else (Finished (Inl err), (m', s)))
      | (Inr _, m') \<Rightarrow> (Committed (pmStale c), (m', s)))"
| "write_step r now pw (Retrying attempt a) (m, s) =
     (case recordGarbage r now (pwVolume pw) (waNew a) m of
        (Inl err, m') \<Rightarrow> (Finished (Inl err), (m', s))
      | (Inr _, m') \<Rightarrow> (Loading (Suc attempt), (m', s)))"
| "write_step r now pw (Committed stale) (m, s) =
     (case recordGarbage r now (pwVolume pw) stale m of
        (res, m') \<Rightarrow> (Finished res, (m', s)))"
| "write_step r now pw (Finished res) w = (Finished res, w)"

text \<open>The rank of a program counter falls with every step, so a page write ends.\<close>

fun pc_rank :: "write_pc \<Rightarrow> nat" where
  "pc_rank (Loading attempt) =
     (if attempt \<ge> chunkExtentWriteRetryLimit then 1 else 7 * (chunkExtentWriteRetryLimit - attempt) + 8)"
| "pc_rank (Merging attempt _) = 7 * (chunkExtentWriteRetryLimit - attempt) + 7"
| "pc_rank (Allocating attempt _) = 7 * (chunkExtentWriteRetryLimit - attempt) + 6"
| "pc_rank (Storing attempt _ _) = 7 * (chunkExtentWriteRetryLimit - attempt) + 5"
| "pc_rank (Validating attempt _) = 7 * (chunkExtentWriteRetryLimit - attempt) + 4"
| "pc_rank (Committing attempt _ _) = 7 * (chunkExtentWriteRetryLimit - attempt) + 3"
| "pc_rank (Retrying attempt _) = 7 * (chunkExtentWriteRetryLimit - attempt) + 2"
| "pc_rank (Committed _) = 1"
| "pc_rank (Finished _) = 0"

fun finished :: "write_pc \<Rightarrow> bool" where
  "finished (Finished _) = True"
| "finished _ = False"

lemma write_step_rank:
  assumes "\<not> finished pc" "write_step r now pw pc w = (pc', w')"
  shows "pc_rank pc' < pc_rank pc"
  using assms
  by (cases pc; cases w)
    (auto simp: diff_Suc split: sum.splits prod.splits option.splits if_splits nat.splits)

fun outcome :: "write_pc \<Rightarrow> service_error + unit" where
  "outcome (Finished res) = res"
| "outcome _ = Inl panic"

function write_run ::
    "('m, 'o) chunkExtentDataRepository \<Rightarrow> int \<Rightarrow> pageWrite \<Rightarrow> write_pc \<Rightarrow> 'm \<times> 'o \<Rightarrow>
     (service_error + unit) \<times> ('m \<times> 'o)" where
  "write_run r now pw pc w =
     (if finished pc then (outcome pc, w)
      else let next = write_step r now pw pc w in write_run r now pw (fst next) (snd next))"
  by pat_completeness auto
termination
  by (relation "measure (\<lambda>(r, now, pw, pc, w). pc_rank pc)")
    (use write_step_rank[OF _ prod.collapse[symmetric]] in \<open>auto simp: split_beta\<close>)

declare write_run.simps [simp del]

definition writePage ::
    "('m, 'o) chunkExtentDataRepository \<Rightarrow> int \<Rightarrow> pageWrite \<Rightarrow> 'm \<times> 'o \<Rightarrow>
     (service_error + unit) \<times> ('m \<times> 'o)" where
  "writePage r now pw w =
     (if pwPageChunkCount pw = 0 then (Inr (), w)
      else if pwWriteStart pw \<ge> pwWriteEnd pw then (Inr (), w)
      else write_run r now pw (Loading 0) w)"

subsection \<open>Writes of byte ranges\<close>

fun write_pages ::
    "('m, 'o) chunkExtentDataRepository \<Rightarrow> int \<Rightarrow> VolumeSpec \<Rightarrow> u64 \<Rightarrow> u64 \<Rightarrow> bytes \<Rightarrow> u64 list \<Rightarrow>
     'm \<times> 'o \<Rightarrow> (service_error + unit) \<times> ('m \<times> 'o)" where
  "write_pages r now volume offsetBytes lengthBytes data [] w = (Inr (), w)"
| "write_pages r now volume offsetBytes lengthBytes data (pageNo # rest) w =
     (case writePage r now \<lparr>pwVolume = volume, pwPageNo = pageNo, pwOffsetBytes = offsetBytes,
                            pwLengthBytes = lengthBytes, pwData = data\<rparr> w of
        (Inl err, w') \<Rightarrow> (Inl err, w')
      | (Inr _, w') \<Rightarrow> write_pages r now volume offsetBytes lengthBytes data rest w')"

definition WriteAt ::
    "('m, 'o) chunkExtentDataRepository \<Rightarrow> int \<Rightarrow> VolumeSpec \<Rightarrow> u64 \<Rightarrow> u64 \<Rightarrow> bytes \<Rightarrow> 'm \<times> 'o \<Rightarrow>
     (service_error + unit) \<times> ('m \<times> 'o)" where
  "WriteAt r now volume0 offsetBytes lengthBytes data w =
     (let volume = NormalizeVolumeSpec volume0;
          chunkSize = ucast (vChunkSizeBytes volume) :: u64;
          chunksPerPage = ucast (vExtentPageBytes volume) div chunkSize;
          startChunk = offsetBytes div chunkSize;
          endChunk = (offsetBytes + lengthBytes - 1) div chunkSize
      in if lengthBytes = 0 then (Inr (), w)
         else if chunksPerPage = 0 then (Inl panic, w)
         else write_pages r now volume offsetBytes lengthBytes data
                (map of_nat [unat (startChunk div chunksPerPage)..<Suc (unat (endChunk div chunksPerPage))]) w)"

definition ReadPhysicalChunkAt ::
    "('m, 'o) chunkExtentDataRepository \<Rightarrow> VolumeSpec \<Rightarrow> u64 \<Rightarrow> u64 \<Rightarrow> u64 \<Rightarrow> 'o \<Rightarrow> service_error + bytes" where
  "ReadPhysicalChunkAt r volume0 physicalChunkID chunkOffsetBytes lengthBytes s =
     (let volume = NormalizeVolumeSpec volume0;
          chunkSize = ucast (vChunkSizeBytes volume) :: u64
      in if physicalChunkID = 0 \<or> chunkOffsetBytes \<ge> chunkSize \<or> chunkOffsetBytes + lengthBytes > chunkSize
         then Inl ErrOutOfRange
         else if lengthBytes = 0 then Inl ErrBadAlignment
         else case ReadChunk (ceChunks r) volume physicalChunkID s of
                Inl err \<Rightarrow> Inl err
              | Inr chunk \<Rightarrow> slice_expr chunkOffsetBytes (chunkOffsetBytes + lengthBytes) chunk)"

definition WritePhysicalChunkAt ::
    "('m, 'o) chunkExtentDataRepository \<Rightarrow> VolumeSpec \<Rightarrow> u64 \<Rightarrow> u64 \<Rightarrow> u64 \<Rightarrow> bytes \<Rightarrow> 'o \<Rightarrow>
     (service_error + unit) \<times> 'o" where
  "WritePhysicalChunkAt r volume0 physicalChunkID chunkOffsetBytes lengthBytes data s =
     (let volume = NormalizeVolumeSpec volume0;
          chunkSize = ucast (vChunkSizeBytes volume) :: u64
      in if physicalChunkID = 0 \<or> chunkOffsetBytes \<ge> chunkSize \<or> chunkOffsetBytes + lengthBytes > chunkSize
         then (Inl ErrOutOfRange, s)
         else if lengthBytes = 0 then (Inl ErrBadAlignment, s)
         else if of_nat (length data) \<noteq> lengthBytes then (Inl ErrBadDataLength, s)
         else if chunkOffsetBytes = 0 \<and> lengthBytes = chunkSize
         then WriteChunk (ceChunks r) volume physicalChunkID data s
         else case ReadChunk (ceChunks r) volume physicalChunkID s of
                Inl err \<Rightarrow> (Inl err, s)
              | Inr chunk \<Rightarrow>
                  case slice_expr chunkOffsetBytes (chunkOffsetBytes + lengthBytes) chunk of
                    Inl err \<Rightarrow> (Inl err, s)
                  | Inr _ \<Rightarrow> WriteChunk (ceChunks r) volume physicalChunkID
                               (splice (unat chunkOffsetBytes) data chunk) s)"

subsection \<open>Discards (gateway/service/discard_observation.go)\<close>

definition RedundancyBackendEC :: string where "RedundancyBackendEC = ''ec''"
definition IOOperationDiscard :: string where "IOOperationDiscard = ''discard''"
definition IOOperationZero :: string where "IOOperationZero = ''zero''"
definition DiscardPolicyTrueReclaim :: string where "DiscardPolicyTrueReclaim = ''true_reclaim''"
definition DiscardPolicyPartialReject :: string where "DiscardPolicyPartialReject = ''partial_reject''"
definition DiscardPolicyZeroFallback :: string where "DiscardPolicyZeroFallback = ''zero_fallback''"
definition DiscardPolicyZero :: string where "DiscardPolicyZero = ''zero''"
definition DiscardFallbackTrueReclaimNotImplemented :: string where
  "DiscardFallbackTrueReclaimNotImplemented = ''true_reclaim_not_implemented''"
definition DiscardFallbackNotAlignedToReclaim :: string where
  "DiscardFallbackNotAlignedToReclaim = ''not_aligned_to_reclaim_geometry''"

lemmas discard_strings = IOOperationDiscard_def IOOperationZero_def DiscardPolicyTrueReclaim_def
  DiscardPolicyPartialReject_def DiscardPolicyZeroFallback_def DiscardPolicyZero_def
  DiscardFallbackTrueReclaimNotImplemented_def DiscardFallbackNotAlignedToReclaim_def
  RedundancyBackendEC_def RedundancyBackendReplicated_def

record DiscardObservation =
  doOperation :: string
  doBackendType :: string
  doReclaimGeometryBytes :: u64
  doRequestOffsetBytes :: u64
  doRequestLengthBytes :: u64
  doAlignedToReclaimGeometry :: bool
  doPolicy :: string
  doFallbackReason :: string
  doDiscardBytes :: u64
  doLogicalZeroBytes :: u64

definition reclaimGeometryBytes :: "VolumeSpec \<Rightarrow> u64" where
  "reclaimGeometryBytes volume0 =
     (let volume = NormalizeVolumeSpec volume0
      in if vRedundancyBackend volume = RedundancyBackendEC
         then if vECDataShards volume > 0 \<and> vECStripeUnitBytes volume > 0
              then ucast (vECDataShards volume) * ucast (vECStripeUnitBytes volume)
              else ucast (vExtentPageBytes volume)
         else ucast (vChunkSizeBytes volume))"

definition reclaimAligned :: "VolumeSpec \<Rightarrow> u64 \<Rightarrow> u64 \<Rightarrow> bool" where
  "reclaimAligned volume offsetBytes lengthBytes =
     (let geometry = reclaimGeometryBytes volume
      in geometry > 0 \<and> offsetBytes mod geometry = 0 \<and> lengthBytes mod geometry = 0)"

definition DiscardRangeAligned :: "VolumeSpec \<Rightarrow> u64 \<Rightarrow> u64 \<Rightarrow> bool" where
  "DiscardRangeAligned volume offsetBytes lengthBytes = reclaimAligned volume offsetBytes lengthBytes"

definition newDiscardObservation ::
    "VolumeSpec \<Rightarrow> string \<Rightarrow> u64 \<Rightarrow> u64 \<Rightarrow> string \<Rightarrow> string \<Rightarrow> DiscardObservation" where
  "newDiscardObservation volume0 operation offsetBytes lengthBytes policy fallbackReason =
     (let volume = NormalizeVolumeSpec volume0;
          geometry = reclaimGeometryBytes volume;
          aligned = (geometry > 0 \<and> offsetBytes mod geometry = 0 \<and> lengthBytes mod geometry = 0);
          obs = \<lparr>doOperation = operation, doBackendType = vRedundancyBackend volume,
                 doReclaimGeometryBytes = geometry, doRequestOffsetBytes = offsetBytes,
                 doRequestLengthBytes = lengthBytes, doAlignedToReclaimGeometry = aligned,
                 doPolicy = policy, doFallbackReason = fallbackReason, doDiscardBytes = 0,
                 doLogicalZeroBytes = 0\<rparr>
      in if operation = IOOperationDiscard
         then obs\<lparr>doDiscardBytes := lengthBytes,
                  doLogicalZeroBytes := (if policy = DiscardPolicyZeroFallback \<or> policy = DiscardPolicyTrueReclaim
                                         then lengthBytes else 0)\<rparr>
         else if operation = IOOperationZero then obs\<lparr>doLogicalZeroBytes := lengthBytes\<rparr>
         else obs)"

definition NewZeroObservation :: "VolumeSpec \<Rightarrow> u64 \<Rightarrow> u64 \<Rightarrow> DiscardObservation" where
  "NewZeroObservation volume offsetBytes lengthBytes =
     newDiscardObservation volume IOOperationZero offsetBytes lengthBytes DiscardPolicyZero ''''"

definition NewDiscardZeroFallbackObservation :: "VolumeSpec \<Rightarrow> u64 \<Rightarrow> u64 \<Rightarrow> DiscardObservation" where
  "NewDiscardZeroFallbackObservation volume offsetBytes lengthBytes =
     (let obs = newDiscardObservation volume IOOperationDiscard offsetBytes lengthBytes
                  DiscardPolicyZeroFallback DiscardFallbackTrueReclaimNotImplemented
      in if \<not> doAlignedToReclaimGeometry obs
         then obs\<lparr>doFallbackReason := DiscardFallbackNotAlignedToReclaim\<rparr> else obs)"

definition NewDiscardTrueReclaimObservation :: "VolumeSpec \<Rightarrow> u64 \<Rightarrow> u64 \<Rightarrow> DiscardObservation" where
  "NewDiscardTrueReclaimObservation volume offsetBytes lengthBytes =
     newDiscardObservation volume IOOperationDiscard offsetBytes lengthBytes DiscardPolicyTrueReclaim ''''"

definition NewDiscardPartialRejectObservation :: "VolumeSpec \<Rightarrow> u64 \<Rightarrow> u64 \<Rightarrow> DiscardObservation" where
  "NewDiscardPartialRejectObservation volume offsetBytes lengthBytes =
     newDiscardObservation volume IOOperationDiscard offsetBytes lengthBytes
       DiscardPolicyPartialReject DiscardFallbackNotAlignedToReclaim"

definition NewDiscardAlignmentZeroFallbackObservation :: "VolumeSpec \<Rightarrow> u64 \<Rightarrow> u64 \<Rightarrow> DiscardObservation" where
  "NewDiscardAlignmentZeroFallbackObservation volume offsetBytes lengthBytes =
     newDiscardObservation volume IOOperationDiscard offsetBytes lengthBytes
       DiscardPolicyZeroFallback DiscardFallbackNotAlignedToReclaim"

definition DiscardAt ::
    "('m, 'o) chunkExtentDataRepository \<Rightarrow> int \<Rightarrow> VolumeSpec \<Rightarrow> u64 \<Rightarrow> u64 \<Rightarrow> 'm \<times> 'o \<Rightarrow>
     (service_error + unit) \<times> ('m \<times> 'o)" where
  "DiscardAt r now volume offsetBytes lengthBytes w =
     (if \<not> DiscardRangeAligned volume offsetBytes lengthBytes then (Inl ErrDiscardAlignment, w)
      else WriteAt r now volume offsetBytes lengthBytes (replicate (unat lengthBytes) 0) w)"

definition DiscardObservationFor :: "VolumeSpec \<Rightarrow> u64 \<Rightarrow> u64 \<Rightarrow> DiscardObservation" where
  "DiscardObservationFor volume0 offsetBytes lengthBytes =
     (let volume = NormalizeVolumeSpec volume0
      in if \<not> reclaimAligned volume offsetBytes lengthBytes
         then NewDiscardAlignmentZeroFallbackObservation volume offsetBytes lengthBytes
         else if vRedundancyBackend volume = RedundancyBackendReplicated
         then NewDiscardTrueReclaimObservation volume offsetBytes lengthBytes
         else NewDiscardZeroFallbackObservation volume offsetBytes lengthBytes)"

definition ZeroAt ::
    "('m, 'o) chunkExtentDataRepository \<Rightarrow> int \<Rightarrow> VolumeSpec \<Rightarrow> u64 \<Rightarrow> u64 \<Rightarrow> 'm \<times> 'o \<Rightarrow>
     (service_error + unit) \<times> ('m \<times> 'o)" where
  "ZeroAt r now volume offsetBytes lengthBytes w =
     WriteAt r now volume offsetBytes lengthBytes (replicate (unat lengthBytes) 0) w"

definition FlushVolume :: "VolumeSpec \<Rightarrow> service_error + unit" where
  "FlushVolume volume = Inr ()"

definition CloseAttachment :: "u64 \<Rightarrow> AttachmentRecord \<Rightarrow> service_error + unit" where
  "CloseAttachment volumeID attachment = Inr ()"

end
