(* ===== verification/VolumeBytes.thy ===== *)
theory VolumeBytes
  imports ChunkExtent
begin

section \<open>The bytes of a volume\<close>

text \<open>
  The abstraction of the data path: a volume is a function from byte indices to bytes. Byte \<open>i\<close> lies
  in logical chunk \<open>i div csz\<close>, that chunk in page \<open>i div csz div cpp\<close>; the page's extents name the
  stored chunk, whose payload has the byte. A chunk without a reference reads as zeroes. The lemmas
  relate the machine arithmetic of the source to this geometry for volumes that fit the 64-bit
  address space.
\<close>

definition csz :: "VolumeSpec \<Rightarrow> nat" where
  "csz v = unat (vChunkSizeBytes v)"

definition cpp :: "VolumeSpec \<Rightarrow> nat" where
  "cpp v = unat (vExtentPageBytes v) div csz v"

definition chunks :: "VolumeSpec \<Rightarrow> nat" where
  "chunks v = (unat (vSizeBytes v) + csz v - 1) div csz v"

definition vol_ok :: "VolumeSpec \<Rightarrow> bool" where
  "vol_ok v \<longleftrightarrow> NormalizeVolumeSpec v = v \<and> 0 < cpp v
     \<and> unat (vSizeBytes v) + unat (vExtentPageBytes v) + csz v < 2 ^ 64"

definition chunk_mapping ::
    "('m \<Rightarrow> u64 \<Rightarrow> u64 \<Rightarrow> AllocationChunkRecord list) \<Rightarrow> VolumeSpec \<Rightarrow> 'm \<Rightarrow> nat \<Rightarrow> allocationChunkMapping" where
  "chunk_mapping exts v m c = lookup_mapping (exts m (vID v) (of_nat (c div cpp v))) (of_nat c)"

definition volume_byte ::
    "('m \<Rightarrow> u64 \<Rightarrow> u64 \<Rightarrow> AllocationChunkRecord list) \<Rightarrow> ('o \<Rightarrow> string \<Rightarrow> bytes option) \<Rightarrow> VolumeSpec \<Rightarrow>
     'm \<times> 'o \<Rightarrow> nat \<Rightarrow> u8" where
  "volume_byte exts content v w i =
     (let mapping = chunk_mapping exts v (fst w) (i div csz v)
      in if prChunkID (amRef mapping) = 0 then 0
         else chunk_payload content v (amRef mapping) (snd w) ! (i mod csz v))"

subsection \<open>Geometry\<close>

lemma vol_okD:
  assumes "vol_ok v"
  shows "0 < csz v" "0 < cpp v" "NormalizeVolumeSpec v = v"
    "unat (vSizeBytes v) + unat (vExtentPageBytes v) + csz v < 2 ^ 64" "chunk_bytes v = csz v"
    "cpp v < 2 ^ 32" "csz v < 2 ^ 32"
proof -
  show norm: "NormalizeVolumeSpec v = v" and "0 < cpp v"
    and "unat (vSizeBytes v) + unat (vExtentPageBytes v) + csz v < 2 ^ 64"
    using assms by (simp_all add: vol_ok_def)
  have "vChunkSizeBytes (NormalizeVolumeSpec v) \<noteq> 0"
    by (simp add: NormalizeVolumeSpec_def default_sizes)
  then have nz: "vChunkSizeBytes v \<noteq> 0"
    using norm by simp
  then show "0 < csz v" "chunk_bytes v = csz v"
    by (simp_all add: csz_def chunk_bytes_def unat_gt_0)
  have page: "unat (vExtentPageBytes v) < 2 ^ 32"
    using unsigned_less[of "vExtentPageBytes v"] by simp
  then show "cpp v < 2 ^ 32"
    unfolding cpp_def by (rule le_less_trans[rotated]) simp
  show "csz v < 2 ^ 32"
    using unsigned_less[of "vChunkSizeBytes v"] by (simp add: csz_def)
qed

lemma chunks_bound:
  assumes "vol_ok v"
  shows "chunks v * csz v < unat (vSizeBytes v) + csz v" "unat (vSizeBytes v) \<le> chunks v * csz v"
    "c < chunks v \<Longrightarrow> c * csz v < unat (vSizeBytes v)" "i < unat (vSizeBytes v) \<Longrightarrow> i div csz v < chunks v"
proof -
  let ?s = "unat (vSizeBytes v)" and ?c = "csz v"
  have c: "0 < ?c" using vol_okD[OF assms] by simp
  have "(?s + ?c - 1) div ?c * ?c \<le> ?s + ?c - 1" by simp
  then show "chunks v * ?c < ?s + ?c" unfolding chunks_def using c by linarith
  have "?s + ?c - 1 < (?s + ?c - 1) div ?c * ?c + ?c"
    using c by (metis add.commute div_mult_mod_eq mod_less_divisor nat_add_left_cancel_less)
  then show size: "?s \<le> chunks v * ?c" unfolding chunks_def using c by linarith
  show "c < chunks v \<Longrightarrow> c * ?c < ?s"
  proof -
    assume "c < chunks v"
    then have "Suc c * ?c \<le> chunks v * ?c" by (intro mult_le_mono) auto
    with \<open>chunks v * ?c < ?s + ?c\<close> show ?thesis by simp
  qed
  show "i < ?s \<Longrightarrow> i div ?c < chunks v"
    using size c by (simp add: div_less_iff_less_mult)
qed

lemma chunks_less_word:
  assumes "vol_ok v"
  shows "chunks v + cpp v + csz v < 2 ^ 64 + csz v" "chunks v < 2 ^ 64" "c < chunks v \<Longrightarrow> unat (of_nat c :: u64) = c"
proof -
  have c: "0 < csz v" using vol_okD[OF assms] by simp
  then have "chunks v \<le> chunks v * csz v" by simp
  moreover have "cpp v \<le> unat (vExtentPageBytes v)" by (simp add: cpp_def)
  ultimately show "chunks v + cpp v + csz v < 2 ^ 64 + csz v"
    using chunks_bound(1)[OF assms] vol_okD(4)[OF assms] by linarith
  then show "chunks v < 2 ^ 64" by linarith
  then show "c < chunks v \<Longrightarrow> unat (of_nat c :: u64) = c"
    by (intro unat_of_nat_length) simp
qed

lemma unat_ucast_u32 [simp]: "unat (ucast (w :: u32) :: u64) = unat w"
proof -
  have "unat w < 2 ^ 32"
    using unsigned_less[of w] by simp
  then show ?thesis
    by (simp add: unsigned_ucast_eq take_bit_nat_eq_self)
qed

lemma unat_chunk_size: "unat (ucast (vChunkSizeBytes v) :: u64) = csz v"
  by (simp add: csz_def)

lemma unat_chunks_per_page: "unat (ucast (vExtentPageBytes v) div ucast (vChunkSizeBytes v) :: u64) = cpp v"
  by (simp add: unat_div_distrib cpp_def csz_def)

lemma unat_total_chunks:
  assumes "vol_ok v"
  shows "unat ((vSizeBytes v + ucast (vChunkSizeBytes v) - 1) div ucast (vChunkSizeBytes v) :: u64) = chunks v"
proof -
  have "unat (vSizeBytes v + ucast (vChunkSizeBytes v)) = unat (vSizeBytes v) + csz v"
    using vol_okD(4)[OF assms] by (simp add: unat_word_ariths csz_def)
  moreover have "unat (vSizeBytes v + ucast (vChunkSizeBytes v) - 1) = unat (vSizeBytes v) + csz v - 1"
    using vol_okD(1)[OF assms] calculation
    by (metis add_gr_0 unat_1 unat_minus_one unat_eq_zero nat_less_le)
  ultimately show ?thesis
    by (simp add: unat_div_distrib chunks_def csz_def)
qed

lemma page_start_word:
  assumes "vol_ok v" "unat n * cpp v < chunks v"
  shows "unat (n * (ucast (vExtentPageBytes v) div ucast (vChunkSizeBytes v)) :: u64) = unat n * cpp v"
  using assms chunks_less_word(2)[OF assms(1)]
    unat_mult_lem[of n "ucast (vExtentPageBytes v) div ucast (vChunkSizeBytes v)"]
  by (simp add: unat_chunks_per_page)

lemma count_in_page:
  assumes "vol_ok v" "unat n * cpp v < chunks v"
  shows "logicalChunkCountInPage v n = min (cpp v) (chunks v - unat n * cpp v)"
proof -
  let ?start = "n * (ucast (vExtentPageBytes v) div ucast (vChunkSizeBytes v)) :: u64"
  let ?total = "(vSizeBytes v + ucast (vChunkSizeBytes v) - 1) div ucast (vChunkSizeBytes v) :: u64"
  have "unat (?total - ?start) = chunks v - unat n * cpp v"
    using assms by (simp add: unat_sub word_le_nat_alt page_start_word unat_total_chunks)
  then show ?thesis
    using assms
    by (simp add: logicalChunkCountInPage_def Let_def word_le_nat_alt word_less_nat_alt page_start_word
        unat_total_chunks unat_chunks_per_page min_def)
qed

subsection \<open>The range of a page write\<close>

text \<open>The first chunk of the page, the number of its chunks, and the bytes the write touches.\<close>

definition pg_first :: "pageWrite \<Rightarrow> nat" where
  "pg_first pw = unat (pwPageNo pw) * cpp (pwVolume pw)"

definition pg_count :: "pageWrite \<Rightarrow> nat" where
  "pg_count pw = min (cpp (pwVolume pw)) (chunks (pwVolume pw) - pg_first pw)"

definition write_lo :: "pageWrite \<Rightarrow> nat" where
  "write_lo pw = max (unat (pwOffsetBytes pw)) (pg_first pw * csz (pwVolume pw))"

definition write_hi :: "pageWrite \<Rightarrow> nat" where
  "write_hi pw = min (unat (pwOffsetBytes pw) + unat (pwLengthBytes pw))
     ((pg_first pw + pg_count pw) * csz (pwVolume pw))"

definition pw_ok :: "pageWrite \<Rightarrow> bool" where
  "pw_ok pw \<longleftrightarrow> vol_ok (pwVolume pw) \<and> length (pwData pw) = unat (pwLengthBytes pw)
     \<and> unat (pwOffsetBytes pw) + unat (pwLengthBytes pw) \<le> unat (vSizeBytes (pwVolume pw))
     \<and> pg_first pw < chunks (pwVolume pw) \<and> write_lo pw < write_hi pw"

text \<open>The effect of the page write on the bytes of the volume.\<close>

definition page_update :: "pageWrite \<Rightarrow> (nat \<Rightarrow> u8) \<Rightarrow> nat \<Rightarrow> u8" where
  "page_update pw f i =
     (if write_lo pw \<le> i \<and> i < write_hi pw then pwData pw ! (i - unat (pwOffsetBytes pw)) else f i)"

lemma maxUint64_unat: "unat (maxUint64 a b) = max (unat a) (unat b)"
  by (simp add: maxUint64_def word_less_nat_alt max_def)

lemma minUint64_unat: "unat (minUint64 a b) = min (unat a) (unat b)"
  by (simp add: minUint64_def word_less_nat_alt min_def)

lemma pw_okD:
  assumes "pw_ok pw"
  shows "vol_ok (pwVolume pw)" "length (pwData pw) = unat (pwLengthBytes pw)"
    "unat (pwOffsetBytes pw) + unat (pwLengthBytes pw) \<le> unat (vSizeBytes (pwVolume pw))"
    "pg_first pw < chunks (pwVolume pw)" "write_lo pw < write_hi pw" "0 < csz (pwVolume pw)"
    "0 < pg_count pw" "pg_first pw + pg_count pw \<le> chunks (pwVolume pw)"
  using assms vol_okD(1,2)[of "pwVolume pw"] by (auto simp: pw_ok_def pg_count_def)

lemma pw_words:
  assumes "pw_ok pw"
  shows "unat (pwChunkSize pw) = csz (pwVolume pw)"
    "unat (pwPageStartChunk pw) = pg_first pw"
    "pwPageChunkCount pw = pg_count pw"
    "unat (pwPageStartOffset pw) = pg_first pw * csz (pwVolume pw)"
    "unat (pwOffsetBytes pw + pwLengthBytes pw) = unat (pwOffsetBytes pw) + unat (pwLengthBytes pw)"
    "unat (pwWriteStart pw) = write_lo pw"
    "unat (pwWriteEnd pw) = write_hi pw"
proof -
  let ?v = "pwVolume pw"
  note ok = pw_okD[OF assms] and vol = vol_okD[OF pw_okD(1)[OF assms]]
  show cs: "unat (pwChunkSize pw) = csz ?v"
    by (simp add: pwChunkSize_def csz_def)
  show first: "unat (pwPageStartChunk pw) = pg_first pw"
    using ok page_start_word[of ?v "pwPageNo pw"]
    by (simp add: pwPageStartChunk_def pwChunkSize_def pg_first_def)
  show count: "pwPageChunkCount pw = pg_count pw"
    using ok count_in_page[of ?v "pwPageNo pw"] by (simp add: pwPageChunkCount_def pg_count_def pg_first_def)
  have "pg_first pw * csz ?v < unat (vSizeBytes ?v)"
    using chunks_bound(3)[OF ok(1,4)] .
  then show start: "unat (pwPageStartOffset pw) = pg_first pw * csz ?v"
    using unat_mult_lem[of "pwPageStartChunk pw" "pwChunkSize pw"] first cs vol(4)
    by (simp add: pwPageStartOffset_def)
  show len: "unat (pwOffsetBytes pw + pwLengthBytes pw) = unat (pwOffsetBytes pw) + unat (pwLengthBytes pw)"
    using ok(3) vol(4) unat_add_lem[of "pwOffsetBytes pw" "pwLengthBytes pw"] by simp
  show "unat (pwWriteStart pw) = write_lo pw"
    by (simp add: pwWriteStart_def maxUint64_unat start write_lo_def)
  have "(pg_first pw + pg_count pw) * csz ?v \<le> chunks ?v * csz ?v"
    using ok(8) by (rule mult_le_mono1)
  then have last: "(pg_first pw + pg_count pw) * csz ?v < 2 ^ 64"
    using chunks_bound(1)[OF ok(1)] vol(4) by linarith
  have n: "unat (of_nat (pg_count pw) :: u64) = pg_count pw"
    using vol(6) by (intro unat_of_nat_length) (simp add: pg_count_def)
  have "unat (of_nat (pg_count pw) * pwChunkSize pw) = pg_count pw * csz ?v"
    using unat_mult_lem[of "of_nat (pg_count pw)" "pwChunkSize pw"] last n cs
    by (simp add: add_mult_distrib)
  then have "unat (pwPageStartOffset pw + of_nat (pwPageChunkCount pw) * pwChunkSize pw) =
      (pg_first pw + pg_count pw) * csz ?v"
    using unat_add_lem[of "pwPageStartOffset pw" "of_nat (pg_count pw) * pwChunkSize pw"] last start
    by (simp add: count add_mult_distrib)
  then show "unat (pwWriteEnd pw) = write_hi pw"
    by (simp add: pwWriteEnd_def minUint64_unat len write_hi_def)
qed

lemma pw_indices:
  assumes "pw_ok pw"
  shows "pwStartIndex pw = (write_lo pw - pg_first pw * csz (pwVolume pw)) div csz (pwVolume pw)"
    "pwEndIndex pw = (write_hi pw - 1 - pg_first pw * csz (pwVolume pw)) div csz (pwVolume pw)"
    "pwEndIndex pw < pg_count pw"
proof -
  let ?c = "csz (pwVolume pw)"
  note w = pw_words[OF assms] and ok = pw_okD[OF assms]
  have le: "pg_first pw * ?c \<le> write_lo pw"
    by (simp add: write_lo_def)
  then show "pwStartIndex pw = (write_lo pw - pg_first pw * ?c) div ?c"
    by (simp add: pwStartIndex_def unat_div_distrib w unat_sub word_le_nat_alt)
  have lt: "pg_first pw * ?c < write_hi pw"
    using le ok(5) by simp
  have "unat (pwWriteEnd pw - pwPageStartOffset pw) = write_hi pw - pg_first pw * ?c"
    using lt by (simp add: w unat_sub word_le_nat_alt)
  then have "unat (pwWriteEnd pw - pwPageStartOffset pw - 1) = write_hi pw - pg_first pw * ?c - 1"
    using lt unat_minus_one[of "pwWriteEnd pw - pwPageStartOffset pw"] by fastforce
  then show e: "pwEndIndex pw = (write_hi pw - 1 - pg_first pw * ?c) div ?c"
    by (simp add: pwEndIndex_def unat_div_distrib w)
  have "write_hi pw \<le> (pg_first pw + pg_count pw) * ?c"
    by (simp add: write_hi_def)
  then have "write_hi pw - 1 - pg_first pw * ?c < pg_count pw * ?c"
    using lt by (simp add: add_mult_distrib)
  then show "pwEndIndex pw < pg_count pw"
    using ok(6) by (simp add: e div_less_iff_less_mult)
qed

text \<open>The byte range of one chunk of the page.\<close>

definition chunk_lo :: "pageWrite \<Rightarrow> nat \<Rightarrow> nat" where
  "chunk_lo pw j = max (unat (pwOffsetBytes pw)) ((pg_first pw + j) * csz (pwVolume pw))"

definition chunk_hi :: "pageWrite \<Rightarrow> nat \<Rightarrow> nat" where
  "chunk_hi pw j = min (unat (pwOffsetBytes pw) + unat (pwLengthBytes pw))
     ((pg_first pw + j) * csz (pwVolume pw) + csz (pwVolume pw))"

definition in_range :: "pageWrite \<Rightarrow> nat \<Rightarrow> bool" where
  "in_range pw j \<longleftrightarrow> pwStartIndex pw \<le> j \<and> j \<le> pwEndIndex pw"

lemma in_range_iff:
  assumes "pw_ok pw" "j < pg_count pw"
  shows "in_range pw j \<longleftrightarrow> chunk_lo pw j < chunk_hi pw j"
proof -
  let ?c = "csz (pwVolume pw)" and ?f = "pg_first pw"
  note ok = pw_okD[OF assms(1)] and ix = pw_indices[OF assms(1)]
  have jc: "(?f + j) * ?c + ?c \<le> (?f + pg_count pw) * ?c"
    using assms(2) by (metis Suc_leI add.assoc add_Suc_right add_le_cancel_left mult_le_mono1 mult_Suc add.commute)
  have start: "pwStartIndex pw \<le> j \<longleftrightarrow> write_lo pw < (?f + j) * ?c + ?c"
  proof -
    have "pwStartIndex pw \<le> j \<longleftrightarrow> (write_lo pw - ?f * ?c) div ?c < Suc j"
      by (simp add: ix(1) less_Suc_eq_le)
    also have "\<dots> \<longleftrightarrow> write_lo pw - ?f * ?c < Suc j * ?c"
      using ok(6) by (simp only: div_less_iff_less_mult)
    also have "\<dots> \<longleftrightarrow> write_lo pw < (?f + j) * ?c + ?c"
      using ok(6) by (auto simp: add_mult_distrib write_lo_def)
    finally show ?thesis .
  qed
  have "j \<le> pwEndIndex pw \<longleftrightarrow> j * ?c \<le> write_hi pw - 1 - ?f * ?c"
    using ok(6) by (simp add: ix(2) less_eq_div_iff_mult_less_eq)
  also have "\<dots> \<longleftrightarrow> (?f + j) * ?c < write_hi pw"
  proof -
    have "?f * ?c < write_hi pw" using ok(5) by (simp add: write_lo_def)
    then show ?thesis by (auto simp: add_mult_distrib)
  qed
  finally have endi: "j \<le> pwEndIndex pw \<longleftrightarrow> (?f + j) * ?c < write_hi pw" .
  show ?thesis
    unfolding in_range_def start endi
    using jc ok(5,6) assms(2)
    by (auto simp: write_lo_def write_hi_def chunk_lo_def chunk_hi_def add_mult_distrib)
qed

lemma page_update_chunk:
  assumes "pw_ok pw" "j < pg_count pw" "(pg_first pw + j) * csz (pwVolume pw) \<le> i"
    "i < (pg_first pw + j) * csz (pwVolume pw) + csz (pwVolume pw)"
  shows "page_update pw f i = (if chunk_lo pw j \<le> i \<and> i < chunk_hi pw j
     then pwData pw ! (i - unat (pwOffsetBytes pw)) else f i)"
proof -
  let ?c = "csz (pwVolume pw)" and ?f = "pg_first pw"
  have "Suc j * ?c \<le> pg_count pw * ?c"
    using assms(2) by (intro mult_le_mono1) simp
  then have "?f * ?c \<le> i" "i < (?f + pg_count pw) * ?c"
    using assms(3,4) by (simp_all add: add_mult_distrib)
  then show ?thesis
    using assms(3,4) by (auto simp: page_update_def write_lo_def write_hi_def chunk_lo_def chunk_hi_def)
qed

lemma page_update_outside:
  assumes "i < pg_first pw * csz (pwVolume pw) \<or> (pg_first pw + pg_count pw) * csz (pwVolume pw) \<le> i"
  shows "page_update pw f i = f i"
  using assms by (auto simp: page_update_def write_lo_def write_hi_def)

subsection \<open>Slices\<close>

lemma length_splice: "i + length src \<le> length dst \<Longrightarrow> length (splice i src dst) = length dst"
  by (simp add: splice_def)

lemma splice_nth:
  assumes "i + length src \<le> length dst" "k < length dst"
  shows "splice i src dst ! k = (if i \<le> k \<and> k < i + length src then src ! (k - i) else dst ! k)"
  using assms by (auto simp: splice_def nth_append min_def)

lemma slice_nth: "k < j - i \<Longrightarrow> j \<le> length xs \<Longrightarrow> slice i j xs ! k = xs ! (i + k)"
  by (simp add: slice_def)

lemma slice_expr_Inr:
  "slice_expr i j xs = Inr ys \<longleftrightarrow> unat i \<le> unat j \<and> unat j \<le> length xs \<and> ys = slice (unat i) (unat j) xs"
  by (auto simp: slice_expr_def)

lemma slice_expr_in: "unat i \<le> unat j \<Longrightarrow> unat j \<le> length xs \<Longrightarrow> slice_expr i j xs = Inr (slice (unat i) (unat j) xs)"
  by (simp add: slice_expr_def)

subsection \<open>The words of one chunk of a page write\<close>

lemma chunk_words:
  assumes "pw_ok pw" "j < pg_count pw"
  shows "unat ((pwPageStartChunk pw + of_nat j) * pwChunkSize pw) = (pg_first pw + j) * csz (pwVolume pw)"
    "unat ((pwPageStartChunk pw + of_nat j) * pwChunkSize pw + pwChunkSize pw) =
       (pg_first pw + j) * csz (pwVolume pw) + csz (pwVolume pw)"
    "unat (maxUint64 (pwOffsetBytes pw) ((pwPageStartChunk pw + of_nat j) * pwChunkSize pw)) = chunk_lo pw j"
    "unat (minUint64 (pwOffsetBytes pw + pwLengthBytes pw)
       ((pwPageStartChunk pw + of_nat j) * pwChunkSize pw + pwChunkSize pw)) = chunk_hi pw j"
proof -
  let ?v = "pwVolume pw"
  note ok = pw_okD[OF assms(1)] and w = pw_words[OF assms(1)]
  have c: "pg_first pw + j < chunks ?v" using ok(8) assms(2) by simp
  have "unat (pwPageStartChunk pw + of_nat j) = pg_first pw + j"
    using c chunks_less_word(2)[OF ok(1)] w(2) unat_page_index[of "pwPageStartChunk pw" j] by simp
  moreover have b: "(pg_first pw + j) * csz ?v < unat (vSizeBytes ?v)"
    using chunks_bound(3)[OF ok(1) c] .
  ultimately show start: "unat ((pwPageStartChunk pw + of_nat j) * pwChunkSize pw) = (pg_first pw + j) * csz ?v"
    using unat_mult_lem[of "pwPageStartChunk pw + of_nat j" "pwChunkSize pw"] w(1) vol_okD(4)[OF ok(1)]
    by simp
  then show fin: "unat ((pwPageStartChunk pw + of_nat j) * pwChunkSize pw + pwChunkSize pw) =
      (pg_first pw + j) * csz ?v + csz ?v"
    using unat_add_lem[of "(pwPageStartChunk pw + of_nat j) * pwChunkSize pw" "pwChunkSize pw"] w(1) b
      vol_okD(4)[OF ok(1)] by simp
  show "unat (maxUint64 (pwOffsetBytes pw) ((pwPageStartChunk pw + of_nat j) * pwChunkSize pw)) = chunk_lo pw j"
    by (simp add: maxUint64_unat start chunk_lo_def)
  show "unat (minUint64 (pwOffsetBytes pw + pwLengthBytes pw)
      ((pwPageStartChunk pw + of_nat j) * pwChunkSize pw + pwChunkSize pw)) = chunk_hi pw j"
    by (simp add: minUint64_unat fin w(5) chunk_hi_def)
qed

end
