(* ===== verification/ChunkWriters.thy ===== *)
theory ChunkWriters
  imports VolumeBytes
begin

section \<open>Page writes among concurrent writers\<close>

text \<open>
  The correctness of page writes when other gateways and the garbage collector run between any two
  of their steps. The locale \<open>data_path\<close> combines the contract of the metadata repository with that of
  the object store; its invariant \<open>data_inv\<close> says that every mapped chunk exists, is mapped once and
  is not on the garbage list. Every program counter carries an assertion (\<open>local_ok\<close>) that the steps
  of others keep, and every step either leaves the bytes of the volume alone or is the
  compare-and-swap that publishes the page, which changes exactly the written range.
\<close>

definition mapping_good ::
    "('o \<Rightarrow> string \<Rightarrow> bytes option) \<Rightarrow> VolumeSpec \<Rightarrow> u64 \<Rightarrow> 'o \<Rightarrow> allocationChunkMapping \<Rightarrow> bool" where
  "mapping_good content v next s mp \<longleftrightarrow> mapping_ok mp \<and> amPayloadEncryption mp = None
     \<and> (prChunkID (amRef mp) \<noteq> 0 \<longrightarrow> unat (prChunkID (amRef mp)) < unat next
          \<and> length (chunk_payload content v (amRef mp) s) = csz v)"

abbreviation mapped_id ::
    "('m \<Rightarrow> u64 \<Rightarrow> u64 \<Rightarrow> AllocationChunkRecord list) \<Rightarrow> VolumeSpec \<Rightarrow> 'm \<Rightarrow> nat \<Rightarrow> u64" where
  "mapped_id exts v m c \<equiv> prChunkID (amRef (chunk_mapping exts v m c))"

definition data_inv where
  "data_inv minv exts nxt garb vol content v w \<longleftrightarrow>
     minv (fst w)
     \<and> (\<forall>n. extents_ok (exts (fst w) (vID v) n))
     \<and> (\<forall>c < chunks v. mapping_good content v (nxt (fst w) (vID v)) (snd w) (chunk_mapping exts v (fst w) c))
     \<and> (\<forall>c < chunks v. \<forall>d < chunks v. mapped_id exts v (fst w) c \<noteq> 0 \<longrightarrow>
          mapped_id exts v (fst w) c = mapped_id exts v (fst w) d \<longrightarrow> c = d)
     \<and> (\<forall>ref \<in> garb (fst w) (vID v). prChunkID ref \<noteq> 0 \<and> unat (prChunkID ref) < unat (nxt (fst w) (vID v))
          \<and> (\<forall>c < chunks v. mapped_id exts v (fst w) c \<noteq> prChunkID ref))
     \<and> (\<exists>x. vol (fst w) (vID v) = Some x \<and> vPrefix x = vPrefix v)
     \<and> chunk_payload content v zero_ref (snd w) = replicate (csz v) 0"

text \<open>The 64-bit counters of the volume are not exhausted: chunk ids and page revisions.\<close>

definition id_room :: "('m \<Rightarrow> u64 \<Rightarrow> u64) \<Rightarrow> ('m \<Rightarrow> u64 \<Rightarrow> u64 \<Rightarrow> 64 word) \<Rightarrow> VolumeSpec \<Rightarrow> 'm \<Rightarrow> bool" where
  "id_room nxt revision v m \<longleftrightarrow> unat (nxt m (vID v)) + 2 ^ 32 < 2 ^ 64
     \<and> (\<forall>n. unat (revision m (vID v) n) + 1 < 2 ^ 64)"

text \<open>A page write publishes its bytes in the step that ends in \<open>Committed\<close>.\<close>

fun published :: "write_pc \<Rightarrow> bool" where
  "published (Committed _) = True"
| "published _ = False"

text \<open>The ids that belong to a writer: allocated for its chunks, or cut out of a page by it.\<close>

fun owned :: "write_pc \<Rightarrow> u64 set" where
  "owned (Storing _ a s) = {x. unat s \<le> unat x \<and> unat x < unat s + length (waPending a)}"
| "owned (Validating _ a) = prChunkID ` set (waNew a)"
| "owned (Committing _ a _) = prChunkID ` set (waNew a)"
| "owned (Retrying _ a) = prChunkID ` set (waNew a)"
| "owned (Committed stale) = prChunkID ` set stale"
| "owned _ = {}"

definition full :: "pageWrite \<Rightarrow> nat \<Rightarrow> bool" where
  "full pw j \<longleftrightarrow> chunk_lo pw j = (pg_first pw + j) * csz (pwVolume pw)
     \<and> chunk_hi pw j = (pg_first pw + j) * csz (pwVolume pw) + csz (pwVolume pw)"

text \<open>The byte at position \<open>k\<close> of chunk \<open>j\<close> of the page after the write.\<close>

definition new_byte :: "pageWrite \<Rightarrow> (nat \<Rightarrow> u8) \<Rightarrow> nat \<Rightarrow> nat \<Rightarrow> u8" where
  "new_byte pw f j k = page_update pw f ((pg_first pw + j) * csz (pwVolume pw) + k)"

lemma new_byte_full:
  assumes "pw_ok pw" "j < pg_count pw" "full pw j" "k < csz (pwVolume pw)"
  shows "new_byte pw f j k = pwData pw ! ((pg_first pw + j) * csz (pwVolume pw) + k - unat (pwOffsetBytes pw))"
  using assms page_update_chunk[of pw j "(pg_first pw + j) * csz (pwVolume pw) + k" f]
  by (simp add: new_byte_def full_def)

definition merge_one ::
    "writeAttempt \<Rightarrow> pendingChunk \<Rightarrow> allocationChunkMapping list \<times> PhysicalChunkRef list \<Rightarrow>
     allocationChunkMapping list \<times> PhysicalChunkRef list" where
  "merge_one a chunk st =
     (let currentRef = amRef (fst st ! pcPageIndex chunk)
      in ((fst st)[pcPageIndex chunk := waNext a ! pcPageIndex chunk],
          if prChunkID currentRef \<noteq> 0 \<and> currentRef \<noteq> pcRef chunk
          then List.insert currentRef (snd st) else snd st))"

lemma zero_mapping_id: "prChunkID (amRef zero_mapping) = 0"
  by (simp add: zero_mapping_def zero_ref_def)

lemma merge_pending_fold: "merge_pending a latest = fold (merge_one a) (waPending a) (latest, [])"
  by (simp add: merge_pending_def merge_one_def[abs_def] case_prod_beta' Let_def)

lemma merge_one_fold:
  assumes "distinct (map pcPageIndex ps)" "pcPageIndex ` set ps \<subseteq> {..<length latest}"
  shows "length (fst (fold (merge_one a) ps (latest, stale))) = length latest
    \<and> (\<forall>j < length latest. fst (fold (merge_one a) ps (latest, stale)) ! j =
         (if j \<in> pcPageIndex ` set ps then waNext a ! j else latest ! j))
    \<and> (\<forall>ref \<in> set (snd (fold (merge_one a) ps (latest, stale))).
         ref \<in> set stale \<or> (prChunkID ref \<noteq> 0 \<and> (\<exists>p \<in> set ps. ref = amRef (latest ! pcPageIndex p))))"
  using assms
proof (induction ps arbitrary: latest stale)
  case (Cons p ps)
  let ?st = "merge_one a p (latest, stale)"
  let ?latest = "latest[pcPageIndex p := waNext a ! pcPageIndex p]"
  have "fst ?st = ?latest"
    by (simp add: merge_one_def Let_def)
  then have st: "?st = (?latest, snd ?st)"
    by (metis prod.collapse)
  have snd: "set (snd ?st) \<subseteq> set stale \<union> {r. prChunkID r \<noteq> 0 \<and> r = amRef (latest ! pcPageIndex p)}"
    by (auto simp: merge_one_def Let_def split: if_splits)
  have dist: "distinct (map pcPageIndex ps)" "pcPageIndex ` set ps \<subseteq> {..<length ?latest}"
    "pcPageIndex p < length latest" "pcPageIndex p \<notin> pcPageIndex ` set ps"
    using Cons.prems by auto
  note IH = Cons.IH[OF dist(1,2), of "snd ?st", folded st]
  have other: "?latest ! pcPageIndex q = latest ! pcPageIndex q" if "q \<in> set ps" for q
    using dist(4) that by (metis imageI nth_list_update_neq)
  show ?case
    using IH snd dist(3,4) other by (auto simp: nth_list_update)
qed simp

locale data_path = page_repository meta minv exts rev nxt garb vol + object_store os content
  for meta :: "'m MetadataRepository" and minv exts rev nxt garb vol
    and os :: "'o ObjectStore" and content +
  fixes ce :: "('m, 'o) chunkExtentDataRepository" and v :: VolumeSpec
  assumes ce: "ceMeta ce = meta" "ceChunks ce = os"
    and planner: "cePlanner ce = Some f \<Longrightarrow> f v lc x = Inr ref \<Longrightarrow> prChunkID ref \<in> {0, x}"
    and v_ok: "vol_ok v"
begin

abbreviation mp :: "'m \<Rightarrow> nat \<Rightarrow> allocationChunkMapping" where
  "mp m c \<equiv> chunk_mapping exts v m c"

abbreviation mid :: "'m \<Rightarrow> nat \<Rightarrow> u64" where
  "mid m c \<equiv> prChunkID (amRef (chunk_mapping exts v m c))"

abbreviation pay :: "PhysicalChunkRef \<Rightarrow> 'o \<Rightarrow> bytes" where
  "pay ref s \<equiv> chunk_payload content v ref s"

abbreviation byte :: "'m \<times> 'o \<Rightarrow> nat \<Rightarrow> u8" where
  "byte w \<equiv> volume_byte exts content v w"

abbreviation inv :: "'m \<times> 'o \<Rightarrow> bool" where
  "inv w \<equiv> data_inv minv exts nxt garb vol content v w"

definition fresh :: "u64 set \<Rightarrow> 'm \<Rightarrow> bool" where
  "fresh O1 m \<longleftrightarrow> (\<forall>x \<in> O1. x \<noteq> 0 \<and> unat x < unat (nxt m (vID v)) \<and> (\<forall>c < chunks v. mid m c \<noteq> x)
     \<and> x \<notin> prChunkID ` garb m (vID v))"

text \<open>What a step guarantees to everyone else, when it may touch only the payloads of ids in \<open>O1\<close>.\<close>

definition guar :: "u64 set \<Rightarrow> 'm \<times> 'o \<Rightarrow> 'm \<times> 'o \<Rightarrow> bool" where
  "guar O1 w w' \<longleftrightarrow> unat (nxt (fst w) (vID v)) \<le> unat (nxt (fst w') (vID v))
     \<and> (\<forall>n. unat (rev (fst w) (vID v) n) \<le> unat (rev (fst w') (vID v) n)
          \<and> (rev (fst w') (vID v) n = rev (fst w) (vID v) n \<longrightarrow> exts (fst w') (vID v) n = exts (fst w) (vID v) n))
     \<and> (\<forall>ref. prChunkID ref \<notin> O1 \<longrightarrow> pay ref (snd w') = pay ref (snd w))"

definition same_rev :: "pageWrite \<Rightarrow> 64 word \<Rightarrow> 'm \<Rightarrow> bool" where
  "same_rev pw r m \<longleftrightarrow> r = rev m (vID v) (pwPageNo pw)"

definition chunk_content :: "pageWrite \<Rightarrow> (nat \<Rightarrow> u8) \<Rightarrow> nat \<Rightarrow> bytes" where
  "chunk_content pw f j = map (new_byte pw f j) [0..<csz v]"

text \<open>
  The locals of an attempt: chunks in \<open>J\<close> have been merged; those of \<open>rest\<close> wait to be stored, the
  pending ones of the attempt are stored.
\<close>

definition attempt_ok :: "pageWrite \<Rightarrow> nat set \<Rightarrow> writeAttempt \<Rightarrow> pendingChunk list \<Rightarrow> 'm \<times> 'o \<Rightarrow> bool" where
  "attempt_ok pw J a rest w \<longleftrightarrow>
     (let current = same_rev pw (pgRevision (waPage a)) (fst w); idx = pcPageIndex ` set (waPending a @ rest)
      in unat (pgRevision (waPage a)) \<le> unat (rev (fst w) (vID v) (pwPageNo pw))
         \<and> length (waCurrent a) = pg_count pw \<and> length (waNext a) = pg_count pw
         \<and> (current \<longrightarrow> (\<forall>j < pg_count pw. waCurrent a ! j = mp (fst w) (pg_first pw + j)))
         \<and> (\<forall>j < pg_count pw. j \<notin> J \<longrightarrow> waNext a ! j = waCurrent a ! j)
         \<and> distinct (map pcPageIndex (waPending a @ rest)) \<and> idx \<subseteq> J
         \<and> (\<forall>j \<in> J - idx. waNext a ! j = zero_mapping \<and> \<not> waMergeable a
              \<and> (current \<longrightarrow> chunk_content pw (byte w) j = replicate (csz v) 0))
         \<and> (\<forall>p \<in> set rest. length (pcPayload p) = csz v
              \<and> (current \<or> waMergeable a \<longrightarrow> pcPayload p = chunk_content pw (byte w) (pcPageIndex p)))
         \<and> (\<forall>p \<in> set (waPending a). waNext a ! pcPageIndex p = \<lparr>amRef = pcRef p, amPayloadEncryption = None\<rparr>
              \<and> length (pay (pcRef p) (snd w)) = csz v
              \<and> (current \<or> waMergeable a \<longrightarrow> pay (pcRef p) (snd w) = chunk_content pw (byte w) (pcPageIndex p)))
         \<and> distinct (map (prChunkID \<circ> pcRef) (waPending a)) \<and> set (waNew a) = pcRef ` set (waPending a)
         \<and> (waMergeable a \<longrightarrow> (\<forall>j \<in> J. full pw j))
         \<and> (\<forall>ref \<in> set (waStale a). prChunkID ref \<noteq> 0 \<and> (\<exists>j \<in> J. ref = amRef (waCurrent a ! j))))"

definition range_set :: "pageWrite \<Rightarrow> nat set" where
  "range_set pw = {j. in_range pw j}"

definition commit_ok :: "pageWrite \<Rightarrow> writeAttempt \<Rightarrow> pageCommit \<Rightarrow> 'm \<times> 'o \<Rightarrow> bool" where
  "commit_ok pw a c w \<longleftrightarrow>
     length (pmMappings c) = pg_count pw
     \<and> unat (pmRevision c) \<le> unat (rev (fst w) (vID v) (pwPageNo pw))
     \<and> (same_rev pw (pmRevision c) (fst w) \<longrightarrow>
          (\<forall>j < pg_count pw. j \<notin> range_set pw \<longrightarrow> pmMappings c ! j = mp (fst w) (pg_first pw + j))
          \<and> (\<forall>j \<in> range_set pw.
               (pmMappings c ! j = zero_mapping \<and> chunk_content pw (byte w) j = replicate (csz v) 0)
               \<or> (amPayloadEncryption (pmMappings c ! j) = None
                   \<and> prChunkID (amRef (pmMappings c ! j)) \<in> prChunkID ` set (waNew a)
                   \<and> pay (amRef (pmMappings c ! j)) (snd w) = chunk_content pw (byte w) j))
          \<and> (\<forall>j \<in> range_set pw. \<forall>k \<in> range_set pw. prChunkID (amRef (pmMappings c ! j)) \<noteq> 0 \<longrightarrow>
               prChunkID (amRef (pmMappings c ! j)) = prChunkID (amRef (pmMappings c ! k)) \<longrightarrow> j = k)
          \<and> (\<forall>ref \<in> set (pmStale c). prChunkID ref \<noteq> 0
               \<and> (\<exists>j \<in> range_set pw. ref = amRef (mp (fst w) (pg_first pw + j)))))"

fun pc_ok :: "pageWrite \<Rightarrow> write_pc \<Rightarrow> 'm \<times> 'o \<Rightarrow> bool" where
  "pc_ok pw (Merging n p) w \<longleftrightarrow>
     unat (pgRevision p) \<le> unat (rev (fst w) (vID v) (pwPageNo pw))
     \<and> (same_rev pw (pgRevision p) (fst w) \<longrightarrow> pgExtents p = exts (fst w) (vID v) (pwPageNo pw))"
| "pc_ok pw (Allocating n a) w \<longleftrightarrow>
     attempt_ok pw (range_set pw) (a\<lparr>waPending := []\<rparr>) (waPending a) w \<and> waPending a \<noteq> []"
| "pc_ok pw (Storing n a s) w \<longleftrightarrow>
     attempt_ok pw (range_set pw) (a\<lparr>waPending := []\<rparr>) (waPending a) w
     \<and> waPending a \<noteq> [] \<and> unat s + length (waPending a) \<le> unat (nxt (fst w) (vID v))"
| "pc_ok pw (Validating n a) w \<longleftrightarrow> attempt_ok pw (range_set pw) a [] w"
| "pc_ok pw (Committing n a c) w \<longleftrightarrow> commit_ok pw a c w"
| "pc_ok pw _ w \<longleftrightarrow> True"

definition local_ok :: "pageWrite \<Rightarrow> write_pc \<Rightarrow> 'm \<times> 'o \<Rightarrow> bool" where
  "local_ok pw pc w \<longleftrightarrow> pw_ok pw \<and> pwVolume pw = v \<and> pc_ok pw pc w \<and> fresh (owned pc) (fst w)"

subsection \<open>Pages and their chunks\<close>

lemma page_chunk:
  assumes "pw_ok pw" "pwVolume pw = v" "j < pg_count pw"
  shows "(pg_first pw + j) div cpp v = unat (pwPageNo pw)" "pg_first pw + j < chunks v"
    "mp m (pg_first pw + j) = lookup_mapping (exts m (vID v) (pwPageNo pw)) (pwPageStartChunk pw + of_nat j)"
proof -
  have j: "j < cpp v" "pg_first pw = unat (pwPageNo pw) * cpp v"
    using assms(2,3) by (simp_all add: pg_count_def pg_first_def)
  then show d: "(pg_first pw + j) div cpp v = unat (pwPageNo pw)"
    by simp
  show c: "pg_first pw + j < chunks v"
    using pw_okD(8)[OF assms(1)] assms(2,3) by simp
  have "unat (pwPageStartChunk pw + of_nat j) = pg_first pw + j"
    using c chunks_less_word(2)[OF v_ok] pw_words(2)[OF assms(1)]
      unat_page_index[of "pwPageStartChunk pw" j] by simp
  then have "pwPageStartChunk pw + of_nat j = of_nat (pg_first pw + j)"
    by (metis of_nat_unat ucast_id)
  then show "mp m (pg_first pw + j) =
      lookup_mapping (exts m (vID v) (pwPageNo pw)) (pwPageStartChunk pw + of_nat j)"
    using d by (simp add: chunk_mapping_def)
qed

lemma range_set_bound: "pw_ok pw \<Longrightarrow> j \<in> range_set pw \<Longrightarrow> j < pg_count pw"
  using pw_indices(3)[of pw] by (auto simp: range_set_def in_range_def)

lemma invD:
  assumes "inv w"
  shows "minv (fst w)" "extents_ok (exts (fst w) (vID v) n)"
    "c < chunks v \<Longrightarrow> mapping_good content v (nxt (fst w) (vID v)) (snd w) (mp (fst w) c)"
    "c < chunks v \<Longrightarrow> d < chunks v \<Longrightarrow> mid (fst w) c \<noteq> 0 \<Longrightarrow> mid (fst w) c = mid (fst w) d \<Longrightarrow> c = d"
    "ref \<in> garb (fst w) (vID v) \<Longrightarrow> prChunkID ref \<noteq> 0 \<and> unat (prChunkID ref) < unat (nxt (fst w) (vID v))
       \<and> (\<forall>c < chunks v. mid (fst w) c \<noteq> prChunkID ref)"
    "\<exists>x. vol (fst w) (vID v) = Some x \<and> vPrefix x = vPrefix v"
    "pay zero_ref (snd w) = replicate (csz v) 0"
  using assms unfolding data_inv_def by blast+

lemma byte_at:
  assumes "k < csz v"
  shows "byte w (c * csz v + k) = (if mid (fst w) c = 0 then 0 else pay (amRef (mp (fst w) c)) (snd w) ! k)"
  using assms by (simp add: volume_byte_def Let_def)

text \<open>A step that leaves a page's revision alone leaves its chunks alone.\<close>

lemma guar_page:
  assumes "guar O1 w w'" "\<forall>c < chunks v. mid (fst w) c \<notin> O1" "pw_ok pw" "pwVolume pw = v" "j < pg_count pw"
    and "rev (fst w') (vID v) (pwPageNo pw) = rev (fst w) (vID v) (pwPageNo pw)"
  shows "mp (fst w') (pg_first pw + j) = mp (fst w) (pg_first pw + j)"
    "k < csz v \<Longrightarrow> byte w' ((pg_first pw + j) * csz v + k) = byte w ((pg_first pw + j) * csz v + k)"
    "chunk_content pw (byte w') j = chunk_content pw (byte w) j"
proof -
  have "exts (fst w') (vID v) (pwPageNo pw) = exts (fst w) (vID v) (pwPageNo pw)"
    using assms(1,6) by (simp add: guar_def)
  then show same: "mp (fst w') (pg_first pw + j) = mp (fst w) (pg_first pw + j)"
    using page_chunk(3)[OF assms(3-5)] by simp
  have "pay (amRef (mp (fst w) (pg_first pw + j))) (snd w') = pay (amRef (mp (fst w) (pg_first pw + j))) (snd w)"
    using assms(1,2) page_chunk(2)[OF assms(3-5)] by (simp add: guar_def)
  then have bytes: "byte w' ((pg_first pw + j) * csz v + k) = byte w ((pg_first pw + j) * csz v + k)"
    if "k < csz v" for k
    using that same by (simp add: byte_at)
  then show "k < csz v \<Longrightarrow> byte w' ((pg_first pw + j) * csz v + k) = byte w ((pg_first pw + j) * csz v + k)" .
  show "chunk_content pw (byte w') j = chunk_content pw (byte w) j"
    using bytes assms(4) by (simp add: chunk_content_def new_byte_def page_update_def)
qed

lemma chunk_content_full:
  assumes "pw_ok pw" "pwVolume pw = v" "j < pg_count pw" "full pw j"
  shows "chunk_content pw f j = chunk_content pw g j"
  using new_byte_full[OF assms(1,3,4)] assms(2) by (simp add: chunk_content_def)

lemma guar_revision:
  assumes "guar O1 w w'" "unat r \<le> unat (rev (fst w) (vID v) n)"
  shows "unat r \<le> unat (rev (fst w') (vID v) n)"
    "r = rev (fst w') (vID v) n \<Longrightarrow> rev (fst w') (vID v) n = rev (fst w) (vID v) n"
proof -
  have le: "unat (rev (fst w) (vID v) n) \<le> unat (rev (fst w') (vID v) n)"
    using assms(1) by (simp add: guar_def)
  with assms(2) show "unat r \<le> unat (rev (fst w') (vID v) n)" by simp
  show "r = rev (fst w') (vID v) n \<Longrightarrow> rev (fst w') (vID v) n = rev (fst w) (vID v) n"
    using le assms(2) by (simp add: word_unat_eq_iff)
qed

lemma attempt_ok_stable:
  assumes "attempt_ok pw J a rest w" "J \<subseteq> {..<pg_count pw}" "pw_ok pw" "pwVolume pw = v"
    and "guar O1 w w'" "\<forall>c < chunks v. mid (fst w) c \<notin> O1"
    and "prChunkID ` set (waNew a) \<inter> O1 = {}"
  shows "attempt_ok pw J a rest w'"
proof -
  let ?r = "pgRevision (waPage a)"
  note A = assms(1)[unfolded attempt_ok_def Let_def]
  have cur: "same_rev pw ?r (fst w)
      \<and> rev (fst w') (vID v) (pwPageNo pw) = rev (fst w) (vID v) (pwPageNo pw)" if "same_rev pw ?r (fst w')"
    using guar_revision[OF assms(5), of ?r "pwPageNo pw"] A that by (auto simp: same_rev_def)
  have content: "chunk_content pw (byte w') j = chunk_content pw (byte w) j"
    if "j \<in> J" "same_rev pw ?r (fst w') \<or> waMergeable a" for j
    using that(2)
  proof
    assume "same_rev pw ?r (fst w')"
    then show ?thesis
      using cur guar_page(3)[OF assms(5,6,3,4)] that(1) assms(2) by blast
  next
    assume "waMergeable a"
    then have "full pw j" using A that(1) by blast
    then show ?thesis
      using that(1) assms(2) chunk_content_full[OF assms(3,4)] by blast
  qed
  have pays: "pay (pcRef p) (snd w') = pay (pcRef p) (snd w)" if "p \<in> set (waPending a)" for p
    using that A assms(5,7) by (auto simp: guar_def)
  have mps: "mp (fst w') (pg_first pw + j) = mp (fst w) (pg_first pw + j)"
    if "j < pg_count pw" "same_rev pw ?r (fst w')" for j
    using guar_page(1)[OF assms(5,6,3,4) that(1)] cur[OF that(2)] by simp
  have idx: "pcPageIndex p \<in> J" if "p \<in> set (waPending a) \<union> set rest" for p
    using A that by auto
  show ?thesis
    unfolding attempt_ok_def Let_def
    using A guar_revision(1)[OF assms(5), of ?r "pwPageNo pw"] cur content pays mps idx
    by (intro conjI ballI impI allI) (simp_all, (metis | blast)+)
qed

lemma commit_ok_stable:
  assumes "commit_ok pw a c w" "pw_ok pw" "pwVolume pw = v"
    and "guar O1 w w'" "\<forall>c < chunks v. mid (fst w) c \<notin> O1" "prChunkID ` set (waNew a) \<inter> O1 = {}"
  shows "commit_ok pw a c w'"
proof -
  let ?r = "pmRevision c"
  note C = assms(1)[unfolded commit_ok_def]
  have cur: "same_rev pw ?r (fst w)
      \<and> rev (fst w') (vID v) (pwPageNo pw) = rev (fst w) (vID v) (pwPageNo pw)" if "same_rev pw ?r (fst w')"
    using guar_revision[OF assms(4), of ?r "pwPageNo pw"] C that by (auto simp: same_rev_def)
  have content: "chunk_content pw (byte w') j = chunk_content pw (byte w) j"
    and mps: "mp (fst w') (pg_first pw + j) = mp (fst w) (pg_first pw + j)"
    if "j < pg_count pw" "same_rev pw ?r (fst w')" for j
    using guar_page(1,3)[OF assms(4,5,2,3) that(1)] cur[OF that(2)] by auto
  have pays: "pay ref (snd w') = pay ref (snd w)" if "prChunkID ref \<in> prChunkID ` set (waNew a)" for ref
    using that assms(4,6) by (auto simp: guar_def)
  show ?thesis
    unfolding commit_ok_def
    using C guar_revision(1)[OF assms(4), of ?r "pwPageNo pw"] cur content mps pays
      range_set_bound[OF assms(2)]
    by (intro conjI ballI impI allI) (simp_all, (metis | blast)+)
qed

lemma attempt_ok_no_new: "attempt_ok pw J (a\<lparr>waPending := []\<rparr>) rest w \<Longrightarrow> waNew a = []"
  by (simp add: attempt_ok_def Let_def)

lemma range_set_page: "pw_ok pw \<Longrightarrow> range_set pw \<subseteq> {..<pg_count pw}"
  using range_set_bound by auto

lemma pc_ok_stable:
  assumes "pc_ok pw pc w" "pw_ok pw" "pwVolume pw = v"
    and "guar O1 w w'" "\<forall>c < chunks v. mid (fst w) c \<notin> O1" "owned pc \<inter> O1 = {}"
  shows "pc_ok pw pc w'"
proof (cases pc)
  case (Merging n p)
  then show ?thesis
    using assms(1,4) guar_revision[OF assms(4), of "pgRevision p" "pwPageNo pw"]
    by (auto simp: same_rev_def guar_def)
next
  case (Allocating n a)
  then show ?thesis
    using assms(1) attempt_ok_no_new[of pw "range_set pw" a "waPending a" w]
    by (auto intro!: attempt_ok_stable[OF _ range_set_page assms(2-5)] assms(2))
next
  case (Storing n a s)
  then show ?thesis
    using assms(1,4) attempt_ok_no_new[of pw "range_set pw" a "waPending a" w]
    by (auto simp: guar_def[of O1 w w'] intro!: attempt_ok_stable[OF _ range_set_page assms(2-5)] assms(2))
next
  case (Validating n a)
  then show ?thesis
    using assms(1,6) attempt_ok_stable[OF _ _ assms(2-5), of "range_set pw" a] range_set_bound[OF assms(2)]
    by auto
next
  case (Committing n a c)
  then show ?thesis
    using assms(1,6) commit_ok_stable[OF _ assms(2-5)] by auto
qed auto

subsection \<open>Merging\<close>

lemma readChunkByMapping_ok:
  assumes "readChunkByMapping ce v mapping s = Inr b"
  shows "length b = csz v"
    "mapping = mp m c \<Longrightarrow> k < csz v \<Longrightarrow> b ! k = byte (m, s) (c * csz v + k)"
  using assms ReadChunkRef_payload[of v "amRef mapping" s b] vol_okD(5)[OF v_ok]
  by (auto simp: readChunkByMapping_def ce csz_def[symmetric] byte_at split: if_splits)

lemma merged_chunk_ok:
  fixes pw j
  defines "start \<equiv> (pwPageStartChunk pw + of_nat j) * pwChunkSize pw"
  defines "lo \<equiv> maxUint64 (pwOffsetBytes pw) start"
    and "hi \<equiv> minUint64 (pwOffsetBytes pw + pwLengthBytes pw) (start + pwChunkSize pw)"
  assumes "pw_ok pw" "pwVolume pw = v" "j < pg_count pw" "in_range pw j"
    and "merged_chunk ce pw mapping start lo hi s = Inr b"
  shows "length b = csz v" "full pw j \<or> mapping = mp m (pg_first pw + j) \<Longrightarrow> b = chunk_content pw (byte (m, s)) j"
proof -
  let ?base = "(pg_first pw + j) * csz v" and ?off = "unat (pwOffsetBytes pw)"
  note W = chunk_words[OF assms(4,6), folded start_def, folded lo_def hi_def, unfolded assms(5)]
  have lt: "chunk_lo pw j < chunk_hi pw j"
    using in_range_iff[OF assms(4,6)] assms(7) by simp
  have bounds: "?base \<le> chunk_lo pw j" "?off \<le> chunk_lo pw j" "chunk_hi pw j \<le> ?base + csz v"
    "chunk_hi pw j - ?off \<le> length (pwData pw)"
    using pw_okD(2)[OF assms(4)] by (auto simp: chunk_lo_def chunk_hi_def assms(5))
  have n: "unat (lo - pwOffsetBytes pw) = chunk_lo pw j - ?off" "unat (hi - lo) = chunk_hi pw j - chunk_lo pw j"
    "unat (lo - start) = chunk_lo pw j - ?base"
    using lt bounds W by (simp_all add: unat_sub word_le_nat_alt)
  have src_end: "unat (lo - pwOffsetBytes pw + (hi - lo)) = chunk_hi pw j - ?off"
    and dst_end: "unat (lo - start + (hi - lo)) = chunk_hi pw j - ?base"
    using lt bounds W by (simp_all add: unat_sub word_le_nat_alt)
  define src where "src = slice (chunk_lo pw j - ?off) (chunk_hi pw j - ?off) (pwData pw)"
  have src: "slice_expr (lo - pwOffsetBytes pw) (lo - pwOffsetBytes pw + (hi - lo)) (pwData pw) = Inr src"
    unfolding slice_expr_def src_end n src_def using bounds lt by auto
  have src_len: "length src = chunk_hi pw j - chunk_lo pw j"
    using bounds lt by (simp add: src_def)
  have src_at: "src ! t = pwData pw ! (chunk_lo pw j - ?off + t)" if "t < chunk_hi pw j - chunk_lo pw j" for t
    unfolding src_def using that bounds lt by (intro slice_nth) auto
  have is_full: "lo = start \<and> hi = start + pwChunkSize pw \<longleftrightarrow> full pw j"
    using W by (simp add: full_def word_unat_eq_iff assms(5))
  have new: "new_byte pw f j k = (if chunk_lo pw j - ?base \<le> k \<and> k < chunk_hi pw j - ?base
      then pwData pw ! (?base + k - ?off) else f (?base + k))" if "k < csz v" for f k
    using that bounds lt page_update_chunk[OF assms(4,6), of "?base + k" f]
    by (auto simp: new_byte_def assms(5) less_diff_conv2 le_diff_conv2 add.commute)
  have "length b = csz v \<and> (full pw j \<or> mapping = mp m (pg_first pw + j) \<longrightarrow>
      b = chunk_content pw (byte (m, s)) j)"
  proof (cases "full pw j")
    case True
    then have "b = src"
      using assms(8) src is_full by (simp add: merged_chunk_def Let_def)
    moreover have "length src = csz v" "chunk_lo pw j = ?base" "chunk_hi pw j = ?base + csz v"
      using True src_len by (auto simp: full_def assms(5))
    ultimately show ?thesis
      using new src_at bounds by (auto simp: chunk_content_def intro!: nth_equalityI)
  next
    case False
    then obtain old where old: "readChunkByMapping ce v mapping s = Inr old"
      and b: "b = splice (chunk_lo pw j - ?base) src old"
      using assms(8) src is_full n(3)
      by (auto simp: merged_chunk_def Let_def assms(5) split: sum.splits)
    note R = readChunkByMapping_ok[OF old]
    have fits: "chunk_lo pw j - ?base + length src \<le> length old"
      using bounds lt R(1) src_len by simp
    have "b = chunk_content pw (byte (m, s)) j" if "mapping = mp m (pg_first pw + j)"
      using that new src_at bounds lt R src_len fits
      by (auto simp: b chunk_content_def splice_nth length_splice add.commute intro!: nth_equalityI)
    then show ?thesis
      using False fits R(1) by (simp add: b length_splice)
  qed
  then show "length b = csz v"
    "full pw j \<or> mapping = mp m (pg_first pw + j) \<Longrightarrow> b = chunk_content pw (byte (m, s)) j" by blast+
qed

lemma isAllZero_replicate: "isAllZero b \<longleftrightarrow> b = replicate (length b) 0"
  by (metis isAllZero_def in_set_replicate replicate_eqI)

lemma merge_index_ok:
  assumes "merge_index ce pw (snd w) j a = Inr a'" "pw_ok pw" "pwVolume pw = v"
    and "j < pg_count pw" "in_range pw j" "j \<notin> J"
    and "attempt_ok pw J (a\<lparr>waPending := []\<rparr>) (waPending a) w"
  shows "attempt_ok pw (insert j J) (a'\<lparr>waPending := []\<rparr>) (waPending a') w"
proof -
  let ?start = "(pwPageStartChunk pw + of_nat j) * pwChunkSize pw"
  let ?lo = "maxUint64 (pwOffsetBytes pw) ?start"
  let ?hi = "minUint64 (pwOffsetBytes pw + pwLengthBytes pw) (?start + pwChunkSize pw)"
  note W = chunk_words[OF assms(2,4)]
  note A = assms(7)[unfolded attempt_ok_def Let_def, simplified]
  have lt: "\<not> ?hi \<le> ?lo"
    using in_range_iff[OF assms(2,4)] assms(5) by (simp add: word_le_nat_alt W)
  have is_full: "?lo = ?start \<and> ?hi = ?start + pwChunkSize pw \<longleftrightarrow> full pw j"
    using W by (simp add: full_def word_unat_eq_iff)
  obtain b where b: "merged_chunk ce pw (waCurrent a ! j) ?start ?lo ?hi (snd w) = Inr b"
    using assms(1) lt by (auto simp: merge_index_def Let_def split: sum.splits)
  have len: "length b = csz v"
    by (rule merged_chunk_ok(1)[OF assms(2-5) b])
  have cont: "b = chunk_content pw (byte w) j"
    if "full pw j \<or> same_rev pw (pgRevision (waPage a)) (fst w)"
    using merged_chunk_ok(2)[OF assms(2-5) b, of "fst w"] that A assms(4) by auto
  have idx: "j \<notin> pcPageIndex ` set (waPending a)"
    using A assms(6) by auto
  show ?thesis
  proof (cases "isAllZero b")
    case True
    then have zero: "b = replicate (csz v) 0"
      using len isAllZero_replicate by metis
    have a': "a' = a\<lparr>waMergeable := False,
        waStale := (if prChunkID (amRef (waCurrent a ! j)) \<noteq> 0
                    then List.insert (amRef (waCurrent a ! j)) (waStale a) else waStale a),
        waNext := (waNext a)[j := zero_mapping]\<rparr>"
      using assms(1) b lt True by (simp add: merge_index_def Let_def)
    have content: "same_rev pw (pgRevision (waPage a)) (fst w) \<Longrightarrow>
        chunk_content pw (byte w) j = replicate (csz v) 0"
      using cont zero by metis
    have stale: "\<forall>ref \<in> set (waStale a'). prChunkID ref \<noteq> 0 \<and> (\<exists>i \<in> insert j J. ref = amRef (waCurrent a ! i))"
      using A by (auto simp: a')
    have fields: "waPage a' = waPage a" "waCurrent a' = waCurrent a" "waPending a' = waPending a"
      "\<not> waMergeable a'" "waNew a' = waNew a" "waNext a' = (waNext a)[j := zero_mapping]"
      by (simp_all add: a')
    show ?thesis
      unfolding attempt_ok_def Let_def
      using A content assms(4,6) idx stale
      by (intro conjI allI ballI impI) (auto simp: fields nth_list_update)
  next
    case False
    have a': "a' = a\<lparr>waMergeable := (waMergeable a \<and> full pw j),
        waPending := waPending a @ [\<lparr>pcPageIndex = j, pcPayload = b, pcRef = zero_ref\<rparr>]\<rparr>"
      using assms(1) b lt False is_full by (simp add: merge_index_def Let_def)
    show ?thesis
      unfolding attempt_ok_def Let_def
      using A len cont assms(4,6) idx
      by (intro conjI allI ballI impI) (auto simp: a')
  qed
qed

lemma merge_indices_ok:
  assumes "merge_indices ce pw (snd w) js a = Inr a'" "pw_ok pw" "pwVolume pw = v"
    and "\<forall>j \<in> set js. j < pg_count pw \<and> in_range pw j" "distinct js" "set js \<inter> J = {}"
    and "attempt_ok pw J (a\<lparr>waPending := []\<rparr>) (waPending a) w"
  shows "attempt_ok pw (J \<union> set js) (a'\<lparr>waPending := []\<rparr>) (waPending a') w"
  using assms(1,4-)
proof (induction js arbitrary: a J)
  case (Cons j js)
  obtain a1 where a1: "merge_index ce pw (snd w) j a = Inr a1" "merge_indices ce pw (snd w) js a1 = Inr a'"
    using Cons.prems(1) by (auto split: sum.splits)
  have "attempt_ok pw (insert j J) (a1\<lparr>waPending := []\<rparr>) (waPending a1) w"
    using Cons.prems by (intro merge_index_ok[OF a1(1) assms(2,3)]) auto
  then have "attempt_ok pw (insert j J \<union> set js) (a'\<lparr>waPending := []\<rparr>) (waPending a') w"
    using Cons.prems by (intro Cons.IH[OF a1(2)]) auto
  then show ?case by simp
qed simp

lemma range_set_indices: "set [pwStartIndex pw..<Suc (pwEndIndex pw)] = range_set pw"
  by (auto simp: range_set_def in_range_def)

lemma begin_attempt_ok:
  assumes "inv w" "pw_ok pw" "pwVolume pw = v" "pc_ok pw (Merging n p) w"
  shows "attempt_ok pw {} ((begin_attempt pw p)\<lparr>waPending := []\<rparr>) (waPending (begin_attempt pw p)) w"
proof -
  have "unat (pwPageStartChunk pw) + pg_count pw < 2 ^ 64"
    using pw_words(2)[OF assms(2)] pw_okD(8)[OF assms(2)] chunks_less_word(2)[OF v_ok] assms(3) by simp
  then have "buildAllocationChunkMappings p (pwPageStartChunk pw) (pg_count pw) ! j = mp (fst w) (pg_first pw + j)"
    if "j < pg_count pw" "same_rev pw (pgRevision p) (fst w)" for j
    using that assms(4) invD(2)[OF assms(1)] page_chunk(3)[OF assms(2,3) that(1)]
    by (subst build_lookup) auto
  then show ?thesis
    using assms(4) by (auto simp: attempt_ok_def Let_def begin_attempt_def pw_words(3)[OF assms(2)])
qed

lemma Merging_ok:
  assumes "inv w" "pw_ok pw" "pwVolume pw = v" "pc_ok pw (Merging n p) w"
    and "merge_indices ce pw (snd w) [pwStartIndex pw..<Suc (pwEndIndex pw)] (begin_attempt pw p) = Inr a"
  shows "attempt_ok pw (range_set pw) (a\<lparr>waPending := []\<rparr>) (waPending a) w"
  using merge_indices_ok[OF assms(5,2,3) _ _ _ begin_attempt_ok[OF assms(1-4)]] range_set_bound[OF assms(2)]
  unfolding range_set_indices by (auto simp: range_set_def)

subsection \<open>Garbage and payloads\<close>

text \<open>A change of the repository that leaves the pages and the counter of the volume alone.\<close>

definition quiet :: "'m \<Rightarrow> 'm \<Rightarrow> bool" where
  "quiet m m' \<longleftrightarrow> minv m' \<and> (\<forall>n. exts m' (vID v) n = exts m (vID v) n \<and> rev m' (vID v) n = rev m (vID v) n)
     \<and> nxt m' (vID v) = nxt m (vID v) \<and> vol m' (vID v) = vol m (vID v)"

lemma quiet_mp: "quiet m m' \<Longrightarrow> mp m' c = mp m c"
  by (simp add: quiet_def chunk_mapping_def)

lemma quiet_byte: "quiet m m' \<Longrightarrow> byte (m', s) = byte (m, s)"
  by (rule ext) (simp add: volume_byte_def quiet_mp Let_def)

lemma quiet_trans: "quiet m m' \<Longrightarrow> quiet m' m'' \<Longrightarrow> quiet m m''"
  by (simp add: quiet_def)

lemma recordGarbage_ok:
  assumes "recordGarbage ce now v refs m = (res, m')" "minv m"
  shows "quiet m m' \<and> garb m' (vID v) \<subseteq> set refs \<union> garb m (vID v)"
  using assms
proof (induction refs arbitrary: m)
  case (Cons ref refs)
  let ?g = "\<lparr>gcVolumeID = vID v, gcStoreID = prStoreID ref, gcShardID = prShardID ref,
             gcChunkID = prChunkID ref, gcEnqueuedAtUnix = 0\<rparr>"
  obtain r1 m1 where p: "mrPutChunkGarbage meta now ?g m = (r1, m1)"
    by fastforce
  have gref: "garbage_ref ?g = ref"
    by (simp add: garbage_ref_def)
  have q: "quiet m m1" "garb m1 (vID v) \<subseteq> insert ref (garb m (vID v))"
    using garbage_frame[OF Cons.prems(2), of now ?g "vID v"] p gref by (simp_all add: quiet_def)
  show ?case
  proof (cases r1)
    case (Inl e)
    then show ?thesis
      using Cons.prems(1) p q by (auto simp: ce)
  next
    case (Inr u)
    then have rec: "recordGarbage ce now v refs m1 = (res, m')"
      using Cons.prems(1) p by (simp add: ce)
    have "quiet m1 m' \<and> garb m' (vID v) \<subseteq> set refs \<union> garb m1 (vID v)"
      by (rule Cons.IH[OF rec]) (use q in \<open>simp add: quiet_def\<close>)
    with q show ?thesis
      by (auto intro: quiet_trans)
  qed
qed (simp add: quiet_def)

lemma inv_quiet:
  assumes "inv (m, s)" "quiet m m'" "garb m' (vID v) \<subseteq> G \<union> garb m (vID v)" "fresh (prChunkID ` G) m"
  shows "inv (m', s)"
  using assms unfolding data_inv_def
  by (auto simp: quiet_mp) (auto simp: quiet_def fresh_def)

lemma guar_quiet: "quiet m m' \<Longrightarrow> guar O1 (m, s) (m', s)"
  by (simp add: guar_def quiet_def)

lemma guar_trans:
  assumes "guar O1 w w'" "guar O1 w' w''"
  shows "guar O1 w w''"
proof -
  have "rev (fst w') (vID v) n = rev (fst w) (vID v) n"
    if "rev (fst w'') (vID v) n = rev (fst w) (vID v) n" for n
  proof -
    have "unat (rev (fst w) (vID v) n) \<le> unat (rev (fst w') (vID v) n)"
      "unat (rev (fst w') (vID v) n) \<le> unat (rev (fst w'') (vID v) n)"
      using assms by (simp_all add: guar_def)
    then show ?thesis
      using that by (simp add: word_unat_eq_iff)
  qed
  then show ?thesis
    using assms by (auto simp: guar_def intro: order_trans)
qed

lemma guar_mono: "guar O1 w w' \<Longrightarrow> O1 \<subseteq> O2 \<Longrightarrow> guar O2 w w'"
  unfolding guar_def by blast

lemma guar_refl: "guar O1 w w"
  by (simp add: guar_def)

lemma inv_store:
  assumes "inv (m, s)" "guar O1 (m, s) (m, s')" "\<forall>c < chunks v. mid m c \<notin> O1" "0 \<notin> O1"
  shows "inv (m, s')" "i < chunks v * csz v \<Longrightarrow> byte (m, s') i = byte (m, s) i"
proof -
  have "pay (amRef (mp m c)) s' = pay (amRef (mp m c)) s" if "c < chunks v" for c
    using that assms(2,3) by (simp add: guar_def)
  moreover have "pay zero_ref s' = pay zero_ref s"
    using assms(2,4) by (simp add: guar_def zero_ref_def)
  ultimately show "inv (m, s')" "i < chunks v * csz v \<Longrightarrow> byte (m, s') i = byte (m, s) i"
    using assms(1) vol_okD(1)[OF v_ok]
    by (auto simp: data_inv_def mapping_good_def volume_byte_def Let_def div_less_iff_less_mult)
qed

lemma choose_id:
  assumes "choosePhysicalChunkRef ce v lc x = Inr ref" "x \<noteq> 0"
  shows "prChunkID ref = x"
  using assms planner[of _ lc x]
  by (auto simp: choosePhysicalChunkRef_def split: option.splits sum.splits if_splits)

subsection \<open>Storing\<close>

lemma store_one_ok:
  assumes "WriteChunkRef os v ref (pcPayload p) s = (Inr u, s')" "attempt_ok pw J a (p # rest) (m, s)"
    and "pw_ok pw" "pwVolume pw = v" "J \<subseteq> {..<pg_count pw}"
    and "\<forall>c < chunks v. mid m c \<noteq> prChunkID ref" "prChunkID ref \<notin> prChunkID ` set (waNew a)"
  shows "attempt_ok pw J (a\<lparr>waNew := List.insert ref (waNew a),
      waPending := waPending a @ [p\<lparr>pcRef := ref\<rparr>],
      waStale := (if prChunkID (amRef (waCurrent a ! pcPageIndex p)) \<noteq> 0
                     \<and> amRef (waCurrent a ! pcPageIndex p) \<noteq> ref
                  then List.insert (amRef (waCurrent a ! pcPageIndex p)) (waStale a) else waStale a),
      waNext := (waNext a)[pcPageIndex p := \<lparr>amRef = ref, amPayloadEncryption = None\<rparr>]\<rparr>) rest (m, s')"
    (is "attempt_ok pw J ?a rest (m, s')")
proof -
  have W: "pay ref s' = pcPayload p" "\<forall>ref'. ref' \<noteq> ref \<longrightarrow> pay ref' s' = pay ref' s"
    using WriteChunkRef_payload[of v ref "pcPayload p" s s'] assms(1) by auto
  have g: "guar {prChunkID ref} (m, s) (m, s')"
    using W by (auto simp: guar_def)
  have "attempt_ok pw J a (p # rest) (m, s')"
    by (rule attempt_ok_stable[OF assms(2,5,3,4) g]) (use assms(6,7) in auto)
  note A = this[unfolded attempt_ok_def Let_def, simplified]
  have p: "pcPageIndex p \<in> J" "pcPageIndex p < pg_count pw"
    "pcPageIndex p \<notin> pcPageIndex ` set (waPending a)" "pcPageIndex p \<notin> pcPageIndex ` set rest"
    using A assms(5) by auto
  have stale: "\<forall>r \<in> set (waStale ?a). prChunkID r \<noteq> 0 \<and> (\<exists>j \<in> J. r = amRef (waCurrent a ! j))"
    using A p by auto
  have new: "prChunkID ref \<notin> (prChunkID \<circ> pcRef) ` set (waPending a)"
    using A assms(7) by auto
  define b where "b = ?a"
  have fields: "waPage b = waPage a" "waCurrent b = waCurrent a"
    "waPending b = waPending a @ [p\<lparr>pcRef := ref\<rparr>]" "waMergeable b = waMergeable a"
    "waNew b = List.insert ref (waNew a)"
    "waNext b = (waNext a)[pcPageIndex p := \<lparr>amRef = ref, amPayloadEncryption = None\<rparr>]"
    by (simp_all add: b_def)
  note stale = stale[folded b_def]
  have stored: "\<forall>q \<in> set (waPending b). waNext b ! pcPageIndex q = \<lparr>amRef = pcRef q, amPayloadEncryption = None\<rparr>
      \<and> length (pay (pcRef q) s') = csz v
      \<and> (same_rev pw (pgRevision (waPage a)) m \<or> waMergeable a \<longrightarrow>
           pay (pcRef q) s' = chunk_content pw (byte (m, s')) (pcPageIndex q))"
  proof
    fix q assume "q \<in> set (waPending b)"
    then consider "q = p\<lparr>pcRef := ref\<rparr>" | "q \<in> set (waPending a)" by (auto simp: fields)
    then show "waNext b ! pcPageIndex q = \<lparr>amRef = pcRef q, amPayloadEncryption = None\<rparr>
      \<and> length (pay (pcRef q) s') = csz v
      \<and> (same_rev pw (pgRevision (waPage a)) m \<or> waMergeable a \<longrightarrow>
           pay (pcRef q) s' = chunk_content pw (byte (m, s')) (pcPageIndex q))"
    proof cases
      case 1
      then show ?thesis using A p(2) W(1) by (simp add: fields)
    next
      case 2
      then have "pcPageIndex q \<noteq> pcPageIndex p" using p(3) by (metis imageI)
      with 2 show ?thesis using A by (simp add: fields)
    qed
  qed
  have "attempt_ok pw J b rest (m, s')"
    unfolding attempt_ok_def Let_def
  proof (intro conjI)
    show "distinct (map pcPageIndex (waPending b @ rest))"
      using A p by (auto simp: fields)
    show "\<forall>j \<in> J - pcPageIndex ` set (waPending b @ rest). waNext b ! j = zero_mapping \<and> \<not> waMergeable b
        \<and> (same_rev pw (pgRevision (waPage b)) (fst (m, s')) \<longrightarrow>
             chunk_content pw (byte (m, s')) j = replicate (csz v) 0)"
      using A by (simp add: fields nth_list_update)
    show "\<forall>j < pg_count pw. j \<notin> J \<longrightarrow> waNext b ! j = waCurrent b ! j"
      using A p by (auto simp: fields nth_list_update)
    show "distinct (map (prChunkID \<circ> pcRef) (waPending b))"
      using A new by (simp add: fields)
    show "set (waNew b) = pcRef ` set (waPending b)"
      using A by (simp add: fields)
    show "pcPageIndex ` set (waPending b @ rest) \<subseteq> J"
      using A p by (simp add: fields)
  qed (use A stale stored in \<open>simp_all add: fields(1,2,4-6)\<close>)
  then show ?thesis
    by (simp add: b_def)
qed

lemma store_pending_ok:
  assumes "store_pending ce now pw x rest a (m, s) = (res, w')" "attempt_ok pw J a rest (m, s)" "inv (m, s)"
    and pw: "pw_ok pw" "pwVolume pw = v" "J \<subseteq> {..<pg_count pw}"
    and "x \<noteq> 0" "unat x + length rest \<le> unat (nxt m (vID v))"
    and "\<forall>ref \<in> set (waNew a). unat (prChunkID ref) < unat x"
    and "fresh O1 m" "O1 = prChunkID ` set (waNew a) \<union> {y. unat x \<le> unat y \<and> unat y < unat x + length rest}"
  shows "inv w' \<and> guar O1 (m, s) w' \<and> quiet m (fst w')
    \<and> prChunkID ` garb (fst w') (vID v) \<subseteq> O1 \<union> prChunkID ` garb m (vID v)
    \<and> (\<forall>i < chunks v * csz v. byte w' i = byte (m, s) i)
    \<and> (case res of
         Inl _ \<Rightarrow> True
       | Inr a' \<Rightarrow> fst w' = m \<and> attempt_ok pw J a' [] w' \<and> prChunkID ` set (waNew a') \<subseteq> O1)"
  using assms(1-3,7-)
proof (induction rest arbitrary: x a s)
  case Nil
  then show ?case
    using invD(1)[OF Nil.prems(3)] by (auto simp: guar_refl quiet_def)
next
  case (Cons p rest)
  let ?g = "recordGarbage ce now v (waNew a) m"
  have xO: "x \<in> O1" using Cons.prems(5,8) by simp
  then have fx: "\<forall>c < chunks v. mid m c \<noteq> x" using Cons.prems(7) by (simp add: fresh_def)
  have failed: ?case
    if f: "w' = (snd ?g, s')" "res = Inl e" "guar {x} (m, s) (m, s')" for s' e
  proof -
    have q: "quiet m (snd ?g)" "garb (snd ?g) (vID v) \<subseteq> set (waNew a) \<union> garb m (vID v)"
      using recordGarbage_ok[of now "waNew a" m] invD(1)[OF Cons.prems(3)] by (cases ?g, simp)+
    have "fresh (prChunkID ` set (waNew a)) m"
      using Cons.prems(7,8) by (auto simp: fresh_def)
    moreover have s': "inv (m, s')" "\<forall>i < chunks v * csz v. byte (m, s') i = byte (m, s) i"
      using inv_store[OF Cons.prems(3) f(3)] fx Cons.prems(4) by auto
    ultimately have "inv w'"
      unfolding f(1) by (intro inv_quiet[OF _ q]) auto
    moreover have "guar O1 (m, s) w'"
      using guar_trans[OF guar_mono[OF f(3)] guar_quiet[OF q(1)]] xO by (simp add: f(1))
    moreover have "prChunkID ` garb (fst w') (vID v) \<subseteq> O1 \<union> prChunkID ` garb m (vID v)"
      using q(2) Cons.prems(8) by (auto simp: f(1))
    ultimately show ?thesis
      using q(1) s'(2) quiet_byte[OF q(1)] by (simp add: f)
  qed
  show ?case
  proof (cases "choosePhysicalChunkRef ce v (pwPageStartChunk pw + of_nat (pcPageIndex p)) x")
    case (Inl e)
    then have "\<exists>e. w' = (snd ?g, s) \<and> res = Inl e"
      using Cons.prems(1) pw(2) by (cases ?g; cases "fst ?g") (auto simp: Let_def)
    then show ?thesis
      using failed guar_refl by blast
  next
    case (Inr ref)
    have rid: "prChunkID ref = x"
      using choose_id[OF Inr Cons.prems(4)] .
    obtain r1 s1 where wr: "WriteChunkRef os v ref (pcPayload p) s = (r1, s1)"
      by fastforce
    have g: "guar {x} (m, s) (m, s1)"
      using WriteChunkRef_other[OF wr] rid unfolding guar_def by fastforce
    show ?thesis
    proof (cases r1)
      case (Inl e)
      then have "\<exists>e. w' = (snd ?g, s1) \<and> res = Inl e"
        using Cons.prems(1) pw(2) Inr wr by (cases ?g; cases "fst ?g") (auto simp: Let_def ce)
      then show ?thesis
        using failed g by blast
    next
      case ok: (Inr u)
      let ?a = "a\<lparr>waNew := List.insert ref (waNew a), waPending := waPending a @ [p\<lparr>pcRef := ref\<rparr>],
        waStale := (if prChunkID (amRef (waCurrent a ! pcPageIndex p)) \<noteq> 0
                       \<and> amRef (waCurrent a ! pcPageIndex p) \<noteq> ref
                    then List.insert (amRef (waCurrent a ! pcPageIndex p)) (waStale a) else waStale a),
        waNext := (waNext a)[pcPageIndex p := \<lparr>amRef = ref, amPayloadEncryption = None\<rparr>]\<rparr>"
      have step: "store_pending ce now pw (x + 1) rest ?a (m, s1) = (res, w')"
        using Cons.prems(1) pw(2) Inr wr ok by (simp add: Let_def ce)
      have nx: "unat (x + 1) = unat x + 1"
      proof -
        have "unat (nxt m (vID v)) < 2 ^ 64"
          using unsigned_less[of "nxt m (vID v)"] by simp
        then show ?thesis
          using Cons.prems(5) unat_add_lem[of x 1] by simp
      qed
      have att: "attempt_ok pw J ?a rest (m, s1)"
        by (rule store_one_ok[OF wr[unfolded ok] Cons.prems(2) pw]) (use fx rid Cons.prems(6) in auto)
      have "inv (m, s1)"
        using inv_store(1)[OF Cons.prems(3) g] fx Cons.prems(4) by auto
      moreover have "x + 1 \<noteq> 0"
        by (rule notI) (use nx in simp)
      moreover have "unat (x + 1) + length rest \<le> unat (nxt m (vID v))"
        using Cons.prems(5) nx by simp
      moreover have "\<forall>ref \<in> set (waNew ?a). unat (prChunkID ref) < unat (x + 1)"
        unfolding nx using Cons.prems(6) rid by auto
      moreover have "{y. unat x \<le> unat y \<and> unat y < unat x + Suc (length rest)} =
          insert x {y. unat (x + 1) \<le> unat y \<and> unat y < unat (x + 1) + length rest}"
        unfolding nx by (auto simp: word_unat_eq_iff)
      then have "O1 = prChunkID ` set (waNew ?a) \<union>
          {y. unat (x + 1) \<le> unat y \<and> unat y < unat (x + 1) + length rest}"
        using Cons.prems(8) rid by auto
      ultimately have "inv w' \<and> guar O1 (m, s1) w' \<and> quiet m (fst w')
          \<and> prChunkID ` garb (fst w') (vID v) \<subseteq> O1 \<union> prChunkID ` garb m (vID v)
          \<and> (\<forall>i < chunks v * csz v. byte w' i = byte (m, s1) i)
          \<and> (case res of
               Inl _ \<Rightarrow> True
             | Inr a' \<Rightarrow> fst w' = m \<and> attempt_ok pw J a' [] w' \<and> prChunkID ` set (waNew a') \<subseteq> O1)"
        using Cons.IH[OF step att] Cons.prems(7) by blast
      then show ?thesis
        using inv_store(2)[OF Cons.prems(3) g] fx Cons.prems(4) guar_trans[OF guar_mono[OF g, of O1]] xO by auto
    qed
  qed
qed

subsection \<open>Validating\<close>

lemma attempt_okD:
  assumes "attempt_ok pw J a [] w"
  shows "length (waNext a) = pg_count pw"
    "unat (pgRevision (waPage a)) \<le> unat (rev (fst w) (vID v) (pwPageNo pw))"
    "same_rev pw (pgRevision (waPage a)) (fst w) \<Longrightarrow> j < pg_count pw \<Longrightarrow>
       waCurrent a ! j = mp (fst w) (pg_first pw + j)"
    "j < pg_count pw \<Longrightarrow> j \<notin> J \<Longrightarrow> waNext a ! j = waCurrent a ! j"
    "distinct (map pcPageIndex (waPending a))" "pcPageIndex ` set (waPending a) \<subseteq> J"
    "j \<in> J \<Longrightarrow> j \<notin> pcPageIndex ` set (waPending a) \<Longrightarrow> waNext a ! j = zero_mapping \<and> \<not> waMergeable a
       \<and> (same_rev pw (pgRevision (waPage a)) (fst w) \<longrightarrow> chunk_content pw (byte w) j = replicate (csz v) 0)"
    "p \<in> set (waPending a) \<Longrightarrow> waNext a ! pcPageIndex p = \<lparr>amRef = pcRef p, amPayloadEncryption = None\<rparr>"
    "p \<in> set (waPending a) \<Longrightarrow> same_rev pw (pgRevision (waPage a)) (fst w) \<or> waMergeable a \<Longrightarrow>
       pay (pcRef p) (snd w) = chunk_content pw (byte w) (pcPageIndex p)"
    "distinct (map (prChunkID \<circ> pcRef) (waPending a))" "set (waNew a) = pcRef ` set (waPending a)"
    "ref \<in> set (waStale a) \<Longrightarrow> prChunkID ref \<noteq> 0 \<and> (\<exists>j \<in> J. ref = amRef (waCurrent a ! j))"
  using assms unfolding attempt_ok_def Let_def by simp_all

lemma plan_commit_ok:
  assumes "plan_commit pw a p = Some c" "attempt_ok pw (range_set pw) a [] w" "inv w"
    and "pw_ok pw" "pwVolume pw = v" "pgExtents p = exts (fst w) (vID v) (pwPageNo pw)"
    "pgRevision p = rev (fst w) (vID v) (pwPageNo pw)"
  shows "commit_ok pw a c w"
proof -
  note A = attempt_okD[OF assms(2)]
  let ?idx = "pcPageIndex ` set (waPending a)"
  have pend: "\<exists>p \<in> set (waPending a). pcPageIndex p = j \<and> amRef (waNext a ! j) = pcRef p" if "j \<in> ?idx" for j
    using that A(8) by force
  have ids: "p = q" if "p \<in> set (waPending a)" "q \<in> set (waPending a)" "prChunkID (pcRef p) = prChunkID (pcRef q)" for p q
    using A(10) that by (auto simp: distinct_map inj_on_def)
  have unique: "j = k" if "j \<in> range_set pw" "k \<in> range_set pw" "prChunkID (amRef (waNext a ! j)) \<noteq> 0"
    "prChunkID (amRef (waNext a ! j)) = prChunkID (amRef (waNext a ! k))" for j k
  proof -
    have "j \<in> ?idx" "k \<in> ?idx"
      using A(7)[of j] A(7)[of k] that zero_mapping_id by metis+
    with pend obtain p q where "p \<in> set (waPending a)" "pcPageIndex p = j" "amRef (waNext a ! j) = pcRef p"
      "q \<in> set (waPending a)" "pcPageIndex q = k" "amRef (waNext a ! k) = pcRef q"
      by metis
    with ids that(4) show ?thesis by metis
  qed
  have good: "amPayloadEncryption (waNext a ! j) = None
      \<and> prChunkID (amRef (waNext a ! j)) \<in> prChunkID ` set (waNew a)
      \<and> pay (amRef (waNext a ! j)) (snd w) = chunk_content pw (byte w) j"
    if "j \<in> ?idx" "same_rev pw (pgRevision (waPage a)) (fst w) \<or> waMergeable a" for j
    using that A(8,9,11) by auto
  show ?thesis
  proof (cases "pgRevision p = pgRevision (waPage a)")
    case True
    then have c: "c = \<lparr>pmMappings = waNext a, pmRevision = pgRevision (waPage a), pmStale = waStale a\<rparr>"
      using assms(1) by (simp add: plan_commit_def)
    have cur: "same_rev pw (pgRevision (waPage a)) (fst w)"
      using True assms(7) by (simp add: same_rev_def)
    have maps: "(waNext a ! j = zero_mapping \<and> chunk_content pw (byte w) j = replicate (csz v) 0)
      \<or> (amPayloadEncryption (waNext a ! j) = None
          \<and> prChunkID (amRef (waNext a ! j)) \<in> prChunkID ` set (waNew a)
          \<and> pay (amRef (waNext a ! j)) (snd w) = chunk_content pw (byte w) j)" if "j \<in> range_set pw" for j
      using that A(7)[of j] cur good[of j] by (cases "j \<in> ?idx") simp_all
    have keep: "waNext a ! j = mp (fst w) (pg_first pw + j)" if "j < pg_count pw" "j \<notin> range_set pw" for j
      using that A(3,4)[of j] cur by simp
    have stale: "prChunkID ref \<noteq> 0 \<and> (\<exists>j \<in> range_set pw. ref = amRef (mp (fst w) (pg_first pw + j)))"
      if ref: "ref \<in> set (waStale a)" for ref
    proof -
      obtain j where "prChunkID ref \<noteq> 0" "j \<in> range_set pw" "ref = amRef (waCurrent a ! j)"
        using A(12)[OF ref] by blast
      then show ?thesis
        using A(3)[OF cur] range_set_bound[OF assms(4)] by auto
    qed
    show ?thesis
      unfolding commit_ok_def c using A(1,2) maps keep stale unique by simp
  next
    case False
    let ?l = "buildAllocationChunkMappings p (pwPageStartChunk pw) (pg_count pw)"
    let ?m = "fold (merge_one a) (waPending a) (?l, [])"
    have m: "waMergeable a" "c = \<lparr>pmMappings = fst ?m, pmRevision = pgRevision p, pmStale = snd ?m\<rparr>"
      using assms(1) False
      by (auto simp: plan_commit_def Let_def merge_pending_fold pw_words(3)[OF assms(4)] case_prod_beta'
          split: if_splits)
    have idx: "?idx = range_set pw"
      using A(6,7) m(1) by blast
    have "unat (pwPageStartChunk pw) + pg_count pw < 2 ^ 64"
      using pw_words(2)[OF assms(4)] pw_okD(8)[OF assms(4)] chunks_less_word(2)[OF v_ok] assms(5) by simp
    then have latest: "?l ! j = mp (fst w) (pg_first pw + j)" if "j < pg_count pw" for j
      using that assms(6) invD(2)[OF assms(3)] page_chunk(3)[OF assms(4,5) that] by (subst build_lookup) auto
    have d: "distinct (map pcPageIndex (waPending a))" "?idx \<subseteq> {..<length ?l}"
      using A(5) idx range_set_page[OF assms(4)] by auto
    note F = merge_one_fold[OF d, of a "[]"]
    have at: "fst ?m ! j = (if j \<in> range_set pw then waNext a ! j else mp (fst w) (pg_first pw + j))"
      if "j < pg_count pw" for j
      using F that latest[OF that] idx by simp
    have stale: "prChunkID ref \<noteq> 0 \<and> (\<exists>j \<in> range_set pw. ref = amRef (mp (fst w) (pg_first pw + j)))"
      if ref: "ref \<in> set (snd ?m)" for ref
    proof -
      obtain q where q: "prChunkID ref \<noteq> 0" "q \<in> set (waPending a)" "ref = amRef (?l ! pcPageIndex q)"
        using F ref by auto
      then have "pcPageIndex q \<in> range_set pw" using idx by blast
      then show ?thesis
        using q latest range_set_bound[OF assms(4)] by auto
    qed
    have len: "length (fst ?m) = pg_count pw"
      using F by simp
    show ?thesis
      unfolding commit_ok_def m(2)
      using len at stale unique good m(1) idx range_set_bound[OF assms(4)] assms(7) by simp
  qed
qed

subsection \<open>Committing\<close>

lemma chunk_cases:
  assumes "pw_ok pw" "pwVolume pw = v" "c < chunks v"
  obtains (inside) j where "j < pg_count pw" "c = pg_first pw + j"
    | (outside) "of_nat (c div cpp v) \<noteq> pwPageNo pw" "c < pg_first pw \<or> pg_first pw + pg_count pw \<le> c"
proof (cases "c div cpp v = unat (pwPageNo pw)")
  case True
  then have c: "c = pg_first pw + c mod cpp v"
    using assms(2) by (metis div_mult_mod_eq pg_first_def)
  moreover have "c mod cpp v < cpp v"
    using vol_okD(2)[OF v_ok] by simp
  ultimately have "c mod cpp v < pg_count pw"
    using assms by (simp add: pg_count_def)
  with c show ?thesis using inside by blast
next
  case False
  have "c div cpp v \<le> c" by simp
  then have "unat (of_nat (c div cpp v) :: u64) = c div cpp v"
    using le_less_trans[OF _ less_trans[OF assms(3) chunks_less_word(2)[OF v_ok]]]
    by (intro unat_of_nat_length) simp
  then have "of_nat (c div cpp v) \<noteq> pwPageNo pw"
    using False by metis
  moreover have "c < pg_first pw \<or> pg_first pw + pg_count pw \<le> c"
  proof (rule ccontr)
    assume "\<not> (c < pg_first pw \<or> pg_first pw + pg_count pw \<le> c)"
    then obtain j where "c = pg_first pw + j" "j < pg_count pw"
      by (metis le_Suc_ex linorder_not_less nat_add_left_cancel_less)
    then show False
      using page_chunk(1)[OF assms(1,2)] False by blast
  qed
  ultimately show ?thesis using outside by blast
qed

lemma chunk_content_nth: "k < csz v \<Longrightarrow> pwVolume pw = v \<Longrightarrow>
    chunk_content pw f j ! k = page_update pw f ((pg_first pw + j) * csz v + k)"
  by (simp add: chunk_content_def new_byte_def)

lemma length_chunk_content [simp]: "length (chunk_content pw f j) = csz v"
  by (simp add: chunk_content_def)

text \<open>A successful compare-and-swap of a planned commit.\<close>

definition commits :: "pageWrite \<Rightarrow> writeAttempt \<Rightarrow> pageCommit \<Rightarrow> 'm \<times> 'o \<Rightarrow> 'm \<Rightarrow> bool" where
  "commits pw a c w m' \<longleftrightarrow> commit_ok pw a c w \<and> inv w \<and> pw_ok pw \<and> pwVolume pw = v
     \<and> fresh (prChunkID ` set (waNew a)) (fst w) \<and> id_room nxt rev v (fst w)
     \<and> (\<exists>p'. mrPutExtentPage meta (updated_page pw c) (pmRevision c) (fst w) = (Inr p', m'))"

lemma commitsD:
  assumes "commits pw a c w m'"
  shows "commit_ok pw a c w" "inv w" "pw_ok pw" "pwVolume pw = v"
    "fresh (prChunkID ` set (waNew a)) (fst w)" "id_room nxt rev v (fst w)"
  using assms by (simp_all add: commits_def)

lemma commits_put:
  assumes "commits pw a c w m'"
  shows "same_rev pw (pmRevision c) (fst w)" "minv m'"
    "exts m' (vID v) n = (if n = pwPageNo pw
       then compressAllocationChunkMappings (pwPageStartChunk pw) (pmMappings c) else exts (fst w) (vID v) n)"
    "rev m' (vID v) n = (if n = pwPageNo pw then rev (fst w) (vID v) n + 1 else rev (fst w) (vID v) n)"
    "nxt m' (vID v) = nxt (fst w) (vID v)" "garb m' (vID v) = garb (fst w) (vID v)"
    "vol m' (vID v) = vol (fst w) (vID v)"
proof -
  obtain p' where put: "mrPutExtentPage meta (updated_page pw c) (pmRevision c) (fst w) = (Inr p', m')"
    using assms by (auto simp: commits_def)
  note laws = put_page_ok[OF invD(1)[OF commitsD(2)[OF assms]] put]
    put_page_frame[OF invD(1)[OF commitsD(2)[OF assms]], of "updated_page pw c" "pmRevision c" "vID v", unfolded put]
  have page: "pgVolumeID (updated_page pw c) = vID v" "pgPageNo (updated_page pw c) = pwPageNo pw"
    "pgExtents (updated_page pw c) = compressAllocationChunkMappings (pwPageStartChunk pw) (pmMappings c)"
    using commitsD(4)[OF assms] by (simp_all add: updated_page_def)
  have e: "pmRevision c = rev (fst w) (vID v) (pwPageNo pw)"
    using laws(1) page by metis
  then show "same_rev pw (pmRevision c) (fst w)"
    by (simp add: same_rev_def)
  show "exts m' (vID v) n = (if n = pwPageNo pw
       then compressAllocationChunkMappings (pwPageStartChunk pw) (pmMappings c) else exts (fst w) (vID v) n)"
    "rev m' (vID v) n = (if n = pwPageNo pw then rev (fst w) (vID v) n + 1 else rev (fst w) (vID v) n)"
    using laws(1)[of "vID v" n] page e by auto
  show "minv m'" "nxt m' (vID v) = nxt (fst w) (vID v)" "garb m' (vID v) = garb (fst w) (vID v)"
    "vol m' (vID v) = vol (fst w) (vID v)"
    using laws(2) by simp_all
qed

text \<open>Every mapping of the new page, with what the plan says about it.\<close>

lemma commits_mapping:
  assumes "commits pw a c w m'" "j < pg_count pw"
  shows "mp m' (pg_first pw + j) = pmMappings c ! j"
    "extents_ok (compressAllocationChunkMappings (pwPageStartChunk pw) (pmMappings c))"
proof -
  note C = commitsD[OF assms(1)] and cur = commits_put(1)[OF assms(1)]
  let ?ps = "pwPageStartChunk pw"
  have len: "length (pmMappings c) = pg_count pw"
    using C(1) by (simp add: commit_ok_def)
  have ok: "mapping_ok (pmMappings c ! i)" if "i < pg_count pw" for i
  proof (cases "i \<in> range_set pw")
    case True
    then show ?thesis
      using C(1,5) cur unfolding commit_ok_def fresh_def
      by (metis mapping_ok_def)
  next
    case False
    then have "pmMappings c ! i = mp (fst w) (pg_first pw + i)"
      using C(1) cur that unfolding commit_ok_def by blast
    then show ?thesis
      using invD(3)[OF C(2) page_chunk(2)[OF C(3,4) that]] by (simp add: mapping_good_def)
  qed
  have room: "unat ?ps + length (pmMappings c) < 2 ^ 64" "length (pmMappings c) < 2 ^ 32"
    using pw_words(2)[OF C(3)] pw_okD(8)[OF C(3)] chunks_less_word(2)[OF v_ok] C(4) len vol_okD(6)[OF v_ok]
    by (auto simp: pg_count_def)
  have K: "extents_ok (compressAllocationChunkMappings ?ps (pmMappings c)) \<and>
      (\<forall>j. unat ?ps + j < 2 ^ 64 \<longrightarrow>
         lookup_mapping (compressAllocationChunkMappings ?ps (pmMappings c)) (?ps + of_nat j) =
           (if j < length (pmMappings c) then pmMappings c ! j else zero_mapping))"
    by (rule compress_correct[OF room]) (use ok len in \<open>auto simp: in_set_conv_nth\<close>)
  then show "extents_ok (compressAllocationChunkMappings ?ps (pmMappings c))" by simp
  have "unat ?ps + j < 2 ^ 64"
    using room(1) len assms(2) by simp
  then show "mp m' (pg_first pw + j) = pmMappings c ! j"
    using K len assms(2) by (simp add: page_chunk(3)[OF C(3,4) assms(2)] commits_put(3)[OF assms(1)])
qed

lemma commits_new:
  assumes "commits pw a c w m'" "j \<in> range_set pw"
  shows "(mp m' (pg_first pw + j) = zero_mapping \<and> chunk_content pw (byte w) j = replicate (csz v) 0)
    \<or> (amPayloadEncryption (mp m' (pg_first pw + j)) = None
        \<and> mid m' (pg_first pw + j) \<in> prChunkID ` set (waNew a)
        \<and> pay (amRef (mp m' (pg_first pw + j))) (snd w) = chunk_content pw (byte w) j)"
proof -
  note C = commitsD[OF assms(1)] and cur = commits_put(1)[OF assms(1)]
  have "mp m' (pg_first pw + j) = pmMappings c ! j"
    using commits_mapping(1)[OF assms(1)] range_set_bound[OF C(3) assms(2)] by blast
  then show ?thesis
    using C(1) cur assms(2) unfolding commit_ok_def by metis
qed

lemma commits_old:
  assumes "commits pw a c w m'" "d < chunks v" "\<forall>j \<in> range_set pw. d \<noteq> pg_first pw + j"
  shows "mp m' d = mp (fst w) d"
proof -
  note C = commitsD[OF assms(1)] and cur = commits_put(1)[OF assms(1)]
  show ?thesis
  proof (cases rule: chunk_cases[OF C(3,4) assms(2), case_names inside outside])
    case (inside j)
    then have "pmMappings c ! j = mp (fst w) (pg_first pw + j)"
      using C(1) cur assms(3) unfolding commit_ok_def by blast
    then show ?thesis
      using commits_mapping(1)[OF assms(1) inside(1)] inside(2) by simp
  next
    case outside
    then show ?thesis
      by (simp add: chunk_mapping_def commits_put(3)[OF assms(1)])
  qed
qed

text \<open>The chunks of the volume after the commit: written in the range, unchanged elsewhere.\<close>

lemma commits_cases:
  assumes "commits pw a c w m'" "d < chunks v"
  obtains (new) j where "j \<in> range_set pw" "d = pg_first pw + j"
    "mid m' d \<in> prChunkID ` set (waNew a)" "amPayloadEncryption (mp m' d) = None"
    "pay (amRef (mp m' d)) (snd w) = chunk_content pw (byte w) j"
  | (zero) j where "j \<in> range_set pw" "d = pg_first pw + j" "mp m' d = zero_mapping"
    "chunk_content pw (byte w) j = replicate (csz v) 0"
  | (old) "\<forall>j \<in> range_set pw. d \<noteq> pg_first pw + j" "mp m' d = mp (fst w) d"
proof (cases "\<exists>j \<in> range_set pw. d = pg_first pw + j")
  case True
  then obtain j where j: "j \<in> range_set pw" "d = pg_first pw + j" by blast
  then show ?thesis
    using commits_new[OF assms(1) j(1)] new zero by blast
next
  case False
  then show ?thesis
    using commits_old[OF assms] old by blast
qed

lemma commits_byte:
  assumes "commits pw a c w m'" "i < chunks v * csz v"
  shows "byte (m', snd w) i = page_update pw (byte w) i"
proof -
  note C = commitsD[OF assms(1)]
  define d k where "d = i div csz v" and "k = i mod csz v"
  have k: "k < csz v" and i: "i = d * csz v + k" and d: "d < chunks v"
    using vol_okD(1)[OF v_ok] assms(2) by (auto simp: d_def k_def div_less_iff_less_mult)
  have at: "byte (m', snd w) i = (if mid m' d = 0 then 0 else pay (amRef (mp m' d)) (snd w) ! k)"
    using byte_at[OF k, of "(m', snd w)" d] i by simp
  show ?thesis
  proof (cases rule: commits_cases[OF assms(1) d, case_names new zero old])
    case (new j)
    then have "mid m' d \<noteq> 0"
      using C(5) unfolding fresh_def by metis
    with new show ?thesis
      using at chunk_content_nth[OF k C(4)] i by metis
  next
    case (zero j)
    then show ?thesis
      using at chunk_content_nth[OF k C(4), of "byte w" j] i k zero_mapping_id by simp
  next
    case old
    have "page_update pw (byte w) i = byte w i"
    proof (cases rule: chunk_cases[OF C(3,4) d, case_names inside outside])
      case (inside j)
      then have "\<not> chunk_lo pw j < chunk_hi pw j"
        using old(1) in_range_iff[OF C(3)] by (auto simp: range_set_def)
      then show ?thesis
        using page_update_chunk[OF C(3) inside(1), of i "byte w"] inside(2) i k C(4) by auto
    next
      case outside
      have "d < pg_first pw \<Longrightarrow> Suc d * csz v \<le> pg_first pw * csz v"
        by (intro mult_le_mono1) simp
      moreover have "pg_first pw + pg_count pw \<le> d \<Longrightarrow> (pg_first pw + pg_count pw) * csz v \<le> d * csz v"
        by (intro mult_le_mono1)
      ultimately have "i < pg_first pw * csz v \<or> (pg_first pw + pg_count pw) * csz v \<le> i"
        using outside(2) k unfolding i by (metis add.commute le_add1 le_trans mult_Suc nat_add_left_cancel_less order_less_le_trans)
      then show ?thesis
        using C(4) by (intro page_update_outside) simp
    qed
    then show ?thesis
      using at byte_at[OF k, of w d] i old(2) by simp
  qed
qed

lemma commits_guar:
  assumes "commits pw a c w m'"
  shows "guar {} w (m', snd w)"
proof -
  have "unat (rev (fst w) (vID v) n + 1) = unat (rev (fst w) (vID v) n) + 1" for n
    using commitsD(6)[OF assms] unat_add_lem[of "rev (fst w) (vID v) n" 1] by (simp add: id_room_def)
  moreover have "rev (fst w) (vID v) n + 1 \<noteq> rev (fst w) (vID v) n" for n
    by simp
  ultimately show ?thesis
    using commits_put(3-5)[OF assms] by (auto simp: guar_def)
qed

lemma commits_inv:
  assumes "commits pw a c w m'"
  shows "inv (m', snd w)"
proof -
  note C = commitsD[OF assms] and put = commits_put[OF assms]
  have new_old: "\<forall>d < chunks v. mid (fst w) d \<noteq> x" "x \<noteq> 0" "unat x < unat (nxt (fst w) (vID v))"
    "x \<notin> prChunkID ` garb (fst w) (vID v)" if "x \<in> prChunkID ` set (waNew a)" for x
    using C(5) that unfolding fresh_def by blast+
  have good: "mapping_good content v (nxt (fst w) (vID v)) (snd w) (mp m' d)" if "d < chunks v" for d
  proof (cases rule: commits_cases[OF assms that, case_names new zero old])
    case (new j)
    then show ?thesis
      using new_old(2,3)[OF new(3)] by (simp add: mapping_good_def mapping_ok_def)
  next
    case (zero j)
    then show ?thesis
      by (simp add: mapping_good_def mapping_ok_def zero_mapping_def zero_ref_def)
  next
    case old
    then show ?thesis
      using invD(3)[OF C(2) that] by simp
  qed
  have ids: "mid m' d \<in> prChunkID ` set (waNew a) \<and> (\<exists>j \<in> range_set pw. d = pg_first pw + j)
      \<or> mid m' d = mid (fst w) d \<or> mid m' d = 0" if "d < chunks v" for d
    by (cases rule: commits_cases[OF assms that]) (use zero_mapping_id in auto)
  have unique: "d = e" if de: "d < chunks v" "e < chunks v" "mid m' d \<noteq> 0" "mid m' d = mid m' e" for d e
  proof -
    consider "mid m' d \<in> prChunkID ` set (waNew a)" "mid m' e \<in> prChunkID ` set (waNew a)"
        "\<exists>j \<in> range_set pw. d = pg_first pw + j" "\<exists>j \<in> range_set pw. e = pg_first pw + j"
      | "mid m' d = mid (fst w) d" "mid m' e = mid (fst w) e"
      using ids[OF de(1)] ids[OF de(2)] de new_old(1)[of "mid m' d"] by metis
    then show ?thesis
    proof cases
      case 1
      then obtain j k where jk: "j \<in> range_set pw" "d = pg_first pw + j" "k \<in> range_set pw" "e = pg_first pw + k"
        by blast
      then have "mp m' d = pmMappings c ! j" "mp m' e = pmMappings c ! k"
        using commits_mapping(1)[OF assms] range_set_bound[OF C(3)] by blast+
      then have "j = k"
        using C(1) put(1) jk de(3,4) unfolding commit_ok_def by metis
      with jk show ?thesis by simp
    next
      case 2
      then show ?thesis using invD(4)[OF C(2) de(1,2)] de(3,4) by metis
    qed
  qed
  have garbage: "prChunkID ref \<noteq> 0 \<and> unat (prChunkID ref) < unat (nxt (fst w) (vID v))
      \<and> (\<forall>d < chunks v. mid m' d \<noteq> prChunkID ref)" if "ref \<in> garb (fst w) (vID v)" for ref
    using invD(5)[OF C(2) that] ids new_old(4) that by (metis imageI)
  have "0 < pg_count pw"
    using pw_okD(7)[OF C(3)] .
  then have exts: "extents_ok (exts m' (vID v) n)" for n
    using invD(2)[OF C(2)] commits_mapping(2)[OF assms] by (simp add: put(3))
  show ?thesis
    unfolding data_inv_def
    using put(2) exts good unique garbage invD(6,7)[OF C(2)] by (simp add: put(5-7))
qed

lemma commits_stale:
  assumes "commits pw a c w m'"
  shows "fresh (prChunkID ` set (pmStale c)) m'"
proof -
  note C = commitsD[OF assms] and put = commits_put[OF assms]
  have "prChunkID ref \<noteq> 0 \<and> unat (prChunkID ref) < unat (nxt m' (vID v)) \<and> (\<forall>d < chunks v. mid m' d \<noteq> prChunkID ref)
      \<and> prChunkID ref \<notin> prChunkID ` garb m' (vID v)" if ref: "ref \<in> set (pmStale c)" for ref
  proof -
    obtain j where j: "prChunkID ref \<noteq> 0" "j \<in> range_set pw" "ref = amRef (mp (fst w) (pg_first pw + j))"
      using C(1) put(1) ref unfolding commit_ok_def by blast
    have c: "pg_first pw + j < chunks v"
      using page_chunk(2)[OF C(3,4) range_set_bound[OF C(3) j(2)]] .
    have "mid m' d \<noteq> prChunkID ref" if d: "d < chunks v" for d
    proof (cases rule: commits_cases[OF assms d, case_names new zero old])
      case (new k)
      then show ?thesis using C(5) c j(3) unfolding fresh_def by metis
    next
      case (zero k)
      then show ?thesis using j(1) zero_mapping_id by metis
    next
      case old
      then show ?thesis using invD(4)[OF C(2) d c] j by metis
    qed
    moreover have "unat (prChunkID ref) < unat (nxt (fst w) (vID v))"
      using invD(3)[OF C(2) c] j by (simp add: mapping_good_def)
    moreover have "prChunkID ref \<notin> prChunkID ` garb (fst w) (vID v)"
      using invD(5)[OF C(2)] c j(3) by force
    ultimately show ?thesis
      using j(1) put(5,6) by simp
  qed
  then show ?thesis
    by (auto simp: fresh_def)
qed

subsection \<open>Every step\<close>

text \<open>
  What one step of a writer does: it keeps the invariant and its own assertion, touches only payloads
  it owns, maps only chunks it owns, puts only chunks it owns on the garbage list, comes to own only
  ids it owned, new ids and ids it cut out of a page, and changes the bytes of the volume only when
  it publishes.
\<close>

definition step_ok :: "pageWrite \<Rightarrow> write_pc \<Rightarrow> 'm \<times> 'o \<Rightarrow> write_pc \<Rightarrow> 'm \<times> 'o \<Rightarrow> bool" where
  "step_ok pw pc w pc' w' \<longleftrightarrow>
     inv w' \<and> local_ok pw pc' w' \<and> guar (owned pc) w w'
     \<and> (\<forall>c < chunks v. mid (fst w') c \<in> {0} \<union> owned pc \<union> mid (fst w) ` {..<chunks v})
     \<and> prChunkID ` garb (fst w') (vID v) \<subseteq> owned pc \<union> prChunkID ` garb (fst w) (vID v)
     \<and> owned pc' \<subseteq> owned pc \<union> {x. unat (nxt (fst w) (vID v)) \<le> unat x} \<union> mid (fst w) ` {..<chunks v}
     \<and> (\<forall>i < chunks v * csz v. byte w' i = (if published pc' then page_update pw (byte w) i else byte w i))"

lemma step_ok_same:
  assumes "inv w" "pw_ok pw" "pwVolume pw = v" "pc_ok pw pc' w" "fresh (owned pc') (fst w)"
    "owned pc' \<subseteq> owned pc" "\<not> published pc'"
  shows "step_ok pw pc w pc' w"
  using assms by (auto simp: step_ok_def local_ok_def guar_refl)

lemma step_ok_quiet:
  assumes "inv (m, s)" "pw_ok pw" "pwVolume pw = v" "quiet m m'" "inv (m', s)"
    and "prChunkID ` garb m' (vID v) \<subseteq> owned pc \<union> prChunkID ` garb m (vID v)"
    and "pc_ok pw pc' (m', s)" "fresh (owned pc') m'" "owned pc' \<subseteq> owned pc" "\<not> published pc'"
  shows "step_ok pw pc (m, s) pc' (m', s)"
  using assms quiet_mp[OF assms(4)] quiet_byte[OF assms(4)] guar_quiet[OF assms(4)]
  by (auto simp: step_ok_def local_ok_def)

lemma Allocating_ok:
  assumes "pc_ok pw (Allocating n a) w" "pw_ok pw" "pwVolume pw = v" "inv w" "id_room nxt rev v (fst w)"
    and "mrAllocateChunkIDs meta (vID v) (of_nat (length (waPending a))) (fst w) = (res, m')"
  shows "step_ok pw (Allocating n a) w
    (case res of Inl err \<Rightarrow> Finished (Inl err) | Inr s \<Rightarrow> Storing n a s) (m', snd w)"
proof -
  let ?n = "length (waPending a)" and ?m = "fst w"
  let ?c = "of_nat ?n :: u32"
  have A: "attempt_ok pw (range_set pw) (a\<lparr>waPending := []\<rparr>) (waPending a) w" "waPending a \<noteq> []"
    using assms(1) by simp_all
  note minv = invD(1)[OF assms(4)]
  have fr: "minv m'" "exts m' (vID v) k = exts ?m (vID v) k" "rev m' (vID v) k = rev ?m (vID v) k"
    "garb m' (vID v) = garb ?m (vID v)" "vol m' (vID v) = vol ?m (vID v)" for k
    using alloc_frame[OF minv, of "vID v" ?c] assms(6) by auto
  have mps: "mp m' c = mp ?m c" for c
    by (simp add: chunk_mapping_def fr)
  have bytes: "byte (m', snd w) = byte w"
    by (rule ext) (simp add: volume_byte_def Let_def mps)
  have le: "unat (nxt ?m (vID v)) \<le> unat (nxt m' (vID v))
      \<and> (\<forall>s. res = Inr s \<longrightarrow> s = nxt ?m (vID v) \<and> unat (nxt m' (vID v)) = unat s + ?n)"
  proof (cases res)
    case (Inl e)
    then show ?thesis using alloc_fail[OF minv assms(6)[unfolded Inl]] by simp
  next
    case (Inr s)
    have idx: "distinct (map pcPageIndex (waPending a))" "pcPageIndex ` set (waPending a) \<subseteq> range_set pw"
      using A(1) by (simp_all add: attempt_ok_def Let_def)
    have "?n = card (pcPageIndex ` set (waPending a))"
      using distinct_card[OF idx(1)] by simp
    also have "\<dots> \<le> card {..<pg_count pw}"
      using idx(2) range_set_page[OF assms(2)] by (intro card_mono) auto
    finally have "?n < 2 ^ 32"
      using vol_okD(6)[OF v_ok] assms(3) by (simp add: pg_count_def)
    then have c: "unat ?c = ?n"
      by (intro unat_of_nat_length) simp
    moreover have "?c \<noteq> 0"
      using c A(2) by (metis length_0_conv unat_0)
    moreover have "unat (nxt ?m (vID v)) + unat ?c < 2 ^ 64"
      using assms(5) \<open>?n < 2 ^ 32\<close> c by (simp add: id_room_def)
    ultimately show ?thesis
      using alloc_ids[OF minv assms(6)[unfolded Inr]] Inr by simp
  qed
  have g: "guar {} w (m', snd w)"
    using le fr by (simp add: guar_def)
  have I: "inv (m', snd w)"
    using assms(4) le fr(1,4,5) by (auto simp: data_inv_def mps mapping_good_def fr(2))
  have "pc_ok pw (Allocating n a) (m', snd w)"
    by (rule pc_ok_stable[OF assms(1-3) g]) auto
  moreover have "fresh {x. unat s \<le> unat x \<and> unat x < unat s + ?n} m'" if "res = Inr s" for s
  proof -
    have s: "s = nxt ?m (vID v)" "unat (nxt m' (vID v)) = unat s + ?n" "s \<noteq> 0"
      using le that nxt_pos[OF minv] by auto
    have "mid m' c \<noteq> x" if "unat s \<le> unat x" "c < chunks v" for x c
    proof
      assume "mid m' c = x"
      then have "mid ?m c \<noteq> 0"
        using that s(3) by (auto simp: mps word_le_nat_alt unat_eq_zero)
      then show False
        using invD(3)[OF assms(4) that(2)] that(1) s(1) \<open>mid m' c = x\<close> by (simp add: mapping_good_def mps)
    qed
    moreover have "x \<notin> prChunkID ` garb m' (vID v)" if "unat s \<le> unat x" for x
      using invD(5)[OF assms(4)] that s(1) unfolding fr(4) by (metis imageE linorder_not_less)
    moreover have "x \<noteq> 0" if "unat s \<le> unat x" for x
      using that s(3) by (auto simp: unat_eq_zero)
    ultimately show ?thesis
      unfolding fresh_def s(2) by blast
  qed
  ultimately show ?thesis
    using I g le assms(2,3) guar_mono[OF g]
    by (cases res) (auto simp: step_ok_def local_ok_def mps fr(4) bytes fresh_def[of "{}"])
qed

lemma Storing_ok:
  assumes "local_ok pw (Storing n a x) (m, s)" "inv (m, s)"
    and "store_pending ce now pw x (waPending a) (a\<lparr>waPending := []\<rparr>) (m, s) = (res, w')"
  shows "step_ok pw (Storing n a x) (m, s)
    (case res of Inl err \<Rightarrow> Finished (Inl err) | Inr a' \<Rightarrow> Validating n a') w'"
proof -
  let ?O = "owned (Storing n a x)"
  have L: "pw_ok pw" "pwVolume pw = v" "attempt_ok pw (range_set pw) (a\<lparr>waPending := []\<rparr>) (waPending a) (m, s)"
    "waPending a \<noteq> []" "unat x + length (waPending a) \<le> unat (nxt m (vID v))" "fresh ?O m"
    using assms(1) by (simp_all add: local_ok_def)
  have new: "waNew a = []"
    by (rule attempt_ok_no_new[OF L(3)])
  have "x \<in> ?O" using L(4) by simp
  then have "x \<noteq> 0" using L(6) by (auto simp: fresh_def)
  then have S: "inv w' \<and> guar ?O (m, s) w' \<and> quiet m (fst w')
    \<and> prChunkID ` garb (fst w') (vID v) \<subseteq> ?O \<union> prChunkID ` garb m (vID v)
    \<and> (\<forall>i < chunks v * csz v. byte w' i = byte (m, s) i)
    \<and> (case res of
         Inl _ \<Rightarrow> True
       | Inr a' \<Rightarrow> fst w' = m \<and> attempt_ok pw (range_set pw) a' [] w' \<and> prChunkID ` set (waNew a') \<subseteq> ?O)"
    by (intro store_pending_ok[OF assms(3) L(3) assms(2) L(1,2) range_set_page[OF L(1)] _ L(5) _ L(6)])
      (simp_all add: new)
  have "fresh (prChunkID ` set (waNew a')) m" if "res = Inr a'" for a'
    using S L(6) that unfolding fresh_def by (simp del: owned.simps) blast
  then show ?thesis
    using S L(1,2) quiet_mp[of m "fst w'"]
    by (cases res) (auto simp: step_ok_def local_ok_def fresh_def[of "{}"] simp del: owned.simps(1))
qed

lemma Committing_ok:
  assumes "local_ok pw (Committing n a c) w" "inv w" "id_room nxt rev v (fst w)"
    and "mrPutExtentPage meta (updated_page pw c) (pmRevision c) (fst w) = (Inr p, m')"
  shows "step_ok pw (Committing n a c) w (Committed (pmStale c)) (m', snd w)"
proof -
  have K: "commits pw a c w m'"
    using assms by (auto simp: commits_def local_ok_def)
  have P: "pw_ok pw" "pwVolume pw = v"
    using commitsD[OF K] by auto
  have mids: "mid m' d \<in> {0} \<union> prChunkID ` set (waNew a) \<union> mid (fst w) ` {..<chunks v}" if "d < chunks v" for d
    by (cases rule: commits_cases[OF K that]) (use zero_mapping_id that in auto)
  have stale: "prChunkID ` set (pmStale c) \<subseteq> mid (fst w) ` {..<chunks v}"
  proof
    fix x assume "x \<in> prChunkID ` set (pmStale c)"
    then obtain j where "j \<in> range_set pw" "x = mid (fst w) (pg_first pw + j)"
      using commitsD(1)[OF K] commits_put(1)[OF K] unfolding commit_ok_def by (metis imageE)
    then show "x \<in> mid (fst w) ` {..<chunks v}"
      using page_chunk(2)[OF P range_set_bound[OF P(1)]] by blast
  qed
  show ?thesis
    unfolding step_ok_def local_ok_def
    using commits_inv[OF K] commits_stale[OF K] guar_mono[OF commits_guar[OF K]] commits_byte[OF K] mids stale P
    by (auto simp: commits_put(6)[OF K])
qed

lemma write_step_ok:
  assumes "local_ok pw pc w" "inv w" "id_room nxt rev v (fst w)" "write_step ce now pw pc w = (pc', w')"
  shows "step_ok pw pc w pc' w'"
proof -
  obtain m s where w: "w = (m, s)" by fastforce
  note minv = invD(1)[OF assms(2)[unfolded w], simplified]
  have P: "pw_ok pw" "pwVolume pw = v" "pc_ok pw pc w" "fresh (owned pc) m"
    using assms(1) by (simp_all add: local_ok_def w)
  have none: "fresh {} x" for x by (simp add: fresh_def)
  have fin: "step_ok pw pc w (Finished r) w" for r
    by (rule step_ok_same[OF assms(2) P(1,2)]) (simp_all add: none)
  show ?thesis
  proof (cases pc)
    case (Loading n)
    show ?thesis
    proof (cases "n \<ge> chunkExtentWriteRetryLimit")
      case True
      then show ?thesis using assms(4) Loading w fin by auto
    next
      case False
      show ?thesis
      proof (cases "mrGetExtentPage meta (vID v) (pwPageNo pw) m")
        case (Inl e)
        then show ?thesis using False assms(4) Loading w fin by (auto simp: ce P(2))
      next
        case (Inr p)
        then have "pc' = Merging n p" "w' = w"
          using False assms(4) Loading w by (auto simp: ce P(2))
        moreover have "pc_ok pw (Merging n p) w"
          using get_page[OF minv Inr] by (simp add: w same_rev_def)
        ultimately show ?thesis
          by (simp only:, intro step_ok_same[OF assms(2) P(1,2)]) (simp_all add: none)
      qed
    qed
  next
    case (Merging n p)
    show ?thesis
    proof (cases "merge_indices ce pw s [pwStartIndex pw..<Suc (pwEndIndex pw)] (begin_attempt pw p)")
      case (Inl e)
      then show ?thesis using assms(4) Merging w fin by auto
    next
      case (Inr a)
      have att: "attempt_ok pw (range_set pw) (a\<lparr>waPending := []\<rparr>) (waPending a) w"
        by (rule Merging_ok[OF assms(2) P(1,2)]) (use P(3) Merging Inr w in simp_all)
      have pc': "pc' = (if waPending a = [] then Validating n a else Allocating n a)" "w' = w"
        using assms(4) Merging w Inr by auto
      have "waNew a = []"
        by (rule attempt_ok_no_new[OF att])
      moreover have "attempt_ok pw (range_set pw) a [] w" if "waPending a = []"
        using att that by (metis writeAttempt.surjective writeAttempt.update_convs(5))
      ultimately show ?thesis
        unfolding pc' using none att by (intro step_ok_same[OF assms(2) P(1,2)]) simp_all
    qed
  next
    case (Allocating n a)
    obtain res m' where al: "mrAllocateChunkIDs meta (vID v) (of_nat (length (waPending a))) m = (res, m')"
      by fastforce
    then have "pc' = (case res of Inl err \<Rightarrow> Finished (Inl err) | Inr s \<Rightarrow> Storing n a s)" "w' = (m', s)"
      using assms(4) Allocating w by (auto simp: ce P(2) split: sum.splits)
    then show ?thesis
      using Allocating_ok[OF P(3)[unfolded Allocating] P(1,2) assms(2,3), of res m'] al
      by (simp add: Allocating w)
  next
    case (Storing n a x)
    obtain res w1 where st: "store_pending ce now pw x (waPending a) (a\<lparr>waPending := []\<rparr>) (m, s) = (res, w1)"
      by (meson surj_pair)
    then have "pc' = (case res of Inl err \<Rightarrow> Finished (Inl err) | Inr a' \<Rightarrow> Validating n a')" "w' = w1"
      using assms(4) Storing w by (auto split: sum.splits)
    then show ?thesis
      using Storing_ok[OF assms(1)[unfolded Storing w] assms(2)[unfolded w] st] by (simp add: Storing w)
  next
    case (Validating n a)
    show ?thesis
    proof (cases "mrGetExtentPage meta (vID v) (pwPageNo pw) m")
      case (Inl e)
      then show ?thesis using assms(4) Validating w fin by (auto simp: ce P(2))
    next
      case (Inr p)
      note page = get_page[OF minv Inr]
      show ?thesis
      proof (cases "plan_commit pw a p")
        case None
        then have "pc' = Retrying n a" "w' = w"
          using assms(4) Validating w Inr by (auto simp: ce P(2))
        then show ?thesis
          using P(4) by (simp only:, intro step_ok_same[OF assms(2) P(1,2)]) (simp_all add: Validating w)
      next
        case (Some c)
        then have "pc' = Committing n a c" "w' = w"
          using assms(4) Validating w Inr by (auto simp: ce P(2))
        moreover have "commit_ok pw a c w"
          by (rule plan_commit_ok[OF Some _ assms(2) P(1,2)]) (use P(3) Validating page w in simp_all)
        ultimately show ?thesis
          using P(4) by (simp only:, intro step_ok_same[OF assms(2) P(1,2)]) (simp_all add: Validating w)
      qed
    qed
  next
    case (Committing n a c)
    obtain res m' where put: "mrPutExtentPage meta (updated_page pw c) (pmRevision c) m = (res, m')"
      by fastforce
    show ?thesis
    proof (cases res)
      case (Inl e)
      have "quiet m m'" "garb m' (vID v) = garb m (vID v)"
        using put_page_fail[OF minv put[unfolded Inl]]
          put_page_frame[OF minv, of "updated_page pw c" "pmRevision c" "vID v"] put
        by (auto simp: quiet_def)
      note q = this
      have "inv (m', s)"
        using inv_quiet[OF assms(2)[unfolded w], of m' "{}"] none q by simp
      note quiet = step_ok_quiet[OF assms(2)[unfolded w] P(1,2) q(1) this]
      have "fresh (owned pc) m'"
        using P(4) quiet_mp[OF q(1)] q by (auto simp: fresh_def quiet_def)
      moreover have "w' = (m', s) \<and> (pc' = Retrying n a \<or> pc' = Finished (Inl e))"
        using assms(4) Committing w put Inl by (auto simp: ce P(2) split: if_splits)
      ultimately show ?thesis
        using none q(2) by (elim conjE disjE) (simp_all add: quiet w Committing)
    next
      case (Inr p)
      then have "pc' = Committed (pmStale c)" "w' = (m', s)"
        using assms(4) Committing w put by (auto simp: ce P(2))
      then show ?thesis
        using Committing_ok[OF assms(1)[unfolded Committing] assms(2,3)] put Inr by (simp add: w Committing)
    qed
  next
    case (Retrying n a)
    obtain res m' where rec: "recordGarbage ce now v (waNew a) m = (res, m')" by fastforce
    note R = recordGarbage_ok[OF rec minv]
    have "inv (m', s)"
      using inv_quiet[OF assms(2)[unfolded w]] R P(4) Retrying by auto
    note quiet = step_ok_quiet[OF assms(2)[unfolded w] P(1,2) conjunct1[OF R] this]
    have garbage: "prChunkID ` garb m' (vID v) \<subseteq> owned pc \<union> prChunkID ` garb m (vID v)"
      using R Retrying by auto
    have "w' = (m', s) \<and> (pc' = Loading (Suc n) \<or> (\<exists>e. pc' = Finished (Inl e)))"
      using assms(4) Retrying w rec by (auto simp: P(2) split: sum.splits)
    then show ?thesis
      using none garbage by (elim conjE disjE exE) (simp_all add: quiet w)
  next
    case (Committed stale)
    obtain res m' where rec: "recordGarbage ce now v stale m = (res, m')" by fastforce
    note R = recordGarbage_ok[OF rec minv]
    have "inv (m', s)"
      using inv_quiet[OF assms(2)[unfolded w]] R P(4) Committed by auto
    note quiet = step_ok_quiet[OF assms(2)[unfolded w] P(1,2) conjunct1[OF R] this]
    have garbage: "prChunkID ` garb m' (vID v) \<subseteq> owned pc \<union> prChunkID ` garb m (vID v)"
      using R Committed by auto
    have "w' = (m', s) \<and> pc' = Finished res"
      using assms(4) Committed w rec by (auto simp: P(2))
    then show ?thesis
      using none garbage by (simp add: quiet w)
  next
    case (Finished r)
    then show ?thesis
      using assms(4) fin[of r] by auto
  qed
qed

end

end
