(* ===== verification/ChunkGC.thy ===== *)
theory ChunkGC
  imports ObjectStore Interfaces
begin

section \<open>The chunk garbage collector (chunk_gc.go, chunk_gc_bounded.go)\<close>

text \<open>
  The collector lists the garbage of a volume, drops what is still referenced or protected, and
  deletes the rest from the object store and from the garbage list. The bounded sweeper rotates
  through the volumes, a batch per pass. Sets of references are lists. The atomic counters of the
  sweeper are its statistics; they are fields of its state.
\<close>

record ChunkGarbageSweepResult =
  swVolumeID :: u64
  swScannedCount :: nat
  swCandidateCount :: nat
  swDeletableCount :: nat
  swDeletedCount :: nat
  swRetainedCount :: nat
  swInspectionOnly :: bool

definition zero_sweep :: ChunkGarbageSweepResult where
  "zero_sweep = \<lparr>swVolumeID = 0, swScannedCount = 0, swCandidateCount = 0, swDeletableCount = 0,
     swDeletedCount = 0, swRetainedCount = 0, swInspectionOnly = False\<rparr>"

record ('m, 'o) ChunkGarbageCollector =
  gcMeta :: "'m MetadataRepository"
  gcObjects :: "'o ObjectStore"

definition NewChunkGarbageCollector ::
    "'m MetadataRepository \<Rightarrow> 'o ObjectStore \<Rightarrow> ('m, 'o) ChunkGarbageCollector" where
  "NewChunkGarbageCollector meta objects = \<lparr>gcMeta = meta, gcObjects = objects\<rparr>"

text \<open>A reference without store and shard stands for every chunk with its id.\<close>

definition wildcard :: "PhysicalChunkRef \<Rightarrow> bool" where
  "wildcard ref \<longleftrightarrow> prStoreID ref = '''' \<and> prShardID ref = 0"

definition wildcard_ids :: "PhysicalChunkRef list \<Rightarrow> u64 list" where
  "wildcard_ids refs = map prChunkID (filter (\<lambda>ref. prChunkID ref \<noteq> 0 \<and> wildcard ref) refs)"

definition exact_refs :: "PhysicalChunkRef list \<Rightarrow> PhysicalChunkRef list" where
  "exact_refs refs = filter (\<lambda>ref. prChunkID ref \<noteq> 0 \<and> \<not> wildcard ref) refs"

definition filterChunkGarbageCandidates ::
    "AllocationChunkGarbageRecord list \<Rightarrow> PhysicalChunkRef list \<Rightarrow> AllocationChunkGarbageRecord list" where
  "filterChunkGarbageCandidates candidates refs =
     (if refs = [] then candidates
      else filter (\<lambda>candidate. gcChunkID candidate \<in> set (wildcard_ids refs)
                              \<or> garbage_ref candidate \<in> set (exact_refs refs)) candidates)"

definition extent_refs :: "AllocationChunkRecord \<Rightarrow> PhysicalChunkRef list" where
  "extent_refs extent =
     (if xKind extent \<noteq> AllocationChunkKindData then []
      else map (\<lambda>i. \<lparr>prStoreID = xStoreID extent, prShardID = xShardID extent,
                     prChunkID = xPhysicalChunkStart extent + of_nat i\<rparr>) [0..<unat (xChunkCount extent)])"

definition referencedChunkSet ::
    "('m, 'o) ChunkGarbageCollector \<Rightarrow> u64 \<Rightarrow> 'm \<Rightarrow> service_error + PhysicalChunkRef list" where
  "referencedChunkSet c volumeID m =
     (case mrListExtentPages (gcMeta c) volumeID m of
        Inl err \<Rightarrow> Inl err
      | Inr pages \<Rightarrow> Inr (concat (map (\<lambda>page. concat (map extent_refs (pgExtents page))) pages)))"

definition classifyVolumeWithProtectedRefs ::
    "('m, 'o) ChunkGarbageCollector \<Rightarrow> u64 \<Rightarrow> int \<Rightarrow> PhysicalChunkRef list \<Rightarrow> PhysicalChunkRef list \<Rightarrow> 'm \<Rightarrow>
     service_error + VolumeSpec \<times> AllocationChunkGarbageRecord list \<times> ChunkGarbageSweepResult" where
  "classifyVolumeWithProtectedRefs c volumeID limit candidateRefs protectedRefs m =
     (case mrGetVolume (gcMeta c) volumeID m of
        Inl err \<Rightarrow> Inl err
      | Inr volume \<Rightarrow>
          case mrListChunkGarbage (gcMeta c) volumeID limit m of
            Inl err \<Rightarrow> Inl err
          | Inr listed \<Rightarrow>
              let candidates = filterChunkGarbageCandidates listed candidateRefs;
                  result = zero_sweep\<lparr>swVolumeID := volumeID, swScannedCount := length listed,
                                      swCandidateCount := length candidates\<rparr>
              in if candidates = [] then Inr (volume, [], result)
                 else case referencedChunkSet c volumeID m of
                        Inl err \<Rightarrow> Inl err
                      | Inr pageRefs \<Rightarrow>
                          let referenced = pageRefs @ exact_refs protectedRefs;
                              protectedChunkIDs = wildcard_ids protectedRefs;
                              keep = (\<lambda>candidate. gcChunkID candidate \<in> set protectedChunkIDs
                                                 \<or> garbage_ref candidate \<in> set referenced);
                              deletable = filter (\<lambda>candidate. \<not> keep candidate) candidates
                          in Inr (volume, deletable,
                                  result\<lparr>swRetainedCount := length (filter keep candidates),
                                         swDeletableCount := length deletable\<rparr>))"

fun delete_candidates ::
    "('m, 'o) ChunkGarbageCollector \<Rightarrow> u64 \<Rightarrow> VolumeSpec \<Rightarrow> AllocationChunkGarbageRecord list \<Rightarrow>
     ChunkGarbageSweepResult \<Rightarrow> 'm \<times> 'o \<Rightarrow> (service_error + ChunkGarbageSweepResult) \<times> ('m \<times> 'o)" where
  "delete_candidates c volumeID volume [] result w = (Inr result, w)"
| "delete_candidates c volumeID volume (candidate # rest) result (m, s) =
     (case osDelete (gcObjects c) (buildPhysicalChunkKey (vPrefix volume) (garbage_ref candidate)) s of
        (Inl err, s') \<Rightarrow> (Inl err, (m, s'))
      | (Inr _, s') \<Rightarrow>
          case mrDeleteChunkGarbage (gcMeta c) volumeID (gcChunkID candidate) m of
            (Inl err, m') \<Rightarrow> (Inl err, (m', s'))
          | (Inr _, m') \<Rightarrow>
              delete_candidates c volumeID volume rest
                (result\<lparr>swDeletedCount := swDeletedCount result + 1\<rparr>) (m', s'))"

definition SweepVolumeCandidatesWithProtectedRefs ::
    "('m, 'o) ChunkGarbageCollector \<Rightarrow> u64 \<Rightarrow> int \<Rightarrow> PhysicalChunkRef list \<Rightarrow> PhysicalChunkRef list \<Rightarrow>
     'm \<times> 'o \<Rightarrow> (service_error + ChunkGarbageSweepResult) \<times> ('m \<times> 'o)" where
  "SweepVolumeCandidatesWithProtectedRefs c volumeID limit candidateRefs protectedRefs w =
     (case classifyVolumeWithProtectedRefs c volumeID limit candidateRefs protectedRefs (fst w) of
        Inl err \<Rightarrow> (Inl err, w)
      | Inr (volume, deletable, result) \<Rightarrow> delete_candidates c volumeID volume deletable result w)"

definition SweepVolumeWithProtectedRefs ::
    "('m, 'o) ChunkGarbageCollector \<Rightarrow> u64 \<Rightarrow> int \<Rightarrow> PhysicalChunkRef list \<Rightarrow> 'm \<times> 'o \<Rightarrow>
     (service_error + ChunkGarbageSweepResult) \<times> ('m \<times> 'o)" where
  "SweepVolumeWithProtectedRefs c volumeID limit protectedRefs w =
     SweepVolumeCandidatesWithProtectedRefs c volumeID limit [] protectedRefs w"

definition SweepVolume ::
    "('m, 'o) ChunkGarbageCollector \<Rightarrow> u64 \<Rightarrow> int \<Rightarrow> 'm \<times> 'o \<Rightarrow>
     (service_error + ChunkGarbageSweepResult) \<times> ('m \<times> 'o)" where
  "SweepVolume c volumeID limit w = SweepVolumeWithProtectedRefs c volumeID limit [] w"

definition InspectVolumeCandidatesWithProtectedRefs ::
    "('m, 'o) ChunkGarbageCollector \<Rightarrow> u64 \<Rightarrow> int \<Rightarrow> PhysicalChunkRef list \<Rightarrow> PhysicalChunkRef list \<Rightarrow>
     'm \<Rightarrow> service_error + ChunkGarbageSweepResult" where
  "InspectVolumeCandidatesWithProtectedRefs c volumeID limit candidateRefs protectedRefs m =
     (case classifyVolumeWithProtectedRefs c volumeID limit candidateRefs protectedRefs m of
        Inl err \<Rightarrow> Inl err
      | Inr (_, _, result) \<Rightarrow> Inr (result\<lparr>swInspectionOnly := True\<rparr>))"

definition InspectVolumeWithProtectedRefs ::
    "('m, 'o) ChunkGarbageCollector \<Rightarrow> u64 \<Rightarrow> int \<Rightarrow> PhysicalChunkRef list \<Rightarrow> 'm \<Rightarrow>
     service_error + ChunkGarbageSweepResult" where
  "InspectVolumeWithProtectedRefs c volumeID limit protectedRefs m =
     InspectVolumeCandidatesWithProtectedRefs c volumeID limit [] protectedRefs m"

fun sweep_volumes ::
    "('m, 'o) ChunkGarbageCollector \<Rightarrow> int \<Rightarrow> VolumeSpec list \<Rightarrow> ChunkGarbageSweepResult list \<Rightarrow>
     'm \<times> 'o \<Rightarrow> (service_error + ChunkGarbageSweepResult list) \<times> ('m \<times> 'o)" where
  "sweep_volumes c limit [] results w = (Inr results, w)"
| "sweep_volumes c limit (volume # volumes) results w =
     (case SweepVolume c (vID volume) limit w of
        (Inl err, w') \<Rightarrow> (Inl err, w')
      | (Inr result, w') \<Rightarrow> sweep_volumes c limit volumes (results @ [result]) w')"

definition SweepAll ::
    "('m, 'o) ChunkGarbageCollector \<Rightarrow> int \<Rightarrow> 'm \<times> 'o \<Rightarrow>
     (service_error + ChunkGarbageSweepResult list) \<times> ('m \<times> 'o)" where
  "SweepAll c limit w =
     (case mrListVolumes (gcMeta c) (fst w) of
        Inl err \<Rightarrow> (Inl err, w)
      | Inr volumes \<Rightarrow> sweep_volumes c limit volumes [] w)"

subsection \<open>The bounded sweeper\<close>

definition DefaultSweepVolumesPerPass :: int where "DefaultSweepVolumesPerPass = 64"

text \<open>
  The lister and the per-volume sweep are the injectable fields of the source, nil without a
  collector. The context is the sequence of errors its check reports before each volume.
\<close>

record 'w BoundedChunkSweeper =
  bsLister :: "('w \<Rightarrow> service_error + VolumeSpec list) option"
  bsSweepVolume :: "(u64 \<Rightarrow> int \<Rightarrow> 'w \<Rightarrow> (service_error + ChunkGarbageSweepResult) \<times> 'w) option"
  bsVolumesPerPass :: nat
  bsPerVolumeLimit :: int
  bsVolumes :: "u64 list"
  bsCursor :: nat
  bsPasses :: nat
  bsListRefresh :: nat
  bsSwept :: nat
  bsVolumeErrs :: nat
  bsRotations :: nat

definition NewBoundedChunkSweeper ::
    "('m, 'o) ChunkGarbageCollector option \<Rightarrow> int \<Rightarrow> int \<Rightarrow> ('m \<times> 'o) BoundedChunkSweeper" where
  "NewBoundedChunkSweeper collector volumesPerPass perVolumeLimit =
     \<lparr>bsLister = map_option (\<lambda>c w. mrListVolumes (gcMeta c) (fst w)) collector,
      bsSweepVolume = map_option SweepVolume collector,
      bsVolumesPerPass = nat (if volumesPerPass \<le> 0 then DefaultSweepVolumesPerPass else volumesPerPass),
      bsPerVolumeLimit = perVolumeLimit, bsVolumes = [], bsCursor = 0, bsPasses = 0, bsListRefresh = 0,
      bsSwept = 0, bsVolumeErrs = 0, bsRotations = 0\<rparr>"

definition listed_volumes :: "'w BoundedChunkSweeper \<Rightarrow> 'w \<Rightarrow> service_error + VolumeSpec list" where
  "listed_volumes s w = (case bsLister s of None \<Rightarrow> Inl panic | Some lister \<Rightarrow> lister w)"

definition nextBatch ::
    "'w BoundedChunkSweeper \<Rightarrow> 'w \<Rightarrow> (service_error + u64 list) \<times> 'w BoundedChunkSweeper" where
  "nextBatch s w =
     (let refreshed =
        (if bsCursor s \<ge> length (bsVolumes s)
         then case listed_volumes s w of
                Inl err \<Rightarrow> Inl err
              | Inr volumes \<Rightarrow>
                  Inr (s\<lparr>bsListRefresh := bsListRefresh s + 1,
                         bsRotations := (if length (bsVolumes s) > 0 then bsRotations s + 1 else bsRotations s),
                         bsVolumes := map vID volumes, bsCursor := 0\<rparr>)
         else Inr s)
      in case refreshed of
           Inl err \<Rightarrow> (Inl err, s)
         | Inr s1 \<Rightarrow>
             if bsVolumes s1 = [] then (Inr [], s1)
             else let end1 = min (bsCursor s1 + bsVolumesPerPass s1) (length (bsVolumes s1))
                  in (Inr (slice (bsCursor s1) end1 (bsVolumes s1)), s1\<lparr>bsCursor := end1\<rparr>))"

fun sweep_batch ::
    "(nat \<Rightarrow> service_error option) \<Rightarrow>
     (u64 \<Rightarrow> int \<Rightarrow> 'w \<Rightarrow> (service_error + ChunkGarbageSweepResult) \<times> 'w) \<Rightarrow> u64 list \<Rightarrow>
     ChunkGarbageSweepResult list \<Rightarrow> 'w BoundedChunkSweeper \<Rightarrow> 'w \<Rightarrow>
     service_error option \<times> ChunkGarbageSweepResult list \<times> 'w BoundedChunkSweeper \<times> 'w" where
  "sweep_batch ctxErr sweepVolume [] results s w = (None, results, s, w)"
| "sweep_batch ctxErr sweepVolume (volumeID # rest) results s w =
     (case ctxErr (length rest) of
        Some err \<Rightarrow> (Some err, results, s, w)
      | None \<Rightarrow>
          case sweepVolume volumeID (bsPerVolumeLimit s) w of
            (Inl err, w') \<Rightarrow>
              sweep_batch ctxErr sweepVolume rest results (s\<lparr>bsVolumeErrs := bsVolumeErrs s + 1\<rparr>) w'
          | (Inr result, w') \<Rightarrow>
              sweep_batch ctxErr sweepVolume rest (results @ [result]) (s\<lparr>bsSwept := bsSwept s + 1\<rparr>) w')"

definition SweepPass ::
    "(nat \<Rightarrow> service_error option) \<Rightarrow> 'w BoundedChunkSweeper \<Rightarrow> 'w \<Rightarrow>
     service_error option \<times> ChunkGarbageSweepResult list \<times> 'w BoundedChunkSweeper \<times> 'w" where
  "SweepPass ctxErr s w =
     (case bsSweepVolume s of
        None \<Rightarrow> (None, [], s, w)
      | Some sweepVolume \<Rightarrow>
          case nextBatch (s\<lparr>bsPasses := bsPasses s + 1\<rparr>) w of
            (Inl err, s1) \<Rightarrow> (Some err, [], s1, w)
          | (Inr batch, s1) \<Rightarrow> sweep_batch ctxErr sweepVolume batch [] s1 w)"

record BoundedSweepSnapshot =
  ssSweepPassCount :: nat
  ssSweepVolumeListCount :: nat
  ssSweptVolumeCount :: nat
  ssSweepVolumeErrorCount :: nat
  ssSweepRotationCount :: nat
  ssVolumesPerPass :: nat

definition Snapshot :: "'w BoundedChunkSweeper \<Rightarrow> BoundedSweepSnapshot" where
  "Snapshot s =
     \<lparr>ssSweepPassCount = bsPasses s, ssSweepVolumeListCount = bsListRefresh s,
      ssSweptVolumeCount = bsSwept s, ssSweepVolumeErrorCount = bsVolumeErrs s,
      ssSweepRotationCount = bsRotations s, ssVolumesPerPass = bsVolumesPerPass s\<rparr>"

end
