(* ===== verification/ConcurrentData.thy ===== *)
theory ConcurrentData
  imports ChunkWriters ChunkGC
begin

section \<open>Gateways writing one volume concurrently\<close>

text \<open>
  The system: any number of page writes by any number of gateways, whose steps interleave with each
  other and with sweeps of the garbage collector, over one shared repository and object store. The
  log records the page writes in the order of their commits. The main lemma says that at every
  moment the bytes of the volume are those of the start with the logged writes applied in order.
\<close>

inductive data_run ::
    "('m, 'o) chunkExtentDataRepository \<Rightarrow> ('m, 'o) ChunkGarbageCollector \<Rightarrow> ('m \<Rightarrow> bool) \<Rightarrow> VolumeSpec \<Rightarrow>
     'm \<times> 'o \<Rightarrow> (nat \<times> pageWrite) list \<Rightarrow> (pageWrite \<times> write_pc) list \<Rightarrow> 'm \<times> 'o \<Rightarrow> bool"
  for ce gc room v w0 where
  start: "data_run ce gc room v w0 [] [] w0"
| begin_write: "data_run ce gc room v w0 log ws w \<Longrightarrow> pw_ok pw \<Longrightarrow> pwVolume pw = v \<Longrightarrow>
    data_run ce gc room v w0 log (ws @ [(pw, Loading 0)]) w"
| advance: "data_run ce gc room v w0 log ws w \<Longrightarrow> i < length ws \<Longrightarrow> ws ! i = (pw, pc) \<Longrightarrow> room (fst w) \<Longrightarrow>
    write_step ce now pw pc w = (pc', w') \<Longrightarrow>
    data_run ce gc room v w0 (if published pc' then log @ [(i, pw)] else log) (ws[i := (pw, pc')]) w'"
| sweep: "data_run ce gc room v w0 log ws w \<Longrightarrow>
    SweepVolumeCandidatesWithProtectedRefs gc (vID v) limit candidates protected w = (res, w') \<Longrightarrow>
    data_run ce gc room v w0 log ws w'"

text \<open>The logged page writes applied to the bytes of a volume.\<close>

definition apply_log :: "(nat \<times> pageWrite) list \<Rightarrow> (nat \<Rightarrow> u8) \<Rightarrow> nat \<Rightarrow> u8" where
  "apply_log log f = fold (\<lambda>(i, pw). page_update pw) log f"

lemma apply_log_append: "apply_log (log @ [(i, pw)]) f = page_update pw (apply_log log f)"
  by (simp add: apply_log_def)

lemma page_update_cong: "f i = g i \<Longrightarrow> page_update pw f i = page_update pw g i"
  by (simp add: page_update_def)

lemma write_step_published: "write_step ce now pw pc w = (pc', w') \<Longrightarrow> published pc' \<Longrightarrow>
    \<not> published pc \<and> \<not> finished pc"
  by (cases pc; cases w) (auto split: sum.splits prod.splits option.splits if_splits)

lemma write_step_success: "write_step ce now pw pc w = (Finished (Inr ()), w') \<Longrightarrow>
    published pc \<or> pc = Finished (Inr ())"
  by (cases pc; cases w) (auto split: sum.splits prod.splits option.splits if_splits)

lemma write_step_settled: "write_step ce now pw pc w = (pc', w') \<Longrightarrow> published pc \<or> finished pc \<Longrightarrow> finished pc'"
  by (cases pc; cases w) (auto split: prod.splits)

text \<open>Every writer commits at most once, and a writer that reports success has committed.\<close>

lemma data_run_log:
  assumes "data_run ce gc room v w0 log ws w"
  shows "distinct (map fst log)
    \<and> (\<forall>(i, pw) \<in> set log. i < length ws \<and> fst (ws ! i) = pw
         \<and> (published (snd (ws ! i)) \<or> finished (snd (ws ! i))))
    \<and> (\<forall>i < length ws. published (snd (ws ! i)) \<or> snd (ws ! i) = Finished (Inr ()) \<longrightarrow>
         (i, fst (ws ! i)) \<in> set log)"
  using assms
proof induction
  case (begin_write log ws w pw)
  then show ?case
    by (auto simp: nth_append less_Suc_eq)
next
  case (advance log ws w i pw pc now pc' w')
  note step = advance.hyps(5)
  have A: "j < length ws \<and> fst (ws ! j) = p \<and> (published (snd (ws ! j)) \<or> finished (snd (ws ! j)))"
    if "(j, p) \<in> set log" for j p
    using bspec[OF conjunct1[OF conjunct2[OF advance.IH]] that] by simp
  have B: "(j, fst (ws ! j)) \<in> set log"
    if "j < length ws" "published (snd (ws ! j)) \<or> snd (ws ! j) = Finished (Inr ())" for j
    by (rule mp[OF mp[OF spec[OF conjunct2[OF conjunct2[OF advance.IH]]] that(1)] that(2)])
  let ?log = "if published pc' then log @ [(i, pw)] else log"
  have new: "i \<notin> fst ` set log" if "published pc'"
    using A[of i] advance.hyps(3) write_step_published[OF step that] by force
  show ?case
  proof (intro conjI allI impI ballI)
    show "distinct (map fst ?log)"
      using conjunct1[OF advance.IH] new by simp
  next
    fix x assume x: "x \<in> set ?log"
    obtain j p where jp: "x = (j, p)" by fastforce
    show "case x of (j, p) \<Rightarrow> j < length (ws[i := (pw, pc')]) \<and> fst (ws[i := (pw, pc')] ! j) = p
        \<and> (published (snd (ws[i := (pw, pc')] ! j)) \<or> finished (snd (ws[i := (pw, pc')] ! j)))"
    proof (cases "(j, p) \<in> set log")
      case True
      then show ?thesis
        using A[OF True] advance.hyps(2,3) write_step_settled[OF step] jp by (cases "j = i") auto
    next
      case False
      then show ?thesis
        using x jp advance.hyps(2) by (auto split: if_splits)
    qed
  next
    fix j assume j: "j < length (ws[i := (pw, pc')])"
      "published (snd (ws[i := (pw, pc')] ! j)) \<or> snd (ws[i := (pw, pc')] ! j) = Finished (Inr ())"
    show "(j, fst (ws[i := (pw, pc')] ! j)) \<in> set ?log"
    proof (cases "j = i")
      case True
      show ?thesis
      proof (cases "published pc'")
        case False
        then have "published pc \<or> pc = Finished (Inr ())"
          using j True advance.hyps(2) write_step_success[of ce now pw pc w w'] step by simp
        then show ?thesis
          using B[of i] True advance.hyps(2,3) by auto
      qed (use True advance.hyps(2) in auto)
    next
      case False
      then show ?thesis using B[of j] j by auto
    qed
  qed
qed auto

context data_path begin

lemma delete_candidates_ok:
  assumes "delete_candidates gc (vID v) volume cands result (m, s) = (res, w')"
    and "gcMeta gc = meta" "gcObjects gc = os" "vPrefix volume = vPrefix v"
    and "inv (m, s)" "prChunkID ` garbage_ref ` set cands \<subseteq> G"
    "\<forall>x \<in> G. x \<noteq> 0 \<and> (\<forall>c < chunks v. mid m c \<noteq> x)"
  shows "inv w' \<and> quiet m (fst w') \<and> guar G (m, s) w' \<and> garb (fst w') (vID v) \<subseteq> garb m (vID v)
    \<and> (\<forall>i < chunks v * csz v. byte w' i = byte (m, s) i)"
  using assms(1,5-)
proof (induction cands arbitrary: m s result)
  case Nil
  then show ?case
    using invD(1)[OF Nil.prems(2)] by (auto simp: guar_refl quiet_def)
next
  case (Cons g cands)
  let ?k = "buildPhysicalChunkKey (vPrefix v) (garbage_ref g)"
  obtain r1 s1 where d: "osDelete os ?k s = (r1, s1)" by fastforce
  obtain r2 m1 where dg: "mrDeleteChunkGarbage meta (vID v) (gcChunkID g) m = (r2, m1)" by fastforce
  have x: "prChunkID (garbage_ref g) \<in> G" using Cons.prems(3) by simp
  have "pay ref s1 = pay ref s" if "prChunkID ref \<notin> G" for ref
    using Delete_other_payload[of ref "garbage_ref g" v s] d x that by auto
  then have g1: "guar G (m, s) (m, s1)"
    by (simp add: guar_def)
  have inv1: "inv (m, s1)" "\<forall>i < chunks v * csz v. byte (m, s1) i = byte (m, s) i"
    using inv_store[OF Cons.prems(2) g1] Cons.prems(4) by auto
  have q: "quiet m m1" "garb m1 (vID v) \<subseteq> garb m (vID v)"
    using delete_garbage_frame[OF invD(1)[OF Cons.prems(2)], of "vID v" "gcChunkID g" "vID v"] dg
    by (auto simp: quiet_def)
  have inv2: "inv (m1, s1)"
    using inv_quiet[OF inv1(1) q(1), of "{}"] q(2) by (simp add: fresh_def)
  have g2: "guar G (m, s) (m1, s1)"
    by (rule guar_trans[OF g1 guar_quiet[OF q(1)]])
  have stop: ?case if "w' = (m, s1) \<or> w' = (m1, s1)"
    using that inv1 inv2 q g1 g2 quiet_byte[OF q(1)] invD(1)[OF inv1(1)] by (auto simp: quiet_def)
  show ?case
  proof (cases "r1 = Inr () \<and> r2 = Inr ()")
    case False
    then have "w' = (m, s1) \<or> w' = (m1, s1)"
      using Cons.prems(1) d dg assms(2-4) by (cases r1; cases r2) auto
    then show ?thesis by (rule stop)
  next
    case True
    then have rec: "delete_candidates gc (vID v) volume cands
        (result\<lparr>swDeletedCount := swDeletedCount result + 1\<rparr>) (m1, s1) = (res, w')"
      using Cons.prems(1) d dg assms(2-4) by simp
    have "inv w' \<and> quiet m1 (fst w') \<and> guar G (m1, s1) w' \<and> garb (fst w') (vID v) \<subseteq> garb m1 (vID v)
        \<and> (\<forall>i < chunks v * csz v. byte w' i = byte (m1, s1) i)"
      by (rule Cons.IH[OF rec inv2]) (use Cons.prems(3,4) quiet_mp[OF q(1)] in auto)
    then show ?thesis
      using q inv1(2) guar_trans[OF g2] quiet_trans[OF q(1)] quiet_byte[OF q(1)] by auto
  qed
qed

lemma sweep_ok:
  assumes "SweepVolumeCandidatesWithProtectedRefs gc (vID v) limit cands prot w = (res, w')"
    and "gcMeta gc = meta" "gcObjects gc = os" "inv w"
  shows "inv w' \<and> quiet (fst w) (fst w') \<and> guar (prChunkID ` garb (fst w) (vID v)) w w'
    \<and> garb (fst w') (vID v) \<subseteq> garb (fst w) (vID v) \<and> (\<forall>i < chunks v * csz v. byte w' i = byte w i)"
proof (cases "classifyVolumeWithProtectedRefs gc (vID v) limit cands prot (fst w)")
  case (Inl e)
  then have "w' = w" using assms(1) by (simp add: SweepVolumeCandidatesWithProtectedRefs_def)
  then show ?thesis using assms(4) invD(1)[OF assms(4)] by (simp add: guar_refl quiet_def)
next
  case (Inr x)
  then obtain volume deletable result where x: "x = (volume, deletable, result)" by (cases x)
  note minv = invD(1)[OF assms(4)]
  obtain listed where l: "mrGetVolume meta (vID v) (fst w) = Inr volume"
    "mrListChunkGarbage meta (vID v) limit (fst w) = Inr listed" "set deletable \<subseteq> set listed"
    using Inr x assms(2)
    by (auto simp: classifyVolumeWithProtectedRefs_def filterChunkGarbageCandidates_def Let_def
        split: sum.splits if_splits)
  have "vPrefix volume = vPrefix v"
    using get_volume[OF minv l(1)] invD(6)[OF assms(4)] by auto
  moreover have "garbage_ref ` set deletable \<subseteq> garb (fst w) (vID v)"
    using list_garbage[OF minv l(2)] l(3) by auto
  moreover have "delete_candidates gc (vID v) volume deletable result (fst w, snd w) = (res, w')"
    using assms(1) Inr x by (simp add: SweepVolumeCandidatesWithProtectedRefs_def)
  ultimately show ?thesis
    using delete_candidates_ok[of gc volume deletable result "fst w" "snd w" res w'
        "prChunkID ` garb (fst w) (vID v)"] assms(2-4) invD(5)[OF assms(4)] by auto
qed

definition sys_ok :: "(pageWrite \<times> write_pc) list \<Rightarrow> 'm \<times> 'o \<Rightarrow> bool" where
  "sys_ok ws w \<longleftrightarrow> inv w \<and> (\<forall>i < length ws. local_ok (fst (ws ! i)) (snd (ws ! i)) w)
     \<and> (\<forall>i < length ws. \<forall>j < length ws. i \<noteq> j \<longrightarrow> owned (snd (ws ! i)) \<inter> owned (snd (ws ! j)) = {})"

lemma local_ok_stable:
  assumes "local_ok pw pc w" "guar O1 w w'" "\<forall>c < chunks v. mid (fst w) c \<notin> O1" "owned pc \<inter> O1 = {}"
    and "\<forall>c < chunks v. mid (fst w') c \<in> {0} \<union> O1 \<union> mid (fst w) ` {..<chunks v}"
    and "prChunkID ` garb (fst w') (vID v) \<subseteq> O1 \<union> prChunkID ` garb (fst w) (vID v)"
  shows "local_ok pw pc w'"
proof -
  have "pc_ok pw pc w'"
    using pc_ok_stable[OF _ _ _ assms(2-4)] assms(1) by (simp add: local_ok_def)
  moreover have "fresh (owned pc) (fst w')"
    unfolding fresh_def
  proof (intro ballI)
    fix x assume x: "x \<in> owned pc"
    have F: "x \<noteq> 0" "unat x < unat (nxt (fst w) (vID v))" "\<forall>c < chunks v. mid (fst w) c \<noteq> x"
      "x \<notin> prChunkID ` garb (fst w) (vID v)" "x \<notin> O1"
      using assms(1,4) x by (auto simp: local_ok_def fresh_def)
    have "unat (nxt (fst w) (vID v)) \<le> unat (nxt (fst w') (vID v))"
      using assms(2) by (simp add: guar_def)
    with F(2) have n: "unat x < unat (nxt (fst w') (vID v))" by simp
    have m: "mid (fst w') c \<noteq> x" if c: "c < chunks v" for c
    proof
      assume "mid (fst w') c = x"
      then have "x \<in> {0} \<union> O1 \<union> mid (fst w) ` {..<chunks v}"
        using assms(5) c by metis
      then show False
        using F(1,3,5) by auto
    qed
    have "x \<notin> prChunkID ` garb (fst w') (vID v)"
      using F(4,5) assms(6) by blast
    with F(1) n m show "x \<noteq> 0 \<and> unat x < unat (nxt (fst w') (vID v)) \<and> (\<forall>c < chunks v. mid (fst w') c \<noteq> x)
        \<and> x \<notin> prChunkID ` garb (fst w') (vID v)"
      by simp
  qed
  ultimately show ?thesis
    using assms(1) by (simp add: local_ok_def)
qed

lemma sys_advance:
  assumes "sys_ok ws w" "i < length ws" "ws ! i = (pw, pc)" "id_room nxt rev v (fst w)"
    and "write_step ce now pw pc w = (pc', w')"
  shows "sys_ok (ws[i := (pw, pc')]) w'"
proof -
  have I: "inv w" and L: "local_ok pw pc w"
    using assms(1-3) by (auto simp: sys_ok_def)
  have S: "step_ok pw pc w pc' w'"
    by (rule write_step_ok[OF L I assms(4,5)])
  note S' = S[unfolded step_ok_def]
  have unmapped: "\<forall>c < chunks v. mid (fst w) c \<notin> owned pc"
    using L by (auto simp: local_ok_def fresh_def)
  have disj: "owned (snd (ws ! j)) \<inter> owned pc = {}" if "j < length ws" "j \<noteq> i" for j
    using assms(1-3) that unfolding sys_ok_def by (metis snd_conv)
  have others: "local_ok (fst (ws ! j)) (snd (ws ! j)) w'" if "j < length ws" "j \<noteq> i" for j
    by (rule local_ok_stable[of _ _ w "owned pc"]) (use assms(1) that disj S' unmapped in \<open>auto simp: sys_ok_def\<close>)
  have new_disj: "owned (snd (ws ! j)) \<inter> owned pc' = {}" if j: "j < length ws" "j \<noteq> i" for j
  proof -
    have "fresh (owned (snd (ws ! j))) (fst w)"
      using assms(1) j(1) by (simp add: sys_ok_def local_ok_def)
    then have "x \<notin> {x. unat (nxt (fst w) (vID v)) \<le> unat x} \<union> mid (fst w) ` {..<chunks v}"
      if "x \<in> owned (snd (ws ! j))" for x
      using that by (auto simp: fresh_def)
    then show ?thesis
      using S' disj[OF j] by blast
  qed
  show ?thesis
    unfolding sys_ok_def
    using S' others new_disj assms(1,2) by (auto simp: nth_list_update sys_ok_def Int_commute)
qed

lemma sys_sweep:
  assumes "sys_ok ws w" "gcMeta gc = meta" "gcObjects gc = os"
    and "SweepVolumeCandidatesWithProtectedRefs gc (vID v) limit cands prot w = (res, w')"
  shows "sys_ok ws w'"
proof -
  have I: "inv w" using assms(1) by (simp add: sys_ok_def)
  note S = sweep_ok[OF assms(4,2,3) I]
  let ?G = "prChunkID ` garb (fst w) (vID v)"
  have "local_ok (fst (ws ! j)) (snd (ws ! j)) w'" if j: "j < length ws" for j
  proof (rule local_ok_stable[of _ _ w ?G])
    show L: "local_ok (fst (ws ! j)) (snd (ws ! j)) w"
      using assms(1) j by (simp add: sys_ok_def)
    show "\<forall>c < chunks v. mid (fst w) c \<notin> ?G"
      using invD(5)[OF I] by fastforce
    show "owned (snd (ws ! j)) \<inter> ?G = {}"
      using L by (auto simp: local_ok_def fresh_def)
    show "\<forall>c < chunks v. mid (fst w') c \<in> {0} \<union> ?G \<union> mid (fst w) ` {..<chunks v}"
      using quiet_mp[of "fst w" "fst w'"] S by auto
  qed (use S in auto)
  then show ?thesis
    using S assms(1) by (simp add: sys_ok_def)
qed

lemma data_run_ok:
  assumes "data_run ce gc (id_room nxt rev v) v w0 log ws w" "inv w0" "gcMeta gc = meta" "gcObjects gc = os"
  shows "sys_ok ws w \<and> (\<forall>i < chunks v * csz v. byte w i = apply_log log (byte w0) i)"
  using assms(1)
proof induction
  case start
  then show ?case using assms(2) by (simp add: sys_ok_def apply_log_def)
next
  case (begin_write log ws w pw)
  then show ?case
    by (auto simp: sys_ok_def nth_append local_ok_def fresh_def less_Suc_eq)
next
  case (advance log ws w i pw pc now pc' w')
  have "step_ok pw pc w pc' w'"
    using advance by (intro write_step_ok) (auto simp: sys_ok_def)
  then have "\<forall>k < chunks v * csz v. byte w' k = (if published pc' then page_update pw (byte w) k else byte w k)"
    by (simp add: step_ok_def)
  moreover have "page_update pw (byte w) k = page_update pw (apply_log log (byte w0)) k"
    if "k < chunks v * csz v" for k
    using advance.IH that by (intro page_update_cong) simp
  ultimately show ?case
    using sys_advance[OF _ advance.hyps(2-5)] advance.IH by (auto simp: apply_log_append)
next
  case (sweep log ws w limit candidates protected res w')
  then show ?case
    using sys_sweep[OF _ assms(3,4) sweep.hyps(2)] sweep_ok[OF sweep.hyps(2) assms(3,4)]
    by (auto simp: sys_ok_def)
qed

end

end
