(* ===== verification/MemoryMetadata.thy ===== *)
theory MemoryMetadata
  imports Interfaces "HOL-Library.List_Lexorder" "HOL-Library.Char_ord" "HOL-Library.Product_Lexorder"
begin

section \<open>The in-memory metadata repository (gateway/service/memory_metadata.go)\<close>

text \<open>
  The repository's maps as a record and one function per method. Every method holds the
  repository's mutex from start to end, so each is one atomic step on the record. The clock and
  the random source are arguments of the methods that read them.
\<close>

subsection \<open>State\<close>

record inMemoryMetadataRepository =
  mVolumes :: "(u64, VolumeSpec) gomap"
  mState :: "(u64, AttachmentRecord) gomap"
  mStatus :: "(u64, VolumeStatusRecord) gomap"
  mGateway :: "(string, GatewayRecord) gomap"
  mExtentPages :: "(u64, (u64, AllocationPageRecord) gomap) gomap"
  mNextChunkID :: "(u64, u64) gomap"
  mChunkGC :: "(u64, (u64, AllocationChunkGarbageRecord) gomap) gomap"

type_synonym repo = inMemoryMetadataRepository

definition empty_repo :: repo where
  "empty_repo = \<lparr>mVolumes = [], mState = [], mStatus = [], mGateway = [], mExtentPages = [],
     mNextChunkID = [], mChunkGC = []\<rparr>"

definition volume_exists :: "repo \<Rightarrow> u64 \<Rightarrow> bool" where
  "volume_exists r volumeID \<longleftrightarrow> mget (mVolumes r) volumeID \<noteq> None"

definition attachment_of :: "repo \<Rightarrow> u64 \<Rightarrow> AttachmentRecord" where
  "attachment_of r volumeID = mget_or zero_attachment (mState r) volumeID"

definition status_of :: "repo \<Rightarrow> u64 \<Rightarrow> VolumeStatusRecord" where
  "status_of r volumeID = mget_or zero_status (mStatus r) volumeID"

definition pages_of :: "repo \<Rightarrow> u64 \<Rightarrow> (u64, AllocationPageRecord) gomap" where
  "pages_of r volumeID = mget_or [] (mExtentPages r) volumeID"

definition garbage_of :: "repo \<Rightarrow> u64 \<Rightarrow> (u64, AllocationChunkGarbageRecord) gomap" where
  "garbage_of r volumeID = mget_or [] (mChunkGC r) volumeID"

subsection \<open>Volumes\<close>

text \<open>The records every new volume starts with.\<close>

definition add_volume :: "VolumeSpec \<Rightarrow> repo \<Rightarrow> repo" where
  "add_volume volume r =
     r\<lparr>mVolumes := mput (vID volume) (cloneVolumeSpec volume) (mVolumes r),
       mState := mput (vID volume) (zero_attachment\<lparr>aGeneration := 1\<rparr>) (mState r),
       mStatus := mput (vID volume)
         (zero_status\<lparr>sVolumeID := vID volume, sGatewayConnectionState := GatewayStateUnknown\<rparr>)
         (mStatus r),
       mExtentPages := mput (vID volume) [] (mExtentPages r),
       mNextChunkID := mput (vID volume) 1 (mNextChunkID r),
       mChunkGC := mput (vID volume) [] (mChunkGC r)\<rparr>"

definition NewInMemoryMetadataRepository :: "VolumeSpec list \<Rightarrow> repo" where
  "NewInMemoryMetadataRepository volumes =
     fold (\<lambda>volume. add_volume (NormalizeVolumeSpec volume)) volumes empty_repo"

definition EnsureVolume :: "VolumeSpec \<Rightarrow> repo \<Rightarrow> (service_error + unit) \<times> repo" where
  "EnsureVolume volume0 r =
     (let volume = NormalizeVolumeSpec volume0
      in if volume_exists r (vID volume)
         then (Inr (), r\<lparr>mVolumes := mput (vID volume) (cloneVolumeSpec volume) (mVolumes r)\<rparr>)
         else (Inr (), add_volume volume r))"

definition SyncVolumeSpec :: "VolumeSpec \<Rightarrow> repo \<Rightarrow> (service_error + unit) \<times> repo" where
  "SyncVolumeSpec volume0 r =
     (let volume = NormalizeVolumeSpec volume0
      in if \<not> volume_exists r (vID volume) then (Inl ErrVolumeNotFound, r)
         else (Inr (), r\<lparr>mVolumes := mput (vID volume) (cloneVolumeSpec volume) (mVolumes r)\<rparr>))"

text \<open>
  The draws of the random source; \<open>None\<close> is a failed read. The loop gives up after 64 draws.
\<close>

fun generate_id :: "nat \<Rightarrow> u32 option list \<Rightarrow> (u64, VolumeSpec) gomap \<Rightarrow> service_error + u64" where
  "generate_id 0 draws existing = Inl ErrVolumeNameConflict"
| "generate_id (Suc i) [] existing = Inl (ErrOther ''rand'')"
| "generate_id (Suc i) (None # draws) existing = Inl (ErrOther ''rand'')"
| "generate_id (Suc i) (Some raw # draws) existing =
     (let id = ucast raw :: u64
      in if id = 0 then generate_id i draws existing
         else if mget existing id \<noteq> None then generate_id i draws existing
         else Inr id)"

definition generateUniqueVolumeIDMemory ::
    "u32 option list \<Rightarrow> (u64, VolumeSpec) gomap \<Rightarrow> service_error + u64" where
  "generateUniqueVolumeIDMemory draws existing = generate_id 64 draws existing"

definition CreateVolume ::
    "u32 option list \<Rightarrow> VolumeCreateRequest \<Rightarrow> repo \<Rightarrow> (service_error + VolumeSpec) \<times> repo" where
  "CreateVolume draws req r =
     (let name = TrimSpace (crName req)
      in if name = '''' then (Inl ErrVolumeNameRequired, r)
         else if \<exists>volume \<in> set (mvalues (mVolumes r)). vName volume = name
           then (Inl ErrVolumeNameConflict, r)
         else case generateUniqueVolumeIDMemory draws (mVolumes r) of
                Inl err \<Rightarrow> (Inl err, r)
              | Inr volumeID \<Rightarrow>
                  let spec = NormalizeVolumeSpec
                        (zero_volume\<lparr>vID := volumeID, vName := name,
                          vPrefix := BuildVolumePrefix name volumeID,
                          vSizeBytes := crSizeBytes req, vBlockSize := crBlockSize req,
                          vChunkSizeBytes := crChunkSizeBytes req,
                          vExtentPageBytes := crExtentPageBytes req,
                          vAccessMode := crAccessMode req, vState := crState req\<rparr>)
                  in (Inr spec, add_volume spec r))"

definition rename_volume :: "repo \<Rightarrow> u64 \<Rightarrow> string option \<Rightarrow> VolumeSpec \<Rightarrow> service_error + VolumeSpec" where
  "rename_volume r volumeID nameReq volume =
     (case nameReq of
        None \<Rightarrow> Inr volume
      | Some n \<Rightarrow>
          let nextName = TrimSpace n
          in if nextName = '''' then Inl ErrVolumeNameRequired
             else if aAttachmentID (attachment_of r volumeID) \<noteq> '''' then Inl ErrVolumeNotDetached
             else if \<exists>(existingID, existing) \<in> set (mVolumes r).
                       existingID \<noteq> volumeID \<and> vName existing = nextName
               then Inl ErrVolumeNameConflict
             else Inr (volume\<lparr>vName := nextName, vPrefix := BuildVolumePrefix nextName volumeID\<rparr>))"

definition UpdateVolume ::
    "u64 \<Rightarrow> VolumeUpdateRequest \<Rightarrow> repo \<Rightarrow> (service_error + VolumeSpec) \<times> repo" where
  "UpdateVolume volumeID req r =
     (case mget (mVolumes r) volumeID of
        None \<Rightarrow> (Inl ErrVolumeNotFound, r)
      | Some volume0 \<Rightarrow>
          let isAttached = aAttachmentID (attachment_of r volumeID) \<noteq> ''''
          in case ValidateImmutableVolumeGeometry volume0 req of
               Inl err \<Rightarrow> (Inl err, r)
             | Inr _ \<Rightarrow>
                 (case rename_volume r volumeID (urName req) volume0 of
                    Inl err \<Rightarrow> (Inl err, r)
                  | Inr volume1 \<Rightarrow>
                      if isAttached \<and> (urSizeBytes req \<noteq> None \<or> urBlockSize req \<noteq> None
                           \<or> urChunkSizeBytes req \<noteq> None \<or> urExtentPageBytes req \<noteq> None
                           \<or> urAccessMode req \<noteq> None)
                      then (Inl ErrVolumeNotDetached, r)
                      else
                        let volume2 = volume1\<lparr>
                              vSizeBytes := (case urSizeBytes req of None \<Rightarrow> vSizeBytes volume1
                                             | Some n \<Rightarrow> n),
                              vAccessMode := (case urAccessMode req of None \<Rightarrow> vAccessMode volume1
                                              | Some m \<Rightarrow> m),
                              vState := (case urState req of None \<Rightarrow> vState volume1 | Some st \<Rightarrow> st)\<rparr>;
                            volume = NormalizeVolumeSpec volume2
                        in (Inr (cloneVolumeSpec volume),
                            r\<lparr>mVolumes := mput volumeID (cloneVolumeSpec volume) (mVolumes r)\<rparr>)))"

definition DeleteVolume :: "u64 \<Rightarrow> repo \<Rightarrow> (service_error + unit) \<times> repo" where
  "DeleteVolume volumeID r =
     (case mget (mVolumes r) volumeID of
        None \<Rightarrow> (Inl ErrVolumeNotFound, r)
      | Some volume \<Rightarrow>
          if aAttachmentID (attachment_of r volumeID) \<noteq> '''' then (Inl ErrVolumeNotDetached, r)
          else if vState volume \<noteq> VolumeStateAvailable \<and> vState volume \<noteq> VolumeStateDisabled
            then (Inl ErrVolumeNotDetached, r)
          else if length (pages_of r volumeID) > 0 then (Inl ErrVolumeHasObjects, r)
          else if length (garbage_of r volumeID) > 0 then (Inl ErrVolumeHasObjects, r)
          else (Inr (),
                r\<lparr>mVolumes := mdel volumeID (mVolumes r), mState := mdel volumeID (mState r),
                  mStatus := mdel volumeID (mStatus r),
                  mExtentPages := mdel volumeID (mExtentPages r),
                  mNextChunkID := mdel volumeID (mNextChunkID r),
                  mChunkGC := mdel volumeID (mChunkGC r)\<rparr>))"

definition GetVolume :: "u64 \<Rightarrow> repo \<Rightarrow> service_error + VolumeSpec" where
  "GetVolume volumeID r =
     (case mget (mVolumes r) volumeID of
        None \<Rightarrow> Inl ErrVolumeNotFound
      | Some volume \<Rightarrow> Inr (cloneVolumeSpec volume))"

definition GetVolumeStatus :: "u64 \<Rightarrow> repo \<Rightarrow> service_error + VolumeStatusRecord" where
  "GetVolumeStatus volumeID r =
     (if \<not> volume_exists r volumeID then Inl ErrVolumeNotFound else Inr (status_of r volumeID))"

definition PutVolumeStatus :: "VolumeStatusRecord \<Rightarrow> repo \<Rightarrow> (service_error + unit) \<times> repo" where
  "PutVolumeStatus status r =
     (if \<not> volume_exists r (sVolumeID status) then (Inl ErrVolumeNotFound, r)
      else (Inr (), r\<lparr>mStatus := mput (sVolumeID status) status (mStatus r)\<rparr>))"

definition ListVolumes :: "repo \<Rightarrow> service_error + VolumeSpec list" where
  "ListVolumes r = Inr (map cloneVolumeSpec (mvalues (mVolumes r)))"

definition SetVolumeState :: "u64 \<Rightarrow> string \<Rightarrow> repo \<Rightarrow> (service_error + VolumeSpec) \<times> repo" where
  "SetVolumeState volumeID state r =
     (case mget (mVolumes r) volumeID of
        None \<Rightarrow> (Inl ErrVolumeNotFound, r)
      | Some volume0 \<Rightarrow>
          let volume = volume0\<lparr>vState := state\<rparr>
          in (Inr (cloneVolumeSpec volume),
              r\<lparr>mVolumes := mput volumeID (cloneVolumeSpec volume) (mVolumes r)\<rparr>))"

subsection \<open>Attachments\<close>

definition set_volume_state :: "u64 \<Rightarrow> string \<Rightarrow> repo \<Rightarrow> repo" where
  "set_volume_state volumeID state r =
     (case mget (mVolumes r) volumeID of
        None \<Rightarrow> r
      | Some volume \<Rightarrow> r\<lparr>mVolumes := mput volumeID (volume\<lparr>vState := state\<rparr>) (mVolumes r)\<rparr>)"

definition GetAttachment :: "u64 \<Rightarrow> repo \<Rightarrow> service_error + AttachmentRecord" where
  "GetAttachment volumeID r =
     (if \<not> volume_exists r volumeID then Inl ErrVolumeNotFound else Inr (attachment_of r volumeID))"

definition GetGeneration :: "u64 \<Rightarrow> repo \<Rightarrow> service_error + u64" where
  "GetGeneration volumeID r =
     (if \<not> volume_exists r volumeID then Inl ErrVolumeNotFound
      else let gen = aGeneration (attachment_of r volumeID) in Inr (if gen = 0 then 1 else gen))"

definition detached_status :: "u64 \<Rightarrow> VolumeStatusRecord \<Rightarrow> VolumeStatusRecord" where
  "detached_status generation status =
     status\<lparr>sInUse := False, sCurrentAttachmentID := '''', sCurrentHostID := '''',
            sCurrentGatewayID := '''', sGatewayConnectionState := GatewayStateDetached,
            sAttachmentGeneration := generation\<rparr>"

definition UnsafeClearAttachment :: "u64 \<Rightarrow> repo \<Rightarrow> (service_error + AttachmentRecord) \<times> repo" where
  "UnsafeClearAttachment volumeID r =
     (if \<not> volume_exists r volumeID then (Inl ErrVolumeNotFound, r)
      else
        let state0 = attachment_of r volumeID;
            gen1 = (if aGeneration state0 = 0 then 1 else aGeneration state0);
            gen2 = (if aAttachmentID state0 \<noteq> '''' then gen1 + 1 else gen1);
            state = zero_attachment\<lparr>aGeneration := gen2\<rparr>;
            r1 = r\<lparr>mState := mput volumeID state (mState r),
                   mStatus := mput volumeID (detached_status gen2 (status_of r volumeID)) (mStatus r)\<rparr>
        in (Inr state, set_volume_state volumeID VolumeStateAvailable r1))"

definition UnsafeSetGeneration :: "u64 \<Rightarrow> u64 \<Rightarrow> repo \<Rightarrow> (service_error + u64) \<times> repo" where
  "UnsafeSetGeneration volumeID generation0 r =
     (if \<not> volume_exists r volumeID then (Inl ErrVolumeNotFound, r)
      else
        let generation = (if generation0 = 0 then 1 else generation0);
            state = (attachment_of r volumeID)\<lparr>aGeneration := generation\<rparr>
        in (Inr generation, r\<lparr>mState := mput volumeID state (mState r)\<rparr>))"

definition Attach :: "int \<Rightarrow> AttachRequest \<Rightarrow> repo \<Rightarrow> (service_error + AttachmentRecord) \<times> repo" where
  "Attach now req r =
     (case mget (mVolumes r) (arVolumeID req) of
        None \<Rightarrow> (Inl ErrVolumeNotFound, r)
      | Some volume \<Rightarrow>
          if vState volume = VolumeStateDisabled then (Inl ErrVolumeDisabled, r)
          else
            let state0 = attachment_of r (arVolumeID req)
            in if aHostID state0 \<noteq> '''' \<and>
                  (aHostID state0 \<noteq> arHostID req \<or> aDeviceID state0 \<noteq> arDeviceID req)
               then (Inl ErrAttachConflict, r)
               else
                 let state1 =
                       (if aAttachmentID state0 = ''''
                        then state0\<lparr>aAttachmentID := FormatAttachmentID (arVolumeID req) (aGeneration state0)\<rparr>
                        else if arGatewayID req \<noteq> '''' \<and> aOwnerGatewayID state0 \<noteq> '''' \<and>
                                aOwnerGatewayID state0 \<noteq> arGatewayID req
                        then let gen = aGeneration state0 + 1
                             in state0\<lparr>aGeneration := gen,
                                       aAttachmentID := FormatAttachmentID (arVolumeID req) gen,
                                       aLeaseID := '''', aAttachedAtUnix := 0\<rparr>
                        else state0);
                     state = state1\<lparr>aHostID := arHostID req, aDeviceID := arDeviceID req,
                                    aOwnerGatewayID := arGatewayID req, aAttachedAtUnix := now\<rparr>;
                     status0 = status_of r (arVolumeID req);
                     status = status0\<lparr>sInUse := True, sCurrentAttachmentID := aAttachmentID state,
                                      sCurrentHostID := arHostID req,
                                      sCurrentGatewayID := arGatewayID req,
                                      sAttachmentGeneration := aGeneration state,
                                      sGatewayConnectionState :=
                                        (if arGatewayID req \<noteq> '''' then GatewayStateUp
                                         else sGatewayConnectionState status0)\<rparr>;
                     r1 = r\<lparr>mState := mput (arVolumeID req) state (mState r),
                            mStatus := mput (arVolumeID req) status (mStatus r)\<rparr>
                 in (Inr state, set_volume_state (arVolumeID req) VolumeStateInUse r1))"

definition Detach :: "DetachRequest \<Rightarrow> repo \<Rightarrow> (service_error + AttachmentRecord) \<times> repo" where
  "Detach req r =
     (if \<not> volume_exists r (drVolumeID req) then (Inl ErrVolumeNotFound, r)
      else
        let state0 = attachment_of r (drVolumeID req)
        in if aHostID state0 \<noteq> '''' \<and>
              (aHostID state0 \<noteq> drHostID req \<or> aAttachmentID state0 \<noteq> drAttachmentID req)
           then (Inl ErrDetachConflict, r)
           else if aHostID state0 = drHostID req \<and> aAttachmentID state0 = drAttachmentID req
           then
             let state = state0\<lparr>aHostID := '''', aAttachmentID := '''', aDeviceID := 0,
                               aOwnerGatewayID := '''', aLeaseID := '''',
                               aGeneration := aGeneration state0 + 1\<rparr>;
                 r1 = r\<lparr>mState := mput (drVolumeID req) state (mState r),
                        mStatus := mput (drVolumeID req)
                          (detached_status (aGeneration state) (status_of r (drVolumeID req)))
                          (mStatus r)\<rparr>
             in (Inr state, set_volume_state (drVolumeID req) VolumeStateAvailable r1)
           else (Inr state0, r))"

subsection \<open>Gateways\<close>

definition GetGateway :: "string \<Rightarrow> repo \<Rightarrow> service_error + GatewayRecord" where
  "GetGateway gatewayID r =
     (case mget (mGateway r) gatewayID of None \<Rightarrow> Inl ErrGatewayNotFound | Some rec \<Rightarrow> Inr rec)"

definition ListGateways :: "repo \<Rightarrow> service_error + GatewayRecord list" where
  "ListGateways r = Inr (sort_key gGatewayID (mvalues (mGateway r)))"

definition PutGateway :: "GatewayRecord \<Rightarrow> repo \<Rightarrow> (service_error + unit) \<times> repo" where
  "PutGateway rec r = (Inr (), r\<lparr>mGateway := mput (gGatewayID rec) rec (mGateway r)\<rparr>)"

subsection \<open>Extent pages\<close>

definition cloneAllocationPage :: "AllocationPageRecord \<Rightarrow> AllocationPageRecord" where
  "cloneAllocationPage rec =
     rec\<lparr>pgExtents := map (\<lambda>x. x\<lparr>xPayloadEncryption :=
            cloneChunkPayloadEncryptionHeader (xPayloadEncryption x)\<rparr>) (pgExtents rec)\<rparr>"

definition GetExtentPage :: "u64 \<Rightarrow> u64 \<Rightarrow> repo \<Rightarrow> service_error + AllocationPageRecord" where
  "GetExtentPage volumeID pageNo r =
     (case mget (mVolumes r) volumeID of
        None \<Rightarrow> Inl ErrVolumeNotFound
      | Some volume \<Rightarrow>
          (case mget (pages_of r volumeID) pageNo of
             None \<Rightarrow> Inr \<lparr>pgVolumeID = volumeID, pgPageNo = pageNo,
                          pgPageBytes = vExtentPageBytes volume,
                          pgChunkSizeBytes = vChunkSizeBytes volume,
                          pgRevision = 0, pgExtents = []\<rparr>
           | Some rec \<Rightarrow> Inr (cloneAllocationPage rec)))"

definition ListExtentPages :: "u64 \<Rightarrow> repo \<Rightarrow> service_error + AllocationPageRecord list" where
  "ListExtentPages volumeID r =
     (if \<not> volume_exists r volumeID then Inl ErrVolumeNotFound
      else Inr (sort_key pgPageNo (map cloneAllocationPage (mvalues (pages_of r volumeID)))))"

definition PutExtentPage ::
    "AllocationPageRecord \<Rightarrow> 64 word \<Rightarrow> repo \<Rightarrow> (service_error + AllocationPageRecord) \<times> repo" where
  "PutExtentPage rec0 expectedRevision r =
     (case mget (mVolumes r) (pgVolumeID rec0) of
        None \<Rightarrow> (Inl ErrVolumeNotFound, r)
      | Some volume \<Rightarrow>
          let rec1 = rec0\<lparr>pgPageBytes := (if pgPageBytes rec0 = 0 then vExtentPageBytes volume
                                         else pgPageBytes rec0),
                          pgChunkSizeBytes := (if pgChunkSizeBytes rec0 = 0 then vChunkSizeBytes volume
                                               else pgChunkSizeBytes rec0)\<rparr>;
              r1 = (if mget (mExtentPages r) (pgVolumeID rec0) = None
                    then r\<lparr>mExtentPages := mput (pgVolumeID rec0) [] (mExtentPages r)\<rparr> else r);
              currentRevision = (case mget (pages_of r1 (pgVolumeID rec0)) (pgPageNo rec0) of
                                   None \<Rightarrow> 0 | Some current \<Rightarrow> pgRevision current)
          in if currentRevision \<noteq> expectedRevision then (Inl ErrMetadataCASConflict, r1)
             else
               let rec = rec1\<lparr>pgRevision := currentRevision + 1\<rparr>
               in (Inr (cloneAllocationPage rec),
                   r1\<lparr>mExtentPages := mput (pgVolumeID rec0)
                        (mput (pgPageNo rec0) rec (pages_of r1 (pgVolumeID rec0))) (mExtentPages r1)\<rparr>))"

subsection \<open>Chunk ids and chunk garbage\<close>

definition AllocateChunkIDs :: "u64 \<Rightarrow> u32 \<Rightarrow> repo \<Rightarrow> (service_error + u64) \<times> repo" where
  "AllocateChunkIDs volumeID count r =
     (if \<not> volume_exists r volumeID then (Inl ErrVolumeNotFound, r)
      else if count = 0 then (Inr 0, r)
      else
        let next0 = mget_or 0 (mNextChunkID r) volumeID;
            next = (if next0 = 0 then 1 else next0)
        in (Inr next, r\<lparr>mNextChunkID := mput volumeID (next + ucast count) (mNextChunkID r)\<rparr>))"

definition PutChunkGarbage ::
    "int \<Rightarrow> AllocationChunkGarbageRecord \<Rightarrow> repo \<Rightarrow> (service_error + unit) \<times> repo" where
  "PutChunkGarbage now rec0 r =
     (if \<not> volume_exists r (gcVolumeID rec0) then (Inl ErrVolumeNotFound, r)
      else
        let rec = rec0\<lparr>gcEnqueuedAtUnix := (if gcEnqueuedAtUnix rec0 = 0 then now
                                            else gcEnqueuedAtUnix rec0)\<rparr>
        in (Inr (), r\<lparr>mChunkGC := mput (gcVolumeID rec0)
              (mput (gcChunkID rec) rec (garbage_of r (gcVolumeID rec0))) (mChunkGC r)\<rparr>))"

definition ListChunkGarbage :: "u64 \<Rightarrow> int \<Rightarrow> repo \<Rightarrow> service_error + AllocationChunkGarbageRecord list" where
  "ListChunkGarbage volumeID limit r =
     (if \<not> volume_exists r volumeID then Inl ErrVolumeNotFound
      else
        let records = sort_key (\<lambda>rec. (gcEnqueuedAtUnix rec, gcChunkID rec))
                        (mvalues (garbage_of r volumeID))
        in Inr (if limit > 0 \<and> int (length records) > limit then take (nat limit) records
                else records))"

definition DeleteChunkGarbage :: "u64 \<Rightarrow> u64 \<Rightarrow> repo \<Rightarrow> (service_error + unit) \<times> repo" where
  "DeleteChunkGarbage volumeID chunkID r =
     (if \<not> volume_exists r volumeID then (Inl ErrVolumeNotFound, r)
      else case mget (mChunkGC r) volumeID of
             None \<Rightarrow> (Inr (), r)
           | Some m \<Rightarrow> (Inr (), r\<lparr>mChunkGC := mput volumeID (mdel chunkID m) (mChunkGC r)\<rparr>))"

subsection \<open>The repository as a machine\<close>

text \<open>The state-changing methods, as steps that a sequence of callers may take in any order.\<close>

datatype repo_op =
    OpEnsureVolume VolumeSpec
  | OpSyncVolumeSpec VolumeSpec
  | OpCreateVolume "u32 option list" VolumeCreateRequest
  | OpUpdateVolume u64 VolumeUpdateRequest
  | OpDeleteVolume u64
  | OpPutVolumeStatus VolumeStatusRecord
  | OpSetVolumeState u64 string
  | OpUnsafeClearAttachment u64
  | OpUnsafeSetGeneration u64 u64
  | OpAttach int AttachRequest
  | OpDetach DetachRequest
  | OpPutGateway GatewayRecord
  | OpPutExtentPage AllocationPageRecord "64 word"
  | OpAllocateChunkIDs u64 u32
  | OpPutChunkGarbage int AllocationChunkGarbageRecord
  | OpDeleteChunkGarbage u64 u64

fun run_op :: "repo_op \<Rightarrow> repo \<Rightarrow> repo" where
  "run_op (OpEnsureVolume v) r = snd (EnsureVolume v r)"
| "run_op (OpSyncVolumeSpec v) r = snd (SyncVolumeSpec v r)"
| "run_op (OpCreateVolume draws req) r = snd (CreateVolume draws req r)"
| "run_op (OpUpdateVolume i req) r = snd (UpdateVolume i req r)"
| "run_op (OpDeleteVolume i) r = snd (DeleteVolume i r)"
| "run_op (OpPutVolumeStatus st) r = snd (PutVolumeStatus st r)"
| "run_op (OpSetVolumeState i st) r = snd (SetVolumeState i st r)"
| "run_op (OpUnsafeClearAttachment i) r = snd (UnsafeClearAttachment i r)"
| "run_op (OpUnsafeSetGeneration i g) r = snd (UnsafeSetGeneration i g r)"
| "run_op (OpAttach now req) r = snd (Attach now req r)"
| "run_op (OpDetach req) r = snd (Detach req r)"
| "run_op (OpPutGateway g) r = snd (PutGateway g r)"
| "run_op (OpPutExtentPage p e) r = snd (PutExtentPage p e r)"
| "run_op (OpAllocateChunkIDs i n) r = snd (AllocateChunkIDs i n r)"
| "run_op (OpPutChunkGarbage now g) r = snd (PutChunkGarbage now g r)"
| "run_op (OpDeleteChunkGarbage i c) r = snd (DeleteChunkGarbage i c r)"

definition run_ops :: "repo_op list \<Rightarrow> repo \<Rightarrow> repo" where
  "run_ops ops r = fold run_op ops r"

lemma run_ops_simps [simp]:
  "run_ops [] r = r" "run_ops (p # ops) r = run_ops ops (run_op p r)"
  "run_ops (ops @ ops') r = run_ops ops' (run_ops ops r)"
  by (simp_all add: run_ops_def)

lemma clone_simps [simp]:
  "cloneVolumeSpec v = v" "cloneChunkPayloadEncryptionHeader h = h" "cloneAllocationPage p = p"
  by (simp_all add: cloneVolumeSpec_def cloneChunkPayloadEncryptionHeader_def cloneAllocationPage_def)

subsection \<open>The well-formedness invariant\<close>

definition attachment_wf :: "AttachmentRecord \<Rightarrow> bool" where
  "attachment_wf a \<longleftrightarrow> (aHostID a \<noteq> '''' \<longrightarrow> aAttachmentID a \<noteq> '''')"

definition pages_wf :: "u64 \<Rightarrow> (u64, AllocationPageRecord) gomap \<Rightarrow> bool" where
  "pages_wf i ps \<longleftrightarrow> wf_map ps \<and> (\<forall>n p. mget ps n = Some p \<longrightarrow> pgVolumeID p = i \<and> pgPageNo p = n)"

definition garbage_wf :: "u64 \<Rightarrow> (u64, AllocationChunkGarbageRecord) gomap \<Rightarrow> bool" where
  "garbage_wf i gs \<longleftrightarrow> wf_map gs \<and> (\<forall>c g. mget gs c = Some g \<longrightarrow> gcVolumeID g = i \<and> gcChunkID g = c)"

definition volume_wf :: "u64 \<Rightarrow> VolumeSpec \<Rightarrow> bool" where
  "volume_wf i v \<longleftrightarrow> vID v = i \<and> vBlockSize v \<noteq> 0 \<and> vChunkSizeBytes v \<noteq> 0 \<and> vExtentPageBytes v \<noteq> 0"

definition entry_wf :: "('v \<Rightarrow> bool) \<Rightarrow> bool \<Rightarrow> 'v option \<Rightarrow> bool" where
  "entry_wf P present e \<longleftrightarrow> (case e of None \<Rightarrow> \<not> present | Some x \<Rightarrow> present \<and> P x)"

lemma entry_wf_simps [simp]:
  "entry_wf P True (Some x) = P x" "entry_wf P False None" "\<not> entry_wf P True None"
  "\<not> entry_wf P False (Some x)"
  by (simp_all add: entry_wf_def)

definition slot_wf :: "repo \<Rightarrow> u64 \<Rightarrow> bool" where
  "slot_wf r i \<longleftrightarrow>
     entry_wf (volume_wf i) (volume_exists r i) (mget (mVolumes r) i)
     \<and> entry_wf attachment_wf (volume_exists r i) (mget (mState r) i)
     \<and> entry_wf (\<lambda>st. sVolumeID st = i) (volume_exists r i) (mget (mStatus r) i)
     \<and> entry_wf (pages_wf i) (volume_exists r i) (mget (mExtentPages r) i)
     \<and> entry_wf (\<lambda>_. True) (volume_exists r i) (mget (mNextChunkID r) i)
     \<and> entry_wf (garbage_wf i) (volume_exists r i) (mget (mChunkGC r) i)"

definition maps_wf :: "repo \<Rightarrow> bool" where
  "maps_wf r \<longleftrightarrow> wf_map (mVolumes r) \<and> wf_map (mState r) \<and> wf_map (mStatus r) \<and> wf_map (mGateway r)
     \<and> wf_map (mExtentPages r) \<and> wf_map (mNextChunkID r) \<and> wf_map (mChunkGC r)
     \<and> (\<forall>k g. mget (mGateway r) k = Some g \<longrightarrow> gGatewayID g = k)"

definition repo_wf :: "repo \<Rightarrow> bool" where
  "repo_wf r \<longleftrightarrow> maps_wf r \<and> (\<forall>i. slot_wf r i)"

lemma repo_wfI [inv_intros]: "maps_wf r \<Longrightarrow> (\<And>i. slot_wf r i) \<Longrightarrow> repo_wf r"
  by (simp add: repo_wf_def)

lemma repo_wfD: "repo_wf r \<Longrightarrow> maps_wf r" "repo_wf r \<Longrightarrow> slot_wf r i"
  by (simp_all add: repo_wf_def)

lemmas wf_defs = repo_wf_def maps_wf_def slot_wf_def volume_exists_def

lemma slot_present:
  assumes "slot_wf r i" "volume_exists r i"
  obtains v a st ps k gs where "mget (mVolumes r) i = Some v" "volume_wf i v"
    "mget (mState r) i = Some a" "attachment_wf a" "mget (mStatus r) i = Some st" "sVolumeID st = i"
    "mget (mExtentPages r) i = Some ps" "pages_wf i ps" "mget (mNextChunkID r) i = Some k"
    "mget (mChunkGC r) i = Some gs" "garbage_wf i gs"
  using assms by (auto simp: slot_wf_def entry_wf_def split: option.splits)

lemma volume_wf_normalize [simp]: "volume_wf i (NormalizeVolumeSpec v) \<longleftrightarrow> vID v = i"
  by (simp add: volume_wf_def)

lemma repo_wf_volumes:
  assumes "repo_wf r" "volume_exists r i" "volume_wf i v"
  shows "repo_wf (r\<lparr>mVolumes := mput i v (mVolumes r)\<rparr>)"
proof (rule repo_wfI)
  show "maps_wf (r\<lparr>mVolumes := mput i v (mVolumes r)\<rparr>)"
    using assms(1) by (simp add: wf_defs)
  show "slot_wf (r\<lparr>mVolumes := mput i v (mVolumes r)\<rparr>) j" for j
    using assms repo_wfD(2)[OF assms(1), of j] by (auto simp: slot_wf_def volume_exists_def)
qed

lemma repo_wf_add:
  assumes "repo_wf r" "volume_wf (vID v) v"
  shows "repo_wf (add_volume v r)"
proof (rule repo_wfI)
  show "maps_wf (add_volume v r)"
    using assms(1) by (simp add: wf_defs add_volume_def)
  show "slot_wf (add_volume v r) j" for j
    using assms repo_wfD(2)[OF assms(1), of j]
    by (cases "j = vID v")
      (auto simp: slot_wf_def volume_exists_def add_volume_def attachment_wf_def zero_attachment_def
        pages_wf_def garbage_wf_def)
qed

lemma repo_wf_state:
  assumes "repo_wf r" "volume_exists r i" "attachment_wf a" "sVolumeID st = i"
  shows "repo_wf (r\<lparr>mState := mput i a (mState r), mStatus := mput i st (mStatus r)\<rparr>)"
proof (rule repo_wfI)
  let ?r = "r\<lparr>mState := mput i a (mState r), mStatus := mput i st (mStatus r)\<rparr>"
  show "maps_wf ?r"
    using assms(1) by (simp add: wf_defs)
  show "slot_wf ?r j" for j
    using assms repo_wfD(2)[OF assms(1), of j] by (auto simp: slot_wf_def volume_exists_def)
qed

lemma repo_wf_set_volume_state:
  "repo_wf r \<Longrightarrow> repo_wf (set_volume_state i st r)"
  using repo_wf_volumes[of r i] repo_wfD(2)[of r i]
  by (auto simp: set_volume_state_def volume_exists_def slot_wf_def volume_wf_def split: option.splits)

lemma status_of_wf: "repo_wf r \<Longrightarrow> volume_exists r i \<Longrightarrow> sVolumeID (status_of r i) = i"
  by (rule slot_present[of r i]) (auto simp: repo_wfD(2) status_of_def)

subsection \<open>Every operation keeps the invariant\<close>

lemma wf_EnsureVolume: "repo_wf r \<Longrightarrow> repo_wf (snd (EnsureVolume v r))"
  by (simp add: EnsureVolume_def Let_def repo_wf_volumes repo_wf_add)

lemma wf_SyncVolumeSpec: "repo_wf r \<Longrightarrow> repo_wf (snd (SyncVolumeSpec v r))"
  by (simp add: SyncVolumeSpec_def Let_def repo_wf_volumes)

lemma wf_CreateVolume: "repo_wf r \<Longrightarrow> repo_wf (snd (CreateVolume draws req r))"
  by (auto simp: CreateVolume_def Let_def intro!: repo_wf_add split: sum.splits)

lemma rename_volume_wf:
  "rename_volume r i nm v = Inr v' \<Longrightarrow> vID v' = vID v \<and> vBlockSize v' = vBlockSize v
     \<and> vChunkSizeBytes v' = vChunkSizeBytes v \<and> vExtentPageBytes v' = vExtentPageBytes v"
  by (auto simp: rename_volume_def Let_def split: option.splits if_splits)

lemma wf_UpdateVolume: "repo_wf r \<Longrightarrow> repo_wf (snd (UpdateVolume i req r))"
  using repo_wfD(2)[of r i]
  by (auto simp: UpdateVolume_def Let_def slot_wf_def volume_exists_def volume_wf_def
      intro!: repo_wf_volumes dest!: rename_volume_wf split: option.splits sum.splits)

lemma wf_DeleteVolume: "repo_wf r \<Longrightarrow> repo_wf (snd (DeleteVolume i r))"
  by (auto simp: DeleteVolume_def wf_defs split: option.splits)

lemma wf_PutVolumeStatus: "repo_wf r \<Longrightarrow> repo_wf (snd (PutVolumeStatus st r))"
  by (auto simp: PutVolumeStatus_def wf_defs)

lemma wf_SetVolumeState: "repo_wf r \<Longrightarrow> repo_wf (snd (SetVolumeState i st r))"
  using repo_wfD(2)[of r i]
  by (auto simp: SetVolumeState_def Let_def slot_wf_def volume_exists_def volume_wf_def
      intro!: repo_wf_volumes split: option.splits)

lemma wf_UnsafeClearAttachment: "repo_wf r \<Longrightarrow> repo_wf (snd (UnsafeClearAttachment i r))"
  by (auto simp: UnsafeClearAttachment_def Let_def detached_status_def status_of_wf attachment_wf_def
      zero_attachment_def intro!: repo_wf_set_volume_state repo_wf_state)

lemma attachment_of_wf: "repo_wf r \<Longrightarrow> volume_exists r i \<Longrightarrow> attachment_wf (attachment_of r i)"
  by (rule slot_present[of r i]) (auto simp: repo_wfD(2) attachment_of_def)

lemma repo_wf_attachment:
  assumes "repo_wf r" "volume_exists r i" "attachment_wf a"
  shows "repo_wf (r\<lparr>mState := mput i a (mState r)\<rparr>)"
proof (rule repo_wfI)
  show "maps_wf (r\<lparr>mState := mput i a (mState r)\<rparr>)"
    using assms(1) by (simp add: wf_defs)
  show "slot_wf (r\<lparr>mState := mput i a (mState r)\<rparr>) j" for j
    using assms repo_wfD(2)[OF assms(1), of j] by (auto simp: slot_wf_def volume_exists_def)
qed

lemma wf_UnsafeSetGeneration: "repo_wf r \<Longrightarrow> repo_wf (snd (UnsafeSetGeneration i g r))"
  using attachment_of_wf[of r i]
  by (auto simp: UnsafeSetGeneration_def Let_def attachment_wf_def intro!: repo_wf_attachment)

lemma FormatAttachmentID_nonempty [simp]: "FormatAttachmentID v g \<noteq> ''''"
  by (simp add: FormatAttachmentID_def)

lemma wf_Attach: "repo_wf r \<Longrightarrow> repo_wf (snd (Attach now req r))"
  using status_of_wf[of r "arVolumeID req"]
  by (auto simp: Attach_def Let_def volume_exists_def attachment_wf_def
      intro!: repo_wf_set_volume_state repo_wf_state split: option.splits)

lemma wf_Detach: "repo_wf r \<Longrightarrow> repo_wf (snd (Detach req r))"
  using status_of_wf[of r "drVolumeID req"]
  by (auto simp: Detach_def Let_def attachment_wf_def detached_status_def
      intro!: repo_wf_set_volume_state repo_wf_state)

lemma wf_PutGateway: "repo_wf r \<Longrightarrow> repo_wf (snd (PutGateway g r))"
  by (auto simp: PutGateway_def wf_defs)

lemma repo_wf_pages:
  assumes "repo_wf r" "volume_exists r i" "pages_wf i ps"
  shows "repo_wf (r\<lparr>mExtentPages := mput i ps (mExtentPages r)\<rparr>)"
proof (rule repo_wfI)
  show "maps_wf (r\<lparr>mExtentPages := mput i ps (mExtentPages r)\<rparr>)"
    using assms(1) by (simp add: wf_defs)
  show "slot_wf (r\<lparr>mExtentPages := mput i ps (mExtentPages r)\<rparr>) j" for j
    using assms repo_wfD(2)[OF assms(1), of j] by (auto simp: slot_wf_def volume_exists_def)
qed

lemma pages_of_wf: "repo_wf r \<Longrightarrow> volume_exists r i \<Longrightarrow> pages_wf i (pages_of r i)"
  by (rule slot_present[of r i]) (auto simp: repo_wfD(2) pages_of_def)

lemma garbage_of_wf: "repo_wf r \<Longrightarrow> volume_exists r i \<Longrightarrow> garbage_wf i (garbage_of r i)"
  by (rule slot_present[of r i]) (auto simp: repo_wfD(2) garbage_of_def)

text \<open>On a well-formed repository the page map of an existing volume is there.\<close>

lemma PutExtentPage_wf_eq:
  assumes "repo_wf r"
  shows "PutExtentPage p e r =
     (case mget (mVolumes r) (pgVolumeID p) of
        None \<Rightarrow> (Inl ErrVolumeNotFound, r)
      | Some v \<Rightarrow>
          let cur = (case mget (pages_of r (pgVolumeID p)) (pgPageNo p) of
                       None \<Rightarrow> 0 | Some c \<Rightarrow> pgRevision c);
              p' = p\<lparr>pgPageBytes := (if pgPageBytes p = 0 then vExtentPageBytes v else pgPageBytes p),
                     pgChunkSizeBytes := (if pgChunkSizeBytes p = 0 then vChunkSizeBytes v
                                          else pgChunkSizeBytes p),
                     pgRevision := cur + 1\<rparr>
          in if cur \<noteq> e then (Inl ErrMetadataCASConflict, r)
             else (Inr p', r\<lparr>mExtentPages := mput (pgVolumeID p)
                    (mput (pgPageNo p) p' (pages_of r (pgVolumeID p))) (mExtentPages r)\<rparr>))"
proof (cases "mget (mVolumes r) (pgVolumeID p)")
  case (Some v)
  then have "mget (mExtentPages r) (pgVolumeID p) \<noteq> None"
    using repo_wfD(2)[OF assms, of "pgVolumeID p"]
    by (auto simp: slot_wf_def volume_exists_def entry_wf_def split: option.splits)
  with Some show ?thesis
    by (auto simp: PutExtentPage_def Let_def)
qed (simp add: PutExtentPage_def)

lemma pages_wf_mput:
  "pages_wf i ps \<Longrightarrow> pgVolumeID p = i \<Longrightarrow> pgPageNo p = n \<Longrightarrow> pages_wf i (mput n p ps)"
  by (simp add: pages_wf_def)

lemma wf_PutExtentPage:
  assumes "repo_wf r"
  shows "repo_wf (snd (PutExtentPage p e r))"
proof (cases "mget (mVolumes r) (pgVolumeID p)")
  case (Some v)
  then have ex: "volume_exists r (pgVolumeID p)"
    by (simp add: volume_exists_def)
  show ?thesis
    using assms Some repo_wf_pages[OF assms ex pages_wf_mput[OF pages_of_wf[OF assms ex]]]
    by (simp add: PutExtentPage_wf_eq Let_def)
qed (use assms in \<open>simp add: PutExtentPage_wf_eq\<close>)

lemma wf_AllocateChunkIDs: "repo_wf r \<Longrightarrow> repo_wf (snd (AllocateChunkIDs i n r))"
  by (auto simp: AllocateChunkIDs_def Let_def wf_defs)

lemma repo_wf_garbage:
  assumes "repo_wf r" "volume_exists r i" "garbage_wf i gs"
  shows "repo_wf (r\<lparr>mChunkGC := mput i gs (mChunkGC r)\<rparr>)"
proof (rule repo_wfI)
  show "maps_wf (r\<lparr>mChunkGC := mput i gs (mChunkGC r)\<rparr>)"
    using assms(1) by (simp add: wf_defs)
  show "slot_wf (r\<lparr>mChunkGC := mput i gs (mChunkGC r)\<rparr>) j" for j
    using assms repo_wfD(2)[OF assms(1), of j] by (auto simp: slot_wf_def volume_exists_def)
qed

lemma garbage_wf_mput:
  "garbage_wf i gs \<Longrightarrow> gcVolumeID g = i \<Longrightarrow> gcChunkID g = c \<Longrightarrow> garbage_wf i (mput c g gs)"
  by (simp add: garbage_wf_def)

lemma garbage_wf_mdel: "garbage_wf i gs \<Longrightarrow> garbage_wf i (mdel c gs)"
  by (simp add: garbage_wf_def)

lemma wf_PutChunkGarbage: "repo_wf r \<Longrightarrow> repo_wf (snd (PutChunkGarbage now g r))"
  by (simp add: PutChunkGarbage_def Let_def repo_wf_garbage garbage_wf_mput garbage_of_wf)

lemma wf_DeleteChunkGarbage: "repo_wf r \<Longrightarrow> repo_wf (snd (DeleteChunkGarbage i c r))"
  using garbage_of_wf[of r i] repo_wf_garbage[of r i]
  by (auto simp: DeleteChunkGarbage_def garbage_of_def garbage_wf_mdel split: option.splits)

lemmas wf_ops = wf_EnsureVolume wf_SyncVolumeSpec wf_CreateVolume wf_UpdateVolume wf_DeleteVolume
  wf_PutVolumeStatus wf_SetVolumeState wf_UnsafeClearAttachment wf_UnsafeSetGeneration wf_Attach
  wf_Detach wf_PutGateway wf_PutExtentPage wf_AllocateChunkIDs wf_PutChunkGarbage
  wf_DeleteChunkGarbage

lemma wf_run_op: "repo_wf r \<Longrightarrow> repo_wf (run_op p r)"
  by (cases p) (simp_all add: wf_ops)

lemma wf_run_ops: "repo_wf r \<Longrightarrow> repo_wf (run_ops ops r)"
  by (induction ops arbitrary: r) (simp_all add: wf_run_op)

lemma wf_empty: "repo_wf empty_repo"
  by (simp add: wf_defs empty_repo_def)

lemma wf_new: "repo_wf (NewInMemoryMetadataRepository volumes)"
proof -
  have "repo_wf r \<Longrightarrow> repo_wf (fold (\<lambda>v. add_volume (NormalizeVolumeSpec v)) vs r)" for vs r
    by (induction vs arbitrary: r) (simp_all add: repo_wf_add)
  then show ?thesis
    by (simp add: NewInMemoryMetadataRepository_def wf_empty)
qed

text \<open>
  C22. Whatever sequence of operations is run on a new repository, its maps stay consistent: every
  volume has exactly one attachment, status, page map, chunk counter and garbage map and nothing
  else does; volumes, statuses, pages, garbage records and gateways are filed under their own ids;
  a volume's block, chunk and page sizes are never zero; a host is recorded only with an attachment
  id.
\<close>

theorem repository_stays_well_formed:
  "repo_wf (run_ops ops (NewInMemoryMetadataRepository volumes))"
  by (rule wf_run_ops[OF wf_new])

subsection \<open>Fencing: attachment ids are never reissued\<close>

definition current_id :: "repo \<Rightarrow> u64 \<Rightarrow> string" where
  "current_id r v = aAttachmentID (attachment_of r v)"

definition current_gen :: "repo \<Rightarrow> u64 \<Rightarrow> u64" where
  "current_gen r v = aGeneration (attachment_of r v)"

text \<open>The attachment id in force names the generation in force.\<close>

definition id_names_gen :: "repo \<Rightarrow> u64 \<Rightarrow> bool" where
  "id_names_gen r v \<longleftrightarrow>
     (current_id r v \<noteq> '''' \<longrightarrow> current_id r v = FormatAttachmentID v (current_gen r v))"

text \<open>The steps that may not reset the generation of a volume.\<close>

fun keeps_generation :: "repo_op \<Rightarrow> bool" where
  "keeps_generation (OpDeleteVolume _) = False"
| "keeps_generation (OpUnsafeSetGeneration _ _) = False"
| "keeps_generation _ = True"

text \<open>What one such step may do to the attachment of a volume: nothing, or the next generation.\<close>

definition gen_step :: "repo \<Rightarrow> repo \<Rightarrow> u64 \<Rightarrow> bool" where
  "gen_step r r' v \<longleftrightarrow> volume_exists r' v \<and> current_gen r' v \<noteq> 0 \<and> id_names_gen r' v
     \<and> (current_gen r' v = current_gen r v \<and> (current_id r v \<noteq> '''' \<longrightarrow> current_id r' v = current_id r v)
        \<or> current_gen r' v = current_gen r v + 1)"

definition gen_ok :: "repo \<Rightarrow> u64 \<Rightarrow> bool" where
  "gen_ok r v \<longleftrightarrow> volume_exists r v \<and> current_gen r v \<noteq> 0 \<and> id_names_gen r v"

lemma FormatAttachmentID_inject [simp]:
  "FormatAttachmentID v g = FormatAttachmentID v g' \<longleftrightarrow> g = g'"
  by (simp add: FormatAttachmentID_def word_unat_eq_iff)

lemma gen_step_same:
  "gen_ok r v \<Longrightarrow> volume_exists r' v \<Longrightarrow> attachment_of r' v = attachment_of r v \<Longrightarrow> gen_step r r' v"
  by (simp add: gen_step_def gen_ok_def id_names_gen_def current_gen_def current_id_def)

lemma set_volume_state_frame [simp, frame_simps]:
  "attachment_of (set_volume_state i st r) v = attachment_of r v"
  "volume_exists (set_volume_state i st r) v = volume_exists r v"
  by (auto simp: set_volume_state_def attachment_of_def volume_exists_def split: option.splits)

lemma generate_id_fresh: "generate_id n draws m = Inr i \<Longrightarrow> i \<noteq> 0 \<and> mget m i = None"
  by (induction n draws m rule: generate_id.induct) (auto simp: Let_def split: if_splits)

lemma attachment_of_add:
  "attachment_of (add_volume v r) i =
     (if i = vID v then zero_attachment\<lparr>aGeneration := 1\<rparr> else attachment_of r i)"
  by (simp add: add_volume_def attachment_of_def)

lemma volume_exists_add: "volume_exists (add_volume v r) i \<longleftrightarrow> i = vID v \<or> volume_exists r i"
  by (simp add: add_volume_def volume_exists_def)

lemma gen_step_frame:
  assumes "gen_ok r v"
  shows "gen_step r (snd (SyncVolumeSpec s r)) v"
    and "gen_step r (snd (UpdateVolume i req r)) v"
    and "gen_step r (snd (PutVolumeStatus st r)) v"
    and "gen_step r (snd (SetVolumeState i str r)) v"
    and "gen_step r (snd (PutGateway g r)) v"
    and "gen_step r (snd (AllocateChunkIDs i n r)) v"
    and "gen_step r (snd (PutChunkGarbage now gr r)) v"
    and "gen_step r (snd (DeleteChunkGarbage i c r)) v"
  using assms
  by (auto intro!: gen_step_same simp: gen_ok_def attachment_of_def volume_exists_def Let_def
      SyncVolumeSpec_def UpdateVolume_def PutVolumeStatus_def SetVolumeState_def PutGateway_def
      AllocateChunkIDs_def PutChunkGarbage_def DeleteChunkGarbage_def
      split: option.splits sum.splits if_splits)

lemma gen_step_PutExtentPage:
  "gen_ok r v \<Longrightarrow> gen_step r (snd (PutExtentPage p e r)) v"
  by (rule gen_step_same)
    (auto simp: gen_ok_def attachment_of_def volume_exists_def Let_def PutExtentPage_def
      split: option.splits if_splits)

lemma gen_step_EnsureVolume:
  assumes "gen_ok r v"
  shows "gen_step r (snd (EnsureVolume s r)) v"
proof (cases "volume_exists r (vID s)")
  case True
  then show ?thesis
    using assms by (intro gen_step_same) (auto simp: EnsureVolume_def Let_def gen_ok_def attachment_of_def volume_exists_def)
next
  case False
  then have "v \<noteq> vID s"
    using assms by (auto simp: gen_ok_def)
  then show ?thesis
    using assms False
    by (intro gen_step_same) (auto simp: EnsureVolume_def Let_def gen_ok_def attachment_of_add volume_exists_add)
qed

lemma gen_step_CreateVolume:
  assumes "gen_ok r v"
  shows "gen_step r (snd (CreateVolume draws req r)) v"
proof (cases "generateUniqueVolumeIDMemory draws (mVolumes r)")
  case (Inr i)
  then have "v \<noteq> i"
    using assms generate_id_fresh by (auto simp: generateUniqueVolumeIDMemory_def gen_ok_def volume_exists_def)
  then show ?thesis
    using assms Inr
    by (intro gen_step_same) (auto simp: CreateVolume_def Let_def gen_ok_def attachment_of_add volume_exists_add)
qed (use assms in \<open>auto intro!: gen_step_same simp: CreateVolume_def Let_def gen_ok_def\<close>)

lemma attachment_of_upd [simp]:
  "attachment_of (r\<lparr>mState := mput i a (mState r), mStatus := s\<rparr>) v =
     (if v = i then a else attachment_of r v)"
  "volume_exists (r\<lparr>mState := m, mStatus := s\<rparr>) v = volume_exists r v"
  by (simp_all add: attachment_of_def volume_exists_def)

lemma succ_nonzero: "(g :: 'a::len word) \<noteq> - 1 \<Longrightarrow> g + 1 \<noteq> 0"
  by (metis add.commute add_eq_0_iff)

lemma gen_step_UnsafeClear:
  assumes "gen_ok r v" "current_gen r v \<noteq> - 1"
  shows "gen_step r (snd (UnsafeClearAttachment i r)) v"
  using assms succ_nonzero[OF assms(2)]
  by (auto simp: UnsafeClearAttachment_def Let_def gen_step_def gen_ok_def current_gen_def
      current_id_def id_names_gen_def zero_attachment_def)

lemma gen_step_Detach:
  assumes "gen_ok r v" "current_gen r v \<noteq> - 1"
  shows "gen_step r (snd (Detach req r)) v"
  using assms succ_nonzero[OF assms(2)]
  by (auto simp: Detach_def Let_def gen_step_def gen_ok_def current_gen_def
      current_id_def id_names_gen_def)

lemma gen_step_Attach:
  assumes "gen_ok r v" "current_gen r v \<noteq> - 1"
  shows "gen_step r (snd (Attach now req r)) v"
proof (cases "v = arVolumeID req")
  case True
  then show ?thesis
    using assms succ_nonzero[OF assms(2)]
    by (auto simp: Attach_def Let_def gen_step_def gen_ok_def current_gen_def
        current_id_def id_names_gen_def split: option.splits)
next
  case False
  then show ?thesis
    using assms
    by (intro gen_step_same) (auto simp: Attach_def Let_def gen_ok_def
        split: option.splits)
qed

lemma run_op_gen_step:
  assumes "gen_ok r v" "keeps_generation p" "current_gen r v \<noteq> - 1"
  shows "gen_step r (run_op p r) v"
  using assms
  by (cases p) (simp_all add: gen_step_frame gen_step_PutExtentPage gen_step_EnsureVolume
      gen_step_CreateVolume gen_step_UnsafeClear gen_step_Detach gen_step_Attach)

lemma run_ops_gen:
  assumes "gen_ok r v" "\<forall>p \<in> set ops. keeps_generation p"
    and "unat (current_gen r v) + length ops < 2 ^ 64"
  shows "gen_ok (run_ops ops r) v
    \<and> unat (current_gen r v) \<le> unat (current_gen (run_ops ops r) v)
    \<and> unat (current_gen (run_ops ops r) v) \<le> unat (current_gen r v) + length ops
    \<and> (current_gen (run_ops ops r) v = current_gen r v \<and> current_id r v \<noteq> ''''
         \<longrightarrow> current_id (run_ops ops r) v = current_id r v)"
  using assms
proof (induction ops arbitrary: r)
  case Nil
  then show ?case by simp
next
  case (Cons p ops)
  let ?r = "run_op p r"
  have room: "unat (current_gen r v) + 1 < 2 ^ 64"
    using Cons.prems(3) by simp
  then have "current_gen r v \<noteq> - 1"
    by (auto simp: unsigned_minus_1_eq_mask mask_eq_exp_minus_1)
  then have step: "gen_step r ?r v"
    using Cons.prems(1,2) by (intro run_op_gen_step) auto
  then have ok: "gen_ok ?r v"
    by (simp add: gen_step_def gen_ok_def)
  have succ: "unat (current_gen r v + 1) = unat (current_gen r v) + 1"
    using room by (simp add: unat_word_ariths)
  have up: "unat (current_gen r v) \<le> unat (current_gen ?r v)"
    "unat (current_gen ?r v) \<le> unat (current_gen r v) + 1"
    using step succ by (auto simp: gen_step_def)
  have keep: "current_gen ?r v = current_gen r v \<Longrightarrow> current_id r v \<noteq> '''' \<Longrightarrow> current_id ?r v = current_id r v"
    using step succ by (auto simp: gen_step_def word_unat_eq_iff)
  have "\<forall>p \<in> set ops. keeps_generation p" "unat (current_gen ?r v) + length ops < 2 ^ 64"
    using Cons.prems(2,3) up by auto
  from Cons.IH[OF ok this] up keep show ?case
    by (auto simp: word_unat_eq_iff)
qed

lemma attachment_id_gone:
  assumes "gen_ok r v" "current_id r v = X" "X \<noteq> ''''"
    and "\<forall>p \<in> set (ops1 @ ops2). keeps_generation p"
    and "unat (current_gen r v) + length (ops1 @ ops2) < 2 ^ 64"
    and "current_id (run_ops ops1 r) v \<noteq> X"
  shows "current_id (run_ops (ops1 @ ops2) r) v \<noteq> X"
proof
  let ?r1 = "run_ops ops1 r" and ?r2 = "run_ops ops2 (run_ops ops1 r)"
  assume "current_id (run_ops (ops1 @ ops2) r) v = X"
  then have same: "current_id ?r2 v = current_id r v"
    using assms(2) by simp
  note s1 = run_ops_gen[OF assms(1), of ops1]
  have ok1: "gen_ok ?r1 v" "unat (current_gen r v) \<le> unat (current_gen ?r1 v)"
    "unat (current_gen ?r1 v) \<le> unat (current_gen r v) + length ops1"
    using s1 assms(4,5) by auto
  note s2 = run_ops_gen[OF ok1(1), of ops2]
  have s2': "gen_ok ?r2 v" "unat (current_gen ?r1 v) \<le> unat (current_gen ?r2 v)"
    using s2 assms(4,5) ok1(3) by auto
  have "current_gen ?r2 v = current_gen r v"
    using same assms(1,2,3) s2'(1) by (auto simp: gen_ok_def id_names_gen_def)
  then have "current_gen ?r1 v = current_gen r v"
    using ok1(2) s2'(2) by (simp add: word_unat_eq_iff)
  then show False
    using s1 assms by auto
qed

text \<open>
  C23. Fencing. Once an attachment id is no longer the current one of its volume (the host was
  detached, cleared, or another gateway took over), no later sequence of operations makes it
  current again, as long as the volume is not deleted, its generation not overwritten by hand and
  the 64-bit generation counter does not wrap.
\<close>

theorem attachment_id_never_reissued:
  assumes "gen_ok r v" "current_id r v = X" "X \<noteq> ''''"
    and "\<forall>p \<in> set (ops1 @ ops2). keeps_generation p"
    and "unat (current_gen r v) + length (ops1 @ ops2) < 2 ^ 64"
    and "current_id (run_ops ops1 r) v \<noteq> X"
  shows "current_id (run_ops (ops1 @ ops2) r) v \<noteq> X"
  using assms by (rule attachment_id_gone)

subsection \<open>Compare-and-swap on pages, fresh chunk ids\<close>

definition page_revision :: "repo \<Rightarrow> u64 \<Rightarrow> u64 \<Rightarrow> 64 word" where
  "page_revision r v n = (case mget (pages_of r v) n of None \<Rightarrow> 0 | Some p \<Rightarrow> pgRevision p)"

text \<open>
  C24. A page write succeeds exactly when the caller knows the page's current revision. It then
  stores the page under the next revision and touches no other page of any volume, so of two
  writers that read the same revision at most one succeeds. A failed write changes nothing.
\<close>

theorem PutExtentPage_compare_and_swap:
  assumes "repo_wf r" "volume_exists r (pgVolumeID p)"
  shows "if page_revision r (pgVolumeID p) (pgPageNo p) = e
     then \<exists>p' r'. PutExtentPage p e r = (Inr p', r') \<and> pgExtents p' = pgExtents p
       \<and> (\<forall>v n. mget (pages_of r' v) n =
             (if v = pgVolumeID p \<and> n = pgPageNo p then Some p' else mget (pages_of r v) n))
       \<and> page_revision r' (pgVolumeID p) (pgPageNo p) = e + 1
       \<and> (\<forall>q. pgVolumeID q = pgVolumeID p \<and> pgPageNo q = pgPageNo p \<longrightarrow>
             PutExtentPage q e r' = (Inl ErrMetadataCASConflict, r'))
     else PutExtentPage p e r = (Inl ErrMetadataCASConflict, r)"
proof -
  obtain v where v: "mget (mVolumes r) (pgVolumeID p) = Some v"
    using assms(2) by (auto simp: volume_exists_def)
  show ?thesis
  proof (cases "page_revision r (pgVolumeID p) (pgPageNo p) = e")
    case False
    then show ?thesis
      using v by (auto simp: PutExtentPage_wf_eq[OF assms(1)] Let_def page_revision_def)
  next
    case True
    obtain p' r' where put: "PutExtentPage p e r = (Inr p', r')"
      and p': "pgExtents p' = pgExtents p" "pgRevision p' = e + 1"
      and r': "r' = r\<lparr>mExtentPages := mput (pgVolumeID p)
                    (mput (pgPageNo p) p' (pages_of r (pgVolumeID p))) (mExtentPages r)\<rparr>"
      using v True by (auto simp: PutExtentPage_wf_eq[OF assms(1)] Let_def page_revision_def)
    have wf': "repo_wf r'"
      using wf_PutExtentPage[OF assms(1), of p e] put by simp
    have pages: "mget (pages_of r' v) n =
        (if v = pgVolumeID p \<and> n = pgPageNo p then Some p' else mget (pages_of r v) n)" for v n
      by (simp add: r' pages_of_def)
    have volumes: "mVolumes r' = mVolumes r"
      by (simp add: r')
    have second: "PutExtentPage q e r' = (Inl ErrMetadataCASConflict, r')"
      if "pgVolumeID q = pgVolumeID p" "pgPageNo q = pgPageNo p" for q
      using that v p'(2) pages volumes by (simp add: PutExtentPage_wf_eq[OF wf'] Let_def)
    show ?thesis
      using True put p' pages second by (auto simp: page_revision_def)
  qed
qed

definition next_chunk :: "repo \<Rightarrow> u64 \<Rightarrow> u64" where
  "next_chunk r v = (let n = mget_or 0 (mNextChunkID r) v in if n = 0 then 1 else n)"

fun is_delete :: "repo_op \<Rightarrow> bool" where
  "is_delete (OpDeleteVolume _) = True"
| "is_delete _ = False"

lemma next_chunk_frame:
  "mNextChunkID r' = mNextChunkID r \<Longrightarrow> next_chunk r' v = next_chunk r v"
  by (simp add: next_chunk_def)

lemma next_chunk_add: "v \<noteq> vID s \<Longrightarrow> next_chunk (add_volume s r) v = next_chunk r v"
  by (simp add: next_chunk_def add_volume_def)

lemma set_volume_state_next [simp]: "mNextChunkID (set_volume_state i st r) = mNextChunkID r"
  by (simp add: set_volume_state_def split: option.splits)

lemma run_op_next_frame:
  assumes "volume_exists r v" "\<not> is_delete p" "\<And>i n. p \<noteq> OpAllocateChunkIDs i n"
  shows "volume_exists (run_op p r) v \<and> next_chunk (run_op p r) v = next_chunk r v"
proof (cases p)
  case (OpEnsureVolume s)
  then show ?thesis
    using assms by (cases "v = vID s")
      (auto simp: EnsureVolume_def Let_def add_volume_def next_chunk_def volume_exists_def)
next
  case (OpCreateVolume draws req)
  have "generateUniqueVolumeIDMemory draws (mVolumes r) \<noteq> Inr v"
    using assms(1) generate_id_fresh by (auto simp: generateUniqueVolumeIDMemory_def volume_exists_def)
  with OpCreateVolume assms(1) show ?thesis
    by (auto simp: CreateVolume_def Let_def volume_exists_add next_chunk_add split: sum.splits)
qed (use assms in \<open>auto simp: volume_exists_def Let_def SyncVolumeSpec_def UpdateVolume_def
    PutVolumeStatus_def SetVolumeState_def PutGateway_def PutChunkGarbage_def DeleteChunkGarbage_def
    UnsafeClearAttachment_def UnsafeSetGeneration_def Attach_def Detach_def PutExtentPage_def
    set_volume_state_def intro!: next_chunk_frame split: option.splits sum.splits if_splits\<close>)

lemma AllocateChunkIDs_next:
  assumes "unat (next_chunk r v) + 2 ^ 32 < 2 ^ 64"
  shows "unat (next_chunk r v) \<le> unat (next_chunk (snd (AllocateChunkIDs i n r)) v)
    \<and> unat (next_chunk (snd (AllocateChunkIDs i n r)) v) \<le> unat (next_chunk r v) + 2 ^ 32
    \<and> (volume_exists r v \<and> n \<noteq> 0 \<and> i = v \<longrightarrow>
         fst (AllocateChunkIDs i n r) = Inr (next_chunk r v) \<and>
         unat (next_chunk (snd (AllocateChunkIDs i n r)) v) = unat (next_chunk r v) + unat n)"
proof -
  have n: "unat n < 2 ^ 32"
    using unsigned_less[of n] by simp
  have sum: "unat (next_chunk r v + ucast n) = unat (next_chunk r v) + unat n"
    using assms n by (simp add: unat_word_ariths unsigned_ucast_eq take_bit_nat_eq_self)
  have pos: "next_chunk r v \<noteq> 0"
    by (simp add: next_chunk_def Let_def)
  then have "next_chunk r v + ucast n \<noteq> 0"
    using sum by (simp add: unat_eq_zero[symmetric] del: unat_eq_zero)
  then show ?thesis
    using sum n
    by (auto simp: AllocateChunkIDs_def Let_def next_chunk_def)
qed

lemma run_ops_next:
  assumes "volume_exists r v" "\<forall>p \<in> set ops. \<not> is_delete p"
    and "unat (next_chunk r v) + 2 ^ 32 * length ops < 2 ^ 64"
  shows "volume_exists (run_ops ops r) v
    \<and> unat (next_chunk r v) \<le> unat (next_chunk (run_ops ops r) v)
    \<and> unat (next_chunk (run_ops ops r) v) \<le> unat (next_chunk r v) + 2 ^ 32 * length ops"
  using assms
proof (induction ops arbitrary: r)
  case Nil
  then show ?case by simp
next
  case (Cons p ops)
  have step: "volume_exists (run_op p r) v
    \<and> unat (next_chunk r v) \<le> unat (next_chunk (run_op p r) v)
    \<and> unat (next_chunk (run_op p r) v) \<le> unat (next_chunk r v) + 2 ^ 32"
  proof (cases "\<exists>i n. p = OpAllocateChunkIDs i n")
    case True
    then obtain i n where p: "p = OpAllocateChunkIDs i n" by blast
    have "volume_exists (run_op p r) v"
      using Cons.prems(1) by (simp add: p AllocateChunkIDs_def Let_def volume_exists_def)
    moreover have "unat (next_chunk r v) + 2 ^ 32 < 2 ^ 64"
      using Cons.prems(3) by simp
    ultimately show ?thesis
      using AllocateChunkIDs_next[of r v i n] by (simp add: p)
  next
    case False
    then show ?thesis
      using run_op_next_frame[OF Cons.prems(1), of p] Cons.prems(2) by auto
  qed
  then have "unat (next_chunk (run_op p r) v) + 2 ^ 32 * length ops < 2 ^ 64"
    using Cons.prems(3) by (simp add: algebra_simps)
  then show ?case
    using Cons.IH[of "run_op p r"] step Cons.prems(2) by (auto simp: algebra_simps)
qed

text \<open>
  C25. Chunk ids are handed out at most once: two allocations for a volume, with any operations
  other than deleting the volume in between, return disjoint ranges of non-zero ids (while the
  64-bit counter has room for what the operations in between may take).
\<close>

theorem chunk_ids_never_reused:
  assumes "volume_exists r v" "n \<noteq> 0" "m \<noteq> 0"
    and "AllocateChunkIDs v n r = (Inr s, r1)"
    and "\<forall>p \<in> set ops. \<not> is_delete p"
    and "AllocateChunkIDs v m (run_ops ops r1) = (Inr t, r2)"
    and "unat (next_chunk r v) + 2 ^ 32 * (length ops + 2) < 2 ^ 64"
  shows "0 < unat s \<and> unat s + unat n \<le> unat t"
proof -
  have a1: "s = next_chunk r v" "unat (next_chunk r1 v) = unat s + unat n"
    using AllocateChunkIDs_next[of r v v n] assms by auto
  have n: "unat n < 2 ^ 32"
    using unsigned_less[of n] by simp
  have ex1: "volume_exists r1 v"
    using assms(1,4) by (auto simp: AllocateChunkIDs_def Let_def volume_exists_def split: if_splits)
  have room: "unat (next_chunk r1 v) + 2 ^ 32 * length ops < 2 ^ 64"
    using assms(7) a1 n by (simp add: algebra_simps)
  note mid = run_ops_next[OF ex1 assms(5) room]
  have "unat (next_chunk (run_ops ops r1) v) + 2 ^ 32 < 2 ^ 64"
    using mid assms(7) a1 n by (simp add: algebra_simps)
  then have "t = next_chunk (run_ops ops r1) v"
    using AllocateChunkIDs_next[of "run_ops ops r1" v v m] assms(3,6) mid by auto
  then show ?thesis
    using a1 mid by (simp add: next_chunk_def Let_def unat_gt_0)
qed

subsection \<open>Witnesses\<close>

definition demo_volume :: VolumeSpec where
  "demo_volume = zero_volume\<lparr>vID := 7, vPrefix := ''vol'', vSizeBytes := 1048576\<rparr>"

definition demo_repo :: repo where
  "demo_repo = NewInMemoryMetadataRepository [demo_volume]"

definition demo_attach :: AttachRequest where
  "demo_attach = \<lparr>arVolumeID = 7, arHostID = ''h1'', arDeviceID = 1, arGatewayID = ''gw1''\<rparr>"

definition demo_detach :: DetachRequest where
  "demo_detach = \<lparr>drVolumeID = 7, drHostID = ''h1'', drAttachmentID = ''att-00000007-0001''\<rparr>"

lemma demo_attached:
  "gen_ok (run_ops [OpAttach 100 demo_attach] demo_repo) 7"
  "current_id (run_ops [OpAttach 100 demo_attach] demo_repo) 7 = ''att-00000007-0001''"
  "current_gen (run_ops [OpAttach 100 demo_attach] demo_repo) 7 = 1"
  "current_id (run_ops [OpDetach demo_detach] (run_ops [OpAttach 100 demo_attach] demo_repo)) 7 = ''''"
  by code_simp+

theorem attachment_id_never_reissued_witness:
  "current_id (run_ops ([OpDetach demo_detach] @ [OpAttach 200 demo_attach])
     (run_ops [OpAttach 100 demo_attach] demo_repo)) 7 \<noteq> ''att-00000007-0001''"
  by (rule attachment_id_never_reissued[where X = "''att-00000007-0001''"])
    (simp_all only: demo_attached, simp_all)

definition demo_page :: AllocationPageRecord where
  "demo_page = \<lparr>pgVolumeID = 7, pgPageNo = 0, pgPageBytes = 0, pgChunkSizeBytes = 0, pgRevision = 0,
     pgExtents = []\<rparr>"

lemma demo_repo_wf: "repo_wf demo_repo"
  by (simp add: demo_repo_def wf_new)

theorem PutExtentPage_compare_and_swap_witness:
  "\<exists>p' r'. PutExtentPage demo_page 0 demo_repo = (Inr p', r')
     \<and> PutExtentPage demo_page 0 r' = (Inl ErrMetadataCASConflict, r')"
proof -
  have ex: "volume_exists demo_repo (pgVolumeID demo_page)"
    and rev: "page_revision demo_repo (pgVolumeID demo_page) (pgPageNo demo_page) = 0"
    by code_simp+
  show ?thesis
    using PutExtentPage_compare_and_swap[OF demo_repo_wf ex, of 0] rev by auto
qed

theorem chunk_ids_never_reused_witness:
  "fst (AllocateChunkIDs 7 3 demo_repo) = Inr 1
   \<and> fst (AllocateChunkIDs 7 2 (run_ops [OpAttach 100 demo_attach] (snd (AllocateChunkIDs 7 3 demo_repo)))) = Inr 4
   \<and> unat (1 :: u64) + unat (3 :: u32) \<le> unat (4 :: u64)"
proof -
  let ?a = "AllocateChunkIDs 7 3 demo_repo"
  let ?b = "AllocateChunkIDs 7 2 (run_ops [OpAttach 100 demo_attach] (snd ?a))"
  have ex: "volume_exists demo_repo 7" and n: "next_chunk demo_repo 7 = 1"
    and a: "fst ?a = Inr 1" and b: "fst ?b = Inr 4"
    by code_simp+
  have "?a = (Inr 1, snd ?a)" "?b = (Inr 4, snd ?b)"
    using a b by (metis prod.collapse)+
  then have "0 < unat (1 :: u64) \<and> unat (1 :: u64) + unat (3 :: u32) \<le> unat (4 :: u64)"
    by (intro chunk_ids_never_reused[OF ex, of 3 2 1 "snd ?a" "[OpAttach 100 demo_attach]" 4 "snd ?b"])
      (simp_all add: n)
  with a b show ?thesis by simp
qed

end
