(* ===== verification/MemoryRepository.thy ===== *)
theory MemoryRepository
  imports MemoryMetadata
begin

section \<open>The in-memory repository as an implementation of the interface\<close>

text \<open>
  The methods of \<open>inMemoryMetadataRepository\<close> behind the interface, and the laws of the extent pages
  discharged for them.
\<close>

definition inMemoryRepository :: "repo MetadataRepository" where
  "inMemoryRepository =
     \<lparr>mrEnsureVolume = EnsureVolume, mrCreateVolume = CreateVolume, mrUpdateVolume = UpdateVolume,
      mrDeleteVolume = DeleteVolume, mrGetVolume = GetVolume, mrGetVolumeStatus = GetVolumeStatus,
      mrPutVolumeStatus = PutVolumeStatus, mrListVolumes = ListVolumes,
      mrSetVolumeState = SetVolumeState, mrGetAttachment = GetAttachment,
      mrGetGeneration = GetGeneration, mrUnsafeClearAttachment = UnsafeClearAttachment,
      mrUnsafeSetGeneration = UnsafeSetGeneration, mrAttach = Attach, mrDetach = Detach,
      mrGetGateway = GetGateway, mrListGateways = ListGateways, mrPutGateway = PutGateway,
      mrGetExtentPage = GetExtentPage, mrListExtentPages = ListExtentPages,
      mrPutExtentPage = PutExtentPage, mrAllocateChunkIDs = AllocateChunkIDs,
      mrPutChunkGarbage = PutChunkGarbage, mrListChunkGarbage = ListChunkGarbage,
      mrDeleteChunkGarbage = DeleteChunkGarbage\<rparr>"

definition page_extents :: "repo \<Rightarrow> u64 \<Rightarrow> u64 \<Rightarrow> AllocationChunkRecord list" where
  "page_extents r v n = (case mget (pages_of r v) n of None \<Rightarrow> [] | Some p \<Rightarrow> pgExtents p)"

lemma GetExtentPage_view:
  "GetExtentPage v n r = Inr p \<Longrightarrow> pgExtents p = page_extents r v n \<and> pgRevision p = page_revision r v n"
  by (auto simp: GetExtentPage_def page_extents_def page_revision_def split: option.splits)

lemma PutExtentPage_success:
  assumes "repo_wf r" "PutExtentPage p e r = (Inr p', r')"
  shows "e = page_revision r (pgVolumeID p) (pgPageNo p) \<and> pgExtents p' = pgExtents p
    \<and> pgRevision p' = e + 1
    \<and> r' = r\<lparr>mExtentPages := mput (pgVolumeID p)
              (mput (pgPageNo p) p' (pages_of r (pgVolumeID p))) (mExtentPages r)\<rparr>"
proof (cases "mget (mVolumes r) (pgVolumeID p)")
  case None
  with assms show ?thesis by (simp add: PutExtentPage_wf_eq)
next
  case (Some v)
  let ?cur = "page_revision r (pgVolumeID p) (pgPageNo p)"
  have "?cur = e"
    using assms Some by (auto simp: PutExtentPage_wf_eq Let_def page_revision_def split: if_splits)
  with assms Some show ?thesis
    by (auto simp: PutExtentPage_wf_eq Let_def page_revision_def)
qed

lemma PutExtentPage_failure:
  assumes "repo_wf r" "PutExtentPage p e r = (Inl err, r')"
  shows "r' = r"
  using assms by (auto simp: PutExtentPage_wf_eq Let_def split: option.splits if_splits)

lemma PutExtentPage_view:
  assumes "repo_wf r" "PutExtentPage p e r = (Inr p', r')"
  shows "e = page_revision r (pgVolumeID p) (pgPageNo p)
    \<and> page_extents r' v n = (if v = pgVolumeID p \<and> n = pgPageNo p then pgExtents p else page_extents r v n)
    \<and> page_revision r' v n = (if v = pgVolumeID p \<and> n = pgPageNo p then e + 1 else page_revision r v n)"
  using PutExtentPage_success[OF assms]
  by (simp add: page_extents_def page_revision_def pages_of_def)

lemma PutExtentPage_next:
  assumes "repo_wf r"
  shows "next_chunk (snd (PutExtentPage p e r)) i = next_chunk r i"
proof (cases "PutExtentPage p e r")
  case (Pair res r')
  then show ?thesis
    using PutExtentPage_success[OF assms, of p e _ r'] PutExtentPage_failure[OF assms, of p e _ r']
    by (cases res) (auto intro: next_chunk_frame)
qed

lemma AllocateChunkIDs_view:
  "page_extents (snd (AllocateChunkIDs i c r)) v n = page_extents r v n"
  "page_revision (snd (AllocateChunkIDs i c r)) v n = page_revision r v n"
  "AllocateChunkIDs i c r = (Inl err, r') \<Longrightarrow> r' = r"
  by (auto simp: AllocateChunkIDs_def Let_def page_extents_def page_revision_def pages_of_def
      split: if_splits)

lemma next_chunk_pos: "next_chunk r v \<noteq> 0"
  by (simp add: next_chunk_def Let_def)

lemma AllocateChunkIDs_ids:
  assumes "AllocateChunkIDs v c r = (Inr s, r')" "c \<noteq> 0" "unat (next_chunk r v) + unat c < 2 ^ 64"
  shows "s = next_chunk r v \<and> unat (next_chunk r' v) = unat s + unat c"
proof -
  have "unat (next_chunk r v + ucast c) = unat (next_chunk r v) + unat c"
    using assms(3) by (simp add: unat_word_ariths unsigned_ucast_eq take_bit_nat_eq_self)
  moreover from this have "next_chunk r v + ucast c \<noteq> 0"
    using next_chunk_pos[of r v] by (auto simp: unat_eq_zero dest!: arg_cong[where f = unat])
  ultimately show ?thesis
    using assms(1,2) by (auto simp: AllocateChunkIDs_def Let_def next_chunk_def split: if_splits)
qed

lemma PutChunkGarbage_view:
  "page_extents (snd (PutChunkGarbage now g r)) v n = page_extents r v n"
  "page_revision (snd (PutChunkGarbage now g r)) v n = page_revision r v n"
  "next_chunk (snd (PutChunkGarbage now g r)) v = next_chunk r v"
  by (auto simp: PutChunkGarbage_def Let_def page_extents_def page_revision_def pages_of_def
      intro!: next_chunk_frame)

lemma DeleteChunkGarbage_view:
  "page_extents (snd (DeleteChunkGarbage v' d r)) v n = page_extents r v n"
  "page_revision (snd (DeleteChunkGarbage v' d r)) v n = page_revision r v n"
  "next_chunk (snd (DeleteChunkGarbage v' d r)) v = next_chunk r v"
  by (auto simp: DeleteChunkGarbage_def page_extents_def page_revision_def pages_of_def
      intro!: next_chunk_frame split: option.splits)

subsection \<open>Garbage and volumes\<close>

definition garbage_refs :: "repo \<Rightarrow> u64 \<Rightarrow> PhysicalChunkRef set" where
  "garbage_refs r v = garbage_ref ` ran (mget (garbage_of r v))"

definition volume_spec :: "repo \<Rightarrow> u64 \<Rightarrow> VolumeSpec option" where
  "volume_spec r v = mget (mVolumes r) v"

lemma PutChunkGarbage_garbage:
  "garbage_refs (snd (PutChunkGarbage now g r)) v \<subseteq>
     (if v = gcVolumeID g then {garbage_ref g} else {}) \<union> garbage_refs r v"
  by (auto simp: PutChunkGarbage_def Let_def garbage_refs_def garbage_of_def garbage_ref_def ran_def
      split: if_splits)

lemma DeleteChunkGarbage_garbage:
  "garbage_refs (snd (DeleteChunkGarbage v' d r)) v \<subseteq> garbage_refs r v"
  by (auto simp: DeleteChunkGarbage_def garbage_refs_def garbage_of_def mget_or_def ran_def
      split: option.splits if_splits)

lemma other_ops_garbage:
  "repo_wf r \<Longrightarrow> garbage_refs (snd (PutExtentPage p e r)) v = garbage_refs r v"
  "garbage_refs (snd (AllocateChunkIDs i c r)) v = garbage_refs r v"
  by (auto simp: PutExtentPage_wf_eq AllocateChunkIDs_def Let_def garbage_refs_def garbage_of_def
      split: option.splits)

lemma volume_spec_frame:
  "repo_wf r \<Longrightarrow> volume_spec (snd (PutExtentPage p e r)) v = volume_spec r v"
  "volume_spec (snd (AllocateChunkIDs i c r)) v = volume_spec r v"
  "volume_spec (snd (PutChunkGarbage now g r)) v = volume_spec r v"
  "volume_spec (snd (DeleteChunkGarbage v' d r)) v = volume_spec r v"
  by (auto simp: PutExtentPage_wf_eq AllocateChunkIDs_def PutChunkGarbage_def DeleteChunkGarbage_def
      Let_def volume_spec_def split: option.splits)

lemma wf_pages_of: "repo_wf r \<Longrightarrow> wf_map (pages_of r v)"
  using repo_wfD(2)[of r v]
  by (auto simp: slot_wf_def pages_of_def mget_or_def pages_wf_def entry_wf_def split: option.splits)

lemma wf_garbage_of: "repo_wf r \<Longrightarrow> wf_map (garbage_of r v)"
  using repo_wfD(2)[of r v]
  by (auto simp: slot_wf_def garbage_of_def mget_or_def garbage_wf_def entry_wf_def split: option.splits)

lemma ListChunkGarbage_refs:
  assumes "repo_wf r" "ListChunkGarbage v limit r = Inr gs"
  shows "garbage_ref ` set gs \<subseteq> garbage_refs r v"
proof -
  have "wf_map (garbage_of r v)"
    using assms(1) by (rule wf_garbage_of)
  then show ?thesis
    using assms(2)
    by (auto simp: ListChunkGarbage_def Let_def garbage_refs_def set_mvalues
        split: if_splits dest!: in_set_takeD)
qed

lemma ListExtentPages_extents:
  assumes "repo_wf r" "ListExtentPages v r = Inr ps" "page_extents r v n \<noteq> []"
  shows "\<exists>p \<in> set ps. pgExtents p = page_extents r v n"
proof -
  have "wf_map (pages_of r v)"
    using assms(1) by (rule wf_pages_of)
  then show ?thesis
    using assms(2,3)
    by (auto simp: ListExtentPages_def page_extents_def cloneAllocationPage_def set_mvalues
        split: if_splits option.splits intro!: bexI ranI)
qed

lemma GetVolume_spec: "GetVolume v r = Inr x \<Longrightarrow> volume_spec r v = Some x"
  by (auto simp: GetVolume_def volume_spec_def cloneVolumeSpec_def split: option.splits)

interpretation memrepo: page_repository inMemoryRepository repo_wf page_extents page_revision
    next_chunk garbage_refs volume_spec
  by unfold_locales
    (simp_all add: inMemoryRepository_def GetExtentPage_view wf_ops PutExtentPage_view
      PutExtentPage_next AllocateChunkIDs_view(1,2) AllocateChunkIDs_ids PutChunkGarbage_view
      DeleteChunkGarbage_view DeleteChunkGarbage_garbage PutChunkGarbage_garbage other_ops_garbage
      volume_spec_frame ListChunkGarbage_refs ListExtentPages_extents GetVolume_spec next_chunk_pos,
      auto dest: PutExtentPage_failure AllocateChunkIDs_view(3))

interpretation memrepo: reliable_page_repository inMemoryRepository repo_wf page_extents page_revision
    next_chunk garbage_refs volume_spec
  by unfold_locales
    (auto simp: inMemoryRepository_def GetExtentPage_def PutExtentPage_wf_eq AllocateChunkIDs_def
      PutChunkGarbage_def volume_spec_def volume_exists_def page_revision_def Let_def
      split: option.splits)

end
