(* ===== verification/DataPath.thy ===== *)
theory DataPath
  imports ConcurrentData MemoryRepository
begin

section \<open>Reads and writes of byte ranges\<close>

text \<open>
  The functional behaviour of \<open>ReadAt\<close>, \<open>WriteAt\<close>, \<open>DiscardAt\<close> and \<open>ZeroAt\<close> on a repository and an
  object store that do not fail: a read returns the bytes of the volume, a write changes exactly the
  bytes of its range. The locale \<open>reliable_data_path\<close> adds the laws that calls return to those of
  \<open>data_path\<close>; both are interpreted on the in-memory repository and the in-memory store, and the
  properties of the data path are stated there.
\<close>

text \<open>The 64-bit counters last for \<open>k\<close> more chunk ids and \<open>j\<close> more revisions of each page.\<close>

definition headroom ::
    "('m \<Rightarrow> u64 \<Rightarrow> u64) \<Rightarrow> ('m \<Rightarrow> u64 \<Rightarrow> u64 \<Rightarrow> 64 word) \<Rightarrow> VolumeSpec \<Rightarrow> nat \<Rightarrow> nat \<Rightarrow> 'm \<Rightarrow> bool" where
  "headroom nxt revision v k j m \<longleftrightarrow> unat (nxt m (vID v)) + k + 2 ^ 32 < 2 ^ 64
     \<and> (\<forall>n. unat (revision m (vID v) n) + j + 1 < 2 ^ 64)"

lemma headroom_room: "headroom nxt revision v k j m \<Longrightarrow> id_room nxt revision v m"
  unfolding headroom_def id_room_def by (meson add_lessD1 add_le_mono le_add1 le_less_trans order_refl)

lemma copy_words:
  fixes x a b :: u64
  assumes "unat x \<le> unat a" "unat a \<le> unat b"
  shows "unat (a - x) = unat a - unat x" "unat (a - x + (b - a)) = unat b - unat x"
  using assms by (simp_all add: unat_sub word_le_nat_alt)

locale reliable_data_path = data_path meta minv exts rev nxt garb vol os content ce v
    + reliable_page_repository meta minv exts rev nxt garb vol + reliable_object_store os content
  for meta :: "'m MetadataRepository" and minv exts rev nxt garb vol
    and os :: "'o ObjectStore" and content and ce :: "('m, 'o) chunkExtentDataRepository" and v +
  assumes planner_returns: "cePlanner ce = Some f \<Longrightarrow> \<exists>ref. f v lc x = Inr ref"
begin

subsection \<open>Reads\<close>

lemma volume_known: "inv w \<Longrightarrow> vol (fst w) (vID v) \<noteq> None"
  using invD(6) by blast

lemma readLogicalChunk_ok:
  assumes "inv w" "c < chunks v" "pgExtents p = exts (fst w) (vID v) (of_nat (c div cpp v))"
  shows "\<exists>b. readLogicalChunk ce v p (of_nat c) (snd w) = Inr b \<and> length b = csz v
    \<and> (\<forall>k < csz v. b ! k = byte w (c * csz v + k))"
proof -
  note good = invD(3)[OF assms(1,2)] and zero = invD(7)[OF assms(1)] and cs = vol_okD(5)[OF v_ok]
  show ?thesis
  proof (cases "findAllocationChunk (pgExtents p) (of_nat c)")
    case None
    then show ?thesis
      using assms(3) by (simp add: readLogicalChunk_def cs byte_at chunk_mapping_def lookup_mapping_def zero_mapping_id)
  next
    case (Some x)
    show ?thesis
    proof (cases "xKind x = AllocationChunkKindZero")
      case True
      then show ?thesis
        using assms(3) Some
        by (simp add: readLogicalChunk_def cs byte_at chunk_mapping_def lookup_mapping_def zero_mapping_id)
    next
      case False
      then have m: "mp (fst w) c = \<lparr>amRef = chunkRef x (of_nat c), amPayloadEncryption = xPayloadEncryption x\<rparr>"
        using assms(3) Some by (simp add: chunk_mapping_def lookup_mapping_def)
      then have enc: "xPayloadEncryption x = None"
        using good by (simp add: mapping_good_def)
      have nil: "chunkRef x (of_nat c) = zero_ref" if "mid (fst w) c = 0"
        using good that by (auto simp: mapping_good_def mapping_ok_def zero_mapping_def m)
      have len: "length (pay (chunkRef x (of_nat c)) (snd w)) = csz v"
        using good nil zero by (cases "mid (fst w) c = 0") (auto simp: mapping_good_def m)
      have "readLogicalChunk ce v p (of_nat c) (snd w) = Inr (pay (chunkRef x (of_nat c)) (snd w))"
        using Some False enc len by (simp add: readLogicalChunk_def ce ReadChunkRef_returns cs)
      then show ?thesis
        using len nil zero by (auto simp: byte_at m)
    qed
  qed
qed

text \<open>The words of the part of chunk \<open>c\<close> in a read of \<open>len\<close> bytes at \<open>off\<close>.\<close>

lemma read_words:
  fixes off len :: u64
  assumes "unat off + unat len \<le> unat (vSizeBytes v)" "len \<noteq> 0"
    and "unat off div csz v \<le> c" "c \<le> (unat off + unat len - 1) div csz v"
  shows "c < chunks v" "unat (of_nat c * ucast (vChunkSizeBytes v) :: u64) = c * csz v"
    "unat (of_nat c * ucast (vChunkSizeBytes v) + ucast (vChunkSizeBytes v) :: u64) = c * csz v + csz v"
    "unat (off + len) = unat off + unat len"
    "max (unat off) (c * csz v) < min (unat off + unat len) (c * csz v + csz v)"
    "of_nat c div (ucast (vExtentPageBytes v) div ucast (vChunkSizeBytes v)) = (of_nat (c div cpp v) :: u64)"
proof -
  have cs: "0 < csz v" and len: "0 < unat len"
    using vol_okD(1)[OF v_ok] assms(2) by (simp_all add: unat_gt_0)
  have "c * csz v \<le> unat off + unat len - 1"
    using assms(4) cs by (simp add: less_eq_div_iff_mult_less_eq)
  then have b: "c * csz v < unat off + unat len" "c * csz v < unat (vSizeBytes v)"
    using len assms(1) by auto
  then show c: "c < chunks v"
    using chunks_bound(4)[OF v_ok, of "c * csz v"] cs by simp
  note uc = chunks_less_word(3)[OF v_ok c]
  show start: "unat (of_nat c * ucast (vChunkSizeBytes v) :: u64) = c * csz v"
    using unat_mult_lem[of "of_nat c" "ucast (vChunkSizeBytes v) :: u64"] uc b(2) vol_okD(4)[OF v_ok]
    by (simp add: csz_def)
  show "unat (of_nat c * ucast (vChunkSizeBytes v) + ucast (vChunkSizeBytes v) :: u64) = c * csz v + csz v"
    using unat_add_lem[of "of_nat c * ucast (vChunkSizeBytes v)" "ucast (vChunkSizeBytes v) :: u64"]
      start b(2) vol_okD(4)[OF v_ok] by (simp add: csz_def)
  show "unat (off + len) = unat off + unat len"
    using unat_add_lem[of off len] assms(1) vol_okD(4)[OF v_ok] by simp
  have "unat off < Suc c * csz v"
    using assms(3) cs by (metis div_less_iff_less_mult less_Suc_eq_le)
  then show "max (unat off) (c * csz v) < min (unat off + unat len) (c * csz v + csz v)"
    using b len cs by simp
  have "c div cpp v < 2 ^ 64"
    using c chunks_less_word(2)[OF v_ok] div_le_dividend[of c "cpp v"] by linarith
  then have "unat (of_nat (c div cpp v) :: u64) = c div cpp v"
    by (intro unat_of_nat_length) simp
  then show "of_nat c div (ucast (vExtentPageBytes v) div ucast (vChunkSizeBytes v)) = (of_nat (c div cpp v) :: u64)"
    using uc unat_chunks_per_page[of v] by (simp add: word_unat_eq_iff unat_div_distrib)
qed

lemma read_chunks_ok:
  fixes off len :: u64
  assumes I: "inv w" and R: "unat off + unat len \<le> unat (vSizeBytes v)" "len \<noteq> 0"
    and "unat off div csz v \<le> c" "c + n = Suc ((unat off + unat len - 1) div csz v)"
    and "\<forall>no p. mget cache no = Some p \<longrightarrow> pgExtents p = exts (fst w) (vID v) no"
    and "length out = unat len" "\<forall>t < unat len. unat off + t < c * csz v \<longrightarrow> out ! t = byte w (unat off + t)"
  shows "read_chunks ce v off len w (map of_nat [c..<c + n]) cache out =
    Inr (map (byte w) [unat off..<unat off + unat len])"
  using assms(4-)
proof (induction n arbitrary: c cache out)
  case 0
  have "unat off + unat len - 1 < c * csz v"
    using 0(2) vol_okD(1)[OF v_ok] by (metis add_0_right div_less_iff_less_mult lessI)
  then show ?case
    using 0(4,5) by (auto intro!: nth_equalityI)
next
  case (Suc n)
  let ?cs = "ucast (vChunkSizeBytes v) :: u64"
  let ?page = "of_nat (c div cpp v) :: u64"
  let ?lo = "max (unat off) (c * csz v)" and ?hi = "min (unat off + unat len) (c * csz v + csz v)"
  have c: "c \<le> (unat off + unat len - 1) div csz v" using Suc.prems(2) by simp
  note W = read_words[OF R Suc.prems(1) c]
  obtain p where p: "(case mget cache ?page of Some page \<Rightarrow> Inr page
        | None \<Rightarrow> mrGetExtentPage meta (vID v) ?page (fst w)) = Inr p"
      "pgExtents p = exts (fst w) (vID v) ?page"
    using get_page_returns[OF invD(1)[OF I] volume_known[OF I], of ?page] get_page[OF invD(1)[OF I]]
      Suc.prems(3) by (cases "mget cache ?page") (auto)
  obtain b where b: "readLogicalChunk ce v p (of_nat c) (snd w) = Inr b" "length b = csz v"
      "\<forall>k < csz v. b ! k = byte w (c * csz v + k)"
    using readLogicalChunk_ok[OF I W(1) p(2)] by blast
  let ?start = "maxUint64 off (of_nat c * ?cs)" and ?stop = "minUint64 (off + len) (of_nat c * ?cs + ?cs)"
  have lo: "unat ?start = ?lo" and hi: "unat ?stop = ?hi"
    by (simp_all add: maxUint64_unat minUint64_unat W)
  have d: "unat (?start - off) = ?lo - unat off" "unat (?start - of_nat c * ?cs) = ?lo - c * csz v"
      "unat (?start - off + (?stop - ?start)) = ?hi - unat off"
      "unat (?start - of_nat c * ?cs + (?stop - ?start)) = ?hi - c * csz v"
    using copy_words[of off ?start ?stop] copy_words[of "of_nat c * ?cs" ?start ?stop] W(5)
    unfolding lo hi W(2) by (simp_all only: max.cobounded1 max.cobounded2 less_imp_le simp_thms)
  let ?src = "slice (?lo - c * csz v) (?hi - c * csz v) b"
  let ?out = "splice (?lo - unat off) ?src out"
  have src: "length ?src = ?hi - ?lo"
    using W(5) b(2) by (simp add: slice_def)
  have fits: "?lo - unat off + length ?src \<le> length out"
    using W(5) Suc.prems(4) unfolding src by auto
  have step: "read_chunks ce v off len w (map of_nat [c..<c + Suc n]) cache out =
      read_chunks ce v off len w (map of_nat [Suc c..<Suc c + n]) (mput ?page p cache) ?out"
  proof -
    have "map of_nat [c..<c + Suc n] = of_nat c # (map of_nat [Suc c..<Suc c + n] :: u64 list)"
      by (simp add: upt_conv_Cons del: upt_Suc)
    moreover have "slice_expr (?start - off) (?start - off + (?stop - ?start)) out =
        Inr (slice (?lo - unat off) (?hi - unat off) out)"
      "slice_expr (?start - of_nat c * ?cs) (?start - of_nat c * ?cs + (?stop - ?start)) b = Inr ?src"
      using W(5) b(2) Suc.prems(4) unfolding slice_expr_def d by (simp_all, linarith+)
    ultimately show ?thesis
      by (simp only: read_chunks.simps Let_def W(6) ce(1) p(1) b(1) sum.case prod.case d(1))
  qed
  show ?case
    unfolding step
  proof (rule Suc.IH)
    show "length ?out = unat len"
      using length_splice[OF fits] Suc.prems(4) by simp
    show "\<forall>t < unat len. unat off + t < Suc c * csz v \<longrightarrow> ?out ! t = byte w (unat off + t)"
    proof (intro allI impI)
      fix t assume t: "t < unat len" "unat off + t < Suc c * csz v"
      have nth: "?out ! t = (if ?lo - unat off \<le> t \<and> t < ?hi - unat off
          then b ! (unat off + t - c * csz v) else out ! t)"
        using splice_nth[OF fits, of t] W(5) t(1) Suc.prems(4) b(2) unfolding src
        by (auto simp: slice_nth add.commute[of t])
      show "?out ! t = byte w (unat off + t)"
      proof (cases "unat off + t < c * csz v")
        case True
        then show ?thesis using nth Suc.prems(5) t(1) by auto
      next
        case False
        then show ?thesis using nth b(3)[rule_format, of "unat off + t - c * csz v"] t by auto
      qed
    qed
  qed (use Suc.prems p(2) in auto)
qed

lemma ReadAt_ok:
  assumes "inv w" "unat off + unat len \<le> unat (vSizeBytes v)"
  shows "ReadAt ce v off len w = Inr (map (byte w) [unat off..<unat off + unat len])"
proof (cases "len = 0")
  case False
  note R = assms(2) False
  let ?cs = "ucast (vChunkSizeBytes v) :: u64"
  have "unat (off + len) = unat off + unat len"
    using unat_add_lem[of off len] assms(2) vol_okD(4)[OF v_ok] by simp
  moreover have "0 < unat len" using False by (simp add: unat_gt_0)
  ultimately have "unat (off + len - 1) = unat off + unat len - 1"
    by (metis add_gr_0 unat_0 unat_minus_one less_irrefl)
  then have e: "unat ((off + len - 1) div ?cs) = (unat off + unat len - 1) div csz v"
    by (simp add: unat_div_distrib csz_def)
  have s: "unat (off div ?cs) = unat off div csz v"
    by (simp add: unat_div_distrib csz_def)
  have "unat off div csz v \<le> (unat off + unat len - 1) div csz v"
    using \<open>0 < unat len\<close> by (intro div_le_mono) simp
  then have "unat off div csz v + (Suc ((unat off + unat len - 1) div csz v) - unat off div csz v) =
      Suc ((unat off + unat len - 1) div csz v)" by simp
  from read_chunks_ok[OF assms(1) R order_refl this, of "[]" "replicate (unat len) 0"] this
  have "read_chunks ce v off len w (map of_nat [unat off div csz v..<Suc ((unat off + unat len - 1) div csz v)])
      [] (replicate (unat len) 0) = Inr (map (byte w) [unat off..<unat off + unat len])"
    using times_div_less_eq_dividend[of "csz v" "unat off"]
    by (auto simp del: upt_Suc times_div_less_eq_dividend simp: mult.commute)
  moreover have "ucast (vExtentPageBytes v) div ?cs \<noteq> 0"
    using vol_okD(2)[OF v_ok] unat_chunks_per_page[of v] by (metis unat_0 less_irrefl)
  ultimately show ?thesis
    unfolding ReadAt_def Let_def vol_okD(3)[OF v_ok] s e using False by simp
qed (simp add: ReadAt_def)

subsection \<open>Page writes without interference\<close>

lemma readChunkByMapping_returns:
  "mapping_good content v nx s mapping \<Longrightarrow> \<exists>b. readChunkByMapping ce v mapping s = Inr b \<and> length b = csz v"
  using ReadChunkRef_returns[of v "amRef mapping" s] vol_okD(5)[OF v_ok]
  by (auto simp: readChunkByMapping_def mapping_good_def ce csz_def)

lemma merged_chunk_returns:
  fixes pw j
  defines "start \<equiv> (pwPageStartChunk pw + of_nat j) * pwChunkSize pw"
  defines "lo \<equiv> maxUint64 (pwOffsetBytes pw) start"
    and "hi \<equiv> minUint64 (pwOffsetBytes pw + pwLengthBytes pw) (start + pwChunkSize pw)"
  assumes "pw_ok pw" "pwVolume pw = v" "j < pg_count pw" "in_range pw j" "mapping_good content v nx s mapping"
  shows "\<exists>b. merged_chunk ce pw mapping start lo hi s = Inr b"
proof -
  let ?base = "(pg_first pw + j) * csz v" and ?off = "unat (pwOffsetBytes pw)"
  note W = chunk_words[OF assms(4,6), folded start_def, folded lo_def hi_def, unfolded assms(5)]
  have lt: "chunk_lo pw j < chunk_hi pw j"
    using in_range_iff[OF assms(4,6)] assms(7) by simp
  have bounds: "?base \<le> chunk_lo pw j" "?off \<le> chunk_lo pw j" "chunk_hi pw j \<le> ?base + csz v"
    "chunk_hi pw j - ?off \<le> length (pwData pw)"
    using pw_okD(2)[OF assms(4)] by (auto simp: chunk_lo_def chunk_hi_def assms(5))
  have e: "unat (lo - pwOffsetBytes pw + (hi - lo)) = chunk_hi pw j - ?off"
    "unat (lo - pwOffsetBytes pw) = chunk_lo pw j - ?off"
    "unat (lo - start + (hi - lo)) = chunk_hi pw j - ?base" "unat (lo - start) = chunk_lo pw j - ?base"
    using copy_words[of "pwOffsetBytes pw" lo hi] copy_words[of start lo hi] lt bounds unfolding W by simp_all
  have src: "\<exists>y. slice_expr (lo - pwOffsetBytes pw) (lo - pwOffsetBytes pw + (hi - lo)) (pwData pw) = Inr y"
    unfolding slice_expr_def e using bounds lt by auto
  have dst: "\<exists>y. slice_expr (lo - start) (lo - start + (hi - lo)) b = Inr y" if "length b = csz v" for b
    unfolding slice_expr_def e using bounds lt that by auto
  obtain old where old: "readChunkByMapping ce v mapping s = Inr old" "length old = csz v"
    using readChunkByMapping_returns[OF assms(8)] by blast
  obtain y z where yz: "slice_expr (lo - pwOffsetBytes pw) (lo - pwOffsetBytes pw + (hi - lo)) (pwData pw) = Inr y"
      "slice_expr (lo - start) (lo - start + (hi - lo)) old = Inr z"
    using src dst[OF old(2)] by blast
  show ?thesis
    unfolding merged_chunk_def Let_def assms(5) old(1) yz sum.case prod.case
    by simp
qed

lemma merge_indices_returns:
  assumes "pw_ok pw" "pwVolume pw = v" "\<forall>j \<in> set js. j < pg_count pw \<and> in_range pw j"
    and "\<forall>j < pg_count pw. mapping_good content v nx s (waCurrent a ! j)"
  shows "\<exists>a'. merge_indices ce pw s js a = Inr a' \<and> waPage a' = waPage a
    \<and> length (waPending a') \<le> length (waPending a) + length js"
  using assms(3,4)
proof (induction js arbitrary: a)
  case (Cons j js)
  let ?start = "(pwPageStartChunk pw + of_nat j) * pwChunkSize pw"
  obtain b where b: "merged_chunk ce pw (waCurrent a ! j) ?start (maxUint64 (pwOffsetBytes pw) ?start)
      (minUint64 (pwOffsetBytes pw + pwLengthBytes pw) (?start + pwChunkSize pw)) s = Inr b"
    using merged_chunk_returns[OF assms(1,2), of j nx s "waCurrent a ! j"] Cons.prems by auto
  then have "\<exists>a1. merge_index ce pw s j a = Inr a1 \<and> waCurrent a1 = waCurrent a \<and> waPage a1 = waPage a
      \<and> length (waPending a1) \<le> Suc (length (waPending a))"
    unfolding merge_index_def Let_def by simp
  then obtain a1 where a1: "merge_index ce pw s j a = Inr a1" "waCurrent a1 = waCurrent a" "waPage a1 = waPage a"
      "length (waPending a1) \<le> Suc (length (waPending a))"
    by blast
  then show ?case
    using Cons.IH[of a1] Cons.prems by auto
qed simp

lemma choose_returns: "\<exists>ref. choosePhysicalChunkRef ce v lc x = Inr ref"
proof (cases "cePlanner ce")
  case (Some f)
  obtain ref where "f v lc x = Inr ref"
    using planner_returns[OF Some] by blast
  with Some show ?thesis by (simp add: choosePhysicalChunkRef_def)
qed (simp add: choosePhysicalChunkRef_def)

lemma store_pending_returns:
  assumes "pwVolume pw = v" "\<forall>p \<in> set ps. length (pcPayload p) = csz v"
  shows "\<exists>a' s'. store_pending ce now pw x ps a (m, s) = (Inr a', (m, s')) \<and> waPage a' = waPage a"
  using assms(2)
proof (induction ps arbitrary: x a s)
  case (Cons p ps)
  obtain ref where ref: "choosePhysicalChunkRef ce v (pwPageStartChunk pw + of_nat (pcPageIndex p)) x = Inr ref"
    using choose_returns by blast
  obtain s1 where s1: "WriteChunkRef os v ref (pcPayload p) s = (Inr (), s1)"
    using WriteChunkRef_returns[of "pcPayload p" v ref s] Cons.prems vol_okD(5)[OF v_ok] by auto
  have rest: "\<forall>p \<in> set ps. length (pcPayload p) = csz v"
    using Cons.prems by simp
  let ?old = "amRef (waCurrent a ! pcPageIndex p)"
  show ?case
    using Cons.IH[OF rest, of "x + 1" "a\<lparr>waNew := List.insert ref (waNew a),
        waPending := waPending a @ [p\<lparr>pcRef := ref\<rparr>],
        waStale := (if prChunkID ?old \<noteq> 0 \<and> ?old \<noteq> ref then List.insert ?old (waStale a) else waStale a),
        waNext := (waNext a)[pcPageIndex p := \<lparr>amRef = ref, amPayloadEncryption = None\<rparr>]\<rparr>" s1]
    by (simp add: assms(1) ce Let_def ref s1)
qed simp

lemma recordGarbage_returns:
  assumes "minv m" "vol m (vID v) \<noteq> None"
  shows "\<exists>m'. recordGarbage ce now v refs m = (Inr (), m')"
  using assms
proof (induction refs arbitrary: m)
  case (Cons ref refs)
  let ?g = "\<lparr>gcVolumeID = vID v, gcStoreID = prStoreID ref, gcShardID = prShardID ref,
             gcChunkID = prChunkID ref, gcEnqueuedAtUnix = 0\<rparr>"
  obtain m1 where p: "mrPutChunkGarbage meta now ?g m = (Inr (), m1)"
    using garbage_returns[OF Cons.prems(1), of ?g now] Cons.prems(2) by auto
  then have "minv m1" "vol m1 (vID v) = vol m (vID v)"
    using garbage_frame[OF Cons.prems(1), of now ?g "vID v"] by simp_all
  then show ?case
    using Cons.IH[of m1] Cons.prems(2) p by (simp add: ce)
qed simp

lemma write_run_step:
  "\<not> finished pc \<Longrightarrow> write_step ce now pw pc w = (pc', w') \<Longrightarrow> write_run ce now pw pc w = write_run ce now pw pc' w'"
  by (subst write_run.simps) simp

lemma step_keeps:
  assumes "step_ok pw pc w pc' w'" "\<not> published pc'"
  shows "inv w'" "local_ok pw pc' w'" "\<forall>i < chunks v * csz v. byte w' i = byte w i"
  using assms by (simp_all add: step_ok_def)

text \<open>The first half of a page write, up to the chunks being stored.\<close>

lemma write_prepares:
  assumes "inv w" "pw_ok pw" "pwVolume pw = v" "headroom nxt rev v (pg_count pw + k) j (fst w)"
  shows "\<exists>a w1. write_run ce now pw (Loading 0) w = write_run ce now pw (Validating 0 a) w1
    \<and> inv w1 \<and> local_ok pw (Validating 0 a) w1 \<and> headroom nxt rev v k j (fst w1)
    \<and> (\<forall>i < chunks v * csz v. byte w1 i = byte w i)
    \<and> pgRevision (waPage a) = rev (fst w1) (vID v) (pwPageNo pw)"
proof -
  obtain m s where w: "w = (m, s)" by fastforce
  note room = headroom_room[OF assms(4)] and I = assms(1)
  have minv: "minv m" "vol m (vID v) \<noteq> None"
    using invD(1)[OF I] volume_known[OF I] by (simp_all add: w)
  have L0: "local_ok pw (Loading 0) w"
    using assms(2,3) by (simp add: local_ok_def fresh_def)
  obtain p where p: "mrGetExtentPage meta (vID v) (pwPageNo pw) m = Inr p"
    using get_page_returns[OF minv] by blast
  have s1: "write_step ce now pw (Loading 0) w = (Merging 0 p, w)"
    by (simp add: w p ce assms(3) chunkExtentWriteRetryLimit_def)
  note K1 = step_keeps[OF write_step_ok[OF L0 I room s1], simplified]
  have pc1: "pc_ok pw (Merging 0 p) w" using K1 by (simp add: local_ok_def)
  have cur: "waCurrent (begin_attempt pw p) ! i = mp m (pg_first pw + i)" if "i < pg_count pw" for i
    using begin_attempt_ok[OF I assms(2,3) pc1] that get_page[OF minv(1) p]
    by (simp add: attempt_ok_def Let_def same_rev_def w begin_attempt_def pw_words(3)[OF assms(2)])
  have "\<forall>i < pg_count pw. mapping_good content v (nxt m (vID v)) s (waCurrent (begin_attempt pw p) ! i)"
    using cur invD(3)[OF I] page_chunk(2)[OF assms(2,3)] by (simp add: w)
  then obtain a where a: "merge_indices ce pw s [pwStartIndex pw..<Suc (pwEndIndex pw)] (begin_attempt pw p) = Inr a"
      "waPage a = p" "length (waPending a) \<le> length [pwStartIndex pw..<Suc (pwEndIndex pw)]"
    using merge_indices_returns[OF assms(2,3), of "[pwStartIndex pw..<Suc (pwEndIndex pw)]" "nxt m (vID v)" s
        "begin_attempt pw p"] range_set_bound[OF assms(2)] range_set_indices[of pw]
    by (auto simp: begin_attempt_def Let_def range_set_def simp del: upt_Suc)
  have rev: "pgRevision (waPage a) = rev m (vID v) (pwPageNo pw)"
    using get_page[OF minv(1) p] a(2) by simp
  have pend: "length (waPending a) \<le> pg_count pw"
    using a(3) pw_indices(3)[OF assms(2)] by (simp del: upt_Suc)
  show ?thesis
  proof (cases "waPending a = []")
    case True
    have s2: "write_step ce now pw (Merging 0 p) w = (Validating 0 a, w)"
      by (simp add: w a(1) True del: upt_Suc)
    note K2 = step_keeps[OF write_step_ok[OF K1(2) I room s2], simplified]
    have "headroom nxt rev v k j m"
      using assms(4) by (simp add: headroom_def w)
    then show ?thesis
      using K2 write_run_step[OF _ s1] write_run_step[OF _ s2] rev I by (auto simp: w)
  next
    case False
    have s2: "write_step ce now pw (Merging 0 p) w = (Allocating 0 a, w)"
      by (simp add: w a(1) False del: upt_Suc)
    note K2 = step_keeps[OF write_step_ok[OF K1(2) I room s2], simplified]
    let ?c = "of_nat (length (waPending a)) :: u32"
    obtain x m1 where al: "mrAllocateChunkIDs meta (vID v) ?c m = (Inr x, m1)"
      using alloc_returns[OF minv] by blast
    have s3: "write_step ce now pw (Allocating 0 a) w = (Storing 0 a x, (m1, s))"
      by (simp add: w al ce assms(3))
    note K3 = step_keeps[OF write_step_ok[OF K2(2) I room s3], simplified]
    have "pg_count pw < 2 ^ 32"
      using vol_okD(6)[OF v_ok] assms(3) by (simp add: pg_count_def)
    then have c: "unat ?c = length (waPending a)"
      using pend by (intro unat_of_nat_length) simp
    then have "?c \<noteq> 0" using False by auto
    moreover have "unat (nxt m (vID v)) + unat ?c < 2 ^ 64"
      using assms(4) pend c by (simp add: headroom_def w)
    ultimately have nx: "unat (nxt m1 (vID v)) = unat (nxt m (vID v)) + length (waPending a)"
      using alloc_ids[OF minv(1) al] c by simp
    have rv: "rev m1 (vID v) n = rev m (vID v) n" for n
      using alloc_frame[OF minv(1), of "vID v" ?c "vID v" n] al by simp
    have H: "headroom nxt rev v k j m1"
      using assms(4) nx pend by (simp add: headroom_def w rv)
    have "\<forall>q \<in> set (waPending a). length (pcPayload q) = csz v"
      using K2(2) by (simp add: local_ok_def attempt_ok_def Let_def)
    then obtain a' s' where st: "store_pending ce now pw x (waPending a) (a\<lparr>waPending := []\<rparr>) (m1, s) = (Inr a', (m1, s'))"
        "waPage a' = waPage a"
      using store_pending_returns[OF assms(3), of "waPending a" now x "a\<lparr>waPending := []\<rparr>" m1 s] by auto
    have s4: "write_step ce now pw (Storing 0 a x) (m1, s) = (Validating 0 a', (m1, s'))"
      by (simp add: st)
    have room1: "id_room nxt rev v (fst (m1, s))"
      using headroom_room[OF H] by simp
    note K4 = step_keeps[OF write_step_ok[OF K3(2,1) room1 s4], simplified]
    show ?thesis
      using K3 K4 write_run_step[OF _ s1] write_run_step[OF _ s2] write_run_step[OF _ s3] write_run_step[OF _ s4]
        rev rv st(2) H by (intro exI[of _ a'] exI[of _ "(m1, s')"]) simp
  qed
qed

text \<open>The second half: publication, and the replaced chunks go to the garbage list.\<close>

lemma write_publishes:
  assumes "inv w" "local_ok pw (Validating 0 a) w" "headroom nxt rev v k (Suc j) (fst w)"
    and "pgRevision (waPage a) = rev (fst w) (vID v) (pwPageNo pw)"
  shows "\<exists>w'. write_run ce now pw (Validating 0 a) w = (Inr (), w') \<and> inv w'
    \<and> headroom nxt rev v k j (fst w')
    \<and> (\<forall>i < chunks v * csz v. byte w' i = page_update pw (byte w) i)"
proof -
  obtain m s where w: "w = (m, s)" by fastforce
  note room = headroom_room[OF assms(3)] and I = assms(1)
  have P: "pw_ok pw" "pwVolume pw = v" using assms(2) by (simp_all add: local_ok_def)
  have minv: "minv m" "vol m (vID v) \<noteq> None"
    using invD(1)[OF I] volume_known[OF I] by (simp_all add: w)
  obtain p where p: "mrGetExtentPage meta (vID v) (pwPageNo pw) m = Inr p"
    using get_page_returns[OF minv] by blast
  define c where "c = \<lparr>pmMappings = waNext a, pmRevision = pgRevision (waPage a), pmStale = waStale a\<rparr>"
  have fields: "pmStale c = waStale a" "pmRevision c = rev m (vID v) (pwPageNo pw)"
    using assms(4) by (simp_all add: c_def w)
  have "plan_commit pw a p = Some c"
    using get_page[OF minv(1) p] assms(4) by (simp add: plan_commit_def w c_def)
  then have s1: "write_step ce now pw (Validating 0 a) w = (Committing 0 a c, w)"
    by (simp add: w p ce P(2))
  note K1 = step_keeps[OF write_step_ok[OF assms(2) I room s1], simplified]
  have page: "pgVolumeID (updated_page pw c) = vID v" "pgPageNo (updated_page pw c) = pwPageNo pw"
    by (simp_all add: updated_page_def P(2))
  obtain p' m1 where put: "mrPutExtentPage meta (updated_page pw c) (pmRevision c) m = (Inr p', m1)"
    using put_page_returns[OF minv(1), of "updated_page pw c" "pmRevision c"] minv(2) unfolding page fields
    by blast
  have s2: "write_step ce now pw (Committing 0 a c) w = (Committed (waStale a), (m1, s))"
    using put by (simp add: w ce fields(1))
  have K2: "step_ok pw (Committing 0 a c) w (Committed (waStale a)) (m1, s)"
    by (rule write_step_ok[OF K1(2) I room s2])
  have C: "commits pw a c w m1"
    using K1(2) I room put P by (auto simp: commits_def local_ok_def w)
  have H: "headroom nxt rev v k j m1"
  proof -
    have "unat (rev m (vID v) n + 1) \<le> Suc (unat (rev m (vID v) n))" for n
      using mod_less_eq_dividend[of "unat (rev m (vID v) n) + 1" "2 ^ 64"] by (simp add: unat_word_ariths)
    then have le: "unat (rev m1 (vID v) n) \<le> Suc (unat (rev m (vID v) n))" for n
      by (simp add: commits_put(4)[OF C] w)
    have "unat (rev m (vID v) n) + Suc j + 1 < 2 ^ 64" for n
      using assms(3) unfolding headroom_def w by simp
    then have "unat (rev m1 (vID v) n) + j + 1 < 2 ^ 64" for n
      by (rule le_less_trans[rotated]) (use le[of n] in simp)
    then show ?thesis
      using assms(3) unfolding headroom_def commits_put(5)[OF C] w by simp
  qed
  have I2: "inv (m1, s)" "local_ok pw (Committed (waStale a)) (m1, s)"
      "\<forall>i < chunks v * csz v. byte (m1, s) i = page_update pw (byte w) i"
    using K2 by (simp_all add: step_ok_def)
  obtain m2 where g: "recordGarbage ce now v (waStale a) m1 = (Inr (), m2)"
    using recordGarbage_returns[OF invD(1)[OF I2(1)] volume_known[OF I2(1)]] by auto
  have s3: "write_step ce now pw (Committed (waStale a)) (m1, s) = (Finished (Inr ()), (m2, s))"
    by (simp add: g P(2))
  have room1: "id_room nxt rev v (fst (m1, s))"
    using headroom_room[OF H] by simp
  note K3 = step_keeps[OF write_step_ok[OF I2(2,1) room1 s3], simplified]
  have "headroom nxt rev v k j m2"
    using recordGarbage_ok[OF g invD(1)[OF I2(1), simplified]] H by (simp add: headroom_def quiet_def)
  moreover have "write_run ce now pw (Validating 0 a) w = (Inr (), (m2, s))"
    using write_run_step[OF _ s1] write_run_step[OF _ s2] write_run_step[OF _ s3]
    by (simp add: write_run.simps[of _ _ _ "Finished _"])
  ultimately show ?thesis
    using K3 I2(3) by auto
qed

lemma page_write_ok:
  assumes "inv w" "pw_ok pw" "pwVolume pw = v" "headroom nxt rev v (pg_count pw + k) (Suc j) (fst w)"
  shows "\<exists>w'. writePage ce now pw w = (Inr (), w') \<and> inv w' \<and> headroom nxt rev v k j (fst w')
    \<and> (\<forall>i < chunks v * csz v. byte w' i = page_update pw (byte w) i)"
proof -
  obtain a w1 where A: "write_run ce now pw (Loading 0) w = write_run ce now pw (Validating 0 a) w1"
    "inv w1" "local_ok pw (Validating 0 a) w1" "headroom nxt rev v k (Suc j) (fst w1)"
    "\<forall>i < chunks v * csz v. byte w1 i = byte w i"
    "pgRevision (waPage a) = rev (fst w1) (vID v) (pwPageNo pw)"
    using write_prepares[OF assms] by blast
  have "pwPageChunkCount pw \<noteq> 0" "\<not> pwWriteEnd pw \<le> pwWriteStart pw"
    using pw_words(3,6,7)[OF assms(2)] pw_okD(5,7)[OF assms(2)] by (simp_all add: word_le_nat_alt)
  then have "writePage ce now pw w = write_run ce now pw (Validating 0 a) w1"
    using A(1) by (simp add: writePage_def)
  then show ?thesis
    using write_publishes[OF A(2-4,6), of now] A(5) by (force simp: page_update_def)
qed

subsection \<open>Writes\<close>

lemma page_of_range:
  fixes off len :: u64
  assumes "unat off + unat len \<le> unat (vSizeBytes v)" "len \<noteq> 0" "length data = unat len"
    and "unat off div csz v div cpp v \<le> p" "p \<le> (unat off + unat len - 1) div csz v div cpp v"
  defines "pw \<equiv> \<lparr>pwVolume = v, pwPageNo = of_nat p, pwOffsetBytes = off, pwLengthBytes = len, pwData = data\<rparr>"
  shows "pw_ok pw" "pg_first pw = p * cpp v" "pg_count pw + (chunks v - Suc p * cpp v) = chunks v - p * cpp v"
    "write_lo pw = max (unat off) (p * cpp v * csz v)"
    "write_hi pw = min (unat off + unat len) (min (Suc p * cpp v) (chunks v) * csz v)"
proof -
  have pos: "0 < csz v" "0 < cpp v" and len: "0 < unat len"
    using vol_okD(1,2)[OF v_ok] assms(2) by (simp_all add: unat_gt_0)
  have "p * cpp v * csz v \<le> unat off + unat len - 1"
    using assms(5) pos by (simp add: less_eq_div_iff_mult_less_eq)
  then have below: "p * cpp v * csz v < unat off + unat len"
    using len by simp
  then have first: "p * cpp v < chunks v"
    using assms(1) chunks_bound(2)[OF v_ok] by (metis le_less_trans less_le_trans mult_less_cancel2)
  have "p \<le> p * cpp v" using pos(2) by simp
  then have "p < chunks v" using first by linarith
  then have p: "unat (of_nat p :: u64) = p"
    using chunks_less_word(3)[OF v_ok] by blast
  show pf: "pg_first pw = p * cpp v"
    by (simp add: pg_first_def pw_def p)
  have count: "pg_count pw = min (cpp v) (chunks v - p * cpp v)"
    by (simp add: pg_count_def pf) (simp add: pw_def)
  then show "pg_count pw + (chunks v - Suc p * cpp v) = chunks v - p * cpp v"
    using first by simp
  show lo: "write_lo pw = max (unat off) (p * cpp v * csz v)"
    by (simp add: write_lo_def pf) (simp add: pw_def)
  have "p * cpp v + pg_count pw = min (Suc p * cpp v) (chunks v)"
    using first count by simp
  then show hi: "write_hi pw = min (unat off + unat len) (min (Suc p * cpp v) (chunks v) * csz v)"
    by (simp add: write_hi_def pf) (simp add: pw_def)
  have "unat off < Suc p * cpp v * csz v"
    using assms(4) pos by (metis div_less_iff_less_mult less_Suc_eq_le)
  moreover have "unat off < chunks v * csz v"
    using assms(1) len chunks_bound(2)[OF v_ok] by linarith
  moreover have "p * cpp v * csz v < min (Suc p * cpp v) (chunks v) * csz v"
    using first pos by (intro mult_less_mono1) simp_all
  ultimately have "write_lo pw < write_hi pw"
    using below len by (simp add: lo hi min_def)
  then show "pw_ok pw"
    using v_ok first assms(1,3) unfolding pw_ok_def pf by (simp add: pw_def)
qed

lemma write_pages_ok:
  fixes off len :: u64
  assumes R: "unat off + unat len \<le> unat (vSizeBytes v)" "len \<noteq> 0" "length data = unat len"
    and "inv w" "headroom nxt rev v (chunks v - p * cpp v) n (fst w)"
    and "unat off div csz v div cpp v \<le> p" "p + n = Suc ((unat off + unat len - 1) div csz v div cpp v)"
  shows "\<exists>w'. write_pages ce now v off len data (map of_nat [p..<p + n]) w = (Inr (), w') \<and> inv w'
    \<and> (\<forall>i < chunks v * csz v. byte w' i =
         (if unat off \<le> i \<and> i < unat off + unat len \<and> p * cpp v * csz v \<le> i
          then data ! (i - unat off) else byte w i))"
  using assms(4-)
proof (induction n arbitrary: p w)
  case 0
  have "unat off + unat len - 1 < p * cpp v * csz v"
    using 0(4) vol_okD(1,2)[OF v_ok] by (metis add_0_right div_less_iff_less_mult lessI)
  then show ?case
    using 0(1) by auto
next
  case (Suc n)
  let ?pw = "\<lparr>pwVolume = v, pwPageNo = of_nat p, pwOffsetBytes = off, pwLengthBytes = len, pwData = data\<rparr>"
  have p: "p \<le> (unat off + unat len - 1) div csz v div cpp v" using Suc.prems(4) by simp
  note P = page_of_range[OF R Suc.prems(3) p]
  obtain w1 where w1: "writePage ce now ?pw w = (Inr (), w1)" "inv w1"
      "headroom nxt rev v (chunks v - Suc p * cpp v) n (fst w1)"
      "\<forall>i < chunks v * csz v. byte w1 i = page_update ?pw (byte w) i"
    using page_write_ok[OF Suc.prems(1) P(1), of "chunks v - Suc p * cpp v" n now] Suc.prems(2)
    unfolding P(3) by auto
  have ix: "unat off div csz v div cpp v \<le> Suc p"
      "Suc p + n = Suc ((unat off + unat len - 1) div csz v div cpp v)"
    using Suc.prems(3,4) by simp_all
  obtain w' where w': "write_pages ce now v off len data (map of_nat [Suc p..<Suc p + n]) w1 = (Inr (), w')"
      "inv w'" "\<forall>i < chunks v * csz v. byte w' i =
         (if unat off \<le> i \<and> i < unat off + unat len \<and> Suc p * cpp v * csz v \<le> i
          then data ! (i - unat off) else byte w1 i)"
    using Suc.IH[OF w1(2,3) ix] by blast
  have "write_pages ce now v off len data (map of_nat [p..<p + Suc n]) w = (Inr (), w')"
    using w1(1) w'(1) by (simp add: upt_conv_Cons del: upt_Suc)
  moreover have "byte w' i = (if unat off \<le> i \<and> i < unat off + unat len \<and> p * cpp v * csz v \<le> i
      then data ! (i - unat off) else byte w i)" if i: "i < chunks v * csz v" for i
  proof (cases "i < Suc p * cpp v * csz v")
    case True
    then have "i < min (Suc p * cpp v) (chunks v) * csz v"
      using i by (simp add: min_def)
    then show ?thesis
      using True w'(3) w1(4) i unfolding page_update_def P(4,5) by auto
  next
    case False
    moreover have "\<not> i < min (Suc p * cpp v) (chunks v) * csz v" "p * cpp v * csz v \<le> i"
      by (meson False mult_le_mono1 min.cobounded1 order_less_le_trans not_less le_trans
          le_add2 mult_Suc order.trans mult_le_mono lessI less_imp_le order_refl)+
    ultimately show ?thesis
      using w'(3) w1(4) i unfolding page_update_def P(4,5) by auto
  qed
  ultimately show ?case using w'(2) by blast
qed

text \<open>The page loop takes at most one revision per page and one chunk id per chunk.\<close>

lemma WriteAt_ok:
  assumes "inv w" "unat off + unat len \<le> unat (vSizeBytes v)" "length data = unat len"
    and "headroom nxt rev v (chunks v) (Suc (chunks v)) (fst w)"
  shows "\<exists>w'. WriteAt ce now v off len data w = (Inr (), w') \<and> inv w'
    \<and> (\<forall>i < chunks v * csz v. byte w' i =
         (if unat off \<le> i \<and> i < unat off + unat len then data ! (i - unat off) else byte w i))"
proof (cases "len = 0")
  case False
  note R = assms(2) False assms(3)
  let ?cs = "ucast (vChunkSizeBytes v) :: u64" and ?pp = "ucast (vExtentPageBytes v) div ucast (vChunkSizeBytes v) :: u64"
  have pos: "0 < csz v" "0 < cpp v" and len: "0 < unat len"
    using vol_okD(1,2)[OF v_ok] False by (simp_all add: unat_gt_0)
  have "unat (off + len) = unat off + unat len"
    using unat_add_lem[of off len] assms(2) vol_okD(4)[OF v_ok] by simp
  with len have "unat (off + len - 1) = unat off + unat len - 1"
    by (metis add_gr_0 unat_0 unat_minus_one less_irrefl)
  then have e: "unat ((off + len - 1) div ?cs div ?pp) = (unat off + unat len - 1) div csz v div cpp v"
    by (simp add: unat_div_distrib cpp_def csz_def)
  have s: "unat (off div ?cs div ?pp) = unat off div csz v div cpp v"
    by (simp add: unat_div_distrib cpp_def csz_def)
  define p n where "p = unat off div csz v div cpp v"
    and "n = Suc ((unat off + unat len - 1) div csz v div cpp v) - p"
  have "p \<le> (unat off + unat len - 1) div csz v div cpp v"
    unfolding p_def using len by (intro div_le_mono) simp
  then have pn: "p + n = Suc ((unat off + unat len - 1) div csz v div cpp v)"
    by (simp add: n_def)
  have "(unat off + unat len - 1) div csz v < chunks v"
    using chunks_bound(4)[OF v_ok, of "unat off + unat len - 1"] assms(2) len by simp
  then have "(unat off + unat len - 1) div csz v div cpp v < chunks v"
    by (rule le_less_trans[OF div_le_dividend])
  then have "n \<le> Suc (chunks v)" by (simp add: n_def)
  then have H: "headroom nxt rev v (chunks v - p * cpp v) n (fst w)"
    using assms(4) unfolding headroom_def by (meson add_le_mono diff_le_self le_less_trans order_refl)
  have page: "?pp \<noteq> 0"
    using pos(2) unat_chunks_per_page[of v] by (metis unat_0 less_irrefl)
  have "p * cpp v * csz v \<le> unat off"
    unfolding p_def by (metis div_mult2_eq div_times_less_eq_dividend mult.assoc mult.commute)
  moreover have "WriteAt ce now v off len data w = write_pages ce now v off len data (map of_nat [p..<p + n]) w"
    unfolding WriteAt_def Let_def vol_okD(3)[OF v_ok] s e pn p_def[symmetric] using False page by simp
  ultimately show ?thesis
    using write_pages_ok[OF R assms(1) H _ pn, of now] unfolding p_def[symmetric] by fastforce
qed (use assms(1) in \<open>auto simp: WriteAt_def\<close>)

text \<open>A zeroed range, and an aligned discarded one, read as zeroes; nothing else changes.\<close>

lemma ZeroAt_ok:
  assumes "inv w" "unat off + unat len \<le> unat (vSizeBytes v)"
    and "headroom nxt rev v (chunks v) (Suc (chunks v)) (fst w)"
  shows "\<exists>w'. ZeroAt ce now v off len w = (Inr (), w') \<and> inv w'
    \<and> (\<forall>i < chunks v * csz v. byte w' i = (if unat off \<le> i \<and> i < unat off + unat len then 0 else byte w i))"
  using WriteAt_ok[OF assms(1,2) _ assms(3), of "replicate (unat len) 0" now]
  by (fastforce simp: ZeroAt_def)

lemma DiscardAt_ok:
  assumes "inv w" "unat off + unat len \<le> unat (vSizeBytes v)" "DiscardRangeAligned v off len"
    and "headroom nxt rev v (chunks v) (Suc (chunks v)) (fst w)"
  shows "\<exists>w'. DiscardAt ce now v off len w = (Inr (), w') \<and> inv w'
    \<and> (\<forall>i < chunks v * csz v. byte w' i = (if unat off \<le> i \<and> i < unat off + unat len then 0 else byte w i))"
  using ZeroAt_ok[OF assms(1,2,4), of now] assms(3) by (simp add: DiscardAt_def ZeroAt_def)

end

section \<open>The in-memory gateway\<close>

text \<open>
  The data repository over the in-memory metadata repository and the in-memory store, for any volume
  that fits the address space; \<open>ok_volume\<close> replaces another volume by a small one, so that the
  interpretation holds for every argument.
\<close>

definition small_volume :: VolumeSpec where
  "small_volume = NormalizeVolumeSpec (zero_volume\<lparr>vID := 3, vPrefix := ''v3'', vSizeBytes := 16,
     vChunkSizeBytes := 4, vExtentPageBytes := 8\<rparr>)"

lemma small_volume_ok: "vol_ok small_volume"
  by (simp add: vol_ok_def small_volume_def cpp_def csz_def NormalizeVolumeSpec_idem)
    (simp add: NormalizeVolumeSpec_def zero_volume_def)

lemma small_volume_geometry: "vSizeBytes small_volume = 16" "csz small_volume = 4" "cpp small_volume = 2"
  "chunks small_volume = 4"
  by (simp_all add: small_volume_def NormalizeVolumeSpec_def zero_volume_def chunks_def cpp_def csz_def)

definition ok_volume :: "VolumeSpec \<Rightarrow> VolumeSpec" where
  "ok_volume v = (if vol_ok v then v else small_volume)"

lemma ok_volume_ok: "vol_ok (ok_volume v)"
  by (simp add: ok_volume_def small_volume_ok)

definition memory_data :: "(repo, MemoryStore) chunkExtentDataRepository" where
  "memory_data = NewChunkExtentDataRepository inMemoryRepository memoryStore"

definition memory_collector :: "(repo, MemoryStore) ChunkGarbageCollector" where
  "memory_collector = NewChunkGarbageCollector inMemoryRepository memoryStore"

lemma memory_data_fields: "ceMeta memory_data = inMemoryRepository" "ceChunks memory_data = memoryStore"
  "cePlanner memory_data = None" "gcMeta memory_collector = inMemoryRepository"
  "gcObjects memory_collector = memoryStore"
  by (simp_all add: memory_data_def memory_collector_def NewChunkExtentDataRepository_def
      NewChunkExtentDataRepositoryWithPlanner_def NewChunkGarbageCollector_def)

interpretation memdata: data_path inMemoryRepository repo_wf page_extents page_revision next_chunk
    garbage_refs volume_spec memoryStore "\<lambda>s k. mget s k" memory_data "ok_volume v" for v
  by unfold_locales (simp_all add: memory_data_fields ok_volume_ok)

interpretation memdata: reliable_data_path inMemoryRepository repo_wf page_extents page_revision next_chunk
    garbage_refs volume_spec memoryStore "\<lambda>s k. mget s k" memory_data "ok_volume v" for v
  by unfold_locales (simp_all add: memory_data_fields)

text \<open>The bytes of a volume, its invariant and the room of its counters on this gateway.\<close>

definition memory_bytes :: "VolumeSpec \<Rightarrow> repo \<times> MemoryStore \<Rightarrow> nat \<Rightarrow> u8" where
  "memory_bytes v w = volume_byte page_extents (\<lambda>s k. mget s k) v w"

definition memory_inv :: "VolumeSpec \<Rightarrow> repo \<times> MemoryStore \<Rightarrow> bool" where
  "memory_inv v w = data_inv repo_wf page_extents next_chunk garbage_refs volume_spec (\<lambda>s k. mget s k) v w"

definition memory_room :: "VolumeSpec \<Rightarrow> nat \<Rightarrow> repo \<Rightarrow> bool" where
  "memory_room v k m = headroom next_chunk page_revision v k (Suc k) m"

lemmas memory_defs = memory_bytes_def memory_inv_def memory_room_def

lemma size_bound: "vol_ok v \<Longrightarrow> i < unat (vSizeBytes v) \<Longrightarrow> i < chunks v * csz v"
  using chunks_bound(2)[of v] by simp

subsection \<open>A volume after its creation\<close>

lemma fresh_volume_inv:
  assumes "repo_wf r" "vol_ok v" "\<not> volume_exists r (vID v)"
    and "mget s (buildPhysicalChunkKey (vPrefix v) zero_ref) = None"
  shows "memory_inv v (add_volume v r, s)"
    "memory_bytes v (add_volume v r, s) i = 0"
proof -
  have pages: "page_extents (add_volume v r) (vID v) n = []" for n
    by (simp add: page_extents_def pages_of_def add_volume_def)
  then have mp: "chunk_mapping page_extents v (add_volume v r) c = zero_mapping" for c
    by (simp add: chunk_mapping_def)
  have "volume_wf (vID v) v"
    using vol_okD(3)[OF assms(2)] volume_wf_normalize[of "vID v" v] by simp
  then have wf: "repo_wf (add_volume v r)"
    using assms(1) repo_wf_add[of r v] by simp
  have "chunk_payload (\<lambda>s k. mget s k) v zero_ref s = replicate (csz v) 0"
    using assms(4) by (simp add: chunk_payload_def vol_okD(5)[OF assms(2)])
  moreover have "garbage_refs (add_volume v r) (vID v) = {}"
    by (simp add: garbage_refs_def garbage_of_def add_volume_def ran_def)
  moreover have "volume_spec (add_volume v r) (vID v) = Some v"
    by (simp add: volume_spec_def add_volume_def cloneVolumeSpec_def)
  ultimately show "memory_inv v (add_volume v r, s)"
    using wf by (simp add: memory_inv_def data_inv_def pages mp mapping_good_def zero_mapping_id
        extents_ok_def mapping_ok_def) (simp add: zero_mapping_def)
  show "memory_bytes v (add_volume v r, s) i = 0"
    by (simp add: memory_bytes_def volume_byte_def mp zero_mapping_id Let_def)
qed

lemma fresh_volume_room:
  assumes "k + 2 ^ 33 < 2 ^ 64"
  shows "memory_room v k (add_volume v r)"
  using assms
  by (simp add: memory_room_def headroom_def next_chunk_def page_revision_def pages_of_def add_volume_def)

definition small_world :: "repo \<times> MemoryStore" where
  "small_world = (add_volume small_volume empty_repo, NewMemoryStore)"

lemma small_world_ok: "memory_inv small_volume small_world" "memory_room small_volume 100 (fst small_world)"
  "memory_bytes small_volume small_world i = 0"
  using fresh_volume_inv[OF wf_empty small_volume_ok, of NewMemoryStore]
    fresh_volume_room[of 100 small_volume empty_repo]
  by (simp_all add: small_world_def NewMemoryStore_def volume_exists_def empty_repo_def)

subsection \<open>Properties of the data path\<close>

text \<open>
  C2. A successful write is visible to every later read: on a volume whose invariant holds, a write
  inside the volume succeeds, keeps the invariant, and afterwards every read inside the volume
  returns the new bytes in the written range and the old bytes elsewhere.
\<close>

theorem read_after_write:
  assumes "vol_ok v" "memory_inv v w" "memory_room v (chunks v) (fst w)"
    and "unat off + unat len \<le> unat (vSizeBytes v)" "length data = unat len"
  shows "\<exists>w'. WriteAt memory_data now v off len data w = (Inr (), w') \<and> memory_inv v w'
    \<and> (\<forall>o' l'. unat o' + unat l' \<le> unat (vSizeBytes v) \<longrightarrow>
         ReadAt memory_data v o' l' w = Inr (map (memory_bytes v w) [unat o'..<unat o' + unat l'])
         \<and> ReadAt memory_data v o' l' w' = Inr (map (\<lambda>i. if unat off \<le> i \<and> i < unat off + unat len
              then data ! (i - unat off) else memory_bytes v w i) [unat o'..<unat o' + unat l']))"
proof -
  have v: "ok_volume v = v" using assms(1) by (simp add: ok_volume_def)
  note I = assms(2)[unfolded memory_defs]
  obtain w' where w': "WriteAt memory_data now v off len data w = (Inr (), w')" "memory_inv v w'"
    "\<forall>i < chunks v * csz v. memory_bytes v w' i =
       (if unat off \<le> i \<and> i < unat off + unat len then data ! (i - unat off) else memory_bytes v w i)"
    using memdata.WriteAt_ok[of v, unfolded v, OF I assms(4,5) assms(3)[unfolded memory_defs], of now]
    unfolding memory_defs by blast
  note R = memdata.ReadAt_ok[of v, unfolded v, folded memory_defs]
  have "\<forall>i < unat (vSizeBytes v). memory_bytes v w' i =
       (if unat off \<le> i \<and> i < unat off + unat len then data ! (i - unat off) else memory_bytes v w i)"
    using w'(3) size_bound[OF assms(1)] by blast
  then show ?thesis
    using w'(1,2) R[OF assms(2)] R[OF w'(2)] by (intro exI[of _ w']) auto
qed

theorem read_after_write_witness:
  "\<exists>w'. WriteAt memory_data 0 small_volume 3 2 [7, 9] small_world = (Inr (), w')
     \<and> ReadAt memory_data small_volume 2 4 w' = Inr [0, 7, 9, 0]"
proof -
  have s: "unat (vSizeBytes small_volume) = 16"
    by (simp add: small_volume_geometry)
  have room: "memory_room small_volume (chunks small_volume) (fst small_world)"
    unfolding small_volume_geometry small_world_def fst_conv by (rule fresh_volume_room) simp
  obtain w' where w': "WriteAt memory_data 0 small_volume 3 2 [7, 9] small_world = (Inr (), w')"
    "\<forall>o' l'. unat o' + unat l' \<le> unat (vSizeBytes small_volume) \<longrightarrow>
       ReadAt memory_data small_volume o' l' w' = Inr (map (\<lambda>i. if unat (3 :: u64) \<le> i \<and> i < unat (3 :: u64) + unat (2 :: u64)
              then [7, 9] ! (i - unat (3 :: u64)) else memory_bytes small_volume small_world i) [unat o'..<unat o' + unat l'])"
    using read_after_write[OF small_volume_ok small_world_ok(1) room, of 3 2 "[7, 9]" 0] s by auto
  show ?thesis
    using w'(1) w'(2)[rule_format, of 2 4] s by (simp add: small_world_ok(3) upt_rec[of _ 6])
qed

text \<open>
  C1. Concurrent gateways writing one volume are linearizable: whatever way the steps of any number
  of page writes interleave with each other and with sweeps of the garbage collector, at every moment
  the bytes of the volume are the initial bytes with the committed writes applied one after the
  other in commit order, and the invariant holds; each writer commits at most once, and one that
  reports success has committed.
\<close>

theorem concurrent_writes_linearizable:
  assumes "vol_ok v" "memory_inv v w0"
    and "data_run memory_data memory_collector (id_room next_chunk page_revision v) v w0 log ws w"
  shows "memory_inv v w
    \<and> (\<forall>i < unat (vSizeBytes v). memory_bytes v w i = apply_log log (memory_bytes v w0) i)
    \<and> distinct (map fst log)
    \<and> (\<forall>(i, pw) \<in> set log. i < length ws \<and> fst (ws ! i) = pw)
    \<and> (\<forall>i < length ws. snd (ws ! i) = Finished (Inr ()) \<longrightarrow> (i, fst (ws ! i)) \<in> set log)"
proof -
  have v: "ok_volume v = v" using assms(1) by (simp add: ok_volume_def)
  note D = memdata.data_run_ok[where v = v, unfolded v, OF assms(3) assms(2)[unfolded memory_defs] memory_data_fields(4,5)]
  have "memory_inv v w" "\<forall>i < unat (vSizeBytes v). memory_bytes v w i = apply_log log (memory_bytes v w0) i"
    using D size_bound[OF assms(1)] unfolding memory_defs memdata.sys_ok_def[where v = v, unfolded v] by blast+
  then show ?thesis
    using data_run_log[OF assms(3)] by auto
qed

text \<open>
  An executable scheduler: the writer named by each entry takes a step. Two writers of the same page
  in a schedule in which the first has read the page before the second commits, so that it starts over.
\<close>

definition small_write :: "u64 \<Rightarrow> bytes \<Rightarrow> pageWrite" where
  "small_write off data = \<lparr>pwVolume = small_volume, pwPageNo = 0, pwOffsetBytes = off,
     pwLengthBytes = of_nat (length data), pwData = data\<rparr>"

definition room_left :: "u64 \<Rightarrow> repo \<Rightarrow> bool" where
  "room_left v m \<longleftrightarrow> next_chunk m v < 0x8000000000000000
     \<and> list_all (\<lambda>(n, p). pgRevision p < 0x8000000000000000) (pages_of m v)"

lemma room_left_room: "room_left (vID v) m \<Longrightarrow> id_room next_chunk page_revision v m"
  unfolding room_left_def id_room_def page_revision_def list_all_iff
  by (auto split: option.splits dest!: map_of_SomeD simp: word_less_nat_alt)

type_synonym writers = "(nat \<times> pageWrite) list \<times> (pageWrite \<times> write_pc) list \<times> (repo \<times> MemoryStore)"

fun schedule :: "nat list \<Rightarrow> writers \<Rightarrow> writers option" where
  "schedule [] st = Some st"
| "schedule (i # is) (log, ws, w) =
     (if i < length ws \<and> room_left (vID small_volume) (fst w)
      then case ws ! i of (pw, pc) \<Rightarrow>
             case write_step memory_data 0 pw pc w of (pc', w') \<Rightarrow>
               schedule is (if published pc' then log @ [(i, pw)] else log, ws[i := (pw, pc')], w')
      else None)"

lemma schedule_run:
  assumes "schedule is (log, ws, w) = Some (log', ws', w')"
    and "data_run memory_data memory_collector (id_room next_chunk page_revision small_volume) small_volume w0 log ws w"
  shows "data_run memory_data memory_collector (id_room next_chunk page_revision small_volume) small_volume w0 log' ws' w'"
  using assms
proof (induction "is" arbitrary: log ws w)
  case (Cons i "is")
  obtain pw pc where i: "ws ! i = (pw, pc)" by fastforce
  obtain pc1 w1 where s: "write_step memory_data 0 pw pc w = (pc1, w1)" by (meson surj_pair)
  have "i < length ws" "id_room next_chunk page_revision small_volume (fst w)"
    "schedule is (if published pc1 then log @ [(i, pw)] else log, ws[i := (pw, pc1)], w1) = Some (log', ws', w')"
    using Cons.prems(1) room_left_room[of small_volume] by (auto simp: i s split: if_splits)
  then show ?case
    using Cons.IH data_run.advance[OF Cons.prems(2) _ i _ s] by blast
qed simp

lemma small_write_ok: "pw_ok (small_write 1 [5, 6])" "pw_ok (small_write 2 [8, 9, 10])"
  "pwVolume (small_write off data) = small_volume"
  unfolding pw_ok_def
  by (simp_all add: small_write_def small_volume_ok pg_first_def pg_count_def write_lo_def write_hi_def
      small_volume_geometry)

definition small_writers :: "nat list \<Rightarrow> writers option" where
  "small_writers is = schedule is
     ([], [(small_write 1 [5, 6], Loading 0), (small_write 2 [8, 9, 10], Loading 0)], small_world)"

lemma small_writers_result:
  "map_option (\<lambda>(log, ws, w). (map fst log, map snd ws, ReadAt memory_data small_volume 0 8 w))
     (small_writers ([0, 1] @ replicate 8 1 @ replicate 15 0)) =
   Some ([1, 0], [Finished (Inr ()), Finished (Inr ())], Inr [0, 5, 6, 9, 10, 0, 0, 0])"
  by code_simp

theorem concurrent_writes_linearizable_witness:
  "\<exists>log ws w. data_run memory_data memory_collector (id_room next_chunk page_revision small_volume)
       small_volume small_world log ws w
     \<and> map fst log = [1, 0] \<and> map snd ws = [Finished (Inr ()), Finished (Inr ())]
     \<and> ReadAt memory_data small_volume 0 8 w = Inr [0, 5, 6, 9, 10, 0, 0, 0]
     \<and> (\<forall>i < 16. memory_bytes small_volume w i = apply_log log (\<lambda>i. 0) i)"
proof -
  let ?run = "data_run memory_data memory_collector (id_room next_chunk page_revision small_volume)
       small_volume small_world"
  obtain log ws w where st: "small_writers ([0, 1] @ replicate 8 1 @ replicate 15 0) = Some (log, ws, w)"
    "map fst log = [1, 0]" "map snd ws = [Finished (Inr ()), Finished (Inr ())]"
    "ReadAt memory_data small_volume 0 8 w = Inr [0, 5, 6, 9, 10, 0, 0, 0]"
    using small_writers_result by (auto simp: map_option_eq_Some)
  have "?run [] [(small_write 1 [5, 6], Loading 0), (small_write 2 [8, 9, 10], Loading 0)] small_world"
    using data_run.begin_write[OF data_run.begin_write[OF data_run.start small_write_ok(1,3)] small_write_ok(2,3)]
    by simp
  then have run: "?run log ws w"
    using schedule_run[OF st(1)[unfolded small_writers_def]] by blast
  have "memory_bytes small_volume small_world = (\<lambda>i. 0)"
    using small_world_ok(3) by blast
  then have "\<forall>i < 16. memory_bytes small_volume w i = apply_log log (\<lambda>i. 0) i"
    using concurrent_writes_linearizable[OF small_volume_ok small_world_ok(1) run]
    by (simp add: small_volume_geometry)
  with run st(2-4) show ?thesis
    by (intro exI conjI)
qed

lemma fold_write_step_rank:
  "pc_rank (fold (\<lambda>w pc. fst (write_step r now pw pc w)) ws pc) \<le> pc_rank pc - length ws"
proof (induction ws arbitrary: pc)
  case (Cons w ws)
  let ?pc = "fst (write_step r now pw pc w)"
  have "pc_rank ?pc \<le> pc_rank pc - 1"
  proof (cases "finished pc")
    case True
    then show ?thesis by (cases pc) simp_all
  next
    case False
    then show ?thesis
      using write_step_rank[OF False, of r now pw w ?pc "snd (write_step r now pw pc w)"] by simp
  qed
  then show ?case
    using Cons.IH[of ?pc] by simp
qed simp

text \<open>
  C9. A page write always ends: whatever states of the repository and the store it observes at its
  steps, as other gateways and the collector may change both in between, and whatever calls fail, it
  has finished after at most 64 steps.
\<close>

theorem page_write_ends:
  assumes "64 \<le> length ws"
  shows "finished (fold (\<lambda>w pc. fst (write_step r now pw pc w)) ws (Loading 0))"
proof -
  have "pc_rank (fold (\<lambda>w pc. fst (write_step r now pw pc w)) ws (Loading 0)) = 0"
    using fold_write_step_rank[of r now pw ws "Loading 0"] assms
    by (simp add: chunkExtentWriteRetryLimit_def)
  moreover have "pc_rank pc = 0 \<Longrightarrow> finished pc" for pc
    by (cases pc) (simp_all split: if_splits)
  ultimately show ?thesis by blast
qed

theorem page_write_ends_witness:
  "finished (fold (\<lambda>w pc. fst (write_step memory_data 0 (small_write 1 [5, 6]) pc w))
     (replicate 64 small_world) (Loading 0))"
  by (rule page_write_ends) simp

text \<open>
  Discards and zeroes of the data repository: zeroing a range inside the volume succeeds, makes it
  read as zeroes and changes nothing else. A discard does the same when it is aligned to the reclaim
  geometry, and is refused otherwise; the gateway service only asks for it when it is aligned.
\<close>

lemma repository_discard_and_zero:
  assumes "vol_ok v" "memory_inv v w" "memory_room v (chunks v) (fst w)"
    and "unat off + unat len \<le> unat (vSizeBytes v)"
  shows "(\<exists>w'. ZeroAt memory_data now v off len w = (Inr (), w') \<and> memory_inv v w'
       \<and> (\<forall>i < unat (vSizeBytes v). memory_bytes v w' i =
            (if unat off \<le> i \<and> i < unat off + unat len then 0 else memory_bytes v w i)))
    \<and> DiscardAt memory_data now v off len w =
        (if DiscardRangeAligned v off len then ZeroAt memory_data now v off len w
         else (Inl ErrDiscardAlignment, w))"
proof -
  have v: "ok_volume v = v" using assms(1) by (simp add: ok_volume_def)
  obtain w' where "ZeroAt memory_data now v off len w = (Inr (), w')" "memory_inv v w'"
    "\<forall>i < chunks v * csz v. memory_bytes v w' i =
       (if unat off \<le> i \<and> i < unat off + unat len then 0 else memory_bytes v w i)"
    using memdata.ZeroAt_ok[where v = v, unfolded v, OF assms(2)[unfolded memory_defs] assms(4)
        assms(3)[unfolded memory_defs], of now] unfolding memory_defs by blast
  then show ?thesis
    using size_bound[OF assms(1)] by (simp add: DiscardAt_def ZeroAt_def)
qed

text \<open>The machine arithmetic of the page geometry does not wrap, for any volume size.\<close>

lemma page_geometry:
  assumes "vChunkSizeBytes (pwVolume pw) \<noteq> 0" "pwPageChunkCount pw \<noteq> 0"
  shows "unat (pwPageStartOffset pw) = unat (pwPageStartChunk pw) * unat (pwChunkSize pw)"
    "unat (pwPageStartOffset pw + of_nat (pwPageChunkCount pw) * pwChunkSize pw) =
       unat (pwPageStartOffset pw) + pwPageChunkCount pw * unat (pwChunkSize pw)"
proof -
  let ?v = "pwVolume pw" and ?n = "pwPageChunkCount pw"
  let ?cs = "pwChunkSize pw" and ?P = "pwPageStartChunk pw"
  define T where "T = (vSizeBytes ?v + ?cs - 1) div ?cs"
  let ?cpp = "ucast (vExtentPageBytes ?v) div ?cs"
  have "?n = (if ?P \<ge> T then 0 else unat (if T - ?P > ?cpp then ?cpp else T - ?P))"
    unfolding pwPageChunkCount_def logicalChunkCountInPage_def Let_def T_def pwPageStartChunk_def pwChunkSize_def
    by (rule refl)
  then have lt: "?P < T" and n: "?n \<le> unat (T - ?P)"
    using assms(2) word_less_nat_alt[of ?cpp "T - ?P"] by (cases "T \<le> ?P"; auto)+
  have "unat T * unat ?cs \<le> unat (vSizeBytes ?v + ?cs - 1)"
    by (simp add: T_def unat_div_distrib)
  then have total: "unat T * unat ?cs < 2 ^ 64"
    using unat_lt_64[of "vSizeBytes ?v + ?cs - 1"] by simp
  have pn: "unat ?P + ?n \<le> unat T"
    using n lt by (simp add: unat_sub word_le_nat_alt word_less_nat_alt)
  have sum: "unat ?P * unat ?cs + ?n * unat ?cs < 2 ^ 64"
    using mult_le_mono1[OF pn, of "unat ?cs"] total by (simp add: add_mult_distrib)
  then show start: "unat (pwPageStartOffset pw) = unat ?P * unat ?cs"
    using unat_mult_lem[of ?P ?cs] by (simp add: pwPageStartOffset_def)
  have "?n < 2 ^ 64" using pn unat_lt_64[of T] by simp
  then have "unat (of_nat ?n :: u64) = ?n" by (intro unat_of_nat_length) simp
  then have "unat (of_nat ?n * ?cs) = ?n * unat ?cs"
    using unat_mult_lem[of "of_nat ?n" ?cs] sum by simp
  then show "unat (pwPageStartOffset pw + of_nat ?n * ?cs) = unat (pwPageStartOffset pw) + ?n * unat ?cs"
    using unat_add_lem[of "pwPageStartOffset pw" "of_nat ?n * ?cs"] sum start by simp
qed

text \<open>
  C13. The chunk indices of a page write stay inside the page, for every volume size, offset and
  length of 64 bits, those included whose sums wrap around: the write never indexes the mappings of
  the page out of range.
\<close>

theorem page_write_indices_in_bounds:
  assumes "vChunkSizeBytes (pwVolume pw) \<noteq> 0" "pwPageChunkCount pw \<noteq> 0" "pwWriteStart pw < pwWriteEnd pw"
  shows "pwStartIndex pw \<le> pwEndIndex pw \<and> pwEndIndex pw < pwPageChunkCount pw
    \<and> length (waCurrent (begin_attempt pw page)) = pwPageChunkCount pw"
proof -
  let ?cs = "pwChunkSize pw" and ?O = "pwPageStartOffset pw" and ?n = "pwPageChunkCount pw"
  note G = page_geometry[OF assms(1,2)]
  have cs: "0 < unat ?cs"
    using assms(1) by (simp add: pwChunkSize_def unat_gt_0)
  have lo: "unat ?O \<le> unat (pwWriteStart pw)"
    by (simp add: pwWriteStart_def maxUint64_unat)
  have hi: "unat (pwWriteEnd pw) \<le> unat ?O + ?n * unat ?cs"
    unfolding G(2)[symmetric] by (simp add: pwWriteEnd_def minUint64_unat)
  have lt: "unat (pwWriteStart pw) < unat (pwWriteEnd pw)"
    using assms(3) by (simp add: word_less_nat_alt)
  have s: "unat (pwWriteStart pw - ?O) = unat (pwWriteStart pw) - unat ?O"
    "unat (pwWriteEnd pw - ?O) = unat (pwWriteEnd pw) - unat ?O"
    using lo lt by (simp_all add: unat_sub word_le_nat_alt)
  have "unat (pwWriteEnd pw - ?O - 1) = unat (pwWriteEnd pw) - unat ?O - 1"
    using s(2) lo lt unat_minus_one[of "pwWriteEnd pw - ?O"] by fastforce
  then have e: "pwEndIndex pw = (unat (pwWriteEnd pw) - unat ?O - 1) div unat ?cs"
    by (simp add: pwEndIndex_def unat_div_distrib)
  have "pwStartIndex pw \<le> pwEndIndex pw"
    unfolding e pwStartIndex_def unat_div_distrib s(1) using lo lt by (intro div_le_mono) simp
  moreover have "pwEndIndex pw < ?n"
    unfolding e using hi lo lt cs by (simp add: div_less_iff_less_mult)
  ultimately show ?thesis
    by (simp add: begin_attempt_def Let_def)
qed

theorem page_write_indices_in_bounds_witness:
  "let pw = (small_write 6 [1, 2, 3]) in
   pwStartIndex pw \<le> pwEndIndex pw \<and> pwEndIndex pw < pwPageChunkCount pw"
proof -
  let ?pw = "small_write 6 [1, 2, 3]"
  have "vChunkSizeBytes (pwVolume ?pw) \<noteq> 0" "pwPageChunkCount ?pw \<noteq> 0" "pwWriteStart ?pw < pwWriteEnd ?pw"
    by code_simp+
  from page_write_indices_in_bounds[OF this] show ?thesis by (simp add: Let_def)
qed

end
