(* ===== verification/ChunkSweep.thy ===== *)
theory ChunkSweep
  imports DataPath
begin

section \<open>What the garbage collector deletes, and when\<close>

text \<open>
  Properties of the sweeps of one volume on the in-memory gateway, and of the rotation of the bounded
  sweeper for any lister and any per-volume sweep.
\<close>

subsection \<open>One volume\<close>

definition referenced :: "repo \<Rightarrow> u64 \<Rightarrow> PhysicalChunkRef \<Rightarrow> bool" where
  "referenced r v ref \<longleftrightarrow> (\<exists>n. \<exists>x \<in> set (page_extents r v n). ref \<in> set (extent_refs x))"

definition protects :: "PhysicalChunkRef list \<Rightarrow> PhysicalChunkRef \<Rightarrow> bool" where
  "protects refs ref \<longleftrightarrow> ref \<in> set (exact_refs refs) \<or> prChunkID ref \<in> set (wildcard_ids refs)"

lemma referencedChunkSet_memory:
  assumes "repo_wf r" "volume_exists r v"
  shows "\<exists>refs. referencedChunkSet memory_collector v r = Inr refs \<and> (\<forall>ref. ref \<in> set refs \<longleftrightarrow> referenced r v ref)"
proof -
  have "(\<exists>p \<in> set (mvalues (pages_of r v)). \<exists>x \<in> set (pgExtents p). ref \<in> set (extent_refs x))
      \<longleftrightarrow> referenced r v ref" for ref
  proof
    assume "\<exists>p \<in> set (mvalues (pages_of r v)). \<exists>x \<in> set (pgExtents p). ref \<in> set (extent_refs x)"
    then obtain n p x where "mget (pages_of r v) n = Some p" "x \<in> set (pgExtents p)" "ref \<in> set (extent_refs x)"
      unfolding in_mvalues_iff[OF wf_pages_of[OF assms(1)]] Bex_def by blast
    then show "referenced r v ref"
      unfolding referenced_def page_extents_def by (intro exI[of _ n] bexI[of _ x]) simp_all
  next
    assume "referenced r v ref"
    then obtain n x where nx: "x \<in> set (page_extents r v n)" "ref \<in> set (extent_refs x)"
      by (auto simp: referenced_def)
    then obtain p where "mget (pages_of r v) n = Some p" "x \<in> set (pgExtents p)"
      by (cases "mget (pages_of r v) n") (simp_all add: page_extents_def)
    then show "\<exists>p \<in> set (mvalues (pages_of r v)). \<exists>x \<in> set (pgExtents p). ref \<in> set (extent_refs x)"
      using nx(2) in_mvalues_iff[OF wf_pages_of[OF assms(1)]] by blast
  qed
  then show ?thesis
    using assms(2)
    by (simp add: referencedChunkSet_def memory_data_fields inMemoryRepository_def ListExtentPages_def
        cloneAllocationPage_def)
qed

lemma classify_memory:
  assumes "repo_wf r" "volume_spec r v = Some x"
  shows "\<exists>del res. classifyVolumeWithProtectedRefs memory_collector v limit cands prot r = Inr (x, del, res)
    \<and> swDeletableCount res = length del \<and> swDeletedCount res = 0
    \<and> (\<forall>g \<in> set del. mget (garbage_of r v) (gcChunkID g) = Some g
         \<and> \<not> referenced r v (garbage_ref g) \<and> \<not> protects prot (garbage_ref g))
    \<and> (limit \<le> 0 \<longrightarrow> cands = [] \<longrightarrow> (\<forall>g \<in> ran (mget (garbage_of r v)).
         \<not> referenced r v (garbage_ref g) \<longrightarrow> \<not> protects prot (garbage_ref g) \<longrightarrow> g \<in> set del))"
proof -
  have ex: "volume_exists r v"
    using assms(2) by (simp add: volume_exists_def volume_spec_def)
  obtain refs where refs: "referencedChunkSet memory_collector v r = Inr refs"
      "\<forall>ref. ref \<in> set refs \<longleftrightarrow> referenced r v ref"
    using referencedChunkSet_memory[OF assms(1) ex] by blast
  obtain listed where l: "ListChunkGarbage v limit r = Inr listed"
    using ex by (simp add: ListChunkGarbage_def Let_def)
  have wf: "wf_map (garbage_of r v)" "garbage_wf v (garbage_of r v)"
    using wf_garbage_of[OF assms(1)] garbage_of_wf[OF assms(1) ex] by auto
  have sub: "set listed \<subseteq> ran (mget (garbage_of r v))" and
    all: "limit \<le> 0 \<Longrightarrow> set listed = ran (mget (garbage_of r v))"
    using l ex wf(1) by (auto simp: ListChunkGarbage_def Let_def set_mvalues dest!: in_set_takeD split: if_splits)
  have key: "mget (garbage_of r v) (gcChunkID g) = Some g" if "g \<in> ran (mget (garbage_of r v))" for g
    using that wf(2) by (auto simp: ran_def garbage_wf_def)
  let ?c = "filterChunkGarbageCandidates listed cands"
  have c: "set ?c \<subseteq> set listed" "cands = [] \<Longrightarrow> ?c = listed"
    by (auto simp: filterChunkGarbageCandidates_def)
  let ?keep = "\<lambda>g. gcChunkID g \<in> set (wildcard_ids prot) \<or> garbage_ref g \<in> set (refs @ exact_refs prot)"
  have keep: "?keep g \<longleftrightarrow> referenced r v (garbage_ref g) \<or> protects prot (garbage_ref g)" for g
    using refs(2) by (auto simp: protects_def garbage_ref_def)
  have "\<exists>res. classifyVolumeWithProtectedRefs memory_collector v limit cands prot r =
      Inr (x, filter (\<lambda>g. \<not> ?keep g) ?c, res) \<and> swDeletableCount res = length (filter (\<lambda>g. \<not> ?keep g) ?c)
      \<and> swDeletedCount res = 0"
    using refs(1) l assms(2)
    by (simp add: classifyVolumeWithProtectedRefs_def memory_data_fields inMemoryRepository_def GetVolume_def
        volume_spec_def cloneVolumeSpec_def Let_def zero_sweep_def)
  then obtain res where "classifyVolumeWithProtectedRefs memory_collector v limit cands prot r =
      Inr (x, filter (\<lambda>g. \<not> ?keep g) ?c, res)" "swDeletableCount res = length (filter (\<lambda>g. \<not> ?keep g) ?c)"
      "swDeletedCount res = 0"
    by blast
  moreover have "\<forall>g \<in> set (filter (\<lambda>g. \<not> ?keep g) ?c). mget (garbage_of r v) (gcChunkID g) = Some g
         \<and> \<not> referenced r v (garbage_ref g) \<and> \<not> protects prot (garbage_ref g)"
    using c(1) sub key keep by auto
  moreover have "g \<in> set (filter (\<lambda>g. \<not> ?keep g) ?c)"
    if "limit \<le> 0" "cands = []" "g \<in> ran (mget (garbage_of r v))" "\<not> referenced r v (garbage_ref g)"
      "\<not> protects prot (garbage_ref g)" for g
    using that all c(2) keep by auto
  ultimately show ?thesis
    by blast
qed

lemma delete_candidates_memory:
  assumes "volume_exists r v"
  shows "\<exists>res' r' s'. delete_candidates memory_collector v x del res (r, s) = (Inr res', (r', s'))
    \<and> swDeletedCount res' = swDeletedCount res + length del \<and> swDeletableCount res' = swDeletableCount res
    \<and> (\<forall>n. page_extents r' v n = page_extents r v n)
    \<and> mget (garbage_of r' v) = (mget (garbage_of r v)) |` (- (gcChunkID ` set del))
    \<and> mget s' = (mget s) |` (- ((\<lambda>g. buildPhysicalChunkKey (vPrefix x) (garbage_ref g)) ` set del))"
  using assms
proof (induction del arbitrary: r s res)
  case Nil
  then show ?case by (auto simp: restrict_map_def)
next
  case (Cons g del)
  define r1 where "r1 = snd (DeleteChunkGarbage v (gcChunkID g) r)"
  let ?s = "mdel (buildPhysicalChunkKey (vPrefix x) (garbage_ref g)) s"
  have d: "DeleteChunkGarbage v (gcChunkID g) r = (Inr (), r1)" "volume_exists r1 v"
    "mget (garbage_of r1 v) = (mget (garbage_of r v))(gcChunkID g := None)"
    using Cons.prems unfolding r1_def
    by (auto simp: DeleteChunkGarbage_def garbage_of_def mget_or_def volume_exists_def split: option.splits)
  define res1 where "res1 = res\<lparr>swDeletedCount := swDeletedCount res + 1\<rparr>"
  then have counts: "swDeletedCount res1 = Suc (swDeletedCount res)" "swDeletableCount res1 = swDeletableCount res"
    by simp_all
  obtain res' r' s' where IH: "delete_candidates memory_collector v x del res1 (r1, ?s) = (Inr res', (r', s'))"
      "swDeletedCount res' = swDeletedCount res1 + length del" "swDeletableCount res' = swDeletableCount res1"
      "\<forall>n. page_extents r' v n = page_extents r1 v n"
      "mget (garbage_of r' v) = (mget (garbage_of r1 v)) |` (- (gcChunkID ` set del))"
      "mget s' = (mget ?s) |` (- ((\<lambda>g. buildPhysicalChunkKey (vPrefix x) (garbage_ref g)) ` set del))"
    using Cons.IH[OF d(2), of res1 ?s] by blast
  have "delete_candidates memory_collector v x (g # del) res (r, s) = (Inr res', (r', s'))"
    using IH(1) d(1)
    by (simp add: memory_data_fields inMemoryRepository_def memoryStore_def MemDelete_def res1_def)
  moreover have "mget (garbage_of r' v) = (mget (garbage_of r v)) |` (- (gcChunkID ` set (g # del)))"
    unfolding IH(5) d(3) by (auto simp: restrict_map_def)
  moreover have "mget s' = (mget s) |` (- ((\<lambda>g. buildPhysicalChunkKey (vPrefix x) (garbage_ref g)) ` set (g # del)))"
    unfolding IH(6) by (auto simp: restrict_map_def)
  ultimately show ?case
    using IH(2-4) counts DeleteChunkGarbage_view(1)[of v "gcChunkID g" r v, folded r1_def]
    by (intro exI[of _ res'] exI[of _ r'] exI[of _ s']) simp
qed

text \<open>
  C10. A sweep of a volume succeeds and deletes exactly what it reports: it leaves the extent pages
  alone, every object it removes is the payload of a chunk on the volume's garbage list that no extent
  references and no protected reference covers, and a sweep without limit and candidate filter
  leaves on the list only chunks that are referenced or protected.
\<close>

theorem sweep_deletes_only_garbage:
  assumes "repo_wf r" "volume_spec r v = Some x"
  shows "\<exists>res r' s'. SweepVolumeCandidatesWithProtectedRefs memory_collector v limit cands prot (r, s) =
      (Inr res, (r', s'))
    \<and> swDeletedCount res = swDeletableCount res
    \<and> (\<forall>n. page_extents r' v n = page_extents r v n)
    \<and> (\<forall>k. mget s' k \<noteq> mget s k \<longrightarrow> mget s' k = None \<and> (\<exists>ref \<in> garbage_refs r v - garbage_refs r' v.
         k = buildPhysicalChunkKey (vPrefix x) ref \<and> \<not> referenced r v ref \<and> \<not> protects prot ref))
    \<and> (limit \<le> 0 \<longrightarrow> cands = [] \<longrightarrow> (\<forall>ref \<in> garbage_refs r' v. referenced r v ref \<or> protects prot ref))"
proof -
  have ex: "volume_exists r v"
    using assms(2) by (simp add: volume_exists_def volume_spec_def)
  obtain del res where C: "classifyVolumeWithProtectedRefs memory_collector v limit cands prot r = Inr (x, del, res)"
    "swDeletableCount res = length del" "swDeletedCount res = 0"
    "\<forall>g \<in> set del. mget (garbage_of r v) (gcChunkID g) = Some g
         \<and> \<not> referenced r v (garbage_ref g) \<and> \<not> protects prot (garbage_ref g)"
    "limit \<le> 0 \<longrightarrow> cands = [] \<longrightarrow> (\<forall>g \<in> ran (mget (garbage_of r v)).
         \<not> referenced r v (garbage_ref g) \<longrightarrow> \<not> protects prot (garbage_ref g) \<longrightarrow> g \<in> set del)"
    using classify_memory[OF assms, of limit cands prot] by blast
  obtain res' r' s' where D: "delete_candidates memory_collector v x del res (r, s) = (Inr res', (r', s'))"
    "swDeletedCount res' = length del" "swDeletableCount res' = length del"
    "\<forall>n. page_extents r' v n = page_extents r v n"
    "mget (garbage_of r' v) = (mget (garbage_of r v)) |` (- (gcChunkID ` set del))"
    "mget s' = (mget s) |` (- ((\<lambda>g. buildPhysicalChunkKey (vPrefix x) (garbage_ref g)) ` set del))"
    using delete_candidates_memory[OF ex, of x del res s] unfolding C(2,3) add_0 by blast
  have key: "gcChunkID g = c" if "mget (garbage_of r v) c = Some g" for c g
    using garbage_of_wf[OF assms(1) ex] that by (simp add: garbage_wf_def)
  have gone: "garbage_ref g \<in> garbage_refs r v - garbage_refs r' v" if "g \<in> set del" for g
  proof -
    have "garbage_ref g \<notin> garbage_refs r' v"
    proof
      assume "garbage_ref g \<in> garbage_refs r' v"
      then obtain c h where h: "mget (garbage_of r' v) c = Some h" "garbage_ref h = garbage_ref g"
        by (auto simp: garbage_refs_def ran_def)
      then have "c \<notin> gcChunkID ` set del" "gcChunkID h = c"
        using D(5) key[of c h] by (auto simp: restrict_map_def split: if_splits)
      moreover have "gcChunkID h = gcChunkID g"
        using h(2) by (simp add: garbage_ref_def)
      ultimately show False using that by auto
    qed
    then show ?thesis
      using C(4) that unfolding garbage_refs_def by (metis DiffI imageI ranI)
  qed
  have left: "referenced r v ref \<or> protects prot ref" 
    if lim: "limit \<le> 0" "cands = []" "ref \<in> garbage_refs r' v" for ref
  proof -
    obtain c h where h: "mget (garbage_of r' v) c = Some h" "ref = garbage_ref h"
      using lim(3) by (auto simp: garbage_refs_def ran_def)
    then have "c \<notin> gcChunkID ` set del" "mget (garbage_of r v) c = Some h"
      using D(5) by (auto simp: restrict_map_def split: if_splits)
    then show ?thesis
      using C(5) lim(1,2) key[of c h] h(2) by (auto intro: ranI)
  qed
  have objects: "mget s' k = None \<and> (\<exists>ref \<in> garbage_refs r v - garbage_refs r' v.
         k = buildPhysicalChunkKey (vPrefix x) ref \<and> \<not> referenced r v ref \<and> \<not> protects prot ref)"
    if "mget s' k \<noteq> mget s k" for k
    using that gone C(4) unfolding D(6) by (force simp: restrict_map_def split: if_splits)
  show ?thesis
    using C(1) D(1-4) left objects
    by (intro exI[of _ res'] exI[of _ r'] exI[of _ s'])
      (simp add: SweepVolumeCandidatesWithProtectedRefs_def)
qed

definition small_garbage :: "repo \<times> MemoryStore" where
  "small_garbage =
     (snd (PutChunkGarbage 0 \<lparr>gcVolumeID = 3, gcStoreID = '''', gcShardID = 0, gcChunkID = 5, gcEnqueuedAtUnix = 0\<rparr>
             (fst small_world)),
      [(''v3:chk:5'', [1, 2, 3, 4]), (''v3:chk:6'', [5, 6, 7, 8])])"

theorem sweep_deletes_only_garbage_witness:
  "\<exists>res w'. SweepVolumeCandidatesWithProtectedRefs memory_collector 3 0 [] [] small_garbage = (Inr res, w')
     \<and> swDeletedCount res = swDeletableCount res \<and> snd w' = [(''v3:chk:6'', [5, 6, 7, 8])]"
proof -
  have "repo_wf (fst small_world)"
    using small_world_ok(1) by (simp add: memory_inv_def data_inv_def)
  then have wf: "repo_wf (fst small_garbage)"
    by (simp add: small_garbage_def wf_PutChunkGarbage)
  have "volume_spec (fst small_garbage) 3 = Some small_volume"
    "snd (snd (SweepVolumeCandidatesWithProtectedRefs memory_collector 3 0 [] [] small_garbage)) =
       [(''v3:chk:6'', [5, 6, 7, 8])]"
    by code_simp+
  then show ?thesis
    using sweep_deletes_only_garbage[OF wf, of 3 small_volume 0 "[]" "[]" "snd small_garbage"] by auto
qed

subsection \<open>The rotation of the bounded sweeper\<close>

text \<open>
  The sweeper after a number of passes, when pass \<open>k\<close> finds the world in state \<open>ws k\<close>: other parts of
  the system may change it between the passes.
\<close>

primrec sweeper_after ::
    "(nat \<Rightarrow> nat \<Rightarrow> service_error option) \<Rightarrow> (nat \<Rightarrow> 'w) \<Rightarrow> nat \<Rightarrow> 'w BoundedChunkSweeper \<Rightarrow> 'w BoundedChunkSweeper" where
  "sweeper_after ctxErr ws 0 s = s"
| "sweeper_after ctxErr ws (Suc k) s =
     fst (snd (snd (SweepPass (ctxErr k) (sweeper_after ctxErr ws k s) (ws k))))"

definition batch_of :: "'w BoundedChunkSweeper \<Rightarrow> 'w \<Rightarrow> u64 list" where
  "batch_of s w = (case fst (nextBatch s w) of Inl _ \<Rightarrow> [] | Inr batch \<Rightarrow> batch)"

lemma sweep_batch_frame:
  assumes "sweep_batch ctxErr f batch results s w = (err, results', s', w')"
  shows "bsVolumes s' = bsVolumes s \<and> bsCursor s' = bsCursor s \<and> bsVolumesPerPass s' = bsVolumesPerPass s
    \<and> bsLister s' = bsLister s \<and> bsSweepVolume s' = bsSweepVolume s
    \<and> bsPerVolumeLimit s' = bsPerVolumeLimit s
    \<and> (err = None \<longrightarrow> bsSwept s' + bsVolumeErrs s' = bsSwept s + bsVolumeErrs s + length batch)"
  using assms
proof (induction batch arbitrary: results s w)
  case (Cons x batch)
  show ?case
  proof (cases "ctxErr (length batch)")
    case None
    obtain r w1 where f: "f x (bsPerVolumeLimit s) w = (r, w1)" by fastforce
    show ?thesis
      using Cons.prems None f Cons.IH[of results "s\<lparr>bsVolumeErrs := bsVolumeErrs s + 1\<rparr>" w1]
        Cons.IH[of "results @ [projr r]" "s\<lparr>bsSwept := bsSwept s + 1\<rparr>" w1]
      by (cases r) simp_all
  next
    case (Some e)
    have "err = Some e" "s' = s"
      using Cons.prems unfolding sweep_batch.simps Some by auto
    then show ?thesis by simp
  qed
qed simp


text \<open>The list a pass works on and where it starts.\<close>

definition pass_list :: "'w BoundedChunkSweeper \<Rightarrow> VolumeSpec list \<Rightarrow> u64 list" where
  "pass_list s vs = (if bsCursor s \<ge> length (bsVolumes s) then map vID vs else bsVolumes s)"

definition pass_start :: "'w BoundedChunkSweeper \<Rightarrow> nat" where
  "pass_start s = (if bsCursor s \<ge> length (bsVolumes s) then 0 else bsCursor s)"

definition pass_end :: "'w BoundedChunkSweeper \<Rightarrow> VolumeSpec list \<Rightarrow> nat" where
  "pass_end s vs = min (pass_start s + bsVolumesPerPass s) (length (pass_list s vs))"

lemma nextBatch_spec:
  assumes "listed_volumes s w = Inr vs"
  shows "\<exists>s1. nextBatch s w = (Inr (slice (pass_start s) (pass_end s vs) (pass_list s vs)), s1)
    \<and> bsVolumes s1 = pass_list s vs \<and> bsCursor s1 = pass_end s vs \<and> bsVolumesPerPass s1 = bsVolumesPerPass s
    \<and> bsLister s1 = bsLister s \<and> bsSweepVolume s1 = bsSweepVolume s
    \<and> bsPerVolumeLimit s1 = bsPerVolumeLimit s \<and> bsSwept s1 = bsSwept s \<and> bsVolumeErrs s1 = bsVolumeErrs s"
proof (cases "bsCursor s \<ge> length (bsVolumes s)")
  case True
  then show ?thesis
    using assms by (simp add: nextBatch_def Let_def pass_list_def pass_start_def pass_end_def slice_def)
next
  case False
  then show ?thesis
    by (auto simp: nextBatch_def Let_def pass_list_def pass_start_def pass_end_def)
qed

text \<open>
  Sweeping the volumes of a list one after the other, whatever each sweep returns. A batch is swept
  from its start up to the first volume at which the context is found cancelled.
\<close>

definition swept_world ::
    "(u64 \<Rightarrow> int \<Rightarrow> 'w \<Rightarrow> (service_error + ChunkGarbageSweepResult) \<times> 'w) \<Rightarrow> int \<Rightarrow> u64 list \<Rightarrow> 'w \<Rightarrow> 'w" where
  "swept_world f limit volumes w = fold (\<lambda>v w. snd (f v limit w)) volumes w"

lemma sweep_batch_reaches:
  assumes "sweep_batch ctxErr f batch results s w = (err, results', s', w')"
  shows "\<exists>n \<le> length batch. (n < length batch \<longrightarrow> ctxErr (length batch - n - 1) \<noteq> None)
    \<and> w' = swept_world f (bsPerVolumeLimit s) (take n batch) w
    \<and> bsSwept s' + bsVolumeErrs s' = bsSwept s + bsVolumeErrs s + n"
  using assms
proof (induction batch arbitrary: results s w)
  case (Cons x batch)
  show ?case
  proof (cases "ctxErr (length batch)")
    case None
    obtain r w1 where f: "f x (bsPerVolumeLimit s) w = (r, w1)" by fastforce
    have "\<exists>n \<le> length batch. (n < length batch \<longrightarrow> ctxErr (length batch - n - 1) \<noteq> None)
        \<and> w' = swept_world f (bsPerVolumeLimit s) (take n batch) w1
        \<and> bsSwept s' + bsVolumeErrs s' = bsSwept s + bsVolumeErrs s + 1 + n"
      using Cons.prems None f Cons.IH[of results "s\<lparr>bsVolumeErrs := bsVolumeErrs s + 1\<rparr>" w1]
        Cons.IH[of "results @ [projr r]" "s\<lparr>bsSwept := bsSwept s + 1\<rparr>" w1]
      by (cases r) simp_all
    then obtain n where "n \<le> length batch" "n < length batch \<longrightarrow> ctxErr (length batch - n - 1) \<noteq> None"
      "w' = swept_world f (bsPerVolumeLimit s) (take n batch) w1"
      "bsSwept s' + bsVolumeErrs s' = bsSwept s + bsVolumeErrs s + 1 + n" by blast
    then show ?thesis
      by (intro exI[of _ "Suc n"]) (simp add: swept_world_def f)
  next
    case (Some e)
    have "s' = s" "w' = w"
      using Cons.prems unfolding sweep_batch.simps Some by auto
    then show ?thesis
      by (intro exI[of _ 0]) (simp add: swept_world_def Some)
  qed
qed (simp add: swept_world_def)

lemma SweepPass_unfold:
  assumes "bsSweepVolume s = Some f" "listed_volumes s w = Inr vs"
  obtains s1 where "SweepPass ctxErr s w = sweep_batch ctxErr f (batch_of s w) [] s1 w"
    "batch_of s w = slice (pass_start s) (pass_end s vs) (pass_list s vs)"
    "bsVolumes s1 = pass_list s vs" "bsCursor s1 = pass_end s vs" "bsVolumesPerPass s1 = bsVolumesPerPass s"
    "bsLister s1 = bsLister s" "bsSweepVolume s1 = bsSweepVolume s"
    "bsPerVolumeLimit s1 = bsPerVolumeLimit s" "bsSwept s1 = bsSwept s" "bsVolumeErrs s1 = bsVolumeErrs s"
proof -
  let ?s = "s\<lparr>bsPasses := bsPasses s + 1\<rparr>"
  have "listed_volumes ?s w = Inr vs"
    using assms(2) by (simp add: listed_volumes_def)
  then obtain s1 where s1: "nextBatch ?s w = (Inr (slice (pass_start s) (pass_end s vs) (pass_list s vs)), s1)"
      "bsVolumes s1 = pass_list s vs" "bsCursor s1 = pass_end s vs" "bsVolumesPerPass s1 = bsVolumesPerPass s"
      "bsLister s1 = bsLister s" "bsSweepVolume s1 = bsSweepVolume s"
      "bsPerVolumeLimit s1 = bsPerVolumeLimit s" "bsSwept s1 = bsSwept s" "bsVolumeErrs s1 = bsVolumeErrs s"
    using nextBatch_spec[of ?s w vs] by (auto simp: pass_list_def pass_end_def pass_start_def)
  moreover have batch: "batch_of s w = slice (pass_start s) (pass_end s vs) (pass_list s vs)"
    using nextBatch_spec[OF assms(2)] by (auto simp: batch_of_def)
  moreover have "SweepPass ctxErr s w = sweep_batch ctxErr f (batch_of s w) [] s1 w"
    unfolding SweepPass_def assms(1) option.case s1(1) prod.case sum.case batch by (rule refl)
  ultimately show thesis
    by (intro that) assumption+
qed

lemma SweepPass_step:
  fixes ctxErr s w
  assumes "bsSweepVolume s = Some f" "listed_volumes s w = Inr vs"
  defines "s' \<equiv> fst (snd (snd (SweepPass ctxErr s w)))"
  shows "batch_of s w = slice (pass_start s) (pass_end s vs) (pass_list s vs)"
    "bsVolumes s' = pass_list s vs" "bsCursor s' = pass_end s vs" "bsVolumesPerPass s' = bsVolumesPerPass s"
    "bsLister s' = bsLister s" "bsSweepVolume s' = bsSweepVolume s" "bsPerVolumeLimit s' = bsPerVolumeLimit s"
proof -
  obtain s1 where s1: "SweepPass ctxErr s w = sweep_batch ctxErr f (batch_of s w) [] s1 w"
    "batch_of s w = slice (pass_start s) (pass_end s vs) (pass_list s vs)"
    "bsVolumes s1 = pass_list s vs" "bsCursor s1 = pass_end s vs" "bsVolumesPerPass s1 = bsVolumesPerPass s"
    "bsLister s1 = bsLister s" "bsSweepVolume s1 = bsSweepVolume s" "bsPerVolumeLimit s1 = bsPerVolumeLimit s"
    using SweepPass_unfold[OF assms(1,2)] by blast
  show "batch_of s w = slice (pass_start s) (pass_end s vs) (pass_list s vs)"
    by (rule s1(2))
  obtain err results w' where "sweep_batch ctxErr f (batch_of s w) [] s1 w = (err, results, s', w')"
    unfolding s'_def s1(1) by (metis prod.collapse)
  from sweep_batch_frame[OF this] s1
  show "bsVolumes s' = pass_list s vs" "bsCursor s' = pass_end s vs" "bsVolumesPerPass s' = bsVolumesPerPass s"
    "bsLister s' = bsLister s" "bsSweepVolume s' = bsSweepVolume s" "bsPerVolumeLimit s' = bsPerVolumeLimit s"
    by simp_all
qed

text \<open>A pass sweeps every volume of its batch that it comes to before it is cancelled.\<close>

lemma SweepPass_sweeps:
  assumes "bsSweepVolume s = Some f" "listed_volumes s w = Inr vs"
    and "batch_of s w = before @ volumeID # after"
    and "\<forall>i. length after \<le> i \<and> i < length (batch_of s w) \<longrightarrow> ctxErr i = None"
    and "SweepPass ctxErr s w = (err, results, s', w')"
  shows "\<exists>n. length before < n \<and> n \<le> length (batch_of s w)
    \<and> w' = swept_world f (bsPerVolumeLimit s) (take n (batch_of s w)) w
    \<and> bsSwept s' + bsVolumeErrs s' = bsSwept s + bsVolumeErrs s + n"
proof -
  obtain s1 where s1: "SweepPass ctxErr s w = sweep_batch ctxErr f (batch_of s w) [] s1 w"
    "bsPerVolumeLimit s1 = bsPerVolumeLimit s" "bsSwept s1 = bsSwept s" "bsVolumeErrs s1 = bsVolumeErrs s"
    using SweepPass_unfold[OF assms(1,2)] by blast
  obtain n where n: "n \<le> length (batch_of s w)"
      "n < length (batch_of s w) \<longrightarrow> ctxErr (length (batch_of s w) - n - 1) \<noteq> None"
      "w' = swept_world f (bsPerVolumeLimit s) (take n (batch_of s w)) w"
      "bsSwept s' + bsVolumeErrs s' = bsSwept s + bsVolumeErrs s + n"
    using sweep_batch_reaches[of ctxErr f "batch_of s w" "[]" s1 w] assms(5) s1 by auto
  have "length before < n"
  proof (rule ccontr)
    assume "\<not> length before < n"
    then have "length after \<le> length (batch_of s w) - n - 1" "n < length (batch_of s w)"
      using assms(3) by simp_all
    with n(2) assms(4) show False by auto
  qed
  with n show ?thesis by blast
qed

lemma slice_or_later:
  assumes "x \<in> set (drop i xs)" "i \<le> j"
  shows "x \<in> set (slice i j xs) \<or> x \<in> set (drop j xs)"
proof -
  have "drop i xs = slice i j xs @ drop j xs"
    using assms(2) by (simp add: slice_def) (metis append_take_drop_id drop_drop le_add_diff_inverse2)
  then show ?thesis using assms(1) by (metis Un_iff set_append)
qed

lemma sweeper_after_keeps:
  assumes "bsSweepVolume s = Some f" "\<forall>k. \<exists>vs. listed_volumes s (ws k) = Inr vs"
  shows "bsSweepVolume (sweeper_after ctxErr ws k s) = Some f
    \<and> listed_volumes (sweeper_after ctxErr ws k s) = listed_volumes s
    \<and> bsVolumesPerPass (sweeper_after ctxErr ws k s) = bsVolumesPerPass s
    \<and> bsPerVolumeLimit (sweeper_after ctxErr ws k s) = bsPerVolumeLimit s"
proof (induction k)
  case (Suc k)
  let ?s = "sweeper_after ctxErr ws k s"
  obtain vs where "listed_volumes ?s (ws k) = Inr vs"
    using assms(2) Suc by metis
  then show ?case
    using SweepPass_step(4-7)[of ?s f "ws k" vs "ctxErr k"] Suc by (simp add: listed_volumes_def fun_eq_iff)
qed (use assms in simp)

text \<open>The progress argument of the rotation, on the number of volumes left in the list.\<close>

lemma rotation_found:
  fixes rest :: "nat \<Rightarrow> nat"
  assumes "\<And>k. ahead k \<Longrightarrow> 0 < rest k" "\<And>k. ahead k \<Longrightarrow> hit k \<or> ahead (Suc k) \<and> rest (Suc k) < rest k"
  shows "ahead k \<Longrightarrow> \<exists>j < rest k. hit (k + j)"
proof (induction "rest k" arbitrary: k rule: less_induct)
  case less
  show ?case
  proof (cases "hit k")
    case True
    then show ?thesis using assms(1)[OF less.prems] by (intro exI[of _ 0]) simp
  next
    case False
    then obtain j where "j < rest (Suc k)" "hit (Suc k + j)" "rest (Suc k) < rest k"
      using assms(2)[OF less.prems] less.hyps[of "Suc k"] by blast
    then show ?thesis by (intro exI[of _ "Suc j"]) simp
  qed
qed

lemma rotation_reaches:
  fixes rest :: "nat \<Rightarrow> nat"
  assumes "\<And>k. rest k \<noteq> 0 \<Longrightarrow> rest (Suc k) < rest k" "\<And>k. rest k = 0 \<Longrightarrow> \<exists>j < N. hit (k + j)"
  shows "\<exists>j < rest k + N. hit (k + j)"
proof (induction "rest k" arbitrary: k rule: less_induct)
  case less
  show ?case
  proof (cases "rest k = 0")
    case False
    then obtain j where "j < rest (Suc k) + N" "hit (Suc k + j)"
      using less.hyps[of "Suc k"] assms(1) by blast
    then show ?thesis
      using assms(1)[OF False] by (intro exI[of _ "Suc j"]) simp
  qed (use assms(2) in simp)
qed

lemma sweeper_after_step:
  fixes ctxErr ws s
  assumes "bsSweepVolume s = Some f" "\<forall>k. \<exists>vs. listed_volumes s (ws k) = Inr vs \<and> P vs"
  defines "at \<equiv> \<lambda>k. sweeper_after ctxErr ws k s"
  shows "\<exists>vs. P vs
      \<and> batch_of (at k) (ws k) = slice (pass_start (at k)) (pass_end (at k) vs) (pass_list (at k) vs)
      \<and> bsVolumes (at (Suc k)) = pass_list (at k) vs \<and> bsCursor (at (Suc k)) = pass_end (at k) vs
      \<and> bsVolumesPerPass (at k) = bsVolumesPerPass s"
proof -
  obtain vs where vs: "listed_volumes s (ws k) = Inr vs" "P vs"
    using assms(2) by blast
  have K: "bsSweepVolume (at k) = Some f" "listed_volumes (at k) = listed_volumes s"
      "bsVolumesPerPass (at k) = bsVolumesPerPass s"
    using sweeper_after_keeps[OF assms(1), of ws ctxErr k] assms(2) unfolding at_def by blast+
  have "at (Suc k) = fst (snd (snd (SweepPass (ctxErr k) (at k) (ws k))))"
    by (simp add: at_def)
  then show ?thesis
    using SweepPass_step(1)[OF K(1), of "ws k" vs] SweepPass_step(2,3)[OF K(1), of "ws k" vs "ctxErr k"] vs K
    by auto
qed

lemma sweeper_batches_every_volume:
  assumes "bsSweepVolume s = Some f" "0 < bsVolumesPerPass s"
    and "\<forall>k. \<exists>vs. listed_volumes s (ws k) = Inr vs \<and> length vs \<le> N \<and> volumeID \<in> vID ` set vs"
  shows "\<exists>k < (length (bsVolumes s) - bsCursor s) + N.
    volumeID \<in> set (batch_of (sweeper_after ctxErr ws k s) (ws k))"
proof -
  define at where "at k = sweeper_after ctxErr ws k s" for k
  define rest where "rest k = length (bsVolumes (at k)) - bsCursor (at k)" for k
  define hit where "hit k \<longleftrightarrow> volumeID \<in> set (batch_of (at k) (ws k))" for k
  define ahead where "ahead k \<longleftrightarrow> volumeID \<in> set (drop (bsCursor (at k)) (bsVolumes (at k)))" for k
  note step = sweeper_after_step[OF assms(1,3), of ctxErr, folded at_def]
  note pass = pass_list_def pass_start_def pass_end_def
  have pos: "0 < rest k" if "ahead k" for k
    using that unfolding ahead_def rest_def by (cases "bsCursor (at k) < length (bsVolumes (at k))") simp_all
  have down: "rest (Suc k) < rest k" if "rest k \<noteq> 0" for k
    using step[of k] that assms(2) by (auto simp: rest_def pass)
  have advance: "hit k \<or> ahead (Suc k) \<and> rest (Suc k) < rest k" if "ahead k" for k
    using step[of k] that pos[OF that] down[of k]
      slice_or_later[of volumeID "bsCursor (at k)" "bsVolumes (at k)" "bsCursor (at (Suc k))"]
    by (auto simp: hit_def ahead_def rest_def pass)
  have refreshed: "\<exists>j < N. hit (k + j)" if "rest k = 0" for k
  proof -
    obtain vs where S: "length vs \<le> N" "volumeID \<in> vID ` set vs"
      "batch_of (at k) (ws k) = slice (pass_start (at k)) (pass_end (at k) vs) (pass_list (at k) vs)"
      "bsVolumes (at (Suc k)) = pass_list (at k) vs" "bsCursor (at (Suc k)) = pass_end (at k) vs"
      "bsVolumesPerPass (at k) = bsVolumesPerPass s"
      using step[of k] by blast
    have L: "pass_start (at k) = 0" "pass_list (at k) vs = map vID vs" "0 < length vs"
      using that S(2) by (auto simp: rest_def pass)
    show ?thesis
    proof (cases "hit k")
      case False
      then have "ahead (Suc k)"
        using slice_or_later[of volumeID 0 "map vID vs" "pass_end (at k) vs"] S(2-5) L
        by (auto simp: hit_def ahead_def)
      then obtain j where "j < rest (Suc k)" "hit (Suc k + j)"
        using rotation_found[of ahead rest hit "Suc k"] pos advance by blast
      moreover have "rest (Suc k) < length vs"
        using S(4-6) L assms(2) by (simp add: rest_def pass_end_def)
      ultimately show ?thesis
        using S(1) by (intro exI[of _ "Suc j"]) simp
    next
      case True
      moreover have "0 < N" using L(3) S(1) by linarith
      ultimately show ?thesis by (intro exI[of _ 0]) simp
    qed
  qed
  show ?thesis
    using rotation_reaches[of rest N hit 0, OF down refreshed] by (simp add: hit_def rest_def at_def)
qed

text \<open>
  C11. The bounded sweeper starves no volume: if every listing of the volumes succeeds, has at most
  \<open>N\<close> entries and names the volume, then whatever else changes between the passes and however many
  sweeps fail or passes are cancelled, one of the next passes, at most as many as the rest of the
  current list and \<open>N\<close> together, has the volume in its batch. That pass sweeps it, unless its context
  is cancelled before its turn: with no cancellation noticed up to the volume, the pass runs the
  collector on the batch from its start through the volume, however many of these sweeps fail,
  and counts each as swept or as failed.
\<close>

theorem sweeper_visits_every_volume:
  assumes "bsSweepVolume s = Some f" "0 < bsVolumesPerPass s"
    and "\<forall>k. \<exists>vs. listed_volumes s (ws k) = Inr vs \<and> length vs \<le> N \<and> volumeID \<in> vID ` set vs"
  shows "\<exists>k < (length (bsVolumes s) - bsCursor s) + N.
    let at = sweeper_after ctxErr ws k s;
        batch = batch_of at (ws k);
        (err, results, at', w') = SweepPass (ctxErr k) at (ws k)
    in \<exists>before after. batch = before @ volumeID # after
       \<and> ((\<forall>i. length after \<le> i \<and> i < length batch \<longrightarrow> ctxErr k i = None) \<longrightarrow>
          (\<exists>n. length before < n \<and> n \<le> length batch
             \<and> w' = swept_world f (bsPerVolumeLimit s) (take n batch) (ws k)
             \<and> bsSwept at' + bsVolumeErrs at' = bsSwept at + bsVolumeErrs at + n))"
proof -
  obtain k where k: "k < (length (bsVolumes s) - bsCursor s) + N"
      "volumeID \<in> set (batch_of (sweeper_after ctxErr ws k s) (ws k))"
    using sweeper_batches_every_volume[OF assms, of ctxErr] by blast
  define at where "at = sweeper_after ctxErr ws k s"
  have K: "bsSweepVolume at = Some f" "listed_volumes at = listed_volumes s"
      "bsPerVolumeLimit at = bsPerVolumeLimit s"
    using sweeper_after_keeps[OF assms(1), of ws ctxErr k] assms(3) unfolding at_def by blast+
  obtain vs where vs: "listed_volumes at (ws k) = Inr vs"
    using assms(3) K(2) by metis
  obtain before after where split: "batch_of at (ws k) = before @ volumeID # after"
    using k(2) unfolding at_def by (meson split_list)
  obtain err results at' w' where pass: "SweepPass (ctxErr k) at (ws k) = (err, results, at', w')"
    by (metis prod.collapse)
  show ?thesis
    using SweepPass_sweeps[OF K(1) vs split _ pass] split pass k(1) K(3)
    by (intro exI[of _ k]) (auto simp: at_def[symmetric] Let_def)
qed

theorem sweeper_visits_every_volume_witness:
  "\<exists>k < 2. let at = sweeper_after (\<lambda>k i. None) (\<lambda>k. small_garbage) k
                      (NewBoundedChunkSweeper (Some memory_collector) 1 0);
               batch = batch_of at small_garbage;
               (err, results, at', w') = SweepPass (\<lambda>i. None) at small_garbage
           in \<exists>before after n. batch = before @ 3 # after \<and> length before < n
              \<and> w' = swept_world (SweepVolume memory_collector)
                     (bsPerVolumeLimit (NewBoundedChunkSweeper (Some memory_collector) 1 0
                        :: (repo \<times> MemoryStore) BoundedChunkSweeper)) (take n batch) small_garbage"
proof -
  let ?s = "NewBoundedChunkSweeper (Some memory_collector) 1 0 :: (repo \<times> MemoryStore) BoundedChunkSweeper"
  have l: "listed_volumes ?s small_garbage = Inr [small_volume]"
    by (simp add: listed_volumes_def NewBoundedChunkSweeper_def) code_simp
  have i: "vID small_volume = 3" by code_simp
  have f: "bsSweepVolume ?s = Some (SweepVolume memory_collector)" "0 < bsVolumesPerPass ?s"
    "bsVolumes ?s = []"
    by (simp_all add: NewBoundedChunkSweeper_def)
  have "\<forall>k. \<exists>vs. listed_volumes ?s small_garbage = Inr vs \<and> length vs \<le> 2 \<and> 3 \<in> vID ` set vs"
    using l i by simp
  from sweeper_visits_every_volume[OF f(1,2), of "\<lambda>k. small_garbage", OF this, of "\<lambda>k i. None"] show ?thesis
    unfolding f(3) by (simp only: Let_def split_beta list.size diff_0_eq_0 add_0) blast
qed

end
