(* ===== verification/Metrics.thy ===== *)
theory Metrics
  imports ChunkExtent
begin

section \<open>Operation counters (gateway/service/metrics.go)\<close>

text \<open>
  The counters of the gateway service per operation, and what its discards and zeroes did. Counters
  are 64-bit words and wrap; the measured latency is an argument. The collector is never nil, as
  \<open>NewWithRepositoryOptions\<close> makes it.
\<close>

record OperationMetrics =
  omCount :: u64
  omErrors :: u64
  omBytes :: u64
  omTotalLatencyMS :: u64

definition zero_metrics :: OperationMetrics where
  "zero_metrics = \<lparr>omCount = 0, omErrors = 0, omBytes = 0, omTotalLatencyMS = 0\<rparr>"

record IOIdentityMetrics =
  ioDiscardBytes :: u64
  ioLogicalZeroBytes :: u64
  ioDiscardZeroFallbackBytes :: u64
  ioDiscardTrueReclaimBytes :: u64
  ioDiscardAlignmentFallbacks :: u64
  ioDiscardAlignedCount :: u64
  ioDiscardUnalignedCount :: u64
  ioByDiscardPolicy :: "(string, u64) gomap"
  ioLastObservation :: "DiscardObservation option"

definition zero_io_identity :: IOIdentityMetrics where
  "zero_io_identity = \<lparr>ioDiscardBytes = 0, ioLogicalZeroBytes = 0, ioDiscardZeroFallbackBytes = 0,
     ioDiscardTrueReclaimBytes = 0, ioDiscardAlignmentFallbacks = 0, ioDiscardAlignedCount = 0,
     ioDiscardUnalignedCount = 0, ioByDiscardPolicy = [], ioLastObservation = None\<rparr>"

record MetricsCollector =
  mcByOperation :: "(string, OperationMetrics) gomap"
  mcIOIdentity :: "IOIdentityMetrics option"

definition NewMetricsCollector :: MetricsCollector where
  "NewMetricsCollector = \<lparr>mcByOperation = [], mcIOIdentity = None\<rparr>"

definition Record :: "string \<Rightarrow> u64 \<Rightarrow> u64 \<Rightarrow> service_error option \<Rightarrow> MetricsCollector \<Rightarrow> MetricsCollector" where
  "Record op n latencyMS err c =
     (if op = '''' then c
      else let current = mget_or zero_metrics (mcByOperation c) op
           in c\<lparr>mcByOperation := mput op
                \<lparr>omCount = omCount current + 1,
                 omErrors = (if err \<noteq> None then omErrors current + 1 else omErrors current),
                 omBytes = omBytes current + n,
                 omTotalLatencyMS = omTotalLatencyMS current + latencyMS\<rparr> (mcByOperation c)\<rparr>)"

definition RecordDiscardObservation :: "DiscardObservation \<Rightarrow> MetricsCollector \<Rightarrow> MetricsCollector" where
  "RecordDiscardObservation obs c =
     (if doOperation obs = '''' then c
      else let current = (case mcIOIdentity c of None \<Rightarrow> zero_io_identity | Some io \<Rightarrow> io);
               current = current\<lparr>ioLogicalZeroBytes := ioLogicalZeroBytes current + doLogicalZeroBytes obs\<rparr>;
               current =
                 (if doOperation obs = IOOperationDiscard
                  then let current = current\<lparr>ioDiscardBytes := ioDiscardBytes current + doDiscardBytes obs,
                         ioByDiscardPolicy :=
                           (if doPolicy obs \<noteq> ''''
                            then mput (doPolicy obs) (mget_or 0 (ioByDiscardPolicy current) (doPolicy obs) + 1)
                                   (ioByDiscardPolicy current)
                            else ioByDiscardPolicy current)\<rparr>;
                         current =
                           (if doPolicy obs = DiscardPolicyZeroFallback
                            then current\<lparr>ioDiscardZeroFallbackBytes :=
                                           ioDiscardZeroFallbackBytes current + doDiscardBytes obs\<rparr>
                            else if doPolicy obs = DiscardPolicyTrueReclaim
                            then current\<lparr>ioDiscardTrueReclaimBytes :=
                                           ioDiscardTrueReclaimBytes current + doDiscardBytes obs\<rparr>
                            else current)
                       in if doAlignedToReclaimGeometry obs
                          then current\<lparr>ioDiscardAlignedCount := ioDiscardAlignedCount current + 1\<rparr>
                          else current\<lparr>ioDiscardUnalignedCount := ioDiscardUnalignedCount current + 1,
                                 ioDiscardAlignmentFallbacks :=
                                   (if doPolicy obs = DiscardPolicyZeroFallback
                                    then ioDiscardAlignmentFallbacks current + 1
                                    else ioDiscardAlignmentFallbacks current)\<rparr>
                  else current)
           in c\<lparr>mcIOIdentity := Some (current\<lparr>ioLastObservation := Some obs\<rparr>)\<rparr>)"

text \<open>The counters of one operation.\<close>

definition metrics_of :: "MetricsCollector \<Rightarrow> string \<Rightarrow> OperationMetrics" where
  "metrics_of c op = mget_or zero_metrics (mcByOperation c) op"

lemma metrics_of_Record:
  assumes "op \<noteq> ''''"
  shows "metrics_of (Record op n l err c) op' =
     (if op' = op
      then \<lparr>omCount = omCount (metrics_of c op) + 1,
            omErrors = omErrors (metrics_of c op) + (if err = None then 0 else 1),
            omBytes = omBytes (metrics_of c op) + n,
            omTotalLatencyMS = omTotalLatencyMS (metrics_of c op) + l\<rparr>
      else metrics_of c op')"
  using assms by (simp add: Record_def metrics_of_def mget_or_def Let_def)

lemma metrics_of_observation [simp]:
  "metrics_of (RecordDiscardObservation obs c) op = metrics_of c op"
  by (simp add: RecordDiscardObservation_def metrics_of_def Let_def)

end
