(* ===== verification/PathPlan.thy ===== *)
theory PathPlan
  imports VolumeTypes "HOL-Library.List_Lexorder" "HOL-Library.Char_ord"
begin

section \<open>Handoff and path plans (handoff.go, path_plan_status.go)\<close>

text \<open>
  Which gateways should serve a volume, and how a volume moves from one gateway to another. The
  functions are pure transformations of the volume's status record; the clock is an argument, read
  once per call. Reasons and actions are the strings of the source.
\<close>

definition GatewayStateDegraded :: string where "GatewayStateDegraded = ''degraded''"
definition GatewayStateDown :: string where "GatewayStateDown = ''down''"

definition runtimePathPlanReapplyEscalationDelay :: int where "runtimePathPlanReapplyEscalationDelay = 15"
definition runtimePathExpansionStabilizationDelay :: int where "runtimePathExpansionStabilizationDelay = 10"
definition handoffGenerationRotationEscalationDelay :: int where "handoffGenerationRotationEscalationDelay = 15"
definition runtimePathReductionHoldThreshold :: u64 where "runtimePathReductionHoldThreshold = 2"
definition handoffCompletionStabilizationDelay :: int where "handoffCompletionStabilizationDelay = 5"

definition containsGatewayID :: "string list \<Rightarrow> string \<Rightarrow> bool" where
  "containsGatewayID values target \<longleftrightarrow> List.member values target"

definition runtimePathPlanConverged :: "VolumeStatusRecord \<Rightarrow> bool" where
  "runtimePathPlanConverged status \<longleftrightarrow>
     sPathPlanRevision status > 0 \<and> sRuntimeAppliedPathPlanRevision status \<ge> sPathPlanRevision status"

subsection \<open>The stages of a handoff\<close>

definition handoffAcknowledged :: "VolumeStatusRecord \<Rightarrow> bool" where
  "handoffAcknowledged status =
     (if \<not> sHandoffRequired status then False
      else if sCurrentGatewayID status = ''''
              \<or> \<not> containsGatewayID (sHandoffTargetGatewaySet status) (sCurrentGatewayID status) then False
      else if sAttachmentGeneration status = 0 then False
      else sHandoffAckedAtUnix status > 0 \<and> sHandoffAckedGeneration status = sAttachmentGeneration status)"

definition handoffStage :: "VolumeStatusRecord \<Rightarrow> string" where
  "handoffStage status =
     (if \<not> sHandoffRequired status then ''''
      else if sCurrentGatewayID status = ''''
              \<or> \<not> containsGatewayID (sHandoffTargetGatewaySet status) (sCurrentGatewayID status)
              \<or> sAttachmentGeneration status = 0
      then ''pending_generation_rotation''
      else if \<not> handoffAcknowledged status then ''target_attached_pending_ack''
      else if sPathPlanRevision status = 0 \<or> \<not> runtimePathPlanConverged status
      then ''acknowledged_pending_convergence''
      else if sRuntimePathNeedsAttention status then ''acknowledged_pending_runtime_attention''
      else ''ready_to_complete'')"

definition gatewayAllowedDuringHandoff :: "VolumeStatusRecord \<Rightarrow> string \<Rightarrow> bool" where
  "gatewayAllowedDuringHandoff status gatewayID =
     (if \<not> sHandoffRequired status then True
      else if handoffStage status \<in> {''target_attached_pending_ack'', ''acknowledged_pending_convergence'',
                ''acknowledged_pending_runtime_attention'', ''ready_to_complete''}
      then sCurrentGatewayID status \<noteq> '''' \<and> sCurrentGatewayID status = gatewayID
      else containsGatewayID (sHandoffTargetGatewaySet status) gatewayID)"

definition handoffCompletionSatisfied :: "int \<Rightarrow> VolumeStatusRecord \<Rightarrow> bool" where
  "handoffCompletionSatisfied now status =
     (if \<not> sHandoffRequired status then False
      else handoffStage status = ''ready_to_complete''
           \<and> sHandoffCompletionEligibleAtUnix status > 0
           \<and> now \<ge> sHandoffCompletionEligibleAtUnix status)"

definition updateHandoffCompletionEligibility :: "int \<Rightarrow> VolumeStatusRecord \<Rightarrow> VolumeStatusRecord" where
  "updateHandoffCompletionEligibility nowUnix status =
     (if \<not> sHandoffRequired status then status\<lparr>sHandoffCompletionEligibleAtUnix := 0\<rparr>
      else if handoffStage status = ''ready_to_complete''
      then if sHandoffCompletionEligibleAtUnix status = 0
           then status\<lparr>sHandoffCompletionEligibleAtUnix := nowUnix + handoffCompletionStabilizationDelay\<rparr>
           else status
      else status\<lparr>sHandoffCompletionEligibleAtUnix := 0\<rparr>)"

subsection \<open>Escalation\<close>

definition shouldEscalateRuntimePathPlanReapply :: "int \<Rightarrow> VolumeStatusRecord \<Rightarrow> bool" where
  "shouldEscalateRuntimePathPlanReapply now status =
     (if \<not> sInUse status \<or> \<not> sPathPlanReapplyRequested status \<or> \<not> sRuntimePathNeedsAttention status then False
      else if runtimePathPlanConverged status \<or> sPathPlanReapplyRequestedAtUnix status = 0 then False
      else if now - sPathPlanReapplyRequestedAtUnix status < runtimePathPlanReapplyEscalationDelay then False
      else containsGatewayID (sRuntimePathAttentionReasons status) ''lane_unavailable''
           \<or> containsGatewayID (sRuntimePathAttentionReasons status) ''lane_down_preferred'')"

definition shouldEscalatePendingGenerationRotation :: "int \<Rightarrow> VolumeStatusRecord \<Rightarrow> bool" where
  "shouldEscalatePendingGenerationRotation now status =
     (if \<not> sInUse status \<or> \<not> sHandoffRequired status then False
      else if handoffStage status \<noteq> ''pending_generation_rotation'' \<or> sHandoffRequestedAtUnix status = 0 then False
      else now - sHandoffRequestedAtUnix status \<ge> handoffGenerationRotationEscalationDelay)"

definition shouldAdvancePendingGenerationRotationEscalation :: "int \<Rightarrow> VolumeStatusRecord \<Rightarrow> bool" where
  "shouldAdvancePendingGenerationRotationEscalation now status =
     (if \<not> shouldEscalatePendingGenerationRotation now status then False
      else sHandoffNextEscalationAtUnix status = 0 \<or> now \<ge> sHandoffNextEscalationAtUnix status)"

definition handoffBackoffState :: "int \<Rightarrow> VolumeStatusRecord \<Rightarrow> string" where
  "handoffBackoffState now status =
     (if sHandoffReason status \<noteq> ''handoff_generation_rotation_stalled_current_gateway'' then ''''
      else if sHandoffNextEscalationAtUnix status = 0 \<or> now \<ge> sHandoffNextEscalationAtUnix status then ''eligible''
      else ''waiting'')"

definition nextHandoffEscalationDelay :: "u64 \<Rightarrow> int" where
  "nextHandoffEscalationDelay count =
     handoffGenerationRotationEscalationDelay * 2 ^ unat (if count > 3 then 3 else count)"

definition nextRuntimeExpansionDelay :: "VolumeStatusRecord \<Rightarrow> int" where
  "nextRuntimeExpansionDelay status =
     (let level = (if sRuntimePathExpansionBackoffLevel status > 3 then 3
                   else sRuntimePathExpansionBackoffLevel status)
      in runtimePathExpansionStabilizationDelay * 2 ^ unat level)"

definition shouldPreferAggressiveRuntimeHandoff :: "int \<Rightarrow> VolumeStatusRecord \<Rightarrow> bool" where
  "shouldPreferAggressiveRuntimeHandoff now status =
     (if sRuntimePathReductionHoldUntilUnix status \<le> now then False
      else containsGatewayID (sRuntimePathAttentionReasons status) ''lane_unavailable''
           \<or> containsGatewayID (sRuntimePathAttentionReasons status) ''lane_down_preferred'')"

definition shouldForceCurrentGatewayHandoff :: "int \<Rightarrow> VolumeStatusRecord \<Rightarrow> bool" where
  "shouldForceCurrentGatewayHandoff now status \<longleftrightarrow>
     shouldPreferAggressiveRuntimeHandoff now status
     \<or> shouldEscalateRuntimePathPlanReapply now status
     \<or> shouldEscalatePendingGenerationRotation now status"

definition handoffReasonForStatus :: "int \<Rightarrow> VolumeStatusRecord \<Rightarrow> string" where
  "handoffReasonForStatus now status =
     (if shouldEscalatePendingGenerationRotation now status
      then ''handoff_generation_rotation_stalled_current_gateway''
      else if shouldEscalateRuntimePathPlanReapply now status
      then ''runtime_path_plan_reapply_stalled_current_gateway''
      else if shouldPreferAggressiveRuntimeHandoff now status
      then ''runtime_hold_borderline_current_gateway''
      else ''current_gateway_not_desired'')"

subsection \<open>The observed and the desired gateways\<close>

definition GatewayObservedForPathPlan :: "string \<Rightarrow> bool" where
  "GatewayObservedForPathPlan state \<longleftrightarrow> state \<in> {GatewayStateUp, GatewayStateDegraded, GatewayStateUnknown}"

definition GatewayDesiredForPathPlan :: "string \<Rightarrow> bool" where
  "GatewayDesiredForPathPlan state \<longleftrightarrow> state = GatewayStateUp"

definition ComputeObservedActiveGatewaySet :: "GatewayRecord list \<Rightarrow> string list" where
  "ComputeObservedActiveGatewaySet gateways =
     sort (map gGatewayID (filter (\<lambda>gateway. gGatewayID gateway \<noteq> ''''
                                     \<and> GatewayObservedForPathPlan (gConnectionState gateway)) gateways))"

definition gatewayDesiredByID :: "GatewayRecord list \<Rightarrow> string \<Rightarrow> bool" where
  "gatewayDesiredByID gateways gatewayID =
     (case find (\<lambda>gateway. gGatewayID gateway = gatewayID) gateways of
        None \<Rightarrow> False
      | Some gateway \<Rightarrow> GatewayDesiredForPathPlan (gConnectionState gateway))"

definition desiredGatewayCount :: "GatewayRecord list \<Rightarrow> nat" where
  "desiredGatewayCount gateways = length (filter (\<lambda>gateway. GatewayDesiredForPathPlan (gConnectionState gateway)) gateways)"

definition runtimePathExpansionEligible :: "int \<Rightarrow> VolumeStatusRecord \<Rightarrow> bool" where
  "runtimePathExpansionEligible now status \<longleftrightarrow>
     sRuntimePathExpansionEligibleAtUnix status > 0 \<and> sRuntimePathExpansionEligibleAtUnix status \<le> now"

definition ControllerPathPlanRuntimeExpansionEligible :: "int \<Rightarrow> VolumeStatusRecord \<Rightarrow> bool" where
  "ControllerPathPlanRuntimeExpansionEligible now status = runtimePathExpansionEligible now status"

definition shouldDelayRuntimeDesiredReExpansion :: "VolumeStatusRecord \<Rightarrow> GatewayRecord list \<Rightarrow> bool" where
  "shouldDelayRuntimeDesiredReExpansion status gateways =
     (if sRuntimePathNeedsAttention status \<or> \<not> runtimePathPlanConverged status then False
      else if length (sDesiredActiveGatewaySet status) \<noteq> 1 \<or> desiredGatewayCount gateways \<le> 1 then False
      else sRuntimePathFeedbackCount status > 0 \<or> sRuntimePathReductionHoldUntilUnix status > 0)"

definition shouldPreferFewerDesiredGateways :: "int \<Rightarrow> VolumeStatusRecord \<Rightarrow> GatewayRecord list \<Rightarrow> bool" where
  "shouldPreferFewerDesiredGateways now status gateways \<longleftrightarrow>
     shouldEscalateRuntimePathPlanReapply now status
     \<or> containsGatewayID (sRuntimePathRecommendedActions status) ''prefer_fewer_active_paths''
     \<or> sRuntimePathExpansionEligibleAtUnix status > now
     \<or> sRuntimePathReductionHoldUntilUnix status > now
     \<or> list_ex (\<lambda>gateway. gConnectionState gateway \<in> {GatewayStateDegraded, GatewayStateUnknown}) gateways"

text \<open>The alternative after a given one, in a cyclic order.\<close>

fun index_of :: "string \<Rightarrow> string list \<Rightarrow> nat option" where
  "index_of x [] = None"
| "index_of x (y # ys) = (if y = x then Some 0 else map_option Suc (index_of x ys))"

definition selectForcedHandoffGateway :: "int \<Rightarrow> VolumeStatusRecord \<Rightarrow> string list \<Rightarrow> string" where
  "selectForcedHandoffGateway now status candidates =
     (let alternatives = filter (\<lambda>candidate. candidate \<noteq> sCurrentGatewayID status) candidates
      in if alternatives = [] then candidates ! 0
         else case sDesiredActiveGatewaySet status of
                [desired] \<Rightarrow>
                  if shouldEscalatePendingGenerationRotation now status
                     \<and> desired \<noteq> sCurrentGatewayID status \<and> containsGatewayID alternatives desired
                  then if \<not> shouldAdvancePendingGenerationRotationEscalation now status then desired
                       else if length alternatives = 1 then alternatives ! 0
                       else case index_of desired alternatives of
                              Some idx \<Rightarrow> alternatives ! ((idx + 1) mod length alternatives)
                            | None \<Rightarrow> alternatives ! 0
                  else alternatives ! 0
              | _ \<Rightarrow> alternatives ! 0)"

definition reduceDesiredGatewaySet :: "int \<Rightarrow> VolumeStatusRecord \<Rightarrow> GatewayRecord list \<Rightarrow> string list \<Rightarrow> string list" where
  "reduceDesiredGatewaySet now status gateways candidates =
     (if length candidates \<le> 1 then candidates
      else if sInUse status \<and> sCurrentGatewayID status \<noteq> ''''
              \<and> containsGatewayID candidates (sCurrentGatewayID status)
              \<and> gatewayDesiredByID gateways (sCurrentGatewayID status)
              \<and> \<not> shouldForceCurrentGatewayHandoff now status
      then [sCurrentGatewayID status]
      else if sCurrentGatewayID status \<noteq> '''' \<and> containsGatewayID candidates (sCurrentGatewayID status)
              \<and> shouldForceCurrentGatewayHandoff now status
      then [selectForcedHandoffGateway now status candidates]
      else take 1 candidates)"

definition ComputeDesiredActiveGatewaySet ::
    "int \<Rightarrow> VolumeStatusRecord \<Rightarrow> GatewayRecord list \<Rightarrow> string list \<Rightarrow> string list" where
  "ComputeDesiredActiveGatewaySet now status gateways observed =
     (let out = sort (map gGatewayID (filter (\<lambda>gateway. gGatewayID gateway \<noteq> ''''
                        \<and> GatewayDesiredForPathPlan (gConnectionState gateway)) gateways))
      in if out = []
         then if shouldPreferFewerDesiredGateways now status gateways \<and> length observed > 1
              then reduceDesiredGatewaySet now status gateways observed
              else observed
         else if shouldPreferFewerDesiredGateways now status gateways \<and> length out > 1
         then reduceDesiredGatewaySet now status gateways out
         else out)"

definition EqualGatewayIDSet :: "string list \<Rightarrow> string list \<Rightarrow> bool" where
  "EqualGatewayIDSet a b \<longleftrightarrow> length a = length b \<and> list_all (\<lambda>i. a ! i = b ! i) [0..<length a]"

text \<open>The first occurrence of every string, in order.\<close>

fun dedupe_seen :: "string list \<Rightarrow> string list \<Rightarrow> string list" where
  "dedupe_seen seen [] = []"
| "dedupe_seen seen (value # values) =
     (if List.member seen value then dedupe_seen seen values else value # dedupe_seen (value # seen) values)"

definition dedupeStrings :: "string list \<Rightarrow> string list" where
  "dedupeStrings values = dedupe_seen [] values"

subsection \<open>Advice for the controller and the operator\<close>

definition pathPlanReapplyReason :: "VolumeStatusRecord \<Rightarrow> string" where
  "pathPlanReapplyReason status =
     (case find (containsGatewayID (sRuntimePathAttentionReasons status))
             [''lane_unavailable'', ''lane_down_preferred'', ''lane_degraded_without_up_fallback''] of
        Some reason \<Rightarrow> ''runtime_'' @ reason
      | None \<Rightarrow>
          if containsGatewayID (sRuntimePathRecommendedActions status) ''reapply_latest_path_plan''
          then ''runtime_reapply_latest_path_plan''
          else if containsGatewayID (sRuntimePathRecommendedActions status) ''refresh_gateway_path_plan''
          then ''runtime_refresh_gateway_path_plan''
          else '''')"

definition shouldRequestPathPlanReapply :: "int \<Rightarrow> VolumeStatusRecord \<Rightarrow> bool \<times> string" where
  "shouldRequestPathPlanReapply now status =
     (if runtimePathPlanConverged status then (False, '''')
      else if sRuntimePathNeedsAttention status
              \<and> (containsGatewayID (sRuntimePathRecommendedActions status) ''refresh_gateway_path_plan''
                 \<or> containsGatewayID (sRuntimePathRecommendedActions status) ''reapply_latest_path_plan'')
      then (True, pathPlanReapplyReason status)
      else if sPathPlanReapplyRequested status \<and> sRuntimePathReductionHoldUntilUnix status > now
      then (True, if sPathPlanReapplyReason status = '''' then pathPlanReapplyReason status
                  else sPathPlanReapplyReason status)
      else (False, ''''))"

definition pathPlanAttention ::
    "GatewayRecord list \<Rightarrow> string list \<Rightarrow> string list \<Rightarrow> bool \<times> string list \<times> string list" where
  "pathPlanAttention gateways observed desired =
     (let named = filter (\<lambda>gateway. gGatewayID gateway \<noteq> '''') gateways;
          reasons = dedupeStrings (
            (if observed = [] then [''no_observed_gateway''] else [])
            @ (if desired = [] \<and> observed \<noteq> [] then [''no_desired_gateway''] else [])
            @ concat (map (\<lambda>gateway.
                if gConnectionState gateway = GatewayStateDegraded then [''observed_degraded_gateway'']
                else if gConnectionState gateway = GatewayStateUnknown then [''observed_unknown_gateway'']
                else []) named));
          actions = dedupeStrings (
            (if observed = [] then [''refresh_gateway_path_plan'', ''reopen_or_reapply_path_plan''] else [])
            @ (if desired = [] \<and> observed \<noteq> []
               then [''refresh_gateway_path_plan'', ''prefer_fewer_active_paths''] else [])
            @ concat (map (\<lambda>gateway.
                if gConnectionState gateway = GatewayStateDegraded
                then [''refresh_gateway_path_plan'', ''prefer_fewer_active_paths'']
                else if gConnectionState gateway = GatewayStateUnknown then [''refresh_gateway_path_plan'']
                else []) named))
      in (reasons \<noteq> [], reasons, actions))"

definition ControllerPathPlanNeedsAttention :: "VolumeStatusRecord \<Rightarrow> bool" where
  "ControllerPathPlanNeedsAttention status \<longleftrightarrow>
     sPathPlanNeedsAttention status \<or> sRuntimePathNeedsAttention status"

definition ControllerPathPlanAttentionReasons :: "VolumeStatusRecord \<Rightarrow> string list" where
  "ControllerPathPlanAttentionReasons status =
     dedupeStrings (sPathPlanAttentionReasons status @ sRuntimePathAttentionReasons status)"

definition handoffRecommendedActions :: "int \<Rightarrow> VolumeStatusRecord \<Rightarrow> string list" where
  "handoffRecommendedActions now status =
     (if \<not> sHandoffRequired status then []
      else [''complete_gateway_handoff'']
        @ (if sHandoffReason status \<in> {''runtime_hold_borderline_current_gateway'',
                                       ''runtime_path_plan_reapply_stalled_current_gateway''}
           then [''complete_gateway_handoff_aggressively'', ''prefer_fewer_active_paths'']
           else if sHandoffReason status = ''handoff_generation_rotation_stalled_current_gateway''
           then [''prefer_fewer_active_paths'']
             @ (if handoffBackoffState now status = ''eligible''
                then [''complete_gateway_handoff_aggressively''] else [])
           else []))"

definition runtimeNoPathRecommendedActions :: "VolumeStatusRecord \<Rightarrow> string list" where
  "runtimeNoPathRecommendedActions status =
     (if sRuntimeNoPathState status = ''queueing''
      then [''restore_gateway_path'', ''start_replacement_gateway'', ''check_gateway_registry'']
        @ (if sRuntimeNoPathRetryMode status = ''queue'' \<or> sRuntimeNoPathRetryMode status = ''timed''
           then [''disable_no_path_queueing_if_unwanted''] else [])
      else if sRuntimeNoPathState status = ''failing''
      then [''restore_gateway_path'', ''check_gateway_registry'']
      else [])"

definition ControllerPathPlanRecommendedActions :: "int \<Rightarrow> VolumeStatusRecord \<Rightarrow> string list" where
  "ControllerPathPlanRecommendedActions now status =
     dedupeStrings (sPathPlanRecommendedActions status @ sRuntimePathRecommendedActions status
       @ handoffRecommendedActions now status @ runtimeNoPathRecommendedActions status
       @ (if runtimePathExpansionEligible now status then [''refresh_gateway_path_plan''] else []))"

definition OperatorPathPlanRecommendedActions :: "int \<Rightarrow> VolumeStatusRecord \<Rightarrow> string list" where
  "OperatorPathPlanRecommendedActions now status = ControllerPathPlanRecommendedActions now status"

definition ClusterPriorityRecommendedActions :: "string \<Rightarrow> string \<Rightarrow> string list" where
  "ClusterPriorityRecommendedActions currentClass topClass =
     (if topClass = '''' \<or> currentClass = topClass then []
      else if topClass = ''aggressive_handoff'' then [''complete_gateway_handoff_aggressively'']
      else if topClass = ''handoff'' then [''complete_gateway_handoff'']
      else if topClass \<in> {''expansion_ready'', ''refresh'', ''attention''} then [''refresh_gateway_path_plan'']
      else [])"

definition operatorPathPlanPriorityClass :: "int \<Rightarrow> VolumeStatusRecord \<Rightarrow> string list \<Rightarrow> string" where
  "operatorPathPlanPriorityClass now status actions =
     (if containsGatewayID actions ''complete_gateway_handoff_aggressively'' then ''aggressive_handoff''
      else if containsGatewayID actions ''complete_gateway_handoff'' then ''handoff''
      else if ControllerPathPlanRuntimeExpansionEligible now status then ''expansion_ready''
      else if containsGatewayID actions ''refresh_gateway_path_plan''
              \<or> containsGatewayID actions ''reapply_latest_path_plan'' then ''refresh''
      else if ControllerPathPlanNeedsAttention status then ''attention''
      else ''normal'')"

definition OperatorPathPlanPriorityClass :: "int \<Rightarrow> VolumeStatusRecord \<Rightarrow> string" where
  "OperatorPathPlanPriorityClass now status =
     operatorPathPlanPriorityClass now status (OperatorPathPlanRecommendedActions now status)"

definition OperatorPathPlanRecommendedActionsWithCluster ::
    "int \<Rightarrow> VolumeStatusRecord \<Rightarrow> string \<Rightarrow> string list" where
  "OperatorPathPlanRecommendedActionsWithCluster now status topClass =
     dedupeStrings (OperatorPathPlanRecommendedActions now status
       @ ClusterPriorityRecommendedActions (OperatorPathPlanPriorityClass now status) topClass)"

definition OperatorPathPlanPriorityClassWithCluster :: "int \<Rightarrow> VolumeStatusRecord \<Rightarrow> string \<Rightarrow> string" where
  "OperatorPathPlanPriorityClassWithCluster now status topClass =
     operatorPathPlanPriorityClass now status (OperatorPathPlanRecommendedActionsWithCluster now status topClass)"

definition reconcileRequestForStatus :: "int \<Rightarrow> VolumeStatusRecord \<Rightarrow> int \<times> string" where
  "reconcileRequestForStatus nowUnix status =
     (if runtimePathExpansionEligible nowUnix status then (nowUnix, ''runtime_expansion_eligible'')
      else if shouldEscalatePendingGenerationRotation nowUnix status
              \<and> handoffBackoffState nowUnix status = ''eligible''
      then (nowUnix, ''handoff_generation_rotation_backoff_eligible'')
      else if shouldEscalateRuntimePathPlanReapply nowUnix status
      then (nowUnix, ''runtime_path_plan_reapply_stalled'')
      else (0, ''''))"

definition reconcileScheduleForStatus :: "int \<Rightarrow> VolumeStatusRecord \<Rightarrow> int \<times> string" where
  "reconcileScheduleForStatus nowUnix status =
     (if sHandoffRequired status \<and> handoffStage status = ''ready_to_complete''
         \<and> sHandoffCompletionEligibleAtUnix status > nowUnix
      then (sHandoffCompletionEligibleAtUnix status, ''handoff_completion_ready'')
      else if sRuntimePathExpansionEligibleAtUnix status > nowUnix
              \<and> \<not> sRuntimePathNeedsAttention status \<and> runtimePathPlanConverged status
      then (sRuntimePathExpansionEligibleAtUnix status, ''runtime_expansion_eligible'')
      else if sHandoffReason status = ''handoff_generation_rotation_stalled_current_gateway''
              \<and> sHandoffNextEscalationAtUnix status > nowUnix
              \<and> handoffBackoffState nowUnix status = ''waiting''
      then (sHandoffNextEscalationAtUnix status, ''handoff_generation_rotation_backoff_eligible'')
      else let nextAt = sPathPlanReapplyRequestedAtUnix status + runtimePathPlanReapplyEscalationDelay in
           if sPathPlanReapplyRequested status \<and> sPathPlanReapplyRequestedAtUnix status > 0
              \<and> sRuntimePathNeedsAttention status \<and> \<not> runtimePathPlanConverged status \<and> nextAt > nowUnix
           then (nextAt, ''runtime_path_plan_reapply_stalled'')
           else (0, ''''))"

subsection \<open>Reconciling a volume's status with its gateways\<close>

text \<open>Counters that skip the value 0, which stands for ``none yet''.\<close>

definition bump :: "u64 \<Rightarrow> u64" where
  "bump x = (if x + 1 = 0 then 1 else x + 1)"

definition settleRuntimeExpansion :: "int \<Rightarrow> VolumeStatusRecord \<Rightarrow> GatewayRecord list \<Rightarrow> VolumeStatusRecord" where
  "settleRuntimeExpansion nowUnix status0 gateways =
     (let status =
            (if shouldDelayRuntimeDesiredReExpansion status0 gateways
             then if sRuntimePathExpansionEligibleAtUnix status0 = 0
                  then status0\<lparr>sRuntimePathExpansionEligibleAtUnix := nowUnix + nextRuntimeExpansionDelay status0\<rparr>
                  else status0
             else if sRuntimePathNeedsAttention status0 \<or> \<not> runtimePathPlanConverged status0
             then status0\<lparr>sRuntimePathExpansionEligibleAtUnix := 0\<rparr>
             else status0)
      in if runtimePathPlanConverged status \<and> \<not> sRuntimePathNeedsAttention status
            \<and> sRuntimePathExpansionEligibleAtUnix status > 0
            \<and> sRuntimePathExpansionEligibleAtUnix status \<le> nowUnix
         then status\<lparr>sRuntimePathReductionHoldUntilUnix := 0, sRuntimePathFeedbackCount := 0,
                     sRuntimePathExpansionEligibleAtUnix := 0,
                     sRuntimePathExpansionBackoffLevel :=
                       (if sRuntimePathExpansionBackoffLevel status > 0
                        then sRuntimePathExpansionBackoffLevel status - 1
                        else sRuntimePathExpansionBackoffLevel status)\<rparr>
         else status)"

text \<open>Whether a handoff is to be under way after the call.\<close>

definition decideHandoff :: "int \<Rightarrow> VolumeStatusRecord \<Rightarrow> string list \<Rightarrow> bool" where
  "decideHandoff now status desired =
     (let handoffRequired = (sInUse status \<and> sCurrentGatewayID status \<noteq> '''' \<and> desired \<noteq> []
            \<and> \<not> containsGatewayID desired (sCurrentGatewayID status));
          handoffRequired =
            (if sHandoffRequired status \<and> \<not> handoffCompletionSatisfied now status \<and> handoffStage status \<noteq> ''''
             then True else handoffRequired)
      in if handoffCompletionSatisfied now status then False else handoffRequired)"

definition handoffAdvance :: "int \<Rightarrow> VolumeStatusRecord \<Rightarrow> bool \<Rightarrow> bool" where
  "handoffAdvance now status handoffRequired \<longleftrightarrow>
     handoffRequired
     \<and> handoffReasonForStatus now status = ''handoff_generation_rotation_stalled_current_gateway''
     \<and> shouldAdvancePendingGenerationRotationEscalation now status"

definition reconcileAdvice ::
    "int \<Rightarrow> VolumeStatusRecord \<Rightarrow> GatewayRecord list \<Rightarrow> string list \<Rightarrow> string list \<Rightarrow> bool \<Rightarrow> bool
      \<Rightarrow> bool \<times> string list \<times> string list" where
  "reconcileAdvice now status gateways observed desired reapplyRequested handoffRequired =
     (let (needsAttention, attentionReasons, recommendedActions) = pathPlanAttention gateways observed desired;
          (needsAttention, attentionReasons, recommendedActions) =
            (if reapplyRequested
             then (True, attentionReasons @ [''runtime_path_plan_reapply_requested''],
                   recommendedActions @ [''reapply_latest_path_plan''])
             else (needsAttention, attentionReasons, recommendedActions));
          handoffReason = handoffReasonForStatus now status;
          advance = handoffAdvance now status handoffRequired;
          (needsAttention, attentionReasons, recommendedActions) =
            (if handoffRequired
             then (True, attentionReasons @ [''handoff_required''],
                   recommendedActions @ [''complete_gateway_handoff'', ''prefer_fewer_active_paths'']
                   @ (if handoffReason = ''runtime_hold_borderline_current_gateway''
                         \<or> handoffReason = ''runtime_path_plan_reapply_stalled_current_gateway''
                         \<or> (handoffReason = ''handoff_generation_rotation_stalled_current_gateway'' \<and> advance)
                      then [''complete_gateway_handoff_aggressively''] else []))
             else (needsAttention, attentionReasons, recommendedActions));
          (needsAttention, attentionReasons, recommendedActions) =
            (if shouldEscalatePendingGenerationRotation now status
             then (True, attentionReasons @ [''handoff_generation_rotation_stalled''],
                   recommendedActions @ [''complete_gateway_handoff'', ''prefer_fewer_active_paths'']
                   @ (if advance then [''complete_gateway_handoff_aggressively''] else []))
             else (needsAttention, attentionReasons, recommendedActions));
          (needsAttention, attentionReasons, recommendedActions) =
            (if shouldEscalateRuntimePathPlanReapply now status
             then (True, attentionReasons @ [''runtime_path_plan_reapply_stalled''],
                   recommendedActions @ [''complete_gateway_handoff'', ''complete_gateway_handoff_aggressively'',
                                         ''prefer_fewer_active_paths''])
             else (needsAttention, attentionReasons, recommendedActions))
      in (needsAttention, dedupeStrings attentionReasons, dedupeStrings recommendedActions))"

definition recordReapply :: "int \<Rightarrow> VolumeStatusRecord \<Rightarrow> bool \<Rightarrow> string \<Rightarrow> bool \<Rightarrow> VolumeStatusRecord" where
  "recordReapply now status reapplyRequested reapplyReason desiredChanged =
     (let status' =
            (if reapplyRequested
             then if \<not> sPathPlanReapplyRequested status \<or> sPathPlanReapplyReason status \<noteq> reapplyReason
                  then status\<lparr>sPathPlanReapplyRequestedAtUnix := now,
                              sPathPlanRevision := (if \<not> desiredChanged then bump (sPathPlanRevision status)
                                                    else sPathPlanRevision status)\<rparr>
                  else status
             else status\<lparr>sPathPlanReapplyRequestedAtUnix := 0\<rparr>)
      in status'\<lparr>sPathPlanReapplyRequested := reapplyRequested, sPathPlanReapplyReason := reapplyReason\<rparr>)"

text \<open>
  The request time, the escalation counters and the fencing epoch of the handoff. In the branch of
  an unchanged handoff the source assigns the previous values back, which changes nothing.
\<close>

definition recordHandoff ::
    "int \<Rightarrow> VolumeStatusRecord \<Rightarrow> bool \<Rightarrow> string \<Rightarrow> string list \<Rightarrow> bool \<Rightarrow> VolumeStatusRecord" where
  "recordHandoff nowUnix status handoffRequired handoffReason handoffTargets advance =
     (let status' =
            (if handoffRequired
             then if \<not> sHandoffRequired status
                     \<or> \<not> EqualGatewayIDSet (sHandoffTargetGatewaySet status) handoffTargets
                  then status\<lparr>sHandoffRequestedAtUnix := nowUnix, sHandoffEscalationCount := 0,
                              sHandoffNextEscalationAtUnix := 0\<rparr>
                  else status
             else status\<lparr>sHandoffRequestedAtUnix := 0, sHandoffAckedAtUnix := 0, sHandoffAckedGeneration := 0,
                         sHandoffCompletionEligibleAtUnix := 0, sHandoffEscalationCount := 0,
                         sHandoffNextEscalationAtUnix := 0\<rparr>);
          status' =
            (if advance
             then status'\<lparr>sHandoffEscalationCount := sHandoffEscalationCount status + 1,
                          sHandoffNextEscalationAtUnix :=
                            nowUnix + nextHandoffEscalationDelay (sHandoffEscalationCount status + 1)\<rparr>
             else status');
          status' =
            (if handoffRequired
                \<and> (\<not> sHandoffRequired status
                   \<or> \<not> EqualGatewayIDSet (sHandoffTargetGatewaySet status) handoffTargets
                   \<or> sHandoffReason status \<noteq> handoffReason \<or> advance)
             then status'\<lparr>sWriterFencingEpoch := bump (sWriterFencingEpoch status)\<rparr>
             else status')
      in status'\<lparr>sHandoffRequired := handoffRequired, sHandoffReason := handoffReason,
                 sHandoffTargetGatewaySet := handoffTargets\<rparr>)"

definition raiseExpansionBackoff :: "VolumeStatusRecord \<Rightarrow> VolumeStatusRecord" where
  "raiseExpansionBackoff status =
     (if sRuntimePathNeedsAttention status
         \<and> containsGatewayID (sRuntimePathRecommendedActions status) ''prefer_fewer_active_paths''
      then let level = ucast (sRuntimePathFeedbackCount status div runtimePathReductionHoldThreshold) :: u32;
               level = (if level > 3 then 3 else level)
           in if level > sRuntimePathExpansionBackoffLevel status
              then status\<lparr>sRuntimePathExpansionBackoffLevel := level\<rparr> else status
      else status)"

definition finishReconcile :: "int \<Rightarrow> VolumeStatusRecord \<Rightarrow> VolumeStatusRecord" where
  "finishReconcile nowUnix status0 =
     (let status = status0\<lparr>sHandoffStage := (if sHandoffRequired status0 then handoffStage status0 else '''')\<rparr>;
          status = updateHandoffCompletionEligibility nowUnix status;
          status = status\<lparr>sControllerReconcileRequestedAtUnix := fst (reconcileRequestForStatus nowUnix status),
                          sControllerReconcileReason := snd (reconcileRequestForStatus nowUnix status)\<rparr>
      in status\<lparr>sControllerReconcileScheduledAtUnix := fst (reconcileScheduleForStatus nowUnix status),
                sControllerReconcileScheduledReason := snd (reconcileScheduleForStatus nowUnix status)\<rparr>)"

definition reconciledStatus :: "int \<Rightarrow> VolumeStatusRecord \<Rightarrow> GatewayRecord list \<Rightarrow> VolumeStatusRecord" where
  "reconciledStatus nowUnix original gateways =
     (let status = settleRuntimeExpansion nowUnix original gateways;
          observed = ComputeObservedActiveGatewaySet gateways;
          desired = ComputeDesiredActiveGatewaySet nowUnix status gateways observed;
          (reapplyRequested, reapplyReason) = shouldRequestPathPlanReapply nowUnix status;
          handoffRequired = decideHandoff nowUnix status desired;
          handoffReason = (if handoffRequired then handoffReasonForStatus nowUnix status else '''');
          handoffTargets = (if handoffRequired then desired else []);
          advance = handoffAdvance nowUnix status handoffRequired;
          (needsAttention, attentionReasons, recommendedActions) =
            reconcileAdvice nowUnix status gateways observed desired reapplyRequested handoffRequired;
          desiredChanged = (\<not> EqualGatewayIDSet (sDesiredActiveGatewaySet status) desired);
          status = status\<lparr>sObservedActiveGatewaySet := observed, sDesiredActiveGatewaySet := desired,
                          sPathPlanNeedsAttention := needsAttention,
                          sPathPlanAttentionReasons := attentionReasons,
                          sPathPlanRecommendedActions := recommendedActions\<rparr>;
          status = recordReapply nowUnix status reapplyRequested reapplyReason desiredChanged;
          status = recordHandoff nowUnix status handoffRequired handoffReason handoffTargets advance;
          status = (if desiredChanged then status\<lparr>sPathPlanRevision := bump (sPathPlanRevision status)\<rparr>
                    else status);
          status = raiseExpansionBackoff status
      in finishReconcile nowUnix status)"

text \<open>
  The result with what changed: the observed and the desired gateways. Comparing the records as
  \<open>reflect.DeepEqual\<close> does distinguishes in Go also a nil from an empty slice; the flags are the same.
\<close>

definition ReconcileVolumePathPlanStatus ::
    "int \<Rightarrow> VolumeStatusRecord \<Rightarrow> GatewayRecord list \<Rightarrow> VolumeStatusRecord \<times> bool \<times> bool" where
  "ReconcileVolumePathPlanStatus nowUnix original gateways =
     (let observed = ComputeObservedActiveGatewaySet gateways;
          desired = ComputeDesiredActiveGatewaySet nowUnix (settleRuntimeExpansion nowUnix original gateways)
                      gateways observed;
          status = reconciledStatus nowUnix original gateways
      in if status = original then (status, False, False)
         else (status, \<not> EqualGatewayIDSet (sObservedActiveGatewaySet original) observed,
               \<not> EqualGatewayIDSet (sDesiredActiveGatewaySet original) desired))"

section \<open>Lemmas\<close>

lemma containsGatewayID_iff [simp]: "containsGatewayID values target \<longleftrightarrow> target \<in> set values"
  by (simp add: containsGatewayID_def)

lemma EqualGatewayIDSet_iff [simp]: "EqualGatewayIDSet a b \<longleftrightarrow> a = b"
  by (auto simp: EqualGatewayIDSet_def list_all_iff list_eq_iff_nth_eq [of a b])

lemma dedupe_seen_set: "set (dedupe_seen seen xs) = set xs - set seen"
  by (induction seen xs rule: dedupe_seen.induct) auto

lemma dedupe_seen_distinct: "distinct (dedupe_seen seen xs)"
  by (induction seen xs rule: dedupe_seen.induct) (auto simp: dedupe_seen_set)

lemma dedupeStrings_spec: "set (dedupeStrings xs) = set xs" "distinct (dedupeStrings xs)"
  by (simp_all add: dedupeStrings_def dedupe_seen_set dedupe_seen_distinct)

lemma bump_changes [simp]: "bump x \<noteq> x" "bump x \<noteq> 0"
  by (auto simp: bump_def)

lemma index_of_member: "index_of x xs = Some i \<Longrightarrow> i < length xs"
  by (induction xs arbitrary: i) (auto split: if_splits)

subsection \<open>The desired gateways\<close>

lemma selectForcedHandoffGateway_mem:
  assumes "candidates \<noteq> []"
  shows "selectForcedHandoffGateway now status candidates \<in> set candidates"
proof -
  define alt where "alt = filter (\<lambda>candidate. candidate \<noteq> sCurrentGatewayID status) candidates"
  have sub: "set alt \<subseteq> set candidates"
    by (auto simp: alt_def)
  have first: "alt ! 0 \<in> set alt" "alt ! (i mod length alt) \<in> set alt" if "alt \<noteq> []" for i
    using that by simp_all
  show ?thesis
  proof (cases "alt = []")
    case True
    then show ?thesis
      using assms by (simp add: selectForcedHandoffGateway_def flip: alt_def)
  next
    case False
    have "selectForcedHandoffGateway now status candidates \<in> set alt"
      unfolding selectForcedHandoffGateway_def Let_def alt_def [symmetric]
      using False first [OF False] by (simp split: list.split option.split)
    with sub show ?thesis by blast
  qed
qed

lemma reduceDesiredGatewaySet_single:
  assumes "length candidates > 1"
  shows "\<exists>g \<in> set candidates. reduceDesiredGatewaySet now status gateways candidates = [g]"
proof -
  from assms obtain a b cs where candidates: "candidates = a # b # cs"
    by (cases candidates rule: remdups_adj.cases) auto
  show ?thesis
    using selectForcedHandoffGateway_mem [of candidates now status] candidates
    by (auto simp: reduceDesiredGatewaySet_def)
qed

lemma set_observed:
  "set (ComputeObservedActiveGatewaySet gateways)
     = {gGatewayID g | g. g \<in> set gateways \<and> gGatewayID g \<noteq> '''' \<and> GatewayObservedForPathPlan (gConnectionState g)}"
  by (auto simp: ComputeObservedActiveGatewaySet_def)

lemma up_is_observed: "GatewayDesiredForPathPlan st \<Longrightarrow> GatewayObservedForPathPlan st"
  by (simp add: GatewayDesiredForPathPlan_def GatewayObservedForPathPlan_def)

text \<open>
  C34. The desired gateways of a volume are always among the observed ones; there is one whenever a
  gateway is observed at all; if some gateway is up then only gateways that are up are desired; and
  under pressure (a stalled reapply, a recommendation, a hold or a degraded gateway) at most one is.
\<close>

theorem desired_gateways_observed:
  fixes now status gateways
  defines "observed \<equiv> ComputeObservedActiveGatewaySet gateways"
  defines "desired \<equiv> ComputeDesiredActiveGatewaySet now status gateways observed"
  shows "set desired \<subseteq> set observed
     \<and> (desired = [] \<longleftrightarrow> observed = [])
     \<and> ((\<exists>g \<in> set gateways. gGatewayID g \<noteq> '''' \<and> gConnectionState g = GatewayStateUp)
         \<longrightarrow> (\<forall>i \<in> set desired. \<exists>g \<in> set gateways. gGatewayID g = i \<and> gConnectionState g = GatewayStateUp))
     \<and> (shouldPreferFewerDesiredGateways now status gateways \<longrightarrow> length desired \<le> 1)"
proof -
  define up where "up = sort (map gGatewayID (filter (\<lambda>gateway. gGatewayID gateway \<noteq> ''''
                        \<and> GatewayDesiredForPathPlan (gConnectionState gateway)) gateways))"
  have set_up: "set up = {gGatewayID g | g. g \<in> set gateways \<and> gGatewayID g \<noteq> '''' \<and> gConnectionState g = GatewayStateUp}"
    by (auto simp: up_def GatewayDesiredForPathPlan_def)
  then have sub: "set up \<subseteq> set observed"
    using up_is_observed unfolding observed_def set_observed GatewayDesiredForPathPlan_def by auto
  define base where "base = (if up = [] then observed else up)"
  have base: "set base \<subseteq> set observed" "base = [] \<longleftrightarrow> observed = []" "up \<noteq> [] \<longrightarrow> set base = set up"
    using sub by (auto simp: base_def)
  have desired: "desired = (if shouldPreferFewerDesiredGateways now status gateways \<and> length base > 1
      then reduceDesiredGatewaySet now status gateways base else base)"
    unfolding desired_def ComputeDesiredActiveGatewaySet_def Let_def up_def [symmetric] base_def by simp
  have shrink: "set desired \<subseteq> set base" "desired = [] \<longleftrightarrow> base = []"
    "shouldPreferFewerDesiredGateways now status gateways \<longrightarrow> length desired \<le> 1"
    using reduceDesiredGatewaySet_single [of base now status gateways] by (auto simp: desired)
  have "set desired \<subseteq> set up" if "\<exists>g \<in> set gateways. gGatewayID g \<noteq> '''' \<and> gConnectionState g = GatewayStateUp"
  proof -
    have "up \<noteq> []" using that set_up by (auto simp flip: set_empty)
    with base(3) shrink(1) show ?thesis by simp
  qed
  moreover have "\<exists>g \<in> set gateways. gGatewayID g = i \<and> gConnectionState g = GatewayStateUp" if "i \<in> set up" for i
    using that unfolding set_up by blast
  ultimately show ?thesis
    using base shrink by blast
qed

subsection \<open>What a reconciliation changes\<close>

lemma settle_fields [simp]:
  fixes now status gateways
  defines "t \<equiv> settleRuntimeExpansion now status gateways"
  shows "sInUse t = sInUse status" "sCurrentGatewayID t = sCurrentGatewayID status"
    "sDesiredActiveGatewaySet t = sDesiredActiveGatewaySet status"
    "sObservedActiveGatewaySet t = sObservedActiveGatewaySet status"
    "sPathPlanRevision t = sPathPlanRevision status" "sAttachmentGeneration t = sAttachmentGeneration status"
    "sWriterFencingEpoch t = sWriterFencingEpoch status"
    "sRuntimePathNeedsAttention t = sRuntimePathNeedsAttention status"
    "sRuntimeAppliedPathPlanRevision t = sRuntimeAppliedPathPlanRevision status"
    "sHandoffRequired t = sHandoffRequired status" "sHandoffReason t = sHandoffReason status"
    "sHandoffTargetGatewaySet t = sHandoffTargetGatewaySet status"
    "sHandoffRequestedAtUnix t = sHandoffRequestedAtUnix status"
    "sHandoffAckedAtUnix t = sHandoffAckedAtUnix status"
    "sHandoffAckedGeneration t = sHandoffAckedGeneration status"
    "sHandoffCompletionEligibleAtUnix t = sHandoffCompletionEligibleAtUnix status"
    "sHandoffNextEscalationAtUnix t = sHandoffNextEscalationAtUnix status"
    "sHandoffEscalationCount t = sHandoffEscalationCount status"
  unfolding t_def settleRuntimeExpansion_def by (simp_all add: Let_def)


abbreviation planned_gateways :: "int \<Rightarrow> VolumeStatusRecord \<Rightarrow> GatewayRecord list \<Rightarrow> string list" where
  "planned_gateways now status gateways \<equiv>
     ComputeDesiredActiveGatewaySet now (settleRuntimeExpansion now status gateways) gateways
       (ComputeObservedActiveGatewaySet gateways)"

lemma recordReapply_fields [simp]:
  fixes now status req reason changed
  defines "t \<equiv> recordReapply now status req reason changed"
  shows "sInUse t = sInUse status" "sCurrentGatewayID t = sCurrentGatewayID status"
    "sDesiredActiveGatewaySet t = sDesiredActiveGatewaySet status"
    "sObservedActiveGatewaySet t = sObservedActiveGatewaySet status"
    "sAttachmentGeneration t = sAttachmentGeneration status"
    "sWriterFencingEpoch t = sWriterFencingEpoch status"
    "sRuntimePathNeedsAttention t = sRuntimePathNeedsAttention status"
    "sRuntimeAppliedPathPlanRevision t = sRuntimeAppliedPathPlanRevision status"
    "sHandoffRequired t = sHandoffRequired status" "sHandoffReason t = sHandoffReason status"
    "sHandoffTargetGatewaySet t = sHandoffTargetGatewaySet status"
    "sHandoffRequestedAtUnix t = sHandoffRequestedAtUnix status"
    "sHandoffAckedAtUnix t = sHandoffAckedAtUnix status"
    "sHandoffAckedGeneration t = sHandoffAckedGeneration status"
    "sHandoffCompletionEligibleAtUnix t = sHandoffCompletionEligibleAtUnix status"
    "sHandoffNextEscalationAtUnix t = sHandoffNextEscalationAtUnix status"
    "sHandoffEscalationCount t = sHandoffEscalationCount status"
    "sPathPlanRevision t = (if req \<and> (\<not> sPathPlanReapplyRequested status \<or> sPathPlanReapplyReason status \<noteq> reason)
                               \<and> \<not> changed
                            then bump (sPathPlanRevision status) else sPathPlanRevision status)"
  unfolding t_def recordReapply_def by (simp_all add: Let_def)

lemma recordHandoff_fields [simp]:
  fixes now status req reason targets advance
  defines "t \<equiv> recordHandoff now status req reason targets advance"
  shows "sInUse t = sInUse status" "sCurrentGatewayID t = sCurrentGatewayID status"
    "sDesiredActiveGatewaySet t = sDesiredActiveGatewaySet status"
    "sObservedActiveGatewaySet t = sObservedActiveGatewaySet status"
    "sAttachmentGeneration t = sAttachmentGeneration status"
    "sPathPlanRevision t = sPathPlanRevision status"
    "sRuntimePathNeedsAttention t = sRuntimePathNeedsAttention status"
    "sRuntimeAppliedPathPlanRevision t = sRuntimeAppliedPathPlanRevision status"
    "sHandoffRequired t = req" "sHandoffReason t = reason" "sHandoffTargetGatewaySet t = targets"
    "sHandoffAckedAtUnix t = (if req then sHandoffAckedAtUnix status else 0)"
    "sHandoffAckedGeneration t = (if req then sHandoffAckedGeneration status else 0)"
    "sHandoffCompletionEligibleAtUnix t = (if req then sHandoffCompletionEligibleAtUnix status else 0)"
    "sHandoffRequestedAtUnix t =
       (if \<not> req then 0
        else if sHandoffRequired status \<and> sHandoffTargetGatewaySet status = targets
        then sHandoffRequestedAtUnix status else now)"
    "sHandoffEscalationCount t =
       (if advance then sHandoffEscalationCount status + 1
        else if req \<and> sHandoffRequired status \<and> sHandoffTargetGatewaySet status = targets
        then sHandoffEscalationCount status else 0)"
    "sWriterFencingEpoch t =
       (if req \<and> (\<not> sHandoffRequired status \<or> sHandoffTargetGatewaySet status \<noteq> targets
                    \<or> sHandoffReason status \<noteq> reason \<or> advance)
        then bump (sWriterFencingEpoch status) else sWriterFencingEpoch status)"
    "\<not> req \<Longrightarrow> \<not> advance \<Longrightarrow> sHandoffNextEscalationAtUnix t = 0"
  unfolding t_def recordHandoff_def by (simp_all add: Let_def)

lemma raiseExpansionBackoff_fields [simp]:
  fixes status
  defines "t \<equiv> raiseExpansionBackoff status"
  shows "sInUse t = sInUse status" "sCurrentGatewayID t = sCurrentGatewayID status"
    "sDesiredActiveGatewaySet t = sDesiredActiveGatewaySet status"
    "sObservedActiveGatewaySet t = sObservedActiveGatewaySet status"
    "sPathPlanRevision t = sPathPlanRevision status" "sAttachmentGeneration t = sAttachmentGeneration status"
    "sWriterFencingEpoch t = sWriterFencingEpoch status"
    "sRuntimePathNeedsAttention t = sRuntimePathNeedsAttention status"
    "sRuntimeAppliedPathPlanRevision t = sRuntimeAppliedPathPlanRevision status"
    "sHandoffRequired t = sHandoffRequired status" "sHandoffReason t = sHandoffReason status"
    "sHandoffTargetGatewaySet t = sHandoffTargetGatewaySet status"
    "sHandoffRequestedAtUnix t = sHandoffRequestedAtUnix status"
    "sHandoffAckedAtUnix t = sHandoffAckedAtUnix status"
    "sHandoffAckedGeneration t = sHandoffAckedGeneration status"
    "sHandoffCompletionEligibleAtUnix t = sHandoffCompletionEligibleAtUnix status"
    "sHandoffEscalationCount t = sHandoffEscalationCount status"
    "sHandoffNextEscalationAtUnix t = sHandoffNextEscalationAtUnix status"
  unfolding t_def raiseExpansionBackoff_def by (simp_all add: Let_def)


lemma handoffStage_cong:
  assumes "sHandoffRequired s = sHandoffRequired t" "sCurrentGatewayID s = sCurrentGatewayID t"
    "sHandoffTargetGatewaySet s = sHandoffTargetGatewaySet t" "sAttachmentGeneration s = sAttachmentGeneration t"
    "sHandoffAckedAtUnix s = sHandoffAckedAtUnix t" "sHandoffAckedGeneration s = sHandoffAckedGeneration t"
    "sPathPlanRevision s = sPathPlanRevision t"
    "sRuntimeAppliedPathPlanRevision s = sRuntimeAppliedPathPlanRevision t"
    "sRuntimePathNeedsAttention s = sRuntimePathNeedsAttention t"
  shows "handoffStage s = handoffStage t"
  using assms by (simp add: handoffStage_def handoffAcknowledged_def runtimePathPlanConverged_def)

lemma handoffStage_stage [simp]: "handoffStage (status\<lparr>sHandoffStage := x\<rparr>) = handoffStage status"
  by (rule handoffStage_cong) simp_all

lemma handoffStage_none [simp]: "\<not> sHandoffRequired status \<Longrightarrow> handoffStage status = []"
  by (simp add: handoffStage_def)

lemma finishReconcile_fields [simp]:
  fixes now status
  defines "t \<equiv> finishReconcile now status"
  shows "sInUse t = sInUse status" "sCurrentGatewayID t = sCurrentGatewayID status"
    "sDesiredActiveGatewaySet t = sDesiredActiveGatewaySet status"
    "sObservedActiveGatewaySet t = sObservedActiveGatewaySet status"
    "sPathPlanRevision t = sPathPlanRevision status" "sAttachmentGeneration t = sAttachmentGeneration status"
    "sWriterFencingEpoch t = sWriterFencingEpoch status"
    "sRuntimePathNeedsAttention t = sRuntimePathNeedsAttention status"
    "sRuntimeAppliedPathPlanRevision t = sRuntimeAppliedPathPlanRevision status"
    "sHandoffRequired t = sHandoffRequired status" "sHandoffReason t = sHandoffReason status"
    "sHandoffTargetGatewaySet t = sHandoffTargetGatewaySet status"
    "sHandoffRequestedAtUnix t = sHandoffRequestedAtUnix status"
    "sHandoffAckedAtUnix t = sHandoffAckedAtUnix status"
    "sHandoffAckedGeneration t = sHandoffAckedGeneration status"
    "sHandoffEscalationCount t = sHandoffEscalationCount status"
    "sHandoffStage t = (if sHandoffRequired status then handoffStage status else '''')"
    "sHandoffCompletionEligibleAtUnix t =
       (if handoffStage status \<noteq> ''ready_to_complete'' then 0
        else if sHandoffCompletionEligibleAtUnix status = 0 then now + handoffCompletionStabilizationDelay
        else sHandoffCompletionEligibleAtUnix status)"
    "sHandoffNextEscalationAtUnix t = sHandoffNextEscalationAtUnix status"
  unfolding t_def finishReconcile_def updateHandoffCompletionEligibility_def by (simp_all add: Let_def)


lemma handoffStage_finish [simp]: "handoffStage (finishReconcile now status) = handoffStage status"
  by (rule handoffStage_cong) simp_all

lemma fst_reconcile [simp]:
  "fst (ReconcileVolumePathPlanStatus now s gateways) = reconciledStatus now s gateways"
  by (simp add: ReconcileVolumePathPlanStatus_def Let_def)

lemma handoffAdvance_none [simp]: "\<not> handoffAdvance now t False"
  by (simp add: handoffAdvance_def)

lemma reconcile_fields:
  fixes now s gateways
  defines "t \<equiv> settleRuntimeExpansion now s gateways" and "desired \<equiv> planned_gateways now s gateways"
    and "s' \<equiv> reconciledStatus now s gateways"
  defines "req \<equiv> decideHandoff now t desired"
  shows "sHandoffRequired s' = req" "sDesiredActiveGatewaySet s' = desired"
    "sObservedActiveGatewaySet s' = ComputeObservedActiveGatewaySet gateways"
    "sInUse s' = sInUse s" "sCurrentGatewayID s' = sCurrentGatewayID s"
    "sAttachmentGeneration s' = sAttachmentGeneration s"
    "sRuntimePathNeedsAttention s' = sRuntimePathNeedsAttention s"
    "sRuntimeAppliedPathPlanRevision s' = sRuntimeAppliedPathPlanRevision s"
    "sHandoffTargetGatewaySet s' = (if req then desired else [])"
    "sHandoffReason s' = (if req then handoffReasonForStatus now t else [])"
    "sHandoffStage s' = handoffStage s'"
    "sHandoffAckedAtUnix s' = (if req then sHandoffAckedAtUnix s else 0)"
    "sHandoffAckedGeneration s' = (if req then sHandoffAckedGeneration s else 0)"
    "sHandoffRequestedAtUnix s' =
       (if \<not> req then 0 else if sHandoffRequired s \<and> sHandoffTargetGatewaySet s = desired
        then sHandoffRequestedAtUnix s else now)"
    "sHandoffEscalationCount s' =
       (if handoffAdvance now t req then sHandoffEscalationCount s + 1
        else if req \<and> sHandoffRequired s \<and> sHandoffTargetGatewaySet s = desired
        then sHandoffEscalationCount s else 0)"
    "sHandoffCompletionEligibleAtUnix s' =
       (if handoffStage s' \<noteq> ''ready_to_complete'' then 0
        else if sHandoffCompletionEligibleAtUnix s = 0 then now + handoffCompletionStabilizationDelay
        else sHandoffCompletionEligibleAtUnix s)"
    "sWriterFencingEpoch s' =
       (if req \<and> (\<not> sHandoffRequired s \<or> sHandoffTargetGatewaySet s \<noteq> desired
                    \<or> sHandoffReason s \<noteq> handoffReasonForStatus now t \<or> handoffAdvance now t req)
        then bump (sWriterFencingEpoch s) else sWriterFencingEpoch s)"
    "sPathPlanRevision s' =
       (if sDesiredActiveGatewaySet s \<noteq> desired
           \<or> (fst (shouldRequestPathPlanReapply now t)
              \<and> (\<not> sPathPlanReapplyRequested t
                 \<or> sPathPlanReapplyReason t \<noteq> snd (shouldRequestPathPlanReapply now t)))
        then bump (sPathPlanRevision s) else sPathPlanRevision s)"
    "\<not> req \<Longrightarrow> sHandoffNextEscalationAtUnix s' = 0"
  unfolding s'_def req_def t_def desired_def reconciledStatus_def Let_def
  by (simp_all add: case_prod_beta) blast

text \<open>
  C32. A reconciliation leaves the handoff fields consistent. Without a handoff they are all cleared;
  with one the targets are the desired gateways, the recorded stage is the stage of the result, and
  nothing but a change of the observed or of the desired gateways is reported as one. The revision of
  the path plan moves whenever the desired gateways do, and never to 0.
\<close>

theorem reconcile_keeps_handoff_consistent:
  assumes "ReconcileVolumePathPlanStatus now s gateways = (s', observedChanged, desiredChanged)"
  shows "(\<not> sHandoffRequired s' \<longrightarrow>
            sHandoffReason s' = '''' \<and> sHandoffTargetGatewaySet s' = [] \<and> sHandoffStage s' = ''''
            \<and> sHandoffRequestedAtUnix s' = 0 \<and> sHandoffAckedAtUnix s' = 0 \<and> sHandoffAckedGeneration s' = 0
            \<and> sHandoffCompletionEligibleAtUnix s' = 0 \<and> sHandoffEscalationCount s' = 0
            \<and> sHandoffNextEscalationAtUnix s' = 0)
     \<and> (sHandoffRequired s' \<longrightarrow> sHandoffTargetGatewaySet s' = sDesiredActiveGatewaySet s')
     \<and> sHandoffStage s' = handoffStage s'
     \<and> (sHandoffCompletionEligibleAtUnix s' \<noteq> 0 \<longrightarrow> handoffStage s' = ''ready_to_complete'')
     \<and> observedChanged = (sObservedActiveGatewaySet s' \<noteq> sObservedActiveGatewaySet s)
     \<and> desiredChanged = (sDesiredActiveGatewaySet s' \<noteq> sDesiredActiveGatewaySet s)
     \<and> (desiredChanged \<longrightarrow> sPathPlanRevision s' \<noteq> sPathPlanRevision s \<and> sPathPlanRevision s' \<noteq> 0)"
proof -
  have s': "s' = reconciledStatus now s gateways"
    using assms fst_reconcile [of now s gateways] by simp
  note fields = reconcile_fields [of now s gateways, folded s']
  have flags: "observedChanged = (sObservedActiveGatewaySet s' \<noteq> sObservedActiveGatewaySet s)"
    "desiredChanged = (sDesiredActiveGatewaySet s' \<noteq> sDesiredActiveGatewaySet s)"
    using assms fields(2,3) by (auto simp: ReconcileVolumePathPlanStatus_def Let_def split: if_splits)
  show ?thesis
    unfolding flags using fields by auto
qed

text \<open>
  C31. The fencing epoch of a volume moves exactly with its handoff: it changes if and only if a handoff
  is pending afterwards that is new, or has other targets, another reason or one more escalation
  than before. It then moves on by one, skipping 0. So as long as the epoch is the same before and
  after a reconciliation that leaves a handoff pending, the handoff is the same one.
\<close>

theorem fencing_epoch_follows_handoff:
  assumes "ReconcileVolumePathPlanStatus now s gateways = (s', observedChanged, desiredChanged)"
  shows "(sWriterFencingEpoch s' \<noteq> sWriterFencingEpoch s
          \<longleftrightarrow> sHandoffRequired s'
              \<and> (\<not> sHandoffRequired s \<or> sHandoffTargetGatewaySet s' \<noteq> sHandoffTargetGatewaySet s
                 \<or> sHandoffReason s' \<noteq> sHandoffReason s
                 \<or> sHandoffEscalationCount s' \<noteq> sHandoffEscalationCount s))
     \<and> (sWriterFencingEpoch s' \<noteq> sWriterFencingEpoch s
          \<longrightarrow> sWriterFencingEpoch s' = bump (sWriterFencingEpoch s))
     \<and> (sWriterFencingEpoch s' = sWriterFencingEpoch s \<and> sHandoffRequired s'
          \<longrightarrow> sHandoffRequired s \<and> sHandoffTargetGatewaySet s' = sHandoffTargetGatewaySet s
              \<and> sHandoffReason s' = sHandoffReason s
              \<and> sHandoffEscalationCount s' = sHandoffEscalationCount s
              \<and> sHandoffRequestedAtUnix s' = sHandoffRequestedAtUnix s)"
proof -
  have s': "s' = reconciledStatus now s gateways"
    using assms fst_reconcile [of now s gateways] by simp
  note fields = reconcile_fields [of now s gateways, folded s']
  have next_count: "sHandoffEscalationCount s + 1 \<noteq> sHandoffEscalationCount s" by simp
  show ?thesis
    using fields(1,9,10,14,15,17) next_count by (auto split: if_splits)
qed

subsection \<open>Admission and completion\<close>

text \<open>
  While a handoff is pending no gateway outside its targets is admitted to the volume, and once
  a target has attached only that one is.
\<close>

lemma allowed_is_target:
  assumes "sHandoffRequired status" and "gatewayAllowedDuringHandoff status g"
  shows "g \<in> set (sHandoffTargetGatewaySet status)
     \<and> (handoffStage status \<noteq> ''pending_generation_rotation'' \<longrightarrow> g = sCurrentGatewayID status)"
  using assms
  by (auto simp: gatewayAllowedDuringHandoff_def handoffStage_def split: if_splits)

text \<open>
  Reconciliations one after the other, each at its time and with the gateways known then, and the
  condition that none of them plans other gateways than the ones already desired.
\<close>

fun reconcile_all :: "(int \<times> GatewayRecord list) list \<Rightarrow> VolumeStatusRecord \<Rightarrow> VolumeStatusRecord" where
  "reconcile_all [] s = s"
| "reconcile_all ((now, gateways) # rs) s =
     reconcile_all rs (fst (ReconcileVolumePathPlanStatus now s gateways))"

fun plan_kept :: "(int \<times> GatewayRecord list) list \<Rightarrow> VolumeStatusRecord \<Rightarrow> bool" where
  "plan_kept [] s = True"
| "plan_kept ((now, gateways) # rs) s =
     (planned_gateways now s gateways = sDesiredActiveGatewaySet s
      \<and> plan_kept rs (fst (ReconcileVolumePathPlanStatus now s gateways)))"

text \<open>A handoff that only waits for its stabilization delay to pass.\<close>

definition stabilizing :: "VolumeStatusRecord \<Rightarrow> bool" where
  "stabilizing s \<longleftrightarrow> sHandoffRequired s \<and> handoffStage s = ''ready_to_complete''
     \<and> sHandoffTargetGatewaySet s = sDesiredActiveGatewaySet s"

lemma stabilizing_decision:
  assumes "stabilizing s"
  shows "decideHandoff now (settleRuntimeExpansion now s gateways) desired
     \<longleftrightarrow> sHandoffCompletionEligibleAtUnix s \<le> 0 \<or> now < sHandoffCompletionEligibleAtUnix s"
proof -
  let ?t = "settleRuntimeExpansion now s gateways"
  have "handoffStage ?t = handoffStage s"
    by (rule handoffStage_cong) simp_all
  with assms show ?thesis
    by (auto simp: stabilizing_def decideHandoff_def handoffCompletionSatisfied_def Let_def)
qed

lemma stabilizing_step:
  assumes s: "stabilizing s" and plan: "planned_gateways now s gateways = sDesiredActiveGatewaySet s"
    and early: "sHandoffCompletionEligibleAtUnix s = 0 \<or> now < sHandoffCompletionEligibleAtUnix s"
  shows "stabilizing (reconciledStatus now s gateways)
     \<and> sHandoffCompletionEligibleAtUnix (reconciledStatus now s gateways)
       = (if sHandoffCompletionEligibleAtUnix s = 0 then now + handoffCompletionStabilizationDelay
          else sHandoffCompletionEligibleAtUnix s)"
proof -
  let ?s = "reconciledStatus now s gateways"
  note fields = reconcile_fields [of now s gateways]
  have pending: "decideHandoff now (settleRuntimeExpansion now s gateways) (planned_gateways now s gateways)"
    using stabilizing_decision [OF s] early by fastforce
  have "runtimePathPlanConverged s"
    using s by (auto simp: stabilizing_def handoffStage_def split: if_splits)
  then have "\<not> fst (shouldRequestPathPlanReapply now (settleRuntimeExpansion now s gateways))"
    by (simp add: shouldRequestPathPlanReapply_def runtimePathPlanConverged_def)
  then have "handoffStage ?s = handoffStage s"
    using fields pending plan s by (intro handoffStage_cong) (simp_all add: stabilizing_def)
  then show ?thesis
    using fields(1,2,9,16) pending plan s by (simp add: stabilizing_def)
qed

lemma stabilizing_until:
  assumes "stabilizing s" "sHandoffCompletionEligibleAtUnix s = t" "t > 0"
    "\<forall>(now, gateways) \<in> set rs. now < t" "plan_kept rs s"
  shows "stabilizing (reconcile_all rs s) \<and> sHandoffCompletionEligibleAtUnix (reconcile_all rs s) = t"
  using assms
proof (induction rs arbitrary: s)
  case (Cons r rs)
  obtain now gateways where r: "r = (now, gateways)" by (cases r)
  have "stabilizing (reconciledStatus now s gateways)
     \<and> sHandoffCompletionEligibleAtUnix (reconciledStatus now s gateways) = t"
    using stabilizing_step [of s now gateways] Cons.prems by (auto simp: r)
  then show ?case
    using Cons.IH [of "reconciledStatus now s gateways"] Cons.prems by (simp add: r)
qed simp

text \<open>
  C33. A handoff that its target has acknowledged and applied completes when its stabilization delay
  has passed, and not before. Let a reconciliation find it ready for the first time, and let any
  number of further ones follow before the delay has passed, at any times and with any gateways,
  as long as none of them plans other gateways: the handoff is still pending after them, and the
  next reconciliation, whenever it runs and whatever the gateways are then, ends it if and only
  if the delay has passed since the first.
\<close>

theorem acknowledged_handoff_completes:
  assumes ready: "sHandoffRequired s" "handoffStage s = ''ready_to_complete''"
    and fresh: "sHandoffCompletionEligibleAtUnix s = 0"
    and target: "sHandoffTargetGatewaySet s = sDesiredActiveGatewaySet s"
    and plan: "plan_kept ((now, gateways) # rs) s"
    and early: "\<forall>(t, gs) \<in> set rs. t < now + handoffCompletionStabilizationDelay"
    and clock: "now > 0"
  shows "sHandoffRequired (reconcile_all ((now, gateways) # rs) s)
     \<and> (sHandoffRequired (reconcile_all ((now, gateways) # rs @ [(later, gateways')]) s)
         \<longleftrightarrow> later < now + handoffCompletionStabilizationDelay)"
proof -
  let ?s1 = "reconciledStatus now s gateways" and ?e = "now + handoffCompletionStabilizationDelay"
  let ?s2 = "reconcile_all rs ?s1"
  have e: "?e > 0"
    using clock by (simp add: handoffCompletionStabilizationDelay_def)
  have "stabilizing ?s1" "sHandoffCompletionEligibleAtUnix ?s1 = ?e" "plan_kept rs ?s1"
    using stabilizing_step [of s now gateways] ready fresh target plan by (auto simp: stabilizing_def)
  then have s2: "stabilizing ?s2" "sHandoffCompletionEligibleAtUnix ?s2 = ?e"
    using stabilizing_until [OF _ _ e early] by blast+
  have "reconcile_all (rs @ [(later, gateways')]) x
      = reconciledStatus later (reconcile_all rs x) gateways'" for x
    by (induction rs x rule: reconcile_all.induct) simp_all
  then show ?thesis
    using s2 e stabilizing_decision [OF s2(1)]
    by (simp add: reconcile_fields(1) stabilizing_def)
qed

subsection \<open>An example: a volume moves from a degraded gateway to one that is up\<close>

definition gateway_a :: GatewayRecord where
  "gateway_a = (NewGatewayRecord 100 ''gw-a'' ''v1'' [] [])\<lparr>gConnectionState := GatewayStateDegraded\<rparr>"

definition gateway_b :: GatewayRecord where
  "gateway_b = NewGatewayRecord 100 ''gw-b'' ''v1'' [] []"

definition serving_status :: VolumeStatusRecord where
  "serving_status = zero_status\<lparr>sInUse := True, sCurrentGatewayID := ''gw-a'', sAttachmentGeneration := 1,
     sDesiredActiveGatewaySet := [''gw-a''], sObservedActiveGatewaySet := [''gw-a'']\<rparr>"

definition moved_status :: VolumeStatusRecord where
  "moved_status = zero_status\<lparr>sInUse := True, sCurrentGatewayID := ''gw-b'', sAttachmentGeneration := 2,
     sDesiredActiveGatewaySet := [''gw-b''], sObservedActiveGatewaySet := [''gw-a'', ''gw-b''],
     sPathPlanRevision := 1, sRuntimeAppliedPathPlanRevision := 1, sHandoffRequired := True,
     sHandoffTargetGatewaySet := [''gw-b''], sHandoffRequestedAtUnix := 100,
     sHandoffAckedAtUnix := 105, sHandoffAckedGeneration := 2\<rparr>"

lemma serving_reconciled:
  "fst (snd (ReconcileVolumePathPlanStatus 100 serving_status [gateway_a, gateway_b]))"
  "snd (snd (ReconcileVolumePathPlanStatus 100 serving_status [gateway_a, gateway_b]))"
  "sHandoffRequired (fst (ReconcileVolumePathPlanStatus 100 serving_status [gateway_a, gateway_b]))"
  "sDesiredActiveGatewaySet (fst (ReconcileVolumePathPlanStatus 100 serving_status [gateway_a, gateway_b])) = [''gw-b'']"
  "sWriterFencingEpoch (fst (ReconcileVolumePathPlanStatus 100 serving_status [gateway_a, gateway_b])) = 1"
  by code_simp+

theorem desired_gateways_observed_witness:
  "ComputeDesiredActiveGatewaySet 100 serving_status [gateway_a, gateway_b]
      (ComputeObservedActiveGatewaySet [gateway_a, gateway_b]) = [''gw-b'']
   \<and> set [''gw-b''] \<subseteq> set (ComputeObservedActiveGatewaySet [gateway_a, gateway_b])"
proof -
  have d: "ComputeDesiredActiveGatewaySet 100 serving_status [gateway_a, gateway_b]
      (ComputeObservedActiveGatewaySet [gateway_a, gateway_b]) = [''gw-b'']"
    by code_simp
  then show ?thesis
    using desired_gateways_observed [of 100 serving_status "[gateway_a, gateway_b]"] by simp
qed

theorem reconcile_keeps_handoff_consistent_witness:
  "sHandoffTargetGatewaySet (fst (ReconcileVolumePathPlanStatus 100 serving_status [gateway_a, gateway_b])) = [''gw-b'']"
  using reconcile_keeps_handoff_consistent [of 100 serving_status "[gateway_a, gateway_b]"] serving_reconciled(3,4)
  by (metis prod.collapse)

theorem fencing_epoch_follows_handoff_witness:
  "sWriterFencingEpoch (fst (ReconcileVolumePathPlanStatus 100 serving_status [gateway_a, gateway_b]))
     = bump (sWriterFencingEpoch serving_status)"
proof -
  have "sWriterFencingEpoch serving_status = 0" by (simp add: serving_status_def zero_status_def)
  then show ?thesis
    using fencing_epoch_follows_handoff [of 100 serving_status "[gateway_a, gateway_b]"] serving_reconciled(5)
    by (metis prod.collapse zero_neq_one)
qed

theorem acknowledged_handoff_completes_witness:
  "sHandoffRequired (reconcile_all [(110, [gateway_a, gateway_b]), (112, [gateway_b])] moved_status)
   \<and> \<not> sHandoffRequired (reconcile_all
          [(110, [gateway_a, gateway_b]), (112, [gateway_b]), (115, [gateway_a])] moved_status)"
proof -
  have "sHandoffRequired moved_status" "handoffStage moved_status = ''ready_to_complete''"
    "sHandoffCompletionEligibleAtUnix moved_status = 0"
    "sHandoffTargetGatewaySet moved_status = sDesiredActiveGatewaySet moved_status"
    "plan_kept [(110, [gateway_a, gateway_b]), (112, [gateway_b])] moved_status"
    by code_simp+
  then show ?thesis
    using acknowledged_handoff_completes
      [of moved_status 110 "[gateway_a, gateway_b]" "[(112, [gateway_b])]" 115 "[gateway_a]"]
    by (simp add: handoffCompletionStabilizationDelay_def)
qed

end
