(* ===== verification/GatewayService.thy ===== *)
theory GatewayService
  imports Metrics MemoryRepository PathPlan
begin

section \<open>The gateway service (gateway/service/service.go)\<close>

text \<open>
  The operations the control plane and the data plane of a gateway call. A service is made of a
  metadata repository, a data repository and the id of its gateway; its state is the state of the
  two repositories, which share the metadata, and the operation counters.

  The interfaces a data repository may implement beyond \<open>ReadAt\<close> and \<open>WriteAt\<close> are options: \<open>None\<close>
  is a failing type assertion. Logging and contexts are not modelled; a call that is cancelled or
  exceeds its deadline returns the error of the context. The readings of the clock in one call are
  one argument, with the latency the counters record.
\<close>

record ReadResult =
  rrData :: "bytes option"
  rrZeroData :: bool

record InitialZeroMapEvidence =
  zmTrusted :: bool
  zmAllZero :: bool
  zmGranuleBytes :: u32
  zmCheckedPageCount :: int
  zmCheckedChunkCount :: u64

definition zero_evidence :: InitialZeroMapEvidence where
  "zero_evidence = \<lparr>zmTrusted = False, zmAllZero = False, zmGranuleBytes = 0, zmCheckedPageCount = 0,
     zmCheckedChunkCount = 0\<rparr>"

record 'w CloneDataRepository =
  clReadCloneAt :: "VolumeSpec \<Rightarrow> string \<Rightarrow> u64 \<Rightarrow> u64 \<Rightarrow> 'w \<Rightarrow> (service_error + bytes) \<times> 'w"
  clWriteCloneAt :: "int \<Rightarrow> VolumeSpec \<Rightarrow> string \<Rightarrow> u64 \<Rightarrow> u64 \<Rightarrow> bytes \<Rightarrow> 'w \<Rightarrow> (service_error + unit) \<times> 'w"

record 'w DataRepository =
  dtReadAt :: "VolumeSpec \<Rightarrow> u64 \<Rightarrow> u64 \<Rightarrow> 'w \<Rightarrow> (service_error + bytes) \<times> 'w"
  dtWriteAt :: "int \<Rightarrow> VolumeSpec \<Rightarrow> u64 \<Rightarrow> u64 \<Rightarrow> bytes \<Rightarrow> 'w \<Rightarrow> (service_error + unit) \<times> 'w"
  dtReadAtResult :: "(VolumeSpec \<Rightarrow> u64 \<Rightarrow> u64 \<Rightarrow> 'w \<Rightarrow> (service_error + ReadResult) \<times> 'w) option"
  dtClone :: "'w CloneDataRepository option"
  dtReadSnapshotAt :: "(VolumeSpec \<Rightarrow> string \<Rightarrow> u64 \<Rightarrow> u64 \<Rightarrow> 'w \<Rightarrow> (service_error + bytes) \<times> 'w) option"
  dtCloseAttachment :: "(u64 \<Rightarrow> AttachmentRecord \<Rightarrow> 'w \<Rightarrow> (service_error + unit) \<times> 'w) option"
  dtCloseLocalAttachment :: "(u64 \<Rightarrow> string \<Rightarrow> string \<Rightarrow> 'w \<Rightarrow> (service_error + unit) \<times> 'w) option"
  dtReloadAttachment :: "(VolumeSpec \<Rightarrow> 'w \<Rightarrow> (service_error + unit) \<times> 'w) option"
  dtFlushVolume :: "(VolumeSpec \<Rightarrow> 'w \<Rightarrow> (service_error + unit) \<times> 'w) option"
  dtDiscardAt :: "(int \<Rightarrow> VolumeSpec \<Rightarrow> u64 \<Rightarrow> u64 \<Rightarrow> 'w \<Rightarrow> (service_error + unit) \<times> 'w) option"
  dtDiscardObservationFor :: "(VolumeSpec \<Rightarrow> u64 \<Rightarrow> u64 \<Rightarrow> DiscardObservation) option"
  dtZeroAt :: "(int \<Rightarrow> VolumeSpec \<Rightarrow> u64 \<Rightarrow> u64 \<Rightarrow> 'w \<Rightarrow> (service_error + unit) \<times> 'w) option"
  dtInitialZeroMapEvidence :: "(VolumeSpec \<Rightarrow> 'w \<Rightarrow> (service_error + InitialZeroMapEvidence) \<times> 'w) option"

record ('m, 'o) Service =
  svcMetadata :: "'m MetadataRepository"
  svcRefreshVolume :: "(u64 \<Rightarrow> 'm \<Rightarrow> (service_error + VolumeSpec) \<times> 'm) option"
  svcData :: "('m \<times> 'o) DataRepository"
  svcGatewayID :: string

record ('m, 'o) gateway =
  gwWorld :: "'m \<times> 'o"
  gwMetrics :: MetricsCollector

record VolumeState =
  vsVolumeID :: u64
  vsSizeBytes :: u64
  vsBlockSize :: u32
  vsChunkSizeBytes :: u32
  vsExtentPageBytes :: u32
  vsGeneration :: u64
  vsAttachedHostID :: string
  vsAttachmentID :: string
  vsAttachedDeviceID :: u32

text \<open>
  The result of an operation, with the error its deferred call of \<open>Record\<close> sees: the value of the
  variable \<open>err\<close> on return, which an early \<open>return\<close> may leave nil.
\<close>

type_synonym ('a, 'w) outcome = "((service_error + 'a) \<times> service_error option) \<times> 'w"

definition failed :: "service_error \<Rightarrow> 'w \<Rightarrow> ('a, 'w) outcome" where
  "failed e w = ((Inl e, Some e), w)"

definition failed_silently :: "service_error \<Rightarrow> 'w \<Rightarrow> ('a, 'w) outcome" where
  "failed_silently e w = ((Inl e, None), w)"

definition returned :: "(service_error + 'a) \<times> 'w \<Rightarrow> ('a, 'w) outcome" where
  "returned rw = ((fst rw, case fst rw of Inl e \<Rightarrow> Some e | Inr _ \<Rightarrow> None), snd rw)"

text \<open>The seconds of the clock and the milliseconds the call took.\<close>

record moment =
  atUnix :: int
  latencyMS :: u64

definition recorded ::
    "string \<Rightarrow> u64 \<Rightarrow> moment \<Rightarrow> ('a, 'm \<times> 'o) outcome \<Rightarrow> ('m, 'o) gateway \<Rightarrow>
     (service_error + 'a) \<times> ('m, 'o) gateway" where
  "recorded op n t out g =
     (fst (fst out), g\<lparr>gwWorld := snd out, gwMetrics := Record op n (latencyMS t) (snd (fst out)) (gwMetrics g)\<rparr>)"

subsection \<open>Construction\<close>

definition NewWithRepositoryOptions ::
    "'m MetadataRepository \<Rightarrow> (u64 \<Rightarrow> 'm \<Rightarrow> (service_error + VolumeSpec) \<times> 'm) option \<Rightarrow>
     ('m \<times> 'o) DataRepository \<Rightarrow> string \<Rightarrow> ('m, 'o) Service" where
  "NewWithRepositoryOptions metadata refresh data gatewayID =
     \<lparr>svcMetadata = metadata, svcRefreshVolume = refresh, svcData = data, svcGatewayID = gatewayID\<rparr>"

definition unsupportedDataRepository :: "'w DataRepository" where
  "unsupportedDataRepository =
     \<lparr>dtReadAt = (\<lambda>volume off len w. (Inl ErrNotSupported, w)),
      dtWriteAt = (\<lambda>now volume off len data w. (Inl ErrNotSupported, w)),
      dtReadAtResult = None, dtClone = None, dtReadSnapshotAt = None,
      dtCloseAttachment = Some (\<lambda>volumeID attachment w. (Inr (), w)), dtCloseLocalAttachment = None,
      dtReloadAttachment = Some (\<lambda>volume w. (Inr (), w)), dtFlushVolume = None, dtDiscardAt = None,
      dtDiscardObservationFor = None, dtZeroAt = None, dtInitialZeroMapEvidence = None\<rparr>"

text \<open>The methods of the chunk-extent repository as a data repository.\<close>

definition chunkExtentData :: "('m, 'o) chunkExtentDataRepository \<Rightarrow> ('m \<times> 'o) DataRepository" where
  "chunkExtentData r =
     \<lparr>dtReadAt = (\<lambda>volume off len w. (ReadAt r volume off len w, w)),
      dtWriteAt = WriteAt r, dtReadAtResult = None, dtClone = None, dtReadSnapshotAt = None,
      dtCloseAttachment = Some (\<lambda>volumeID attachment w. (CloseAttachment volumeID attachment, w)),
      dtCloseLocalAttachment = None, dtReloadAttachment = None,
      dtFlushVolume = Some (\<lambda>volume w. (FlushVolume volume, w)), dtDiscardAt = Some (DiscardAt r),
      dtDiscardObservationFor = Some DiscardObservationFor, dtZeroAt = Some (ZeroAt r),
      dtInitialZeroMapEvidence = None\<rparr>"

subsection \<open>Volumes and their state\<close>

definition volumeInfo :: "('m, 'o) Service \<Rightarrow> u64 \<Rightarrow> 'm \<times> 'o \<Rightarrow> service_error + VolumeSpec" where
  "volumeInfo s volumeID w = mrGetVolume (svcMetadata s) volumeID (fst w)"

definition VolumeInfo :: "('m, 'o) Service \<Rightarrow> u64 \<Rightarrow> 'm \<times> 'o \<Rightarrow> service_error + VolumeSpec" where
  "VolumeInfo s volumeID w = volumeInfo s volumeID w"

definition volumeInfoFresh ::
    "('m, 'o) Service \<Rightarrow> u64 \<Rightarrow> 'm \<times> 'o \<Rightarrow> (service_error + VolumeSpec) \<times> ('m \<times> 'o)" where
  "volumeInfoFresh s volumeID w =
     (case svcRefreshVolume s of
        Some refresh \<Rightarrow> (case refresh volumeID (fst w) of (r, m) \<Rightarrow> (r, (m, snd w)))
      | None \<Rightarrow> (mrGetVolume (svcMetadata s) volumeID (fst w), w))"

definition volumeStateFromSpec :: "('m, 'o) Service \<Rightarrow> VolumeSpec \<Rightarrow> 'm \<times> 'o \<Rightarrow> service_error + VolumeState" where
  "volumeStateFromSpec s v w =
     (case mrGetAttachment (svcMetadata s) (vID v) (fst w) of
        Inl err \<Rightarrow> Inl err
      | Inr st \<Rightarrow> Inr \<lparr>vsVolumeID = vID v, vsSizeBytes = vSizeBytes v, vsBlockSize = vBlockSize v,
          vsChunkSizeBytes = vChunkSizeBytes v, vsExtentPageBytes = vExtentPageBytes v,
          vsGeneration = aGeneration st, vsAttachedHostID = aHostID st, vsAttachmentID = aAttachmentID st,
          vsAttachedDeviceID = aDeviceID st\<rparr>)"

definition volumeState :: "('m, 'o) Service \<Rightarrow> u64 \<Rightarrow> 'm \<times> 'o \<Rightarrow> service_error + VolumeState" where
  "volumeState s volumeID w =
     (case mrGetVolume (svcMetadata s) volumeID (fst w) of
        Inl err \<Rightarrow> Inl err
      | Inr v \<Rightarrow> volumeStateFromSpec s v w)"

definition ReloadVolumeDataPath ::
    "('m, 'o) Service \<Rightarrow> u64 \<Rightarrow> 'm \<times> 'o \<Rightarrow> (service_error + VolumeState) \<times> ('m \<times> 'o)" where
  "ReloadVolumeDataPath s volumeID w =
     (case volumeInfoFresh s volumeID w of
        (Inl err, w) \<Rightarrow> (Inl err, w)
      | (Inr v, w) \<Rightarrow>
          (case dtReloadAttachment (svcData s) of
             None \<Rightarrow> (volumeStateFromSpec s v w, w)
           | Some reload \<Rightarrow>
               (case reload v w of
                  (Inl err, w) \<Rightarrow> (Inl err, w)
                | (Inr _, w) \<Rightarrow> (volumeStateFromSpec s v w, w))))"

definition InitialZeroMapEvidenceForState ::
    "('m, 'o) Service \<Rightarrow> VolumeState \<Rightarrow> 'm \<times> 'o \<Rightarrow> (service_error + InitialZeroMapEvidence) \<times> ('m \<times> 'o)" where
  "InitialZeroMapEvidenceForState s st w =
     (case dtInitialZeroMapEvidence (svcData s) of
        None \<Rightarrow> (Inr zero_evidence, w)
      | Some provider \<Rightarrow>
          provider (NormalizeVolumeSpec (zero_volume\<lparr>vID := vsVolumeID st, vSizeBytes := vsSizeBytes st,
            vBlockSize := vsBlockSize st, vChunkSizeBytes := vsChunkSizeBytes st,
            vExtentPageBytes := vsExtentPageBytes st\<rparr>)) w)"

subsection \<open>Attaching and detaching\<close>

text \<open>What an attach by an admitted gateway does to the status of a volume under handoff.\<close>

definition acknowledgeHandoff :: "int \<Rightarrow> string \<Rightarrow> VolumeStatusRecord \<Rightarrow> VolumeStatusRecord" where
  "acknowledgeHandoff nowUnix gatewayID status0 =
     (let updatedStatus =
            (if sCurrentGatewayID status0 = gatewayID \<and> sAttachmentGeneration status0 > 0
             then status0\<lparr>sHandoffAckedAtUnix := nowUnix,
                          sHandoffAckedGeneration := sAttachmentGeneration status0\<rparr>
             else status0)
      in if handoffCompletionSatisfied nowUnix updatedStatus
         then updatedStatus\<lparr>sHandoffRequired := False, sHandoffRequestedAtUnix := 0, sHandoffAckedAtUnix := 0,
                sHandoffAckedGeneration := 0, sHandoffCompletionEligibleAtUnix := 0, sHandoffStage := '''',
                sHandoffReason := '''', sHandoffTargetGatewaySet := []\<rparr>
         else let updatedStatus = updatedStatus\<lparr>sHandoffStage := handoffStage updatedStatus\<rparr>;
                  updatedStatus = updateHandoffCompletionEligibility nowUnix updatedStatus
              in if sHandoffStage updatedStatus = ''ready_to_complete''
                 then updatedStatus\<lparr>sControllerReconcileRequestedAtUnix := 0, sControllerReconcileReason := '''',
                        sControllerReconcileScheduledAtUnix := sHandoffCompletionEligibleAtUnix updatedStatus,
                        sControllerReconcileScheduledReason := ''handoff_completion_ready''\<rparr>
                 else updatedStatus\<lparr>sControllerReconcileRequestedAtUnix := nowUnix,
                        sControllerReconcileReason := ''handoff_ack'',
                        sControllerReconcileScheduledAtUnix := 0, sControllerReconcileScheduledReason := ''''\<rparr>)"

definition consumeHandoff :: "('m, 'o) Service \<Rightarrow> int \<Rightarrow> u64 \<Rightarrow> 'm \<Rightarrow> (service_error + unit) \<times> 'm" where
  "consumeHandoff s nowUnix volumeID m =
     (case mrGetVolumeStatus (svcMetadata s) volumeID m of
        Inl getErr \<Rightarrow> (Inl getErr, m)
      | Inr updatedStatus \<Rightarrow>
          mrPutVolumeStatus (svcMetadata s) (acknowledgeHandoff nowUnix (svcGatewayID s) updatedStatus) m)"

definition attach_outcome ::
    "('m, 'o) Service \<Rightarrow> int \<Rightarrow> u64 \<Rightarrow> string \<Rightarrow> u32 \<Rightarrow> 'm \<times> 'o \<Rightarrow> (VolumeState, 'm \<times> 'o) outcome" where
  "attach_outcome s now volumeID hostID deviceID w =
     (if hostID = '''' then failed ErrHostIDRequired w
      else case volumeInfo s volumeID w of
        Inl err \<Rightarrow> failed err w
      | Inr v \<Rightarrow>
          if vState v = VolumeStateDisabled then failed ErrVolumeDisabled w
          else case mrGetVolumeStatus (svcMetadata s) volumeID (fst w) of
            Inl err \<Rightarrow> failed err w
          | Inr status \<Rightarrow>
              let consumesHandoff = sHandoffRequired status \<and> gatewayAllowedDuringHandoff status (svcGatewayID s)
              in if sHandoffRequired status \<and> \<not> gatewayAllowedDuringHandoff status (svcGatewayID s)
                 then failed ErrWriterFenced w
                 else case mrAttach (svcMetadata s) now
                        \<lparr>arVolumeID = volumeID, arHostID = hostID, arDeviceID = deviceID,
                         arGatewayID = svcGatewayID s\<rparr> (fst w) of
                   (Inl err, m) \<Rightarrow> failed err (m, snd w)
                 | (Inr _, m) \<Rightarrow>
                     case (if consumesHandoff then consumeHandoff s now volumeID m else (Inr (), m)) of
                       (Inl err, m) \<Rightarrow> failed err (m, snd w)
                     | (Inr _, m) \<Rightarrow> returned (volumeState s volumeID (m, snd w), (m, snd w)))"

definition AttachContext ::
    "('m, 'o) Service \<Rightarrow> moment \<Rightarrow> u64 \<Rightarrow> string \<Rightarrow> u32 \<Rightarrow> ('m, 'o) gateway \<Rightarrow>
     (service_error + VolumeState) \<times> ('m, 'o) gateway" where
  "AttachContext s t volumeID hostID deviceID g =
     recorded ''attach'' 0 t (attach_outcome s (atUnix t) volumeID hostID deviceID (gwWorld g)) g"

definition SBSErrorCodeUnavailable :: string where "SBSErrorCodeUnavailable = ''unavailable''"

definition isRetryableUnavailable :: "service_error \<Rightarrow> bool" where
  "isRetryableUnavailable err =
     (case err of ErrSBS code retryable \<Rightarrow> code = SBSErrorCodeUnavailable \<and> retryable | _ \<Rightarrow> False)"

definition isDeferredDetachCloseError :: "service_error \<Rightarrow> bool" where
  "isDeferredDetachCloseError err =
     (if err = ErrDeadlineExceeded \<or> err = ErrCanceled then True else isRetryableUnavailable err)"

text \<open>Closing the data path of an attachment; errors that may be repaired later are dropped.\<close>

definition close_for_detach ::
    "('m, 'o) Service \<Rightarrow> u64 \<Rightarrow> string \<Rightarrow> string \<Rightarrow> AttachmentRecord \<Rightarrow> 'm \<times> 'o \<Rightarrow>
     (service_error + unit) \<times> ('m \<times> 'o)" where
  "close_for_detach s volumeID hostID attachmentID attachment w =
     (let closed = (if aHostID attachment \<noteq> ''''
                    then (case dtCloseAttachment (svcData s) of
                            None \<Rightarrow> (Inr (), w)
                          | Some close \<Rightarrow> close volumeID attachment w)
                    else (case dtCloseLocalAttachment (svcData s) of
                            None \<Rightarrow> (Inr (), w)
                          | Some close \<Rightarrow> close volumeID hostID attachmentID w))
      in case closed of
           (Inl err, w) \<Rightarrow> if isDeferredDetachCloseError err then (Inr (), w) else (Inl err, w)
         | (Inr _, w) \<Rightarrow> (Inr (), w))"

definition detach_outcome ::
    "('m, 'o) Service \<Rightarrow> u64 \<Rightarrow> string \<Rightarrow> string \<Rightarrow> 'm \<times> 'o \<Rightarrow> (VolumeState, 'm \<times> 'o) outcome" where
  "detach_outcome s volumeID hostID attachmentID w =
     (if hostID = '''' then failed ErrHostIDRequired w
      else if attachmentID = '''' then failed ErrAttachmentIDRequired w
      else case volumeInfo s volumeID w of
        Inl err \<Rightarrow> failed err w
      | Inr _ \<Rightarrow>
          case mrGetAttachment (svcMetadata s) volumeID (fst w) of
            Inl err \<Rightarrow> failed err w
          | Inr attachment \<Rightarrow>
              if aHostID attachment \<noteq> '''' \<and> (aHostID attachment \<noteq> hostID \<or> aAttachmentID attachment \<noteq> attachmentID)
              then failed ErrDetachConflict w
              else case close_for_detach s volumeID hostID attachmentID attachment w of
                (Inl err, w) \<Rightarrow> failed err w
              | (Inr _, w) \<Rightarrow>
                  case mrDetach (svcMetadata s) \<lparr>drVolumeID = volumeID, drHostID = hostID,
                         drAttachmentID = attachmentID\<rparr> (fst w) of
                    (Inl err, m) \<Rightarrow> failed err (m, snd w)
                  | (Inr _, m) \<Rightarrow> ((volumeState s volumeID (m, snd w), None), (m, snd w)))"

definition DetachContext ::
    "('m, 'o) Service \<Rightarrow> moment \<Rightarrow> u64 \<Rightarrow> string \<Rightarrow> string \<Rightarrow> ('m, 'o) gateway \<Rightarrow>
     (service_error + VolumeState) \<times> ('m, 'o) gateway" where
  "DetachContext s t volumeID hostID attachmentID g =
     recorded ''detach'' 0 t (detach_outcome s volumeID hostID attachmentID (gwWorld g)) g"

subsection \<open>Ranges and protected volumes\<close>

definition validateRange :: "u32 \<Rightarrow> u64 \<Rightarrow> u64 \<Rightarrow> u64 \<Rightarrow> service_error + unit" where
  "validateRange blockSize0 volumeSize offsetBytes lengthBytes =
     (let blockSize = ucast (if blockSize0 = 0 then DefaultBlockSize else blockSize0) :: u64
      in if lengthBytes = 0 then Inl ErrBadAlignment
         else if offsetBytes mod blockSize \<noteq> 0 \<or> lengthBytes mod blockSize \<noteq> 0 then Inl ErrBadAlignment
         else if offsetBytes \<ge> volumeSize \<or> offsetBytes + lengthBytes > volumeSize then Inl ErrOutOfRange
         else Inr ())"

record ProtectedWriteRejection =
  pwrVolumeID :: string
  pwrProtectedState :: string
  pwrReasonCode :: string
  pwrSealedObjectID :: string
  pwrSealOperationID :: string
  pwrLifecycleState :: string

definition rejection_message :: "ProtectedWriteRejection \<Rightarrow> string" where
  "rejection_message e =
     concat (''write rejected by protected state''
       # map (\<lambda>(k, x). if x \<noteq> '''' then '' '' @ k @ ''='' @ x else '''')
           [(''volume'', pwrVolumeID e), (''protected_state'', pwrProtectedState e),
            (''reason_code'', pwrReasonCode e), (''sealed_object_id'', pwrSealedObjectID e),
            (''seal_operation_id'', pwrSealOperationID e), (''lifecycle_state'', pwrLifecycleState e)])"

definition protectedWriteRejectionForVolume :: "VolumeSpec \<Rightarrow> ProtectedWriteRejection option" where
  "protectedWriteRejectionForVolume volume =
     (case vProtectedState volume of
        None \<Rightarrow> None
      | Some p \<Rightarrow>
          let protectedState = Normalize p
          in case WriteRejectionReason protectedState of
               None \<Rightarrow> None
             | Some reasonCode \<Rightarrow> Some \<lparr>pwrVolumeID = CanonicalVolumeID (vID volume),
                 pwrProtectedState = psState protectedState, pwrReasonCode = reasonCode,
                 pwrSealedObjectID = psSealedObjectID protectedState,
                 pwrSealOperationID = psSealOperationID protectedState,
                 pwrLifecycleState = psLifecycleState protectedState\<rparr>)"

subsection \<open>Reading, writing and discarding\<close>

definition readResult_outcome ::
    "('m, 'o) Service \<Rightarrow> u64 \<Rightarrow> u64 \<Rightarrow> u64 \<Rightarrow> 'm \<times> 'o \<Rightarrow> (ReadResult, 'm \<times> 'o) outcome" where
  "readResult_outcome s volumeID offsetBytes lengthBytes w =
     (case VolumeInfo s volumeID w of
        Inl err \<Rightarrow> failed err w
      | Inr v \<Rightarrow>
          case validateRange (vBlockSize v) (vSizeBytes v) offsetBytes lengthBytes of
            Inl err \<Rightarrow> failed err w
          | Inr _ \<Rightarrow>
              case dtReadAtResult (svcData s) of
                Some readAtResult \<Rightarrow> returned (readAtResult v offsetBytes lengthBytes w)
              | None \<Rightarrow>
                  case dtReadAt (svcData s) v offsetBytes lengthBytes w of
                    (Inl err, w) \<Rightarrow> failed err w
                  | (Inr data, w) \<Rightarrow> returned (Inr \<lparr>rrData = Some data, rrZeroData = False\<rparr>, w))"

definition ServiceReadResult ::
    "('m, 'o) Service \<Rightarrow> moment \<Rightarrow> u64 \<Rightarrow> u64 \<Rightarrow> u64 \<Rightarrow> ('m, 'o) gateway \<Rightarrow>
     (service_error + ReadResult) \<times> ('m, 'o) gateway" where
  "ServiceReadResult s t volumeID offsetBytes lengthBytes g =
     recorded ''read'' lengthBytes t (readResult_outcome s volumeID offsetBytes lengthBytes (gwWorld g)) g"

definition Read ::
    "('m, 'o) Service \<Rightarrow> moment \<Rightarrow> u64 \<Rightarrow> u64 \<Rightarrow> u64 \<Rightarrow> ('m, 'o) gateway \<Rightarrow>
     (service_error + bytes) \<times> ('m, 'o) gateway" where
  "Read s t volumeID offsetBytes lengthBytes g =
     (case ServiceReadResult s t volumeID offsetBytes lengthBytes g of
        (Inl err, g) \<Rightarrow> (Inl err, g)
      | (Inr result, g) \<Rightarrow>
          (Inr (case rrData result of
                  Some data \<Rightarrow> data
                | None \<Rightarrow> if rrZeroData result then replicate (unat lengthBytes) 0 else []), g))"

text \<open>Reads of clones and snapshots, which only some data repositories have.\<close>

definition readClone_outcome ::
    "('m, 'o) Service \<Rightarrow> u64 \<Rightarrow> string \<Rightarrow> u64 \<Rightarrow> u64 \<Rightarrow> 'm \<times> 'o \<Rightarrow> (bytes, 'm \<times> 'o) outcome" where
  "readClone_outcome s volumeID cloneID0 offsetBytes lengthBytes w =
     (let cloneID = TrimSpace cloneID0
      in if cloneID = '''' then failed_silently (ErrOther ''clone_id is required'') w
         else case VolumeInfo s volumeID w of
           Inl err \<Rightarrow> failed err w
         | Inr v \<Rightarrow>
             case validateRange (vBlockSize v) (vSizeBytes v) offsetBytes lengthBytes of
               Inl err \<Rightarrow> failed err w
             | Inr _ \<Rightarrow>
                 case dtClone (svcData s) of
                   None \<Rightarrow> failed_silently ErrNotSupported w
                 | Some cloneData \<Rightarrow> returned (clReadCloneAt cloneData v cloneID offsetBytes lengthBytes w))"

definition ReadClone ::
    "('m, 'o) Service \<Rightarrow> moment \<Rightarrow> u64 \<Rightarrow> string \<Rightarrow> u64 \<Rightarrow> u64 \<Rightarrow> ('m, 'o) gateway \<Rightarrow>
     (service_error + bytes) \<times> ('m, 'o) gateway" where
  "ReadClone s t volumeID cloneID offsetBytes lengthBytes g =
     recorded ''clone_read'' lengthBytes t (readClone_outcome s volumeID cloneID offsetBytes lengthBytes (gwWorld g)) g"

definition readSnapshot_outcome ::
    "('m, 'o) Service \<Rightarrow> u64 \<Rightarrow> string \<Rightarrow> u64 \<Rightarrow> u64 \<Rightarrow> 'm \<times> 'o \<Rightarrow> (bytes, 'm \<times> 'o) outcome" where
  "readSnapshot_outcome s volumeID snapshotID0 offsetBytes lengthBytes w =
     (let snapshotID = TrimSpace snapshotID0
      in if snapshotID = '''' then failed_silently (ErrOther ''snapshot_id is required'') w
         else case VolumeInfo s volumeID w of
           Inl err \<Rightarrow> failed err w
         | Inr v \<Rightarrow>
             case validateRange (vBlockSize v) (vSizeBytes v) offsetBytes lengthBytes of
               Inl err \<Rightarrow> failed err w
             | Inr _ \<Rightarrow>
                 case dtReadSnapshotAt (svcData s) of
                   None \<Rightarrow> failed_silently ErrNotSupported w
                 | Some readSnapshotAt \<Rightarrow> returned (readSnapshotAt v snapshotID offsetBytes lengthBytes w))"

definition ReadSnapshot ::
    "('m, 'o) Service \<Rightarrow> moment \<Rightarrow> u64 \<Rightarrow> string \<Rightarrow> u64 \<Rightarrow> u64 \<Rightarrow> ('m, 'o) gateway \<Rightarrow>
     (service_error + bytes) \<times> ('m, 'o) gateway" where
  "ReadSnapshot s t volumeID snapshotID offsetBytes lengthBytes g =
     recorded ''snapshot_read'' lengthBytes t
       (readSnapshot_outcome s volumeID snapshotID offsetBytes lengthBytes (gwWorld g)) g"

definition write_outcome ::
    "('m, 'o) Service \<Rightarrow> int \<Rightarrow> u64 \<Rightarrow> u64 \<Rightarrow> u64 \<Rightarrow> bytes \<Rightarrow> 'm \<times> 'o \<Rightarrow> (unit, 'm \<times> 'o) outcome" where
  "write_outcome s now volumeID offsetBytes lengthBytes data w =
     (case VolumeInfo s volumeID w of
        Inl err \<Rightarrow> failed err w
      | Inr v \<Rightarrow>
          case validateRange (vBlockSize v) (vSizeBytes v) offsetBytes lengthBytes of
            Inl err \<Rightarrow> failed err w
          | Inr _ \<Rightarrow>
              if of_nat (length data) \<noteq> lengthBytes then failed_silently ErrBadDataLength w
              else case protectedWriteRejectionForVolume v of
                Some rejection \<Rightarrow> failed_silently ErrProtectedWriteRejected w
              | None \<Rightarrow> returned (dtWriteAt (svcData s) now v offsetBytes lengthBytes data w))"

definition Write ::
    "('m, 'o) Service \<Rightarrow> moment \<Rightarrow> u64 \<Rightarrow> u64 \<Rightarrow> u64 \<Rightarrow> bytes \<Rightarrow> ('m, 'o) gateway \<Rightarrow>
     (service_error + unit) \<times> ('m, 'o) gateway" where
  "Write s t volumeID offsetBytes lengthBytes data g =
     recorded ''write'' lengthBytes t
       (write_outcome s (atUnix t) volumeID offsetBytes lengthBytes data (gwWorld g)) g"

definition writeClone_outcome ::
    "('m, 'o) Service \<Rightarrow> int \<Rightarrow> u64 \<Rightarrow> string \<Rightarrow> u64 \<Rightarrow> u64 \<Rightarrow> bytes \<Rightarrow> 'm \<times> 'o \<Rightarrow> (unit, 'm \<times> 'o) outcome" where
  "writeClone_outcome s now volumeID cloneID0 offsetBytes lengthBytes data w =
     (let cloneID = TrimSpace cloneID0
      in if cloneID = '''' then failed_silently (ErrOther ''clone_id is required'') w
         else case VolumeInfo s volumeID w of
           Inl err \<Rightarrow> failed err w
         | Inr v \<Rightarrow>
             case validateRange (vBlockSize v) (vSizeBytes v) offsetBytes lengthBytes of
               Inl err \<Rightarrow> failed err w
             | Inr _ \<Rightarrow>
                 if of_nat (length data) \<noteq> lengthBytes then failed_silently ErrBadDataLength w
                 else case dtClone (svcData s) of
                   None \<Rightarrow> failed_silently ErrNotSupported w
                 | Some cloneData \<Rightarrow> returned (clWriteCloneAt cloneData now v cloneID offsetBytes lengthBytes data w))"

definition WriteClone ::
    "('m, 'o) Service \<Rightarrow> moment \<Rightarrow> u64 \<Rightarrow> string \<Rightarrow> u64 \<Rightarrow> u64 \<Rightarrow> bytes \<Rightarrow> ('m, 'o) gateway \<Rightarrow>
     (service_error + unit) \<times> ('m, 'o) gateway" where
  "WriteClone s t volumeID cloneID offsetBytes lengthBytes data g =
     recorded ''clone_write'' lengthBytes t
       (writeClone_outcome s (atUnix t) volumeID cloneID offsetBytes lengthBytes data (gwWorld g)) g"

definition flush_outcome :: "('m, 'o) Service \<Rightarrow> u64 \<Rightarrow> 'm \<times> 'o \<Rightarrow> (unit, 'm \<times> 'o) outcome" where
  "flush_outcome s volumeID w =
     (case VolumeInfo s volumeID w of
        Inl err \<Rightarrow> failed err w
      | Inr v \<Rightarrow>
          case dtFlushVolume (svcData s) of
            Some flushVolume \<Rightarrow> returned (flushVolume v w)
          | None \<Rightarrow> returned (Inr (), w))"

definition Flush ::
    "('m, 'o) Service \<Rightarrow> moment \<Rightarrow> u64 \<Rightarrow> ('m, 'o) gateway \<Rightarrow> (service_error + unit) \<times> ('m, 'o) gateway" where
  "Flush s t volumeID g = recorded ''flush'' 0 t (flush_outcome s volumeID (gwWorld g)) g"

text \<open>The observation of a discard picks what the data repository is asked to do.\<close>

definition discardObservation :: "('m, 'o) Service \<Rightarrow> VolumeSpec \<Rightarrow> u64 \<Rightarrow> u64 \<Rightarrow> DiscardObservation" where
  "discardObservation s v offsetBytes lengthBytes =
     (let fallback = NewDiscardZeroFallbackObservation v offsetBytes lengthBytes;
          obs = (case dtDiscardObservationFor (svcData s) of
                   None \<Rightarrow> fallback
                 | Some observe \<Rightarrow> observe v offsetBytes lengthBytes)
      in if doPolicy obs = DiscardPolicyTrueReclaim \<and> dtDiscardAt (svcData s) = None then fallback else obs)"

definition zero_range ::
    "('m, 'o) Service \<Rightarrow> int \<Rightarrow> VolumeSpec \<Rightarrow> u64 \<Rightarrow> u64 \<Rightarrow> 'm \<times> 'o \<Rightarrow> (service_error + unit) \<times> ('m \<times> 'o)" where
  "zero_range s now v offsetBytes lengthBytes w =
     (case dtZeroAt (svcData s) of
        Some zeroAt \<Rightarrow> zeroAt now v offsetBytes lengthBytes w
      | None \<Rightarrow> dtWriteAt (svcData s) now v offsetBytes lengthBytes (replicate (unat lengthBytes) 0) w)"

definition discard_range ::
    "('m, 'o) Service \<Rightarrow> int \<Rightarrow> VolumeSpec \<Rightarrow> u64 \<Rightarrow> u64 \<Rightarrow> 'm \<times> 'o \<Rightarrow> (service_error + unit) \<times> ('m \<times> 'o)" where
  "discard_range s now v offsetBytes lengthBytes w =
     (let policy = doPolicy (discardObservation s v offsetBytes lengthBytes)
      in if policy = DiscardPolicyPartialReject then (Inl ErrDiscardAlignment, w)
         else case (policy = DiscardPolicyTrueReclaim, dtDiscardAt (svcData s)) of
                (True, Some discardAt) \<Rightarrow> discardAt now v offsetBytes lengthBytes w
              | _ \<Rightarrow> zero_range s now v offsetBytes lengthBytes w)"

text \<open>A range operation that records what it observed before the data path runs.\<close>

definition observed ::
    "('m, 'o) Service \<Rightarrow> (VolumeSpec \<Rightarrow> DiscardObservation) \<Rightarrow> u64 \<Rightarrow> u64 \<Rightarrow> u64 \<Rightarrow> ('m, 'o) gateway \<Rightarrow> ('m, 'o) gateway" where
  "observed s observe volumeID offsetBytes lengthBytes g =
     (case VolumeInfo s volumeID (gwWorld g) of
        Inl err \<Rightarrow> g
      | Inr v \<Rightarrow>
          case validateRange (vBlockSize v) (vSizeBytes v) offsetBytes lengthBytes of
            Inl err \<Rightarrow> g
          | Inr _ \<Rightarrow> g\<lparr>gwMetrics := RecordDiscardObservation (observe v) (gwMetrics g)\<rparr>)"

definition range_outcome ::
    "('m, 'o) Service \<Rightarrow> (VolumeSpec \<Rightarrow> 'm \<times> 'o \<Rightarrow> (service_error + unit) \<times> ('m \<times> 'o)) \<Rightarrow> u64 \<Rightarrow> u64 \<Rightarrow> u64 \<Rightarrow>
     'm \<times> 'o \<Rightarrow> (unit, 'm \<times> 'o) outcome" where
  "range_outcome s act volumeID offsetBytes lengthBytes w =
     (case VolumeInfo s volumeID w of
        Inl err \<Rightarrow> failed err w
      | Inr v \<Rightarrow>
          case validateRange (vBlockSize v) (vSizeBytes v) offsetBytes lengthBytes of
            Inl err \<Rightarrow> failed err w
          | Inr _ \<Rightarrow> returned (act v w))"

definition Discard ::
    "('m, 'o) Service \<Rightarrow> moment \<Rightarrow> u64 \<Rightarrow> u64 \<Rightarrow> u64 \<Rightarrow> ('m, 'o) gateway \<Rightarrow>
     (service_error + unit) \<times> ('m, 'o) gateway" where
  "Discard s t volumeID offsetBytes lengthBytes g =
     (let g' = observed s (\<lambda>v. discardObservation s v offsetBytes lengthBytes) volumeID offsetBytes lengthBytes g
      in recorded ''discard'' lengthBytes t
           (range_outcome s (\<lambda>v. discard_range s (atUnix t) v offsetBytes lengthBytes)
              volumeID offsetBytes lengthBytes (gwWorld g)) g')"

definition Zero ::
    "('m, 'o) Service \<Rightarrow> moment \<Rightarrow> u64 \<Rightarrow> u64 \<Rightarrow> u64 \<Rightarrow> ('m, 'o) gateway \<Rightarrow>
     (service_error + unit) \<times> ('m, 'o) gateway" where
  "Zero s t volumeID offsetBytes lengthBytes g =
     (let g' = observed s (\<lambda>v. NewZeroObservation v offsetBytes lengthBytes) volumeID offsetBytes lengthBytes g
      in recorded ''zero'' lengthBytes t
           (range_outcome s (\<lambda>v. zero_range s (atUnix t) v offsetBytes lengthBytes)
              volumeID offsetBytes lengthBytes (gwWorld g)) g')"

section \<open>Lemmas\<close>

lemma recorded_simps [simp]:
  "fst (recorded op n t out g) = fst (fst out)"
  "gwWorld (snd (recorded op n t out g)) = snd out"
  "gwMetrics (snd (recorded op n t out g)) = Record op n (latencyMS t) (snd (fst out)) (gwMetrics g)"
  by (simp_all add: recorded_def)

lemma outcome_simps [simp]:
  "fst (fst (failed e w)) = Inl e" "snd (fst (failed e w)) = Some e" "snd (failed e w) = w"
  "fst (fst (failed_silently e w)) = Inl e" "snd (fst (failed_silently e w)) = None"
  "snd (failed_silently e w) = w"
  "fst (fst (returned rw)) = fst rw" "snd (returned rw) = snd rw"
  by (simp_all add: failed_def failed_silently_def returned_def)

subsection \<open>Ranges\<close>

text \<open>
  C35. The range check accepts a request exactly when it is not empty, its offset and its length are
  multiples of the block size and it lies inside the volume. One exception remains: the sum of offset
  and length is a 64-bit sum, so a request that starts inside the volume and is so long that the sum
  wraps around is accepted when the wrapped sum is not above the size.
\<close>

theorem validateRange_exact:
  "validateRange blockSize sz off len = Inr () \<longleftrightarrow>
     (let b = unat (if blockSize = 0 then DefaultBlockSize else blockSize)
      in len \<noteq> 0 \<and> b dvd unat off \<and> b dvd unat len \<and> off < sz
         \<and> (unat off + unat len \<le> unat sz
            \<or> 2 ^ 64 \<le> unat off + unat len \<and> unat off + unat len - 2 ^ 64 \<le> unat sz))"
proof -
  let ?b = "ucast (if blockSize = 0 then DefaultBlockSize else blockSize) :: u64"
  have b: "unat ?b = unat (if blockSize = 0 then DefaultBlockSize else blockSize)"
    by (simp only: unsigned_ucast_eq) (simp add: take_bit_nat_eq_self unsigned_less[THEN less_trans])
  have aligned: "x mod ?b = 0 \<longleftrightarrow> unat ?b dvd unat x" for x :: u64
    by (simp add: word_unat_eq_iff unat_mod_distrib dvd_eq_mod_eq_0)
  have "unat off + unat len < 2 ^ 64 + 2 ^ 64"
    using unat_lt_64[of off] unat_lt_64[of len] by simp
  then have wrapped: "off + len \<le> sz \<longleftrightarrow> unat off + unat len \<le> unat sz
      \<or> 2 ^ 64 \<le> unat off + unat len \<and> unat off + unat len - 2 ^ 64 \<le> unat sz"
    using unat_lt_64[of sz]
    by (cases "unat off + unat len < 2 ^ 64")
      (simp_all add: word_le_nat_alt unat_word_ariths mod_if)
  show ?thesis
    unfolding validateRange_def Let_def b[symmetric] aligned[symmetric] wrapped[symmetric]
    by (cases "off < sz"; cases "off + len \<le> sz"; cases "off mod ?b = 0"; cases "len mod ?b = 0")
      (simp_all flip: not_le)
qed

subsection \<open>Attachments under handoff\<close>

text \<open>
  C28. During a handoff only its targets can attach, whatever repositories the gateway runs on: an
  attach that succeeds on a volume under handoff is by one of the targets, and by the current gateway
  once one has attached; an attach by any other gateway is refused as fenced, changes neither the
  metadata nor the data, and is counted as an error.
\<close>

theorem attach_respects_handoff:
  assumes volume: "mrGetVolume (svcMetadata s) volumeID (fst (gwWorld g)) = Inr v" "vState v \<noteq> VolumeStateDisabled"
    and status: "mrGetVolumeStatus (svcMetadata s) volumeID (fst (gwWorld g)) = Inr status" "sHandoffRequired status"
    and host: "hostID \<noteq> ''''"
    and result: "AttachContext s t volumeID hostID deviceID g = (r, g')"
  shows "(\<forall>st. r = Inr st \<longrightarrow> svcGatewayID s \<in> set (sHandoffTargetGatewaySet status)
             \<and> (handoffStage status \<noteq> ''pending_generation_rotation'' \<longrightarrow> svcGatewayID s = sCurrentGatewayID status))
     \<and> (\<not> gatewayAllowedDuringHandoff status (svcGatewayID s)
          \<longrightarrow> r = Inl ErrWriterFenced \<and> gwWorld g' = gwWorld g
              \<and> omErrors (metrics_of (gwMetrics g') ''attach'') = omErrors (metrics_of (gwMetrics g) ''attach'') + 1)"
proof (cases "gatewayAllowedDuringHandoff status (svcGatewayID s)")
  case True
  then show ?thesis
    using allowed_is_target[OF status(2) True] by blast
next
  case False
  then have "attach_outcome s (atUnix t) volumeID hostID deviceID (gwWorld g) = failed ErrWriterFenced (gwWorld g)"
    using volume status host by (simp add: attach_outcome_def volumeInfo_def)
  then have "r = Inl ErrWriterFenced" "gwWorld g' = gwWorld g"
      "gwMetrics g' = Record ''attach'' 0 (latencyMS t) (Some ErrWriterFenced) (gwMetrics g)"
    using result by (auto simp: AttachContext_def recorded_def)
  then show ?thesis
    by (simp add: metrics_of_Record)
qed

subsection \<open>Attaching on the in-memory repository\<close>

definition memory_service :: "(repo \<times> 'o) DataRepository \<Rightarrow> string \<Rightarrow> (repo, 'o) Service" where
  "memory_service data gatewayID = NewWithRepositoryOptions inMemoryRepository None data gatewayID"

lemma memory_service_fields [simp]:
  "svcMetadata (memory_service data i) = inMemoryRepository" "svcData (memory_service data i) = data"
  "svcGatewayID (memory_service data i) = i"
  by (simp_all add: memory_service_def NewWithRepositoryOptions_def)

lemma memory_repository_fields [simp]:
  "mrGetVolume inMemoryRepository = GetVolume" "mrGetVolumeStatus inMemoryRepository = GetVolumeStatus"
  "mrPutVolumeStatus inMemoryRepository = PutVolumeStatus" "mrGetAttachment inMemoryRepository = GetAttachment"
  "mrAttach inMemoryRepository = Attach" "mrDetach inMemoryRepository = Detach"
  by (simp_all add: inMemoryRepository_def)

lemma set_volume_state_fields [simp]:
  "attachment_of (set_volume_state i x r) j = attachment_of r j"
  "status_of (set_volume_state i x r) j = status_of r j"
  "volume_exists (set_volume_state i x r) j = volume_exists r j"
  "mState (set_volume_state i x r) = mState r" "mStatus (set_volume_state i x r) = mStatus r"
  by (auto simp: set_volume_state_def attachment_of_def status_of_def volume_exists_def split: option.split)

text \<open>The attachment and the status an attach leaves, when it is not refused.\<close>

definition attachable :: "repo \<Rightarrow> u64 \<Rightarrow> string \<Rightarrow> u32 \<Rightarrow> bool" where
  "attachable r i host dev \<longleftrightarrow> repo_wf r \<and> volume_exists r i \<and> host \<noteq> ''''
     \<and> vState (the (volume_spec r i)) \<noteq> VolumeStateDisabled
     \<and> (aHostID (attachment_of r i) = '''' \<or> aHostID (attachment_of r i) = host \<and> aDeviceID (attachment_of r i) = dev)
     \<and> aGeneration (attachment_of r i) \<noteq> 0 \<and> aGeneration (attachment_of r i) + 1 \<noteq> 0"

lemma Attach_ok:
  assumes "attachable r i host dev"
  obtains a r' where "Attach now \<lparr>arVolumeID = i, arHostID = host, arDeviceID = dev, arGatewayID = gid\<rparr> r = (Inr a, r')"
    "attachment_of r' i = a" "aHostID a = host" "aDeviceID a = dev" "aOwnerGatewayID a = gid" "aGeneration a \<noteq> 0"
    "aAttachmentID a \<noteq> ''''" "aGeneration a \<in> {aGeneration (attachment_of r i), aGeneration (attachment_of r i) + 1}"
    "status_of r' i = (status_of r i)\<lparr>sInUse := True, sCurrentAttachmentID := aAttachmentID a,
       sCurrentHostID := host, sCurrentGatewayID := gid, sAttachmentGeneration := aGeneration a,
       sGatewayConnectionState := (if gid \<noteq> '''' then GatewayStateUp else sGatewayConnectionState (status_of r i))\<rparr>"
    "volume_exists r' i" "sVolumeID (status_of r' i) = i" "\<exists>v. GetVolume i r' = Inr v \<and> vID v = i"
proof -
  have wf: "repo_wf r" and ex: "volume_exists r i"
    using assms by (simp_all add: attachable_def)
  obtain v st where v: "mget (mVolumes r) i = Some v" "volume_wf i v"
    and st: "mget (mStatus r) i = Some st" "sVolumeID st = i"
    by (rule slot_present[OF repo_wfD(2)[OF wf] ex])
  have id: "FormatAttachmentID i g \<noteq> ''''" for g
    by (simp add: FormatAttachmentID_def)
  have cond: "vState v \<noteq> VolumeStateDisabled"
    "\<not> (aHostID (attachment_of r i) \<noteq> '''' \<and> (aHostID (attachment_of r i) \<noteq> host \<or> aDeviceID (attachment_of r i) \<noteq> dev))"
    using assms v(1) by (auto simp: attachable_def volume_spec_def)
  obtain a r' where A: "Attach now \<lparr>arVolumeID = i, arHostID = host, arDeviceID = dev, arGatewayID = gid\<rparr> r = (Inr a, r')"
    using v(1) cond by (auto simp: Attach_def Let_def)
  show ?thesis
  proof (rule that[OF A])
    show "attachment_of r' i = a" "aHostID a = host" "aDeviceID a = dev" "aOwnerGatewayID a = gid"
      "aGeneration a \<noteq> 0" "aAttachmentID a \<noteq> ''''"
      "aGeneration a \<in> {aGeneration (attachment_of r i), aGeneration (attachment_of r i) + 1}"
      using A v(1) cond assms id
      by (auto simp: Attach_def Let_def attachable_def attachment_of_def mget_or_def split: if_splits)
    show "status_of r' i = (status_of r i)\<lparr>sInUse := True, sCurrentAttachmentID := aAttachmentID a,
       sCurrentHostID := host, sCurrentGatewayID := gid, sAttachmentGeneration := aGeneration a,
       sGatewayConnectionState := (if gid \<noteq> '''' then GatewayStateUp else sGatewayConnectionState (status_of r i))\<rparr>"
      "sVolumeID (status_of r' i) = i"
      using A v(1) cond st by (auto simp: Attach_def Let_def status_of_def mget_or_def)
    show "volume_exists r' i" "\<exists>v. GetVolume i r' = Inr v \<and> vID v = i"
      using A v cond by (auto simp: Attach_def Let_def set_volume_state_def volume_exists_def GetVolume_def volume_wf_def)
  qed
qed


lemma acknowledge_fields [simp]:
  "sVolumeID (acknowledgeHandoff now gid st) = sVolumeID st"
  "sCurrentGatewayID (acknowledgeHandoff now gid st) = sCurrentGatewayID st"
  "sAttachmentGeneration (acknowledgeHandoff now gid st) = sAttachmentGeneration st"
  by (simp_all add: acknowledgeHandoff_def updateHandoffCompletionEligibility_def Let_def)

lemma acknowledge_acknowledges:
  assumes "sHandoffRequired st" "sCurrentGatewayID st = gid" "gid \<noteq> ''''" "gid \<in> set (sHandoffTargetGatewaySet st)"
    and "sAttachmentGeneration st \<noteq> 0" "now > 0" "sHandoffRequired (acknowledgeHandoff now gid st)"
  shows "handoffAcknowledged (acknowledgeHandoff now gid st)"
  using assms
  by (auto simp: acknowledgeHandoff_def updateHandoffCompletionEligibility_def handoffAcknowledged_def Let_def
      word_gt_0 split: if_splits)

lemma acknowledged_admits_current:
  assumes "handoffAcknowledged st"
  shows "gatewayAllowedDuringHandoff st g \<longleftrightarrow> g = sCurrentGatewayID st"
proof -
  have "handoffStage st \<in> {''acknowledged_pending_convergence'', ''acknowledged_pending_runtime_attention'',
      ''ready_to_complete''}"
    using assms by (auto simp: handoffStage_def handoffAcknowledged_def split: if_splits)
  then show ?thesis
    using assms by (auto simp: gatewayAllowedDuringHandoff_def handoffAcknowledged_def split: if_splits)
qed

text \<open>The status after an attach, from the status before it.\<close>

definition handoff_consumed :: "int \<Rightarrow> string \<Rightarrow> VolumeStatusRecord \<Rightarrow> VolumeStatusRecord \<Rightarrow> bool" where
  "handoff_consumed now gid st0 st' \<longleftrightarrow> (\<exists>st. sHandoffRequired st = sHandoffRequired st0
     \<and> sCurrentGatewayID st = gid \<and> sHandoffTargetGatewaySet st = sHandoffTargetGatewaySet st0
     \<and> sAttachmentGeneration st \<noteq> 0 \<and> st' = (if sHandoffRequired st then acknowledgeHandoff now gid st else st))"

lemma attach_outcome_memory:
  assumes able: "attachable r i host dev"
    and allowed: "\<not> sHandoffRequired (status_of r i) \<or> gatewayAllowedDuringHandoff (status_of r i) gid"
  obtains a r' st where
    "attach_outcome (memory_service data gid) now i host dev (r, os) = returned (Inr st, (r', os))"
    "vsVolumeID st = i" "vsAttachedHostID st = host" "vsAttachmentID st = aAttachmentID a" "vsGeneration st = aGeneration a"
    "attachment_of r' i = a" "aHostID a = host" "aAttachmentID a \<noteq> ''''" "volume_exists r' i"
    "\<exists>v. GetVolume i r' = Inr v \<and> vID v = i" "aGeneration a \<in> {aGeneration (attachment_of r i), aGeneration (attachment_of r i) + 1}"
    "sCurrentGatewayID (status_of r' i) = gid" "sAttachmentGeneration (status_of r' i) = aGeneration a"
    "handoff_consumed now gid (status_of r i) (status_of r' i)"
proof -
  have wf: "repo_wf r" and ex: "volume_exists r i"
    using able by (simp_all add: attachable_def)
  obtain v where v: "mget (mVolumes r) i = Some v" "volume_wf i v"
    by (rule slot_present[OF repo_wfD(2)[OF wf] ex])
  obtain a r1 where A: "Attach now \<lparr>arVolumeID = i, arHostID = host, arDeviceID = dev, arGatewayID = gid\<rparr> r = (Inr a, r1)"
    and a: "attachment_of r1 i = a" "aHostID a = host" "aGeneration a \<noteq> 0" "aAttachmentID a \<noteq> ''''"
      "aGeneration a \<in> {aGeneration (attachment_of r i), aGeneration (attachment_of r i) + 1}"
    and st: "status_of r1 i = (status_of r i)\<lparr>sInUse := True, sCurrentAttachmentID := aAttachmentID a,
       sCurrentHostID := host, sCurrentGatewayID := gid, sAttachmentGeneration := aGeneration a,
       sGatewayConnectionState := (if gid \<noteq> '''' then GatewayStateUp else sGatewayConnectionState (status_of r i))\<rparr>"
    and ex1: "volume_exists r1 i" "sVolumeID (status_of r1 i) = i" "\<exists>v. GetVolume i r1 = Inr v \<and> vID v = i"
    by (rule Attach_ok[OF able, of now gid]) blast
  define r' where "r' = (if sHandoffRequired (status_of r i)
     then r1\<lparr>mStatus := mput i (acknowledgeHandoff now gid (status_of r1 i)) (mStatus r1)\<rparr> else r1)"
  have r': "attachment_of r' i = a" "volume_exists r' i" "\<exists>v. GetVolume i r' = Inr v \<and> vID v = i"
    "status_of r' i = (if sHandoffRequired (status_of r i) then acknowledgeHandoff now gid (status_of r1 i)
                       else status_of r1 i)"
    using a(1) ex1 by (auto simp: r'_def attachment_of_def volume_exists_def GetVolume_def status_of_def mget_or_def)
  then obtain sp where sp: "volumeState (memory_service data gid) i (r', os) = Inr sp"
    "vsVolumeID sp = i" "vsAttachedHostID sp = host" "vsAttachmentID sp = aAttachmentID a" "vsGeneration sp = aGeneration a"
    using a(2) by (auto simp: volumeState_def volumeStateFromSpec_def GetAttachment_def)
  have "(if sHandoffRequired (status_of r i) then consumeHandoff (memory_service data gid) now i r1 else (Inr (), r1))
      = (Inr (), r')"
    using ex1 by (simp add: r'_def consumeHandoff_def GetVolumeStatus_def PutVolumeStatus_def)
  moreover have "host \<noteq> ''''" "vState v \<noteq> VolumeStateDisabled"
    using able v(1) by (simp_all add: attachable_def volume_spec_def)
  ultimately have "attach_outcome (memory_service data gid) now i host dev (r, os) = returned (Inr sp, (r', os))"
    using v(1) ex A allowed sp(1)
    by (auto simp: attach_outcome_def volumeInfo_def GetVolume_def GetVolumeStatus_def)
  then show ?thesis
    by (rule that[where a = a]) (use sp r' a st in \<open>auto simp: handoff_consumed_def intro!: exI[of _ "status_of r1 i"]\<close>)
qed

text \<open>
  C29. A gateway that a handoff admits takes the volume over. Its attach succeeds, it becomes the current
  gateway with the generation of the new attachment, and as long as the handoff is still pending
  afterwards it counts as acknowledged, so that no other gateway is admitted any more.
\<close>

theorem attach_takes_over:
  assumes "attachable (fst (gwWorld g)) i host dev" and "sHandoffRequired (status_of (fst (gwWorld g)) i)"
    and "gatewayAllowedDuringHandoff (status_of (fst (gwWorld g)) i) gid" and "gid \<noteq> ''''" and "atUnix t > 0"
  shows "\<exists>st g'. AttachContext (memory_service data gid) t i host dev g = (Inr st, g')
     \<and> vsAttachedHostID st = host
     \<and> sCurrentGatewayID (status_of (fst (gwWorld g')) i) = gid
     \<and> sAttachmentGeneration (status_of (fst (gwWorld g')) i) = vsGeneration st
     \<and> (sHandoffRequired (status_of (fst (gwWorld g')) i) \<longrightarrow>
          handoffAcknowledged (status_of (fst (gwWorld g')) i)
          \<and> (\<forall>g2. gatewayAllowedDuringHandoff (status_of (fst (gwWorld g')) i) g2 \<longleftrightarrow> g2 = gid))"
proof -
  obtain r0 os where w: "gwWorld g = (r0, os)" by fastforce
  note assms' = assms[unfolded w fst_conv]
  obtain a :: AttachmentRecord and r' st where out: "attach_outcome (memory_service data gid) (atUnix t) i host dev (r0, os)
      = returned (Inr st, (r', os))"
    and st: "vsAttachedHostID st = host" "vsGeneration st = aGeneration a"
      "sCurrentGatewayID (status_of r' i) = gid" "sAttachmentGeneration (status_of r' i) = aGeneration a"
    and ack: "handoff_consumed (atUnix t) gid (status_of r0 i) (status_of r' i)"
    by (rule attach_outcome_memory[OF assms'(1) disjI2[OF assms'(3)], of data "atUnix t" os]) blast
  have acked: "handoffAcknowledged (status_of r' i)" if "sHandoffRequired (status_of r' i)"
    using ack that assms'(2,4,5) allowed_is_target[OF assms'(2,3)]
    by (auto simp: handoff_consumed_def intro!: acknowledge_acknowledges)
  define g' where "g' = snd (AttachContext (memory_service data gid) t i host dev g)"
  have "AttachContext (memory_service data gid) t i host dev g = (Inr st, g')" "fst (gwWorld g') = r'"
    by (simp_all add: g'_def AttachContext_def w out recorded_def)
  then show ?thesis
    using st acked acknowledged_admits_current[OF acked] by auto
qed

lemma Detach_ok:
  assumes "volume_exists r i" "GetVolume i r = Inr v" "vID v = i"
    and "aHostID (attachment_of r i) = host" "aAttachmentID (attachment_of r i) = att"
  obtains a' r' where "Detach \<lparr>drVolumeID = i, drHostID = host, drAttachmentID = att\<rparr> r = (Inr a', r')"
    "attachment_of r' i = a'" "aHostID a' = ''''" "aAttachmentID a' = ''''"
    "aGeneration a' = aGeneration (attachment_of r i) + 1"
    "volume_exists r' i" "\<exists>v. GetVolume i r' = Inr v \<and> vID v = i"
proof -
  have v: "mget (mVolumes r) i = Some v"
    using assms(2) by (auto simp: GetVolume_def split: option.splits)
  obtain a' r' where D: "Detach \<lparr>drVolumeID = i, drHostID = host, drAttachmentID = att\<rparr> r = (Inr a', r')"
    using assms by (auto simp: Detach_def Let_def)
  show ?thesis
    by (rule that[OF D]) (use D assms v in \<open>auto simp: Detach_def Let_def attachment_of_def mget_or_def
      set_volume_state_def volume_exists_def GetVolume_def\<close>)
qed

text \<open>
  C30. Attaching and detaching round trip. A detached volume that no handoff fences can be attached by any
  host, and the attachment id it returns is what detaches it again: the volume is then detached, with
  a generation above the one it was attached with. A detach that names another host or another
  attachment is refused and changes nothing.
\<close>

theorem attach_detach_roundtrip:
  assumes able: "attachable (fst (gwWorld g)) i host dev" and free: "aHostID (attachment_of (fst (gwWorld g)) i) = ''''"
    and unfenced: "\<not> sHandoffRequired (status_of (fst (gwWorld g)) i)"
    and attach: "AttachContext (memory_service (chunkExtentData ce) gid) t i host dev g = (r, g')"
  shows "\<exists>st. r = Inr st
     \<and> (\<exists>st' g''. DetachContext (memory_service (chunkExtentData ce) gid) t' i host (vsAttachmentID st) g' = (Inr st', g'')
         \<and> vsAttachedHostID st' = '''' \<and> vsAttachmentID st' = '''' \<and> vsGeneration st' = vsGeneration st + 1)
     \<and> (\<forall>host' att. host' \<noteq> '''' \<longrightarrow> att \<noteq> '''' \<longrightarrow> (host', att) \<noteq> (host, vsAttachmentID st) \<longrightarrow>
         (\<exists>g''. DetachContext (memory_service (chunkExtentData ce) gid) t' i host' att g' = (Inl ErrDetachConflict, g'')
            \<and> gwWorld g'' = gwWorld g'))"
proof -
  obtain r0 os where w: "gwWorld g = (r0, os)" by fastforce
  obtain a :: AttachmentRecord and r' st where out: "attach_outcome (memory_service (chunkExtentData ce) gid) (atUnix t) i host dev (gwWorld g)
      = returned (Inr st, (r', os))"
    and st: "vsAttachmentID st = aAttachmentID a" "vsGeneration st = aGeneration a"
    and a: "attachment_of r' i = a" "aHostID a = host" "aAttachmentID a \<noteq> ''''" "volume_exists r' i"
      "\<exists>v. GetVolume i r' = Inr v \<and> vID v = i"
    unfolding w by (rule attach_outcome_memory[OF able[unfolded w fst_conv] disjI1[OF unfenced[unfolded w fst_conv]],
        of "chunkExtentData ce" gid "atUnix t" os]) blast
  have g': "r = Inr st" "gwWorld g' = (r', os)"
    using attach out by (auto simp: AttachContext_def recorded_def)
  have host: "host \<noteq> ''''"
    using able by (simp add: attachable_def)
  obtain v where v: "GetVolume i r' = Inr v" "vID v = i"
    using a(5) by blast
  define D where "D = (\<lambda>host' att. detach_outcome (memory_service (chunkExtentData ce) gid) i host' att (r', os))"
  have "D host' att = failed ErrDetachConflict (r', os)"
    if "host' \<noteq> ''''" "att \<noteq> ''''" "(host', att) \<noteq> (host, aAttachmentID a)" for host' att
    using that host v(1) a by (auto simp: D_def detach_outcome_def volumeInfo_def GetAttachment_def)
  then have wrong: "\<exists>g''. DetachContext (memory_service (chunkExtentData ce) gid) t' i host' att g' = (Inl ErrDetachConflict, g'')
            \<and> gwWorld g'' = gwWorld g'"
    if "host' \<noteq> ''''" "att \<noteq> ''''" "(host', att) \<noteq> (host, aAttachmentID a)" for host' att
    using that by (simp add: DetachContext_def g' D_def recorded_def)
  have "\<exists>r'' st'. D host (aAttachmentID a) = ((Inr st', None), (r'', os))
      \<and> vsAttachedHostID st' = '''' \<and> vsAttachmentID st' = '''' \<and> vsGeneration st' = aGeneration a + 1"
  proof -
    obtain r'' a' where "Detach \<lparr>drVolumeID = i, drHostID = host, drAttachmentID = aAttachmentID a\<rparr> r' = (Inr a', r'')"
      "attachment_of r'' i = a'" "aHostID a' = ''''" "aAttachmentID a' = ''''" "aGeneration a' = aGeneration a + 1"
      "volume_exists r'' i" "\<exists>v. GetVolume i r'' = Inr v \<and> vID v = i"
      using Detach_ok[OF a(4) v a(2)[folded a(1)] refl] a(1) by metis
    then show ?thesis
      using host v a by (auto simp: D_def detach_outcome_def volumeInfo_def GetAttachment_def close_for_detach_def
          chunkExtentData_def CloseAttachment_def volumeState_def volumeStateFromSpec_def)
  qed
  then show ?thesis
    using wrong by (auto simp: DetachContext_def g' D_def recorded_def st)
qed

subsection \<open>An example: a volume handed to one gateway\<close>

definition handoff_repo :: repo where
  "handoff_repo = snd (PutVolumeStatus (zero_status\<lparr>sVolumeID := 7, sHandoffRequired := True,
     sHandoffTargetGatewaySet := [''gw-b'']\<rparr>) demo_repo)"

definition handoff_gateway :: "(repo, unit) gateway" where
  "handoff_gateway = \<lparr>gwWorld = (handoff_repo, ()), gwMetrics = NewMetricsCollector\<rparr>"

definition idle_gateway :: "(repo, MemoryStore) gateway" where
  "idle_gateway = \<lparr>gwWorld = (demo_repo, NewMemoryStore), gwMetrics = NewMetricsCollector\<rparr>"

definition noon :: moment where
  "noon = \<lparr>atUnix = 1000, latencyMS = 3\<rparr>"

lemma handoff_repo_wf: "repo_wf handoff_repo"
  unfolding handoff_repo_def by (rule wf_PutVolumeStatus[OF demo_repo_wf])

lemma demo_attachable: "attachable demo_repo 7 ''h1'' 1" "attachable handoff_repo 7 ''h1'' 1"
proof -
  have "volume_exists r 7 \<and> vState (the (volume_spec r 7)) \<noteq> VolumeStateDisabled
      \<and> aHostID (attachment_of r 7) = '''' \<and> aGeneration (attachment_of r 7) = 1"
    if "r = demo_repo \<or> r = handoff_repo" for r
    using that by (elim disjE; hypsubst) code_simp+
  then show "attachable demo_repo 7 ''h1'' 1" "attachable handoff_repo 7 ''h1'' 1"
    using demo_repo_wf handoff_repo_wf by (simp_all add: attachable_def)
qed

theorem attach_respects_handoff_witness:
  "fst (AttachContext (memory_service unsupportedDataRepository ''gw-a'') noon 7 ''h1'' 1 handoff_gateway)
     = Inl ErrWriterFenced"
proof -
  have v: "GetVolume 7 handoff_repo = Inr (NormalizeVolumeSpec demo_volume)"
    "vState (NormalizeVolumeSpec demo_volume) \<noteq> VolumeStateDisabled"
    "GetVolumeStatus 7 handoff_repo = Inr (status_of handoff_repo 7)" "sHandoffRequired (status_of handoff_repo 7)"
    "\<not> gatewayAllowedDuringHandoff (status_of handoff_repo 7) ''gw-a''"
    by code_simp+
  then show ?thesis
    using attach_respects_handoff[of "memory_service unsupportedDataRepository ''gw-a''" 7 handoff_gateway
        "NormalizeVolumeSpec demo_volume" "status_of handoff_repo 7" "''h1''" noon 1, OF _ _ _ _ _ prod.collapse[symmetric]]
    by (simp add: handoff_gateway_def)
qed

theorem attach_takes_over_witness:
  "\<exists>st g'. AttachContext (memory_service unsupportedDataRepository ''gw-b'') noon 7 ''h1'' 1 handoff_gateway = (Inr st, g')
     \<and> sCurrentGatewayID (status_of (fst (gwWorld g')) 7) = ''gw-b''"
proof -
  have "sHandoffRequired (status_of handoff_repo 7)" "gatewayAllowedDuringHandoff (status_of handoff_repo 7) ''gw-b''"
    by code_simp+
  then show ?thesis
    using attach_takes_over[of handoff_gateway 7 "''h1''" 1 "''gw-b''" noon unsupportedDataRepository] demo_attachable(2)
    by (auto simp: handoff_gateway_def noon_def)
qed

definition idle_service :: "(repo, MemoryStore) Service" where
  "idle_service = memory_service (chunkExtentData (NewChunkExtentDataRepository inMemoryRepository memoryStore)) ''gw-a''"

theorem attach_detach_roundtrip_witness:
  "\<exists>st g' st' g''. AttachContext idle_service noon 7 ''h1'' 1 idle_gateway = (Inr st, g')
     \<and> DetachContext idle_service noon 7 ''h1'' (vsAttachmentID st) g' = (Inr st', g'') \<and> vsAttachedHostID st' = ''''"
proof -
  have "aHostID (attachment_of demo_repo 7) = ''''" "\<not> sHandoffRequired (status_of demo_repo 7)"
    by code_simp+
  then obtain st st' g'' where "fst (AttachContext idle_service noon 7 ''h1'' 1 idle_gateway) = Inr st"
      "DetachContext idle_service noon 7 ''h1'' (vsAttachmentID st)
         (snd (AttachContext idle_service noon 7 ''h1'' 1 idle_gateway)) = (Inr st', g'')" "vsAttachedHostID st' = ''''"
    using attach_detach_roundtrip[of idle_gateway 7 "''h1''" 1
        "NewChunkExtentDataRepository inMemoryRepository memoryStore" "''gw-a''" noon,
        folded idle_service_def, OF _ _ _ prod.collapse[symmetric], of noon] demo_attachable(1)
    by (auto simp: idle_gateway_def)
  then show ?thesis
    by (metis prod.collapse)
qed

end
