(* ===== verification/ServicePath.thy ===== *)
theory ServicePath
  imports DataPath GatewayService
begin

section \<open>The gateway service over its data path\<close>

text \<open>
  The operations of the gateway service composed with the chunk-extent repository, the in-memory
  metadata repository and the in-memory store: what a client of the service reads after it wrote.
\<close>

subsection \<open>Writes leave the volumes alone\<close>

context page_repository
begin

definition same_volumes :: "'m \<Rightarrow> 'm \<Rightarrow> bool" where
  "same_volumes m m' \<longleftrightarrow> minv m \<longrightarrow> minv m' \<and> vol m' = vol m"

lemma same_volumes_refl [simp]: "same_volumes m m"
  by (simp add: same_volumes_def)

lemma same_volumes_trans: "same_volumes m m' \<Longrightarrow> same_volumes m' m'' \<Longrightarrow> same_volumes m m''"
  by (simp add: same_volumes_def)

lemma updates_same_volumes:
  "meta = ceMeta r \<Longrightarrow> mrPutExtentPage (ceMeta r) p e m = (x, m') \<Longrightarrow> same_volumes m m'"
  "meta = ceMeta r \<Longrightarrow> mrAllocateChunkIDs (ceMeta r) v c m = (y, m') \<Longrightarrow> same_volumes m m'"
  "meta = ceMeta r \<Longrightarrow> mrPutChunkGarbage (ceMeta r) now g m = (z, m') \<Longrightarrow> same_volumes m m'"
  using put_page_frame[of m p e] alloc_frame[of m v c] garbage_frame[of m now g]
  by (auto simp: same_volumes_def)

lemma recordGarbage_same_volumes:
  "meta = ceMeta r \<Longrightarrow> recordGarbage r now volume refs m = (res, m') \<Longrightarrow> same_volumes m m'"
  by (induction r now volume refs m arbitrary: res rule: recordGarbage.induct)
    (auto split: prod.splits sum.splits dest: updates_same_volumes(3) intro: same_volumes_trans)

lemma store_pending_same_volumes:
  "meta = ceMeta r \<Longrightarrow> store_pending r now pw i cs a w = (res, w') \<Longrightarrow> same_volumes (fst w) (fst w')"
  by (induction r now pw i cs a w arbitrary: res rule: store_pending.induct)
    (auto simp: Let_def split: prod.splits sum.splits dest: recordGarbage_same_volumes)

lemma write_step_same_volumes:
  assumes "meta = ceMeta r" "write_step r now pw pc w = (pc', w')"
  shows "same_volumes (fst w) (fst w')"
  using assms
  by (cases pc; cases w)
    (auto split: prod.splits sum.splits option.splits if_splits
      dest: updates_same_volumes recordGarbage_same_volumes store_pending_same_volumes)

lemma write_run_same_volumes:
  assumes "meta = ceMeta r"
  shows "same_volumes (fst w) (fst (snd (write_run r now pw pc w)))"
  using assms
proof (induction r now pw pc w rule: write_run.induct)
  case (1 r now pw pc w)
  show ?case
    using 1(1)[OF _ refl 1(2)] write_step_same_volumes[OF 1(2), of now pw pc w, OF prod.collapse[symmetric]]
    by (subst write_run.simps) (auto simp: Let_def intro: same_volumes_trans)
qed

lemma write_pages_same_volumes:
  "meta = ceMeta r \<Longrightarrow> write_pages r now volume off len data ps w = (res, w') \<Longrightarrow> same_volumes (fst w) (fst w')"
proof (induction ps arbitrary: w)
  case (Cons p ps)
  let ?pw = "\<lparr>pwVolume = volume, pwPageNo = p, pwOffsetBytes = off, pwLengthBytes = len, pwData = data\<rparr>"
  have "same_volumes (fst w) (fst (snd (writePage r now ?pw w)))"
    using write_run_same_volumes[OF Cons.prems(1)] by (simp add: writePage_def)
  with Cons show ?case
    by (cases "writePage r now ?pw w") (fastforce split: sum.splits intro: same_volumes_trans)
qed simp

lemma WriteAt_same_volumes:
  "meta = ceMeta r \<Longrightarrow> WriteAt r now volume off len data w = (res, w') \<Longrightarrow> same_volumes (fst w) (fst w')"
  by (auto simp: WriteAt_def Let_def split: if_splits dest: write_pages_same_volumes)

end

subsection \<open>The in-memory gateway service\<close>

definition memory_gateway_service :: "string \<Rightarrow> (repo, MemoryStore) Service" where
  "memory_gateway_service gatewayID = memory_service (chunkExtentData memory_data) gatewayID"

text \<open>The state of a gateway that serves the volume \<open>v\<close>.\<close>

definition serves :: "VolumeSpec \<Rightarrow> (repo, MemoryStore) gateway \<Rightarrow> bool" where
  "serves v g \<longleftrightarrow> vol_ok v \<and> unat (vSizeBytes v) \<le> 2 ^ 63 \<and> volume_spec (fst (gwWorld g)) (vID v) = Some v
     \<and> memory_inv v (gwWorld g) \<and> memory_room v (chunks v) (fst (gwWorld g))"

lemma VolumeInfo_serves: "serves v g \<Longrightarrow> VolumeInfo (memory_gateway_service i) (vID v) (gwWorld g) = Inr v"
  by (simp add: serves_def VolumeInfo_def volumeInfo_def memory_gateway_service_def volume_spec_def GetVolume_def)

lemma range_inside:
  assumes "unat sz \<le> 2 ^ 63" "unat len < 2 ^ 63" "validateRange bs sz off len = Inr ()"
  shows "unat off + unat len \<le> unat sz"
proof -
  have "off < sz" "off + len \<le> sz"
    using assms(3) by (auto simp: validateRange_def Let_def not_le not_less split: if_splits)
  moreover have "unat off + unat len < 2 ^ 64"
    using assms(1,2) \<open>off < sz\<close> by (simp add: word_less_nat_alt)
  ultimately show ?thesis
    using unat_add_lem[of off len] by (simp add: word_le_nat_alt)
qed

lemma service_data [simp]:
  "dtReadAtResult (svcData (memory_gateway_service i)) = None"
  "dtReadAt (svcData (memory_gateway_service i)) = (\<lambda>volume off len w. (ReadAt memory_data volume off len w, w))"
  "dtWriteAt (svcData (memory_gateway_service i)) = WriteAt memory_data"
  "dtZeroAt (svcData (memory_gateway_service i)) = Some (ZeroAt memory_data)"
  "dtDiscardAt (svcData (memory_gateway_service i)) = Some (DiscardAt memory_data)"
  "dtDiscardObservationFor (svcData (memory_gateway_service i)) = Some DiscardObservationFor"
  by (simp_all add: memory_gateway_service_def chunkExtentData_def)

lemma write_keeps_volume:
  assumes "WriteAt memory_data now v off len data w = (res, w')" "repo_wf (fst w)"
  shows "volume_spec (fst w') = volume_spec (fst w)"
  using memrepo.WriteAt_same_volumes[OF _ assms(1)] assms(2)
  by (simp add: memrepo.same_volumes_def memory_data_fields)


lemma write_outcome_memory:
  assumes sv: "serves v g" and len: "length data < 2 ^ 63"
    and ok: "validateRange (vBlockSize v) (vSizeBytes v) off len = Inr ()" "of_nat (length data) = len"
      "protectedWriteRejectionForVolume v = None"
  obtains w' where "write_outcome (memory_gateway_service i) now (vID v) off len data (gwWorld g) = returned (Inr (), w')"
    "memory_inv v w'" "volume_spec (fst w') (vID v) = Some v" "unat off + unat len \<le> unat (vSizeBytes v)"
    "unat len = length data"
    "\<forall>i < unat (vSizeBytes v). memory_bytes v w' i =
       (if unat off \<le> i \<and> i < unat off + unat len then data ! (i - unat off) else memory_bytes v (gwWorld g) i)"
proof -
  have ulen: "unat len = length data"
    unfolding ok(2)[symmetric] using len by (intro unat_of_nat_length) simp
  have v: "vol_ok v" "ok_volume v = v" and inv: "memory_inv v (gwWorld g)"
    and room: "memory_room v (chunks v) (fst (gwWorld g))" and vs: "volume_spec (fst (gwWorld g)) (vID v) = Some v"
    using sv by (simp_all add: serves_def ok_volume_def)
  have inside: "unat off + unat len \<le> unat (vSizeBytes v)"
    using range_inside[OF _ _ ok(1)] sv ulen len by (simp add: serves_def)
  obtain w' where w': "WriteAt memory_data now v off len data (gwWorld g) = (Inr (), w')" "memory_inv v w'"
    "\<forall>i < chunks v * csz v. memory_bytes v w' i =
       (if unat off \<le> i \<and> i < unat off + unat len then data ! (i - unat off) else memory_bytes v (gwWorld g) i)"
    using memdata.WriteAt_ok[of v, unfolded v(2), OF inv[unfolded memory_defs] inside ulen[symmetric]
        room[unfolded memory_defs], of now]
    unfolding memory_defs by blast
  have "repo_wf (fst (gwWorld g))"
    using inv by (simp add: memory_inv_def data_inv_def)
  then have "volume_spec (fst w') (vID v) = Some v"
    using write_keeps_volume[OF w'(1)] vs by simp
  moreover have "write_outcome (memory_gateway_service i) now (vID v) off len data (gwWorld g) = returned (Inr (), w')"
    using VolumeInfo_serves[OF sv] ok w'(1) by (simp add: write_outcome_def)
  ultimately show ?thesis
    using w'(2,3) size_bound[OF v(1)] inside ulen by (intro that) blast+
qed

lemma read_memory:
  assumes "vol_ok v" "memory_inv v (gwWorld g)" "volume_spec (fst (gwWorld g)) (vID v) = Some v"
    and "validateRange (vBlockSize v) (vSizeBytes v) off len = Inr ()" "unat off + unat len \<le> unat (vSizeBytes v)"
  shows "fst (Read (memory_gateway_service i) t (vID v) off len g)
     = Inr (map (memory_bytes v (gwWorld g)) [unat off..<unat off + unat len])"
proof -
  have "ok_volume v = v"
    using assms(1) by (simp add: ok_volume_def)
  then have "ReadAt memory_data v off len (gwWorld g) = Inr (map (memory_bytes v (gwWorld g)) [unat off..<unat off + unat len])"
    using memdata.ReadAt_ok[of v, folded memory_defs] assms(2,5) by simp
  moreover have "VolumeInfo (memory_gateway_service i) (vID v) (gwWorld g) = Inr v"
    using assms(3) by (simp add: VolumeInfo_def volumeInfo_def memory_gateway_service_def volume_spec_def GetVolume_def)
  ultimately show ?thesis
    using assms(4) by (simp add: Read_def ServiceReadResult_def readResult_outcome_def recorded_def returned_def)
qed


text \<open>A read changes nothing but the counters of the reads.\<close>

lemma read_counted:
  assumes "serves v g \<or> vol_ok v \<and> memory_inv v (gwWorld g) \<and> volume_spec (fst (gwWorld g)) (vID v) = Some v"
    and "fst (Read (memory_gateway_service i) t (vID v) off len g) = Inr xs"
  shows "gwWorld (snd (Read (memory_gateway_service i) t (vID v) off len g)) = gwWorld g
     \<and> gwMetrics (snd (Read (memory_gateway_service i) t (vID v) off len g))
       = Record ''read'' len (latencyMS t) None (gwMetrics g)"
  using assms
  by (auto simp: Read_def ServiceReadResult_def readResult_outcome_def recorded_def returned_def failed_def
      split: sum.splits if_splits)

text \<open>
  Reads before and after an operation that replaced the bytes for which \<open>P\<close> holds: the same length,
  the new bytes where they were replaced and the old ones elsewhere.
\<close>

lemma read_after:
  assumes sv: "serves v g" and w': "memory_inv v (gwWorld g')" "volume_spec (fst (gwWorld g')) (vID v) = Some v"
    and bytes: "\<forall>j < unat (vSizeBytes v). memory_bytes v (gwWorld g') j = (if P j then f j else memory_bytes v (gwWorld g) j)"
    and R: "validateRange (vBlockSize v) (vSizeBytes v) o' l' = Inr ()" "unat l' < 2 ^ 63"
  shows "\<exists>xs. fst (Read (memory_gateway_service i) t' (vID v) o' l' g) = Inr xs
     \<and> fst (Read (memory_gateway_service i) t' (vID v) o' l' g')
       = Inr (map (\<lambda>j. if P j then f j else xs ! (j - unat o')) [unat o'..<unat o' + unat l'])"
proof -
  have inside: "unat o' + unat l' \<le> unat (vSizeBytes v)"
    using range_inside[OF _ R(2,1)] sv by (simp add: serves_def)
  have "fst (Read (memory_gateway_service i) t' (vID v) o' l' g)
      = Inr (map (memory_bytes v (gwWorld g)) [unat o'..<unat o' + unat l'])"
    "fst (Read (memory_gateway_service i) t' (vID v) o' l' g')
      = Inr (map (memory_bytes v (gwWorld g')) [unat o'..<unat o' + unat l'])"
    using read_memory[OF _ _ _ R(1) inside] sv w' by (simp_all add: serves_def)
  then show ?thesis
    using bytes inside by auto
qed

lemma write_refused:
  assumes "serves v g"
    and "validateRange (vBlockSize v) (vSizeBytes v) off len \<noteq> Inr () \<or> of_nat (length data) \<noteq> len
       \<or> protectedWriteRejectionForVolume v \<noteq> None"
  shows "fst (Write (memory_gateway_service i) t (vID v) off len data g) \<noteq> Inr ()"
    "gwWorld (snd (Write (memory_gateway_service i) t (vID v) off len data g)) = gwWorld g"
    "metrics_of (gwMetrics (snd (Write (memory_gateway_service i) t (vID v) off len data g))) ''write''
     = (let m = metrics_of (gwMetrics g) ''write''
        in \<lparr>omCount = omCount m + 1,
            omErrors = omErrors m + (if validateRange (vBlockSize v) (vSizeBytes v) off len = Inr () then 0 else 1),
            omBytes = omBytes m + len, omTotalLatencyMS = omTotalLatencyMS m + latencyMS t\<rparr>)"
  using VolumeInfo_serves[OF assms(1)] assms(2)
  by (auto simp: Write_def write_outcome_def failed_def failed_silently_def recorded_def metrics_of_Record Let_def
      split: sum.split option.split)

text \<open>
  C3. What a client reads from a gateway after it wrote. A write to a volume the gateway serves succeeds
  exactly when its range is valid, its data has the announced length and the volume is not protected;
  a read of any valid range then returns the written bytes inside the written range and what it
  returned before the write elsewhere, and changes no data itself. A write that is refused changes
  neither metadata nor data. Every write is counted once with the length it announced, as an error
  only when its range is invalid, and every successful read is counted once.
\<close>

theorem service_write_then_read:
  assumes sv: "serves v g" and len: "length data < 2 ^ 63"
    and result: "Write (memory_gateway_service i) t (vID v) off len data g = (r, g')"
  shows "(r = Inr () \<longleftrightarrow> validateRange (vBlockSize v) (vSizeBytes v) off len = Inr ()
            \<and> of_nat (length data) = len \<and> protectedWriteRejectionForVolume v = None)
     \<and> (r = Inr () \<longrightarrow> (\<forall>o' l' t'. validateRange (vBlockSize v) (vSizeBytes v) o' l' = Inr () \<longrightarrow> unat l' < 2 ^ 63 \<longrightarrow>
          (\<exists>xs. fst (Read (memory_gateway_service i) t' (vID v) o' l' g) = Inr xs
             \<and> fst (Read (memory_gateway_service i) t' (vID v) o' l' g') = Inr (map (\<lambda>j.
                 if unat off \<le> j \<and> j < unat off + length data then data ! (j - unat off) else xs ! (j - unat o'))
                 [unat o'..<unat o' + unat l'])
             \<and> gwWorld (snd (Read (memory_gateway_service i) t' (vID v) o' l' g')) = gwWorld g'
             \<and> gwMetrics (snd (Read (memory_gateway_service i) t' (vID v) o' l' g'))
                 = Record ''read'' l' (latencyMS t') None (gwMetrics g'))))
     \<and> (r \<noteq> Inr () \<longrightarrow> gwWorld g' = gwWorld g)
     \<and> metrics_of (gwMetrics g') ''write''
       = (let m = metrics_of (gwMetrics g) ''write''
          in \<lparr>omCount = omCount m + 1,
              omErrors = omErrors m + (if validateRange (vBlockSize v) (vSizeBytes v) off len = Inr () then 0 else 1),
              omBytes = omBytes m + len, omTotalLatencyMS = omTotalLatencyMS m + latencyMS t\<rparr>)"
proof (cases "validateRange (vBlockSize v) (vSizeBytes v) off len = Inr () \<and> of_nat (length data) = len
     \<and> protectedWriteRejectionForVolume v = None")
  case True
  then obtain w' where out: "write_outcome (memory_gateway_service i) (atUnix t) (vID v) off len data (gwWorld g)
      = returned (Inr (), w')"
    and w': "memory_inv v w'" "volume_spec (fst w') (vID v) = Some v"
    and bytes: "unat len = length data" "\<forall>i < unat (vSizeBytes v). memory_bytes v w' i =
       (if unat off \<le> i \<and> i < unat off + unat len then data ! (i - unat off) else memory_bytes v (gwWorld g) i)"
    using write_outcome_memory[OF sv len, of off len i "atUnix t"] by metis
  have g': "r = Inr ()" "gwWorld g' = w'" "gwMetrics g' = Record ''write'' len (latencyMS t) None (gwMetrics g)"
    using result out by (auto simp: Write_def recorded_def returned_def)
  have v: "vol_ok v" using sv by (simp add: serves_def)
  have "\<exists>xs. fst (Read (memory_gateway_service i) t' (vID v) o' l' g) = Inr xs
       \<and> fst (Read (memory_gateway_service i) t' (vID v) o' l' g') = Inr (map (\<lambda>j.
           if unat off \<le> j \<and> j < unat off + length data then data ! (j - unat off) else xs ! (j - unat o'))
           [unat o'..<unat o' + unat l'])
       \<and> gwWorld (snd (Read (memory_gateway_service i) t' (vID v) o' l' g')) = gwWorld g'
       \<and> gwMetrics (snd (Read (memory_gateway_service i) t' (vID v) o' l' g'))
           = Record ''read'' l' (latencyMS t') None (gwMetrics g')"
    if R: "validateRange (vBlockSize v) (vSizeBytes v) o' l' = Inr ()" "unat l' < 2 ^ 63" for o' l' t'
    using read_after[OF sv, of g', unfolded g'(2), OF w' bytes(2)[unfolded bytes(1)] R, of i t']
      read_counted[of v g' i t' o' l', unfolded g'(2), OF disjI2[OF conjI[OF v conjI[OF w']]]] by (auto simp: g'(2))
  then show ?thesis
    using True g' by (simp add: metrics_of_Record Let_def)
next
  case False
  then show ?thesis
    using write_refused[OF sv, of off len data i t] result by auto
qed

text \<open>
  The service asks the data repository for a discard only when the range is aligned to the reclaim
  geometry, and for zeroes otherwise, so the repository never refuses the request.
\<close>

lemma discard_range_memory:
  assumes "vol_ok v"
  shows "discard_range (memory_gateway_service i) now v off len w = ZeroAt memory_data now v off len w"
    "doPolicy (discardObservation (memory_gateway_service i) v off len) =
       (if DiscardRangeAligned v off len \<and> vRedundancyBackend v = RedundancyBackendReplicated
        then DiscardPolicyTrueReclaim else DiscardPolicyZeroFallback)"
    "doOperation (discardObservation (memory_gateway_service i) v off len) = IOOperationDiscard"
  using assms
  by (auto simp: vol_ok_def discard_range_def discardObservation_def DiscardObservationFor_def DiscardAt_def ZeroAt_def
      zero_range_def Let_def DiscardRangeAligned_def NewDiscardAlignmentZeroFallbackObservation_def
      NewDiscardTrueReclaimObservation_def NewDiscardZeroFallbackObservation_def newDiscardObservation_def
      discard_strings)

lemma zero_memory:
  assumes sv: "serves v g" and R: "validateRange (vBlockSize v) (vSizeBytes v) off len = Inr ()" "unat len < 2 ^ 63"
  obtains w' where "ZeroAt memory_data now v off len (gwWorld g) = (Inr (), w')"
    "memory_inv v w'" "volume_spec (fst w') (vID v) = Some v"
    "\<forall>j < unat (vSizeBytes v). memory_bytes v w' j =
       (if unat off \<le> j \<and> j < unat off + unat len then 0 else memory_bytes v (gwWorld g) j)"
proof -
  have v: "vol_ok v" "ok_volume v = v" and inv: "memory_inv v (gwWorld g)"
    and room: "memory_room v (chunks v) (fst (gwWorld g))" and vs: "volume_spec (fst (gwWorld g)) (vID v) = Some v"
    using sv by (simp_all add: serves_def ok_volume_def)
  have inside: "unat off + unat len \<le> unat (vSizeBytes v)"
    using range_inside[OF _ R(2,1)] sv by (simp add: serves_def)
  obtain w' where w': "ZeroAt memory_data now v off len (gwWorld g) = (Inr (), w')" "memory_inv v w'"
    "\<forall>i < unat (vSizeBytes v). memory_bytes v w' i =
       (if unat off \<le> i \<and> i < unat off + unat len then 0 else memory_bytes v (gwWorld g) i)"
    using repository_discard_and_zero[OF v(1) inv room inside, of now] by blast
  have "repo_wf (fst (gwWorld g))"
    using inv by (simp add: memory_inv_def data_inv_def)
  then have "volume_spec (fst w') (vID v) = Some v"
    using write_keeps_volume[OF w'(1)[unfolded ZeroAt_def]] vs by simp
  with w' show ?thesis by (intro that)
qed

text \<open>
  C12. Discards and zeroes of a volume the gateway serves. Both succeed exactly when the range is valid,
  whether or not it is aligned to the reclaim geometry; afterwards a read of any valid range returns
  zeroes inside the range and what it returned before elsewhere. A range that is not valid changes
  nothing. A discard is counted once, and recorded as a true reclaim when it is aligned and the
  volume is replicated and as a fallback to zeroes otherwise.
\<close>

theorem discard_and_zero:
  assumes sv: "serves v g" and len: "unat len < 2 ^ 63"
    and discarded: "Discard (memory_gateway_service i) t (vID v) off len g = (rd, gd)"
    and zeroed: "Zero (memory_gateway_service i) t (vID v) off len g = (rz, gz)"
  shows "(rd = Inr () \<longleftrightarrow> validateRange (vBlockSize v) (vSizeBytes v) off len = Inr ())
     \<and> (rz = Inr () \<longleftrightarrow> validateRange (vBlockSize v) (vSizeBytes v) off len = Inr ())
     \<and> (\<forall>g' \<in> {gd, gz}. if validateRange (vBlockSize v) (vSizeBytes v) off len = Inr ()
          then \<forall>o' l' t'. validateRange (vBlockSize v) (vSizeBytes v) o' l' = Inr () \<longrightarrow> unat l' < 2 ^ 63 \<longrightarrow>
            (\<exists>xs. fst (Read (memory_gateway_service i) t' (vID v) o' l' g) = Inr xs
               \<and> fst (Read (memory_gateway_service i) t' (vID v) o' l' g') = Inr (map (\<lambda>j.
                   if unat off \<le> j \<and> j < unat off + unat len then 0 else xs ! (j - unat o'))
                   [unat o'..<unat o' + unat l']))
          else gwWorld g' = gwWorld g)
     \<and> omCount (metrics_of (gwMetrics gd) ''discard'') = omCount (metrics_of (gwMetrics g) ''discard'') + 1
     \<and> (rd = Inr () \<longrightarrow> omErrors (metrics_of (gwMetrics gd) ''discard'') = omErrors (metrics_of (gwMetrics g) ''discard'')
          \<and> (\<exists>io obs. mcIOIdentity (gwMetrics gd) = Some io \<and> ioLastObservation io = Some obs
             \<and> doPolicy obs = (if DiscardRangeAligned v off len \<and> vRedundancyBackend v = RedundancyBackendReplicated
                               then DiscardPolicyTrueReclaim else DiscardPolicyZeroFallback)))"
proof (cases "validateRange (vBlockSize v) (vSizeBytes v) off len = Inr ()")
  case True
  note VI = VolumeInfo_serves[OF sv]
  have v: "vol_ok v" using sv by (simp add: serves_def)
  obtain w' where w': "ZeroAt memory_data (atUnix t) v off len (gwWorld g) = (Inr (), w')"
    "memory_inv v w'" "volume_spec (fst w') (vID v) = Some v"
    "\<forall>j < unat (vSizeBytes v). memory_bytes v w' j =
       (if unat off \<le> j \<and> j < unat off + unat len then 0 else memory_bytes v (gwWorld g) j)"
    using zero_memory[OF sv True len] by blast
  let ?obs = "discardObservation (memory_gateway_service i) v off len"
  have d: "rd = Inr ()" "gwWorld gd = w'"
    "gwMetrics gd = Record ''discard'' len (latencyMS t) None (RecordDiscardObservation ?obs (gwMetrics g))"
    using discarded VI True w'(1) discard_range_memory(1)[OF v]
    by (auto simp: Discard_def Let_def observed_def range_outcome_def recorded_def returned_def)
  have z: "rz = Inr ()" "gwWorld gz = w'"
    using zeroed VI True w'(1)
    by (auto simp: Zero_def Let_def observed_def range_outcome_def zero_range_def recorded_def returned_def)
  have reads: "\<exists>xs. fst (Read (memory_gateway_service i) t' (vID v) o' l' g) = Inr xs
      \<and> fst (Read (memory_gateway_service i) t' (vID v) o' l' g') = Inr (map (\<lambda>j.
          if unat off \<le> j \<and> j < unat off + unat len then 0 else xs ! (j - unat o')) [unat o'..<unat o' + unat l'])"
    if "gwWorld g' = w'" "validateRange (vBlockSize v) (vSizeBytes v) o' l' = Inr ()" "unat l' < 2 ^ 63" for g' o' l' t'
    using read_after[OF sv, of g', unfolded that(1), OF w'(2-4) that(2,3), of i t'] .
  have "\<exists>io obs. mcIOIdentity (gwMetrics gd) = Some io \<and> ioLastObservation io = Some obs \<and> doPolicy obs = doPolicy ?obs"
    using discard_range_memory(3)[OF v, of i off len]
    by (simp add: d(3) Record_def RecordDiscardObservation_def Let_def IOOperationDiscard_def)
  then show ?thesis
    using True d z reads discard_range_memory(2)[OF v] by (simp add: metrics_of_Record)
next
  case False
  then show ?thesis
    using VolumeInfo_serves[OF sv] discarded zeroed
    by (auto simp: Discard_def Zero_def Let_def observed_def range_outcome_def recorded_def failed_def
        metrics_of_Record split: sum.splits)
qed

text \<open>
  C40. A protected volume refuses writes but not zeroing. The range being valid and the data of the right
  length, a write to it is rejected, changes nothing and is not counted among the errors of the
  operation, while zeroing the same range succeeds and overwrites it.
\<close>

theorem protected_volume_can_be_zeroed:
  assumes sv: "serves v g" and valid: "validateRange (vBlockSize v) (vSizeBytes v) off len = Inr ()" "unat len < 2 ^ 63"
    and sealed: "protectedWriteRejectionForVolume v = Some rejection" and data: "of_nat (length data) = len"
    and written: "Write (memory_gateway_service i) t (vID v) off len data g = (r, g')"
    and zeroed: "Zero (memory_gateway_service i) t (vID v) off len g = (rz, gz)"
  shows "r = Inl ErrProtectedWriteRejected \<and> gwWorld g' = gwWorld g
     \<and> omErrors (metrics_of (gwMetrics g') ''write'') = omErrors (metrics_of (gwMetrics g) ''write'')
     \<and> rz = Inr () \<and> (\<forall>j < unat (vSizeBytes v). memory_bytes v (gwWorld gz) j =
          (if unat off \<le> j \<and> j < unat off + unat len then 0 else memory_bytes v (gwWorld g) j))"
proof -
  note VI = VolumeInfo_serves[OF sv]
  have v: "vol_ok v" "ok_volume v = v" and inv: "memory_inv v (gwWorld g)"
    and room: "memory_room v (chunks v) (fst (gwWorld g))"
    using sv by (simp_all add: serves_def ok_volume_def)
  have inside: "unat off + unat len \<le> unat (vSizeBytes v)"
    using range_inside[OF _ valid(2,1)] sv by (simp add: serves_def)
  obtain w' where w': "ZeroAt memory_data (atUnix t) v off len (gwWorld g) = (Inr (), w')"
    "\<forall>i < chunks v * csz v. memory_bytes v w' i =
       (if unat off \<le> i \<and> i < unat off + unat len then 0 else memory_bytes v (gwWorld g) i)"
    using memdata.ZeroAt_ok[where v = v, unfolded v(2), OF inv[unfolded memory_defs] inside
        room[unfolded memory_defs], of "atUnix t"] unfolding memory_defs by blast
  have "range_outcome (memory_gateway_service i) (\<lambda>v. zero_range (memory_gateway_service i) (atUnix t) v off len)
      (vID v) off len (gwWorld g) = returned (Inr (), w')"
    using VI valid w'(1) by (simp add: range_outcome_def zero_range_def)
  then have "rz = Inr ()" "gwWorld gz = w'"
    using zeroed by (auto simp: Zero_def Let_def recorded_def returned_def)
  moreover have "r = Inl ErrProtectedWriteRejected" "gwWorld g' = gwWorld g"
    "gwMetrics g' = Record ''write'' len (latencyMS t) None (gwMetrics g)"
    using written VI valid sealed data by (auto simp: Write_def write_outcome_def recorded_def failed_silently_def)
  ultimately show ?thesis
    using w'(2) size_bound[OF v(1)] by (simp add: metrics_of_Record)
qed

subsection \<open>An example: one small volume\<close>

definition served_volume :: VolumeSpec where
  "served_volume = NormalizeVolumeSpec (zero_volume\<lparr>vID := 3, vPrefix := ''v3'', vSizeBytes := 16,
     vBlockSize := 4, vChunkSizeBytes := 4, vExtentPageBytes := 8\<rparr>)"

definition sealed_volume :: VolumeSpec where
  "sealed_volume = served_volume\<lparr>vProtectedState := Some \<lparr>psState = VolumeProtectedStateSealed, psReasonCode = '''',
     psSealedObjectID = ''o'', psSealOperationID = '''', psPolicySnapshotID = '''', psLifecycleState = '''',
     psSourceVolumeID = ''''\<rparr>\<rparr>"

text \<open>A volume whose chunks are two blocks long, so that a discard of one block is not aligned.\<close>

definition coarse_volume :: VolumeSpec where
  "coarse_volume = NormalizeVolumeSpec (zero_volume\<lparr>vID := 3, vPrefix := ''v3'', vSizeBytes := 16,
     vBlockSize := 4, vChunkSizeBytes := 8, vExtentPageBytes := 8\<rparr>)"

definition serving :: "VolumeSpec \<Rightarrow> (repo, MemoryStore) gateway" where
  "serving v = \<lparr>gwWorld = (add_volume v empty_repo, NewMemoryStore), gwMetrics = NewMetricsCollector\<rparr>"

lemma served_volume_facts:
  "vSizeBytes served_volume = 16" "vBlockSize served_volume = 4" "vID served_volume = 3" "csz served_volume = 4"
  "cpp served_volume = 2" "NormalizeVolumeSpec served_volume = served_volume"
  "unat (vExtentPageBytes served_volume) = 8"
  unfolding served_volume_def NormalizeVolumeSpec_idem
  by (simp_all add: NormalizeVolumeSpec_def zero_volume_def cpp_def csz_def)

lemma coarse_volume_facts:
  "vSizeBytes coarse_volume = 16" "vBlockSize coarse_volume = 4" "vID coarse_volume = 3" "csz coarse_volume = 8"
  "cpp coarse_volume = 1" "NormalizeVolumeSpec coarse_volume = coarse_volume"
  "unat (vExtentPageBytes coarse_volume) = 8"
  unfolding coarse_volume_def NormalizeVolumeSpec_idem
  by (simp_all add: NormalizeVolumeSpec_def zero_volume_def cpp_def csz_def)

lemma trimmed: "TrimSpace ''sealed'' = ''sealed''" "TrimSpace ''o'' = ''o''"
  by (rule TrimSpace_graphic; simp add: VolumeProtectedStateSealed_def graphic_def)+

lemma sealed_normalized: "NormalizeVolumeSpec sealed_volume = sealed_volume"
  by (simp add: sealed_volume_def served_volume_def zero_volume_def NormalizeVolumeSpec_def Normalize_def IsZero_def
      trimmed Let_def VolumeAccessModeExclusive_def RedundancyBackendReplicated_def state_strings
      VolumeProtectedStateSealed_def default_sizes)

lemma sealed_volume_facts:
  "vSizeBytes sealed_volume = 16" "vBlockSize sealed_volume = 4" "vID sealed_volume = 3" "csz sealed_volume = 4"
  "cpp sealed_volume = 2" "unat (vExtentPageBytes sealed_volume) = 8"
  using served_volume_facts(1-5,7) by (simp_all add: sealed_volume_def cpp_def csz_def)

lemma serving_serves:
  assumes "vol_ok v" "unat (vSizeBytes v) \<le> 2 ^ 63" "chunks v + 2 ^ 33 < 2 ^ 64"
  shows "serves v (serving v)"
  using fresh_volume_inv(1)[OF wf_empty assms(1), of NewMemoryStore] fresh_volume_room[OF assms(3), of v empty_repo] assms
  by (simp add: serves_def serving_def NewMemoryStore_def volume_exists_def empty_repo_def)
    (simp add: volume_spec_def add_volume_def cloneVolumeSpec_def)

lemma examples_served: "serves served_volume (serving served_volume)" "serves sealed_volume (serving sealed_volume)"
  "serves coarse_volume (serving coarse_volume)"
  by (rule serving_serves; simp add: vol_ok_def chunks_def served_volume_facts sealed_volume_facts sealed_normalized
        coarse_volume_facts)+

theorem service_write_then_read_witness:
  "\<exists>g'. Write (memory_gateway_service ''gw-a'') noon 3 4 4 [1, 2, 3, 4] (serving served_volume) = (Inr (), g')
     \<and> fst (Read (memory_gateway_service ''gw-a'') noon 3 4 4 g') = Inr [1, 2, 3, 4]"
proof -
  define g' where "g' = snd (Write (memory_gateway_service ''gw-a'') noon 3 4 4 [1, 2, 3, 4] (serving served_volume))"
  have vr: "validateRange (vBlockSize served_volume) (vSizeBytes served_volume) 4 4 = Inr ()"
    "protectedWriteRejectionForVolume served_volume = None"
    by code_simp+
  have W: "Write (memory_gateway_service ''gw-a'') noon (vID served_volume) 4 4 [1, 2, 3, 4] (serving served_volume)
      = (fst (Write (memory_gateway_service ''gw-a'') noon 3 4 4 [1, 2, 3, 4] (serving served_volume)), g')"
    by (simp add: g'_def served_volume_facts)
  note S = service_write_then_read[OF examples_served(1) _ W, simplified served_volume_facts(3)]
  from S vr have ok: "fst (Write (memory_gateway_service ''gw-a'') noon 3 4 4 [1, 2, 3, 4] (serving served_volume)) = Inr ()"
    by simp
  with S vr(1) obtain xs where "fst (Read (memory_gateway_service ''gw-a'') noon 3 4 4 g') = Inr (map (\<lambda>j.
       if unat (4 :: u64) \<le> j \<and> j < unat (4 :: u64) + length [1, 2, 3, 4 :: u8] then [1, 2, 3, 4] ! (j - unat (4 :: u64))
       else xs ! (j - unat (4 :: u64))) [unat (4 :: u64)..<unat (4 :: u64) + unat (4 :: u64)])"
    by (auto dest!: spec[of _ "4 :: u64"])
  then have "fst (Read (memory_gateway_service ''gw-a'') noon 3 4 4 g') = Inr [1, 2, 3, 4]"
    by (simp add: upt_rec)
  with ok show ?thesis
    by (intro exI[of _ g']) (simp add: g'_def prod_eq_iff)
qed

theorem discard_and_zero_witness:
  "\<not> DiscardRangeAligned coarse_volume 4 4
   \<and> fst (Discard (memory_gateway_service ''gw-a'') noon 3 4 4 (serving coarse_volume)) = Inr ()
   \<and> fst (Read (memory_gateway_service ''gw-a'') noon 3 4 4
        (snd (Discard (memory_gateway_service ''gw-a'') noon 3 4 4 (serving coarse_volume)))) = Inr [0, 0, 0, 0]"
proof -
  let ?d = "Discard (memory_gateway_service ''gw-a'') noon 3 4 4 (serving coarse_volume)"
  let ?z = "Zero (memory_gateway_service ''gw-a'') noon 3 4 4 (serving coarse_volume)"
  have vr: "validateRange (vBlockSize coarse_volume) (vSizeBytes coarse_volume) 4 4 = Inr ()"
    "\<not> DiscardRangeAligned coarse_volume 4 4"
    by code_simp+
  note D = discard_and_zero[OF examples_served(3), unfolded coarse_volume_facts(3),
      OF _ prod.collapse[of ?d, symmetric] prod.collapse[of ?z, symmetric]]
  from D vr(1) have ok: "fst ?d = Inr ()"
    by simp
  have "\<forall>o' l' t'. validateRange (vBlockSize coarse_volume) (vSizeBytes coarse_volume) o' l' = Inr () \<longrightarrow> unat l' < 2 ^ 63 \<longrightarrow>
      (\<exists>xs. fst (Read (memory_gateway_service ''gw-a'') t' 3 o' l' (serving coarse_volume)) = Inr xs
         \<and> fst (Read (memory_gateway_service ''gw-a'') t' 3 o' l' (snd ?d)) = Inr (map (\<lambda>j.
             if unat (4 :: u64) \<le> j \<and> j < unat (4 :: u64) + unat (4 :: u64) then 0 else xs ! (j - unat o'))
             [unat o'..<unat o' + unat l']))"
    using D vr(1) by simp
  from this[rule_format, OF vr(1), of noon]
  have "fst (Read (memory_gateway_service ''gw-a'') noon 3 4 4 (snd ?d)) = Inr [0, 0, 0, 0]"
    by (auto simp: upt_rec)
  then show ?thesis
    using ok vr(2) by simp
qed

theorem protected_volume_can_be_zeroed_witness:
  "\<exists>g' gz. Write (memory_gateway_service ''gw-a'') noon 3 4 4 [1, 2, 3, 4] (serving sealed_volume)
       = (Inl ErrProtectedWriteRejected, g')
     \<and> Zero (memory_gateway_service ''gw-a'') noon 3 4 4 (serving sealed_volume) = (Inr (), gz)"
proof -
  have vr: "validateRange (vBlockSize sealed_volume) (vSizeBytes sealed_volume) 4 4 = Inr ()"
    by code_simp
  have "protectedWriteRejectionForVolume sealed_volume \<noteq> None"
    by (simp add: sealed_volume_def protectedWriteRejectionForVolume_def WriteRejectionReason_def Normalize_def
        trimmed VolumeProtectedStateSealed_def Let_def)
  then obtain rejection where rj: "protectedWriteRejectionForVolume sealed_volume = Some rejection"
    by (cases "protectedWriteRejectionForVolume sealed_volume") simp_all
  obtain r g' rz gz where
    W: "Write (memory_gateway_service ''gw-a'') noon 3 4 4 [1, 2, 3, 4] (serving sealed_volume) = (r, g')" and
    Z: "Zero (memory_gateway_service ''gw-a'') noon 3 4 4 (serving sealed_volume) = (rz, gz)"
    by fastforce
  have "r = Inl ErrProtectedWriteRejected" "rz = Inr ()"
    using protected_volume_can_be_zeroed[OF examples_served(2) vr _ rj, unfolded sealed_volume_facts(3), OF _ _ W Z]
    by simp_all
  with W Z show ?thesis
    by simp
qed

end
