(* ===== verification/CachedMetadata.thy ===== *)
theory CachedMetadata
  imports MemoryRepository "HOL-Library.Multiset"
begin

section \<open>The metadata cache (gateway/service/cached_metadata.go)\<close>

text \<open>
  A cache in front of a metadata repository: volume specifications and extent pages, each for a limited
  time, the pages in a list ordered by their last use that is cut off at a maximal length. The doubly
  linked list of the source is a list of elements from its front to its back, each with the handle
  that stands for its pointer; \<open>cmFresh\<close> is the next unused handle. The set of cached page numbers of a
  volume is a list without duplicates. The state of the repository behind the cache is a separate
  argument. Times are in nanoseconds, and one call reads the clock once.
\<close>

definition defaultExtentPageCacheEntries :: int where "defaultExtentPageCacheEntries = 4096"

record cachedVolumeSpec =
  cvSpec :: VolumeSpec
  cvExpiresAt :: int

type_synonym extentPageCacheKey = "u64 \<times> u64"

record cachedExtentPage =
  cxKey :: extentPageCacheKey
  cxPage :: AllocationPageRecord
  cxExpiresAt :: int

record 'm cachedMetadataRepository =
  cmNext :: "'m MetadataRepository"
  cmTTL :: int
  cmMaxExtentPages :: int
  cmVolumeCache :: "(u64, cachedVolumeSpec) gomap"
  cmExtentPageCache :: "(extentPageCacheKey, nat) gomap"
  cmExtentPageLRU :: "(nat \<times> cachedExtentPage) list"
  cmFresh :: nat
  cmVolumePages :: "(u64, u64 list) gomap"

text \<open>The cache of a positive time to live; with another one the source returns the repository itself.\<close>

definition NewCachedMetadataRepository :: "'m MetadataRepository \<Rightarrow> int \<Rightarrow> 'm cachedMetadataRepository option" where
  "NewCachedMetadataRepository next ttl =
     (if ttl \<le> 0 then None
      else Some \<lparr>cmNext = next, cmTTL = ttl, cmMaxExtentPages = defaultExtentPageCacheEntries,
                 cmVolumeCache = [], cmExtentPageCache = [], cmExtentPageLRU = [], cmFresh = 0,
                 cmVolumePages = []\<rparr>)"

subsection \<open>Volume specifications\<close>

definition load :: "int \<Rightarrow> 'm cachedMetadataRepository \<Rightarrow> u64 \<Rightarrow> VolumeSpec option" where
  "load now c volumeID =
     (case mget (cmVolumeCache c) volumeID of
        None \<Rightarrow> None
      | Some entry \<Rightarrow> if now > cvExpiresAt entry then None else Some (cvSpec entry))"

definition store :: "int \<Rightarrow> VolumeSpec \<Rightarrow> 'm cachedMetadataRepository \<Rightarrow> 'm cachedMetadataRepository" where
  "store now spec c =
     c\<lparr>cmVolumeCache := mput (vID spec) \<lparr>cvSpec = spec, cvExpiresAt = now + cmTTL c\<rparr> (cmVolumeCache c)\<rparr>"

subsection \<open>Extent pages\<close>

definition MoveToFront :: "nat \<Rightarrow> (nat \<times> 'a) list \<Rightarrow> (nat \<times> 'a) list" where
  "MoveToFront e l = filter (\<lambda>x. fst x = e) l @ filter (\<lambda>x. fst x \<noteq> e) l"

definition removeExtentPageLocked ::
    "nat \<times> cachedExtentPage \<Rightarrow> 'm cachedMetadataRepository \<Rightarrow> 'm cachedMetadataRepository" where
  "removeExtentPageLocked elem c =
     (let (volumeID, pageNo) = cxKey (snd elem)
      in c\<lparr>cmExtentPageCache := mdel (volumeID, pageNo) (cmExtentPageCache c),
           cmExtentPageLRU := filter (\<lambda>x. fst x \<noteq> fst elem) (cmExtentPageLRU c),
           cmVolumePages :=
             (case mget (cmVolumePages c) volumeID of
                None \<Rightarrow> cmVolumePages c
              | Some pages \<Rightarrow>
                  let rest = removeAll pageNo pages
                  in if rest = [] then mdel volumeID (cmVolumePages c)
                     else mput volumeID rest (cmVolumePages c))\<rparr>)"

definition loadExtentPage ::
    "int \<Rightarrow> u64 \<Rightarrow> u64 \<Rightarrow> 'm cachedMetadataRepository \<Rightarrow> AllocationPageRecord option \<times> 'm cachedMetadataRepository" where
  "loadExtentPage now volumeID pageNo c =
     (case mget (cmExtentPageCache c) (volumeID, pageNo) of
        None \<Rightarrow> (None, c)
      | Some e \<Rightarrow>
          case map_of (cmExtentPageLRU c) e of
            None \<Rightarrow> (None, c)
          | Some entry \<Rightarrow>
              if now > cxExpiresAt entry then (None, removeExtentPageLocked (e, entry) c)
              else (Some (cloneAllocationPage (cxPage entry)),
                    c\<lparr>cmExtentPageLRU := MoveToFront e (cmExtentPageLRU c)\<rparr>))"

text \<open>The loop that drops the least recently used pages; it runs as often as the list is too long.\<close>

fun evict :: "nat \<Rightarrow> 'm cachedMetadataRepository \<Rightarrow> 'm cachedMetadataRepository" where
  "evict 0 c = c"
| "evict (Suc n) c =
     (if cmMaxExtentPages c > 0 \<and> int (length (cmExtentPageLRU c)) > cmMaxExtentPages c
      then evict n (removeExtentPageLocked (last (cmExtentPageLRU c)) c)
      else c)"

definition storeExtentPage ::
    "int \<Rightarrow> AllocationPageRecord \<Rightarrow> 'm cachedMetadataRepository \<Rightarrow> 'm cachedMetadataRepository" where
  "storeExtentPage now page c =
     (let key = (pgVolumeID page, pgPageNo page);
          entry = \<lparr>cxKey = key, cxPage = cloneAllocationPage page, cxExpiresAt = now + cmTTL c\<rparr>
      in case mget (cmExtentPageCache c) key of
           Some e \<Rightarrow>
             c\<lparr>cmExtentPageLRU := MoveToFront e
                 (map (\<lambda>x. if fst x = e then (e, entry) else x) (cmExtentPageLRU c))\<rparr>
         | None \<Rightarrow>
             let pages = mget_or [] (cmVolumePages c) (pgVolumeID page);
                 c' = c\<lparr>cmExtentPageLRU := (cmFresh c, entry) # cmExtentPageLRU c, cmFresh := Suc (cmFresh c),
                        cmExtentPageCache := mput key (cmFresh c) (cmExtentPageCache c),
                        cmVolumePages := mput (pgVolumeID page) (List.insert (pgPageNo page) pages) (cmVolumePages c)\<rparr>
             in evict (length (cmExtentPageLRU c')) c')"

definition removeCachedPage :: "u64 \<Rightarrow> u64 \<Rightarrow> 'm cachedMetadataRepository \<Rightarrow> 'm cachedMetadataRepository" where
  "removeCachedPage volumeID pageNo c =
     (case mget (cmExtentPageCache c) (volumeID, pageNo) of
        None \<Rightarrow> c
      | Some e \<Rightarrow>
          case map_of (cmExtentPageLRU c) e of
            None \<Rightarrow> c
          | Some entry \<Rightarrow> removeExtentPageLocked (e, entry) c)"

definition invalidateExtentPagesLocked :: "u64 \<Rightarrow> 'm cachedMetadataRepository \<Rightarrow> 'm cachedMetadataRepository" where
  "invalidateExtentPagesLocked volumeID c =
     (case mget (cmVolumePages c) volumeID of
        None \<Rightarrow> c
      | Some pageNos \<Rightarrow>
          let c' = fold (removeCachedPage volumeID) pageNos c
          in c'\<lparr>cmVolumePages := mdel volumeID (cmVolumePages c')\<rparr>)"

definition invalidate :: "u64 \<Rightarrow> 'm cachedMetadataRepository \<Rightarrow> 'm cachedMetadataRepository" where
  "invalidate volumeID c =
     invalidateExtentPagesLocked volumeID (c\<lparr>cmVolumeCache := mdel volumeID (cmVolumeCache c)\<rparr>)"

subsection \<open>The operations\<close>

type_synonym ('m, 'a) cached_op = "'m cachedMetadataRepository \<times> 'm \<Rightarrow> (service_error + 'a) \<times> ('m cachedMetadataRepository \<times> 'm)"

text \<open>An operation of the repository behind the cache, and what its success does to the cache.\<close>

definition through ::
    "('m MetadataRepository \<Rightarrow> 'm \<Rightarrow> (service_error + 'a) \<times> 'm) \<Rightarrow>
     ('a \<Rightarrow> 'm cachedMetadataRepository \<Rightarrow> 'm cachedMetadataRepository) \<Rightarrow> ('m, 'a) cached_op" where
  "through f update cm =
     (case f (cmNext (fst cm)) (snd cm) of
        (Inl err, m) \<Rightarrow> (Inl err, (fst cm, m))
      | (Inr x, m) \<Rightarrow> (Inr x, (update x (fst cm), m)))"

definition cEnsureVolume :: "VolumeSpec \<Rightarrow> ('m, unit) cached_op" where
  "cEnsureVolume spec = through (\<lambda>next. mrEnsureVolume next spec) (\<lambda>_. invalidate (vID spec))"

text \<open>\<open>sync\<close> is the method of the repository behind the cache, if it has one.\<close>

definition cSyncVolumeSpec ::
    "int \<Rightarrow> (VolumeSpec \<Rightarrow> 'm \<Rightarrow> (service_error + unit) \<times> 'm) option \<Rightarrow> VolumeSpec \<Rightarrow> ('m, unit) cached_op" where
  "cSyncVolumeSpec now sync spec =
     through (\<lambda>next. case sync of Some f \<Rightarrow> f spec | None \<Rightarrow> mrEnsureVolume next spec)
       (\<lambda>_. store now (NormalizeVolumeSpec spec))"

definition cCreateVolume :: "int \<Rightarrow> u32 option list \<Rightarrow> VolumeCreateRequest \<Rightarrow> ('m, VolumeSpec) cached_op" where
  "cCreateVolume now random req = through (\<lambda>next. mrCreateVolume next random req) (store now)"

definition cUpdateVolume :: "int \<Rightarrow> u64 \<Rightarrow> VolumeUpdateRequest \<Rightarrow> ('m, VolumeSpec) cached_op" where
  "cUpdateVolume now volumeID req = through (\<lambda>next. mrUpdateVolume next volumeID req) (store now)"

definition cDeleteVolume :: "u64 \<Rightarrow> ('m, unit) cached_op" where
  "cDeleteVolume volumeID = through (\<lambda>next. mrDeleteVolume next volumeID) (\<lambda>_. invalidate volumeID)"

definition cGetVolume :: "int \<Rightarrow> u64 \<Rightarrow> ('m, VolumeSpec) cached_op" where
  "cGetVolume now volumeID cm =
     (case load now (fst cm) volumeID of
        Some spec \<Rightarrow> (Inr spec, cm)
      | None \<Rightarrow> through (\<lambda>next m. (mrGetVolume next volumeID m, m)) (store now) cm)"

text \<open>\<open>refresh\<close> is the method of the repository behind the cache, if it has one.\<close>

definition cRefreshVolume ::
    "int \<Rightarrow> (u64 \<Rightarrow> 'm \<Rightarrow> (service_error + VolumeSpec) \<times> 'm) option \<Rightarrow> u64 \<Rightarrow> ('m, VolumeSpec) cached_op" where
  "cRefreshVolume now refresh volumeID cm =
     (case refresh of
        Some f \<Rightarrow> through (\<lambda>next. f volumeID) (store now) cm
      | None \<Rightarrow> through (\<lambda>next m. (mrGetVolume next volumeID m, m)) (store now)
                  (invalidate volumeID (fst cm), snd cm))"

definition cPutVolumeStatus :: "VolumeStatusRecord \<Rightarrow> ('m, unit) cached_op" where
  "cPutVolumeStatus status = through (\<lambda>next. mrPutVolumeStatus next status) (\<lambda>_. invalidate (sVolumeID status))"

definition cSetVolumeState :: "int \<Rightarrow> u64 \<Rightarrow> string \<Rightarrow> ('m, VolumeSpec) cached_op" where
  "cSetVolumeState now volumeID state = through (\<lambda>next. mrSetVolumeState next volumeID state) (store now)"

definition cUnsafeClearAttachment :: "u64 \<Rightarrow> ('m, AttachmentRecord) cached_op" where
  "cUnsafeClearAttachment volumeID =
     through (\<lambda>next. mrUnsafeClearAttachment next volumeID) (\<lambda>_. invalidate volumeID)"

definition cUnsafeSetGeneration :: "u64 \<Rightarrow> u64 \<Rightarrow> ('m, u64) cached_op" where
  "cUnsafeSetGeneration volumeID generation =
     through (\<lambda>next. mrUnsafeSetGeneration next volumeID generation) (\<lambda>_. invalidate volumeID)"

definition cAttach :: "int \<Rightarrow> AttachRequest \<Rightarrow> ('m, AttachmentRecord) cached_op" where
  "cAttach now req = through (\<lambda>next. mrAttach next now req) (\<lambda>_. invalidate (arVolumeID req))"

definition cDetach :: "DetachRequest \<Rightarrow> ('m, AttachmentRecord) cached_op" where
  "cDetach req = through (\<lambda>next. mrDetach next req) (\<lambda>_. invalidate (drVolumeID req))"

definition cPutGateway :: "GatewayRecord \<Rightarrow> ('m, unit) cached_op" where
  "cPutGateway rec0 = through (\<lambda>next. mrPutGateway next rec0) (\<lambda>_ c. c)"

definition cGetExtentPage :: "int \<Rightarrow> u64 \<Rightarrow> u64 \<Rightarrow> ('m, AllocationPageRecord) cached_op" where
  "cGetExtentPage now volumeID pageNo cm =
     (case loadExtentPage now volumeID pageNo (fst cm) of
        (Some page, c) \<Rightarrow> (Inr page, (c, snd cm))
      | (None, c) \<Rightarrow> through (\<lambda>next m. (mrGetExtentPage next volumeID pageNo m, m)) (storeExtentPage now) (c, snd cm))"

definition cListExtentPages :: "int \<Rightarrow> u64 \<Rightarrow> ('m, AllocationPageRecord list) cached_op" where
  "cListExtentPages now volumeID =
     through (\<lambda>next m. (mrListExtentPages next volumeID m, m)) (fold (storeExtentPage now))"

definition cPutExtentPage :: "int \<Rightarrow> AllocationPageRecord \<Rightarrow> 64 word \<Rightarrow> ('m, AllocationPageRecord) cached_op" where
  "cPutExtentPage now rec0 expectedRevision =
     through (\<lambda>next. mrPutExtentPage next rec0 expectedRevision) (storeExtentPage now)"

definition cAllocateChunkIDs :: "u64 \<Rightarrow> u32 \<Rightarrow> ('m, u64) cached_op" where
  "cAllocateChunkIDs volumeID n = through (\<lambda>next. mrAllocateChunkIDs next volumeID n) (\<lambda>_ c. c)"

definition cPutChunkGarbage :: "int \<Rightarrow> AllocationChunkGarbageRecord \<Rightarrow> ('m, unit) cached_op" where
  "cPutChunkGarbage now rec0 = through (\<lambda>next. mrPutChunkGarbage next now rec0) (\<lambda>_ c. c)"

definition cDeleteChunkGarbage :: "u64 \<Rightarrow> u64 \<Rightarrow> ('m, unit) cached_op" where
  "cDeleteChunkGarbage volumeID chunkID = through (\<lambda>next. mrDeleteChunkGarbage next volumeID chunkID) (\<lambda>_ c. c)"

text \<open>The reads that are always passed on.\<close>

definition cGetVolumeStatus :: "u64 \<Rightarrow> ('m, VolumeStatusRecord) cached_op" where
  "cGetVolumeStatus volumeID = through (\<lambda>next m. (mrGetVolumeStatus next volumeID m, m)) (\<lambda>_ c. c)"

definition cListVolumes :: "('m, VolumeSpec list) cached_op" where
  "cListVolumes = through (\<lambda>next m. (mrListVolumes next m, m)) (\<lambda>_ c. c)"

definition cGetAttachment :: "u64 \<Rightarrow> ('m, AttachmentRecord) cached_op" where
  "cGetAttachment volumeID = through (\<lambda>next m. (mrGetAttachment next volumeID m, m)) (\<lambda>_ c. c)"

definition cGetGeneration :: "u64 \<Rightarrow> ('m, u64) cached_op" where
  "cGetGeneration volumeID = through (\<lambda>next m. (mrGetGeneration next volumeID m, m)) (\<lambda>_ c. c)"

definition cGetGateway :: "string \<Rightarrow> ('m, GatewayRecord) cached_op" where
  "cGetGateway gatewayID = through (\<lambda>next m. (mrGetGateway next gatewayID m, m)) (\<lambda>_ c. c)"

definition cListGateways :: "('m, GatewayRecord list) cached_op" where
  "cListGateways = through (\<lambda>next m. (mrListGateways next m, m)) (\<lambda>_ c. c)"

definition cListChunkGarbage :: "u64 \<Rightarrow> int \<Rightarrow> ('m, AllocationChunkGarbageRecord list) cached_op" where
  "cListChunkGarbage volumeID limit = through (\<lambda>next m. (mrListChunkGarbage next volumeID limit m, m)) (\<lambda>_ c. c)"

section \<open>The invariant of the cache\<close>

text \<open>
  Handles and keys occur once in the list, the map finds exactly the elements of the list by their
  keys, and the index of a volume holds exactly the numbers of its cached pages.
\<close>

definition page_index :: "'m cachedMetadataRepository \<Rightarrow> bool" where
  "page_index c \<longleftrightarrow> distinct (map fst (cmExtentPageLRU c)) \<and> (\<forall>x \<in> set (cmExtentPageLRU c). fst x < cmFresh c)
     \<and> (\<forall>k e. mget (cmExtentPageCache c) k = Some e \<longleftrightarrow> (\<exists>x. (e, x) \<in> set (cmExtentPageLRU c) \<and> cxKey x = k))
     \<and> (\<forall>v n. mget (cmExtentPageCache c) (v, n) \<noteq> None \<longleftrightarrow> n \<in> set (mget_or [] (cmVolumePages c) v))
     \<and> (\<forall>v ps. mget (cmVolumePages c) v = Some ps \<longrightarrow> ps \<noteq> [] \<and> distinct ps)"

definition within_bound :: "'m cachedMetadataRepository \<Rightarrow> bool" where
  "within_bound c \<longleftrightarrow> (cmMaxExtentPages c > 0 \<longrightarrow> int (length (cmExtentPageLRU c)) \<le> cmMaxExtentPages c)"

definition cache_inv :: "'m cachedMetadataRepository \<Rightarrow> bool" where
  "cache_inv c \<longleftrightarrow> page_index c \<and> within_bound c"

lemma page_indexD:
  assumes "page_index c"
  shows "distinct (map fst (cmExtentPageLRU c))" "x \<in> set (cmExtentPageLRU c) \<Longrightarrow> fst x < cmFresh c"
    "mget (cmExtentPageCache c) k = Some e \<longleftrightarrow> (\<exists>x. (e, x) \<in> set (cmExtentPageLRU c) \<and> cxKey x = k)"
    "mget (cmExtentPageCache c) (v, n) \<noteq> None \<longleftrightarrow> n \<in> set (mget_or [] (cmVolumePages c) v)"
    "mget (cmVolumePages c) v = Some ps \<Longrightarrow> ps \<noteq> [] \<and> distinct ps"
  using assms unfolding page_index_def by blast+

lemma page_index_entry:
  assumes "page_index c" "(e, x) \<in> set (cmExtentPageLRU c)"
  shows "map_of (cmExtentPageLRU c) e = Some x" "mget (cmExtentPageCache c) (cxKey x) = Some e"
    "(e, y) \<in> set (cmExtentPageLRU c) \<Longrightarrow> y = x"
    "(d, y) \<in> set (cmExtentPageLRU c) \<Longrightarrow> cxKey y = cxKey x \<Longrightarrow> d = e \<and> y = x"
proof -
  show m: "map_of (cmExtentPageLRU c) e = Some x"
    using assms page_indexD(1)[OF assms(1)] by simp
  show k: "mget (cmExtentPageCache c) (cxKey x) = Some e"
    using assms page_indexD(3)[OF assms(1)] by blast
  show same: "y = x" if "(e, y) \<in> set (cmExtentPageLRU c)" for y
    using that m page_indexD(1)[OF assms(1)] by (metis map_of_eq_Some_iff option.inject)
  show "d = e \<and> y = x" if "(d, y) \<in> set (cmExtentPageLRU c)" "cxKey y = cxKey x" for d y
  proof -
    have "mget (cmExtentPageCache c) (cxKey x) = Some d"
      using that page_indexD(3)[OF assms(1)] by blast
    with k have "d = e" by simp
    with same that show ?thesis by blast
  qed
qed

lemma map_eqI: "(\<And>k z. f k = Some z \<longleftrightarrow> g k = Some z) \<Longrightarrow> f = g"
  by (rule ext) (metis not_None_eq)

lemma map_le_Some: "f \<subseteq>\<^sub>m g \<Longrightarrow> f k = Some x \<Longrightarrow> g k = Some x"
  by (metis domI map_le_def)

text \<open>The page the cache holds for a key.\<close>

definition cached_page :: "'m cachedMetadataRepository \<Rightarrow> extentPageCacheKey \<Rightarrow> cachedExtentPage option" where
  "cached_page c k =
     (case mget (cmExtentPageCache c) k of None \<Rightarrow> None | Some e \<Rightarrow> map_of (cmExtentPageLRU c) e)"

lemma cached_page_iff:
  assumes "page_index c"
  shows "cached_page c k = Some x \<longleftrightarrow> (\<exists>e. (e, x) \<in> set (cmExtentPageLRU c) \<and> cxKey x = k)"
proof
  assume "cached_page c k = Some x"
  then obtain e where e: "mget (cmExtentPageCache c) k = Some e" "map_of (cmExtentPageLRU c) e = Some x"
    by (auto simp: cached_page_def split: option.splits)
  obtain y where y: "(e, y) \<in> set (cmExtentPageLRU c)" "cxKey y = k"
    using e(1) page_indexD(3)[OF assms] by blast
  then have "y = x"
    using e(2) page_index_entry(1)[OF assms y(1)] by simp
  with y show "\<exists>e. (e, x) \<in> set (cmExtentPageLRU c) \<and> cxKey x = k" by blast
next
  assume "\<exists>e. (e, x) \<in> set (cmExtentPageLRU c) \<and> cxKey x = k"
  then show "cached_page c k = Some x"
    using page_index_entry(1,2)[OF assms] by (auto simp: cached_page_def)
qed

subsection \<open>Removing a page\<close>

lemma remove_fields [simp]:
  "cmExtentPageLRU (removeExtentPageLocked x c) = filter (\<lambda>y. fst y \<noteq> fst x) (cmExtentPageLRU c)"
  "cmFresh (removeExtentPageLocked x c) = cmFresh c" "cmTTL (removeExtentPageLocked x c) = cmTTL c"
  "cmMaxExtentPages (removeExtentPageLocked x c) = cmMaxExtentPages c"
  "cmVolumeCache (removeExtentPageLocked x c) = cmVolumeCache c" "cmNext (removeExtentPageLocked x c) = cmNext c"
  "mget (cmExtentPageCache (removeExtentPageLocked x c)) = (mget (cmExtentPageCache c))(cxKey (snd x) := None)"
  by (simp_all add: removeExtentPageLocked_def split: prod.split)

lemma remove_pages:
  "mget (cmVolumePages (removeExtentPageLocked x c)) v =
     (if v = fst (cxKey (snd x))
      then case mget (cmVolumePages c) v of
             None \<Rightarrow> None
           | Some ps \<Rightarrow> let rest = removeAll (snd (cxKey (snd x))) ps in if rest = [] then None else Some rest
      else mget (cmVolumePages c) v)"
  by (simp add: removeExtentPageLocked_def Let_def split: prod.split option.split)

lemma remove_set:
  "set (mget_or [] (cmVolumePages (removeExtentPageLocked x c)) v) =
     (if v = fst (cxKey (snd x)) then set (mget_or [] (cmVolumePages c) v) - {snd (cxKey (snd x))}
      else set (mget_or [] (cmVolumePages c) v))"
proof -
  have "set (removeAll a ps) = {} \<longleftrightarrow> removeAll a ps = []" for a and ps :: "u64 list"
    by (rule set_empty)
  then show ?thesis
    by (auto simp: mget_or_def remove_pages Let_def split: option.splits)
qed

lemma page_index_remove:
  assumes inv: "page_index c" and x: "x \<in> set (cmExtentPageLRU c)"
  shows "page_index (removeExtentPageLocked x c)"
proof -
  obtain e y where xy: "x = (e, y)" by fastforce
  note E = page_index_entry[OF inv x[unfolded xy]]
  have "mget (cmExtentPageCache (removeExtentPageLocked x c)) k = Some d
      \<longleftrightarrow> (\<exists>z. (d, z) \<in> set (cmExtentPageLRU (removeExtentPageLocked x c)) \<and> cxKey z = k)" for k d
    using page_indexD(3)[OF inv, of k d] E(2-4) xy by auto
  moreover have "mget (cmExtentPageCache (removeExtentPageLocked x c)) (v, n) \<noteq> None
      \<longleftrightarrow> n \<in> set (mget_or [] (cmVolumePages (removeExtentPageLocked x c)) v)" for v n
    using page_indexD(4)[OF inv, of v n] by (cases "cxKey (snd x)") (auto simp: remove_set)
  moreover have "ps \<noteq> [] \<and> distinct ps" if "mget (cmVolumePages (removeExtentPageLocked x c)) v = Some ps" for v ps
  proof (cases "mget (cmVolumePages c) v")
    case None
    show ?thesis using that unfolding remove_pages None by (simp split: if_splits)
  next
    case (Some qs)
    then have "distinct qs" "qs \<noteq> []" using page_indexD(5)[OF inv] by blast+
    then show ?thesis
      using that unfolding remove_pages Some by (auto simp: Let_def distinct_removeAll split: if_splits)
  qed
  moreover have "distinct (map fst (cmExtentPageLRU (removeExtentPageLocked x c)))"
    using page_indexD(1)[OF inv] by (simp add: distinct_map_filter)
  moreover have "fst z < cmFresh (removeExtentPageLocked x c)"
    if "z \<in> set (cmExtentPageLRU (removeExtentPageLocked x c))" for z
    using that page_indexD(2)[OF inv] by auto
  ultimately show ?thesis
    unfolding page_index_def by blast
qed

lemma cached_page_remove:
  assumes inv: "page_index c" and x: "x \<in> set (cmExtentPageLRU c)"
  shows "cached_page (removeExtentPageLocked x c) = (cached_page c)(cxKey (snd x) := None)"
proof -
  obtain e y where xy: "x = (e, y)" by fastforce
  have "cached_page (removeExtentPageLocked x c) k = Some z
      \<longleftrightarrow> ((cached_page c)(cxKey (snd x) := None)) k = Some z" for k z
    using cached_page_iff[OF page_index_remove[OF assms], of k z] cached_page_iff[OF inv, of k z]
      page_index_entry(3,4)[OF inv x[unfolded xy]] xy
    by auto
  then show ?thesis
    by (intro map_eqI)
qed

lemma filter_handle_length:
  "distinct (map fst xs) \<Longrightarrow> x \<in> set xs \<Longrightarrow> Suc (length (filter (\<lambda>y. fst y \<noteq> fst x) xs)) = length xs"
proof (induction xs)
  case (Cons a xs)
  show ?case
  proof (cases "x = a")
    case True
    then have "filter (\<lambda>y. fst y \<noteq> fst x) xs = xs"
      using Cons.prems(1) True by (auto intro!: filter_True simp: image_iff)
    with True show ?thesis by simp
  next
    case False
    then have x: "x \<in> set xs"
      using Cons.prems(2) by simp
    then have "fst x \<noteq> fst a"
      using Cons.prems(1) by (auto simp: image_iff)
    with x show ?thesis
      using Cons by simp
  qed
qed simp

lemma remove_length:
  assumes "page_index c" "x \<in> set (cmExtentPageLRU c)"
  shows "Suc (length (cmExtentPageLRU (removeExtentPageLocked x c))) = length (cmExtentPageLRU c)"
  using filter_handle_length[OF page_indexD(1)[OF assms(1)] assms(2)] by simp

lemma remove_bound: "within_bound c \<Longrightarrow> within_bound (removeExtentPageLocked x c)"
  unfolding within_bound_def remove_fields
  by (meson length_filter_le of_nat_mono order_trans)

subsection \<open>Reordering, storing and evicting\<close>

lemma MoveToFront_simps [simp]:
  "set (MoveToFront e l) = set l" "length (MoveToFront e l) = length l"
  "distinct (map fst (MoveToFront e l)) \<longleftrightarrow> distinct (map fst l)"
proof -
  show "set (MoveToFront e l) = set l"
    by (auto simp: MoveToFront_def)
  have m: "mset (MoveToFront e l) = mset l"
    by (induction l) (simp_all add: MoveToFront_def)
  then show "length (MoveToFront e l) = length l"
    by (rule mset_eq_length)
  have "mset (map fst (MoveToFront e l)) = mset (map fst l)"
    using m by simp
  then show "distinct (map fst (MoveToFront e l)) \<longleftrightarrow> distinct (map fst l)"
    by (rule mset_eq_imp_distinct_iff)
qed

lemma page_index_permute:
  assumes "page_index c" "set l = set (cmExtentPageLRU c)" "distinct (map fst l)"
  shows "page_index (c\<lparr>cmExtentPageLRU := l\<rparr>)" "cached_page (c\<lparr>cmExtentPageLRU := l\<rparr>) = cached_page c"
proof -
  have fields: "cmExtentPageLRU (c\<lparr>cmExtentPageLRU := l\<rparr>) = l" "cmFresh (c\<lparr>cmExtentPageLRU := l\<rparr>) = cmFresh c"
    "cmExtentPageCache (c\<lparr>cmExtentPageLRU := l\<rparr>) = cmExtentPageCache c"
    "cmVolumePages (c\<lparr>cmExtentPageLRU := l\<rparr>) = cmVolumePages c"
    by simp_all
  show index: "page_index (c\<lparr>cmExtentPageLRU := l\<rparr>)"
    using assms(1,3) unfolding page_index_def fields assms(2) by blast
  show "cached_page (c\<lparr>cmExtentPageLRU := l\<rparr>) = cached_page c"
    using cached_page_iff[OF index] cached_page_iff[OF assms(1)] assms(2) by (intro map_eqI) simp
qed

text \<open>Replacing the value of an element that is already there.\<close>

lemma page_index_replace:
  assumes inv: "page_index c" and x: "(e, x) \<in> set (cmExtentPageLRU c)" and y: "cxKey y = cxKey x"
  defines "l \<equiv> map (\<lambda>z. if fst z = e then (e, y) else z) (cmExtentPageLRU c)"
  shows "page_index (c\<lparr>cmExtentPageLRU := l\<rparr>)"
    "cached_page (c\<lparr>cmExtentPageLRU := l\<rparr>) = (cached_page c)(cxKey y \<mapsto> y)"
proof -
  have fsts: "map fst l = map fst (cmExtentPageLRU c)"
    by (simp add: l_def)
  have mem: "(d, z) \<in> set l \<longleftrightarrow> (if d = e then z = y else (d, z) \<in> set (cmExtentPageLRU c))" for d z
  proof (cases "d = e")
    case True
    have "(e, y) \<in> set l"
      unfolding l_def set_map using x by (rule rev_image_eqI) simp
    then show ?thesis
      using True by (auto simp: l_def)
  next
    case False
    have "(d, z) \<in> set l" if "(d, z) \<in> set (cmExtentPageLRU c)"
      unfolding l_def set_map using that by (rule rev_image_eqI) (simp add: False)
    then show ?thesis
      using False by (auto simp: l_def split: if_splits)
  qed
  note E = page_index_entry[OF inv x]
  have keys: "(\<exists>z. (d, z) \<in> set l \<and> cxKey z = k) \<longleftrightarrow> (\<exists>z. (d, z) \<in> set (cmExtentPageLRU c) \<and> cxKey z = k)" for d k
  proof (cases "d = e")
    case True
    have "(\<exists>z. (e, z) \<in> set (cmExtentPageLRU c) \<and> cxKey z = k) \<longleftrightarrow> cxKey x = k"
      using E(3) x by blast
    then show ?thesis
      unfolding mem using True y by simp
  qed (simp add: mem)
  have fresh: "\<forall>z \<in> set l. fst z < cmFresh c"
    using page_indexD(2)[OF inv] page_indexD(2)[OF inv x] by (auto simp: l_def)
  have fields: "cmExtentPageLRU (c\<lparr>cmExtentPageLRU := l\<rparr>) = l" "cmFresh (c\<lparr>cmExtentPageLRU := l\<rparr>) = cmFresh c"
    "cmExtentPageCache (c\<lparr>cmExtentPageLRU := l\<rparr>) = cmExtentPageCache c"
    "cmVolumePages (c\<lparr>cmExtentPageLRU := l\<rparr>) = cmVolumePages c"
    by simp_all
  show index: "page_index (c\<lparr>cmExtentPageLRU := l\<rparr>)"
    using inv fresh unfolding page_index_def fields fsts keys by blast
  have "cached_page (c\<lparr>cmExtentPageLRU := l\<rparr>) k = Some z \<longleftrightarrow> ((cached_page c)(cxKey y \<mapsto> y)) k = Some z" for k z
  proof (cases "k = cxKey y")
    case True
    have "(\<exists>d. (d, z) \<in> set l \<and> cxKey z = k) \<longleftrightarrow> z = y"
      unfolding mem using E(4)[of _ z] y True by (auto split: if_splits)
    then show ?thesis
      using cached_page_iff[OF index, of k z] True unfolding fields by auto
  next
    case False
    have "(\<exists>d. (d, z) \<in> set l \<and> cxKey z = k) \<longleftrightarrow> (\<exists>d. (d, z) \<in> set (cmExtentPageLRU c) \<and> cxKey z = k)"
      unfolding mem using E(3)[of z] y False by (metis (full_types))
    then show ?thesis
      using cached_page_iff[OF index, of k z] cached_page_iff[OF inv, of k z] False unfolding fields by simp
  qed
  then show "cached_page (c\<lparr>cmExtentPageLRU := l\<rparr>) = (cached_page c)(cxKey y \<mapsto> y)"
    by (intro map_eqI)
qed

text \<open>Adding an element for a key that is not there.\<close>

lemma page_index_add:
  assumes inv: "page_index c" and new: "mget (cmExtentPageCache c) (v, n) = None" and k: "cxKey x = (v, n)"
  defines "c' \<equiv> c\<lparr>cmExtentPageLRU := (cmFresh c, x) # cmExtentPageLRU c, cmFresh := Suc (cmFresh c),
     cmExtentPageCache := mput (v, n) (cmFresh c) (cmExtentPageCache c),
     cmVolumePages := mput v (List.insert n (mget_or [] (cmVolumePages c) v)) (cmVolumePages c)\<rparr>"
  shows "page_index c'" "cached_page c' = (cached_page c)((v, n) \<mapsto> x)"
proof -
  have fresh: "(cmFresh c, z) \<notin> set (cmExtentPageLRU c)" "cmFresh c \<notin> fst ` set (cmExtentPageLRU c)" for z
    using page_indexD(2)[OF inv] by fastforce+
  have m: "mget (cmExtentPageCache c') = (mget (cmExtentPageCache c))((v, n) \<mapsto> cmFresh c)"
    and l: "set (cmExtentPageLRU c') = insert (cmFresh c, x) (set (cmExtentPageLRU c))"
    by (simp_all add: c'_def)
  have unkeyed: "cxKey z \<noteq> (v, n)" if "(d, z) \<in> set (cmExtentPageLRU c)" for d z
    using that page_indexD(3)[OF inv, of "(v, n)" d] new by auto
  have "mget (cmExtentPageCache c') k' = Some e \<longleftrightarrow> (\<exists>z. (e, z) \<in> set (cmExtentPageLRU c') \<and> cxKey z = k')" for k' e
  proof (cases "k' = (v, n)")
    case True
    then show ?thesis
      using unkeyed[of e] k by (auto simp: c'_def)
  next
    case False
    then show ?thesis
      unfolding m fun_upd_other[OF False] page_indexD(3)[OF inv] l using k by blast
  qed
  moreover have "mget (cmExtentPageCache c') (v', n') \<noteq> None \<longleftrightarrow> n' \<in> set (mget_or [] (cmVolumePages c') v')" for v' n'
    using page_indexD(4)[OF inv, of v' n'] by (auto simp: c'_def)
  moreover have "ps \<noteq> [] \<and> distinct ps" if "mget (cmVolumePages c') v' = Some ps" for v' ps
  proof (cases "v' = v")
    case True
    have "distinct (mget_or [] (cmVolumePages c) v)"
    proof (cases "mget (cmVolumePages c) v")
      case (Some qs)
      then show ?thesis
        unfolding mget_or_def Some using page_indexD(5)[OF inv Some] by simp
    qed (simp add: mget_or_def)
    then show ?thesis
      using that True by (auto simp: c'_def List.insert_def split: if_splits)
  next
    case False
    then have "mget (cmVolumePages c) v' = Some ps"
      using that by (simp add: c'_def)
    then show ?thesis
      by (rule page_indexD(5)[OF inv])
  qed
  moreover have "distinct (map fst (cmExtentPageLRU c'))"
    using page_indexD(1)[OF inv] fresh by (simp add: c'_def)
  moreover have "fst z < cmFresh c'" if "z \<in> set (cmExtentPageLRU c')" for z
    using that page_indexD(2)[OF inv, of z] by (auto simp: c'_def)
  ultimately show index: "page_index c'"
    unfolding page_index_def by blast
  have "cached_page c' k' = Some z \<longleftrightarrow> ((cached_page c)((v, n) \<mapsto> x)) k' = Some z" for k' z
  proof (cases "k' = (v, n)")
    case True
    then show ?thesis
      using cached_page_iff[OF index, of k' z] unkeyed[of _ z] k by (auto simp: c'_def)
  next
    case False
    then show ?thesis
      unfolding fun_upd_other[OF False] cached_page_iff[OF index] cached_page_iff[OF inv] l using k by blast
  qed
  then show "cached_page c' = (cached_page c)((v, n) \<mapsto> x)"
    by (intro map_eqI)
qed

lemma evict_fields [simp]:
  "cmTTL (evict n c) = cmTTL c" "cmMaxExtentPages (evict n c) = cmMaxExtentPages c"
  "cmVolumeCache (evict n c) = cmVolumeCache c" "cmNext (evict n c) = cmNext c"
  by (induction n c rule: evict.induct) simp_all

lemma evict_index:
  "page_index c \<Longrightarrow> page_index (evict n c) \<and> cached_page (evict n c) \<subseteq>\<^sub>m cached_page c"
proof (induction n c rule: evict.induct)
  case (2 n c)
  show ?case
  proof (cases "cmMaxExtentPages c > 0 \<and> int (length (cmExtentPageLRU c)) > cmMaxExtentPages c")
    case True
    then have "last (cmExtentPageLRU c) \<in> set (cmExtentPageLRU c)"
      by (intro last_in_set) auto
    note R = page_index_remove[OF 2(2) this] cached_page_remove[OF 2(2) this]
    then show ?thesis
      using 2(1)[OF True R(1)] True by (auto simp: map_le_def split: if_splits)
  next
    case False
    then have "evict (Suc n) c = c" by auto
    with 2(2) show ?thesis by simp
  qed
qed simp

lemma evict_bound:
  "page_index c \<Longrightarrow> length (cmExtentPageLRU c) \<le> n \<Longrightarrow> within_bound (evict n c)"
proof (induction n c rule: evict.induct)
  case (2 n c)
  show ?case
  proof (cases "cmMaxExtentPages c > 0 \<and> int (length (cmExtentPageLRU c)) > cmMaxExtentPages c")
    case True
    then have "last (cmExtentPageLRU c) \<in> set (cmExtentPageLRU c)"
      by (intro last_in_set) auto
    note R = page_index_remove[OF 2(2) this] remove_length[OF 2(2) this]
    then show ?thesis
      using 2(1)[OF True R(1)] 2(3) True by simp
  next
    case False
    then have "evict (Suc n) c = c" by auto
    with False show ?thesis by (auto simp: within_bound_def)
  qed
qed (simp add: within_bound_def)

subsection \<open>What the primitives keep\<close>

lemma storeExtentPage_fields [simp]:
  "cmTTL (storeExtentPage now p c) = cmTTL c" "cmMaxExtentPages (storeExtentPage now p c) = cmMaxExtentPages c"
  "cmVolumeCache (storeExtentPage now p c) = cmVolumeCache c" "cmNext (storeExtentPage now p c) = cmNext c"
  by (simp_all add: storeExtentPage_def Let_def split: option.split)

lemma storeExtentPage_keeps:
  fixes p :: AllocationPageRecord
  assumes "cache_inv c"
  defines "k \<equiv> (pgVolumeID p, pgPageNo p)"
  shows "cache_inv (storeExtentPage now p c)"
    "cached_page (storeExtentPage now p c)
       \<subseteq>\<^sub>m (cached_page c)(k \<mapsto> \<lparr>cxKey = k, cxPage = p, cxExpiresAt = now + cmTTL c\<rparr>)"
proof -
  let ?x = "\<lparr>cxKey = k, cxPage = cloneAllocationPage p, cxExpiresAt = now + cmTTL c\<rparr>"
  have inv: "page_index c" and bound: "within_bound c"
    using assms(1) by (simp_all add: cache_inv_def)
  have goal: "cache_inv (storeExtentPage now p c)
      \<and> cached_page (storeExtentPage now p c) \<subseteq>\<^sub>m (cached_page c)(k \<mapsto> ?x)"
  proof (cases "mget (cmExtentPageCache c) k")
    case (Some e)
    then obtain y where y: "(e, y) \<in> set (cmExtentPageLRU c)" "cxKey y = k"
      using page_indexD(3)[OF inv] by blast
    let ?l = "map (\<lambda>z. if fst z = e then (e, ?x) else z) (cmExtentPageLRU c)"
    have "cxKey ?x = cxKey y" by (simp add: y(2))
    note R = page_index_replace[OF inv y(1) this]
    have S: "storeExtentPage now p c = (c\<lparr>cmExtentPageLRU := ?l\<rparr>)\<lparr>cmExtentPageLRU := MoveToFront e ?l\<rparr>"
      unfolding storeExtentPage_def Let_def k_def[symmetric] Some by simp
    have "distinct (map fst ?l)"
      using page_indexD(1)[OF R(1)] by simp
    then have P: "page_index (storeExtentPage now p c)"
      "cached_page (storeExtentPage now p c) = cached_page (c\<lparr>cmExtentPageLRU := ?l\<rparr>)"
      unfolding S by (intro page_index_permute[OF R(1)]; simp)+
    moreover have "within_bound (storeExtentPage now p c)"
      using bound unfolding S by (simp add: within_bound_def)
    ultimately show ?thesis
      unfolding cache_inv_def P(2) R(2) by simp
  next
    case None
    let ?c = "c\<lparr>cmExtentPageLRU := (cmFresh c, ?x) # cmExtentPageLRU c, cmFresh := Suc (cmFresh c),
       cmExtentPageCache := mput k (cmFresh c) (cmExtentPageCache c),
       cmVolumePages := mput (pgVolumeID p) (List.insert (pgPageNo p) (mget_or [] (cmVolumePages c) (pgVolumeID p)))
         (cmVolumePages c)\<rparr>"
    have S: "storeExtentPage now p c = evict (length (cmExtentPageLRU ?c)) ?c"
      unfolding storeExtentPage_def Let_def k_def[symmetric] None by simp
    have "cxKey ?x = (pgVolumeID p, pgPageNo p)" by (simp add: k_def)
    note A = page_index_add[OF inv None[unfolded k_def] this, folded k_def]
    have "cached_page (evict (length (cmExtentPageLRU ?c)) ?c) \<subseteq>\<^sub>m (cached_page c)(k \<mapsto> ?x)"
      unfolding A(2)[symmetric] using evict_index[OF A(1)] by blast
    then show ?thesis
      unfolding S cache_inv_def using evict_index[OF A(1)] evict_bound[OF A(1) order_refl] by blast
  qed
  then show "cache_inv (storeExtentPage now p c)"
    "cached_page (storeExtentPage now p c) \<subseteq>\<^sub>m (cached_page c)(k \<mapsto> \<lparr>cxKey = k, cxPage = p, cxExpiresAt = now + cmTTL c\<rparr>)"
    by simp_all
qed


lemma loadExtentPage_keeps:
  assumes "cache_inv c"
  shows "cache_inv (snd (loadExtentPage now v n c))" "cached_page (snd (loadExtentPage now v n c)) \<subseteq>\<^sub>m cached_page c"
    "fst (loadExtentPage now v n c) =
       (case cached_page c (v, n) of None \<Rightarrow> None
        | Some x \<Rightarrow> if now > cxExpiresAt x then None else Some (cxPage x))"
    "cmVolumeCache (snd (loadExtentPage now v n c)) = cmVolumeCache c" "cmNext (snd (loadExtentPage now v n c)) = cmNext c"
    "cmTTL (snd (loadExtentPage now v n c)) = cmTTL c"
proof -
  have inv: "page_index c" and bound: "within_bound c"
    using assms(1) by (simp_all add: cache_inv_def)
  have "cache_inv (snd (loadExtentPage now v n c)) \<and> cached_page (snd (loadExtentPage now v n c)) \<subseteq>\<^sub>m cached_page c"
  proof (cases "mget (cmExtentPageCache c) (v, n)")
    case None
    show ?thesis unfolding loadExtentPage_def None using assms by simp
  next
    case (Some e)
    then obtain x where x: "(e, x) \<in> set (cmExtentPageLRU c)" "cxKey x = (v, n)"
      using page_indexD(3)[OF inv] by blast
    note m = page_index_entry(1)[OF inv x(1)]
    show ?thesis
    proof (cases "now > cxExpiresAt x")
      case True
      then have L: "snd (loadExtentPage now v n c) = removeExtentPageLocked (e, x) c"
        unfolding loadExtentPage_def Some by (simp add: m)
      have "within_bound (removeExtentPageLocked (e, x) c)"
        by (rule remove_bound[OF bound])
      then show ?thesis
        unfolding L cache_inv_def cached_page_remove[OF inv x(1)]
        using page_index_remove[OF inv x(1)] by (auto simp: map_le_def)
    next
      case False
      then have L: "snd (loadExtentPage now v n c) = c\<lparr>cmExtentPageLRU := MoveToFront e (cmExtentPageLRU c)\<rparr>"
        unfolding loadExtentPage_def Some by (simp add: m)
      show ?thesis
        unfolding L cache_inv_def
        using page_index_permute[OF inv, of "MoveToFront e (cmExtentPageLRU c)"] page_indexD(1)[OF inv] bound
        by (simp add: within_bound_def)
    qed
  qed
  then show "cache_inv (snd (loadExtentPage now v n c))" "cached_page (snd (loadExtentPage now v n c)) \<subseteq>\<^sub>m cached_page c"
    by blast+
  show "fst (loadExtentPage now v n c) =
       (case cached_page c (v, n) of None \<Rightarrow> None
        | Some x \<Rightarrow> if now > cxExpiresAt x then None else Some (cxPage x))"
    "cmVolumeCache (snd (loadExtentPage now v n c)) = cmVolumeCache c" "cmNext (snd (loadExtentPage now v n c)) = cmNext c"
    "cmTTL (snd (loadExtentPage now v n c)) = cmTTL c"
    by (simp_all add: loadExtentPage_def cached_page_def split: option.split)
qed

lemma removeCachedPage_keeps:
  assumes "cache_inv c"
  shows "cache_inv (removeCachedPage v n c)" "cached_page (removeCachedPage v n c) = (cached_page c)((v, n) := None)"
    "cmVolumeCache (removeCachedPage v n c) = cmVolumeCache c" "cmNext (removeCachedPage v n c) = cmNext c"
    "cmTTL (removeCachedPage v n c) = cmTTL c"
proof -
  have inv: "page_index c" and bound: "within_bound c"
    using assms(1) by (simp_all add: cache_inv_def)
  have "cache_inv (removeCachedPage v n c) \<and> cached_page (removeCachedPage v n c) = (cached_page c)((v, n) := None)"
  proof (cases "mget (cmExtentPageCache c) (v, n)")
    case None
    then have "cached_page c (v, n) = None"
      unfolding cached_page_def by simp
    then show ?thesis
      unfolding removeCachedPage_def None using assms by auto
  next
    case (Some e)
    then obtain x where x: "(e, x) \<in> set (cmExtentPageLRU c)" "cxKey x = (v, n)"
      using page_indexD(3)[OF inv] by blast
    have R: "removeCachedPage v n c = removeExtentPageLocked (e, x) c"
      unfolding removeCachedPage_def Some using page_index_entry(1)[OF inv x(1)] by simp
    have "within_bound (removeExtentPageLocked (e, x) c)"
      by (rule remove_bound[OF bound])
    then show ?thesis
      unfolding R cache_inv_def cached_page_remove[OF inv x(1)]
      using page_index_remove[OF inv x(1)] x(2) by simp
  qed
  then show "cache_inv (removeCachedPage v n c)" "cached_page (removeCachedPage v n c) = (cached_page c)((v, n) := None)"
    by blast+
  show "cmVolumeCache (removeCachedPage v n c) = cmVolumeCache c" "cmNext (removeCachedPage v n c) = cmNext c"
    "cmTTL (removeCachedPage v n c) = cmTTL c"
    by (simp_all add: removeCachedPage_def split: option.split)
qed

lemma remove_pages_keeps:
  "cache_inv c \<Longrightarrow> cache_inv (fold (removeCachedPage v) ns c)
     \<and> cached_page (fold (removeCachedPage v) ns c) = (\<lambda>k. if fst k = v \<and> snd k \<in> set ns then None else cached_page c k)
     \<and> cmVolumeCache (fold (removeCachedPage v) ns c) = cmVolumeCache c
     \<and> cmNext (fold (removeCachedPage v) ns c) = cmNext c \<and> cmTTL (fold (removeCachedPage v) ns c) = cmTTL c"
proof (induction ns arbitrary: c)
  case (Cons n ns)
  note R = removeCachedPage_keeps[OF Cons.prems, of v n]
  show ?case
    using Cons.IH[OF R(1)] R(2-5) by (auto simp: fun_eq_iff)
qed auto

lemma cached_page_index:
  assumes "page_index c"
  shows "cached_page c (v, n) \<noteq> None \<longleftrightarrow> n \<in> set (mget_or [] (cmVolumePages c) v)"
proof -
  have "cached_page c (v, n) \<noteq> None \<longleftrightarrow> mget (cmExtentPageCache c) (v, n) \<noteq> None"
  proof (cases "mget (cmExtentPageCache c) (v, n)")
    case (Some e)
    then obtain x where "(e, x) \<in> set (cmExtentPageLRU c)"
      using page_indexD(3)[OF assms] by blast
    then show ?thesis
      unfolding cached_page_def Some using page_index_entry(1)[OF assms] by simp
  qed (simp add: cached_page_def)
  then show ?thesis
    unfolding page_indexD(4)[OF assms] .
qed

lemma page_index_cong:
  assumes "cmExtentPageLRU d = cmExtentPageLRU c" "cmFresh d = cmFresh c"
    "mget (cmExtentPageCache d) = mget (cmExtentPageCache c)" "mget (cmVolumePages d) = mget (cmVolumePages c)"
  shows "page_index d = page_index c" "cached_page d = cached_page c"
  by (simp_all only: page_index_def cached_page_def[abs_def] assms mget_or_def)

lemma invalidate_keeps:
  assumes "cache_inv c"
  shows "cache_inv (invalidate v c)" "cached_page (invalidate v c) = (\<lambda>k. if fst k = v then None else cached_page c k)"
    "mget (cmVolumeCache (invalidate v c)) = (mget (cmVolumeCache c))(v := None)"
    "cmNext (invalidate v c) = cmNext c" "cmTTL (invalidate v c) = cmTTL c"
proof -
  let ?c = "c\<lparr>cmVolumeCache := mdel v (cmVolumeCache c)\<rparr>"
  have pi: "page_index ?c = page_index c" and pages: "cached_page ?c = cached_page c"
    by (rule page_index_cong; simp)+
  have inv: "cache_inv ?c"
    using assms unfolding cache_inv_def pi by (simp add: within_bound_def)
  have index: "page_index ?c" using inv by (simp add: cache_inv_def)
  have "cache_inv (invalidate v c) \<and> cached_page (invalidate v c) = (\<lambda>k. if fst k = v then None else cached_page c k)
     \<and> mget (cmVolumeCache (invalidate v c)) = (mget (cmVolumeCache c))(v := None)
     \<and> cmNext (invalidate v c) = cmNext c \<and> cmTTL (invalidate v c) = cmTTL c"
  proof (cases "mget (cmVolumePages ?c) v")
    case None
    then have "cached_page ?c (v, n) = None" for n
      using cached_page_index[OF index, of v n] by (simp add: mget_or_def)
    then have "cached_page ?c = (\<lambda>k. if fst k = v then None else cached_page c k)"
      unfolding pages by (auto simp: fun_eq_iff)
    then show ?thesis
      unfolding invalidate_def invalidateExtentPagesLocked_def None using inv by simp
  next
    case (Some ns)
    define d where "d = fold (removeCachedPage v) ns ?c"
    have I: "invalidate v c = d\<lparr>cmVolumePages := mdel v (cmVolumePages d)\<rparr>"
      unfolding invalidate_def invalidateExtentPagesLocked_def Some d_def by (simp add: Let_def)
    have D: "cache_inv d" "cached_page d = (\<lambda>k. if fst k = v \<and> snd k \<in> set ns then None else cached_page ?c k)"
      "cmVolumeCache d = mdel v (cmVolumeCache c)" "cmNext d = cmNext c" "cmTTL d = cmTTL c"
      using remove_pages_keeps[OF inv, of v ns] by (simp_all add: d_def)
    have "cached_page c (v, n) = None" if "n \<notin> set ns" for n
      using that cached_page_index[OF index, of v n] unfolding mget_or_def Some pages by simp
    then have gone: "cached_page d = (\<lambda>k. if fst k = v then None else cached_page c k)"
      unfolding D(2) pages by (auto simp: fun_eq_iff)
    have di: "page_index d" using D(1) by (simp add: cache_inv_def)
    have "cached_page d (v, n) = None" for n
      unfolding gone by simp
    then have "mget_or [] (cmVolumePages d) v = []"
      using cached_page_index[OF di, of v] by (metis list.set_intros(1) neq_Nil_conv)
    then have "mget (cmVolumePages d) v = None"
      using page_indexD(5)[OF di, of v] by (cases "mget (cmVolumePages d) v") (auto simp: mget_or_def)
    then have del: "mget (mdel v (cmVolumePages d)) = mget (cmVolumePages d)"
      by (auto simp: fun_eq_iff)
    then have "page_index (d\<lparr>cmVolumePages := mdel v (cmVolumePages d)\<rparr>) = page_index d"
      by (intro page_index_cong) simp_all
    then have "page_index (d\<lparr>cmVolumePages := mdel v (cmVolumePages d)\<rparr>)"
      using di by simp
    then have "cache_inv (invalidate v c)"
      using D(1) unfolding I by (simp add: cache_inv_def within_bound_def)
    moreover have "cached_page (invalidate v c) = cached_page d"
      unfolding I using del by (intro page_index_cong) simp_all
    ultimately show ?thesis
      using gone D(3-5) unfolding I by simp
  qed
  then show "cache_inv (invalidate v c)" "cached_page (invalidate v c) = (\<lambda>k. if fst k = v then None else cached_page c k)"
    "mget (cmVolumeCache (invalidate v c)) = (mget (cmVolumeCache c))(v := None)"
    "cmNext (invalidate v c) = cmNext c" "cmTTL (invalidate v c) = cmTTL c"
    by blast+
qed

end
