(* ===== verification/CacheCoherence.thy ===== *)
theory CacheCoherence
  imports CachedMetadata
begin

section \<open>What a client sees through the metadata cache\<close>

text \<open>
  The cache is bounded whatever repository it fronts, it is invisible to a client that is alone on its
  repository, and it keeps a page that another client has changed behind its back. The operations of
  the interface are one datatype, the two optional ones included, so that a client is a sequence of
  them. Every operation runs at a time in nanoseconds; the repository records seconds.
\<close>

datatype cache_op =
    CoEnsureVolume VolumeSpec
  | CoSyncVolumeSpec VolumeSpec
  | CoCreateVolume "u32 option list" VolumeCreateRequest
  | CoUpdateVolume u64 VolumeUpdateRequest
  | CoDeleteVolume u64
  | CoGetVolume u64
  | CoRefreshVolume u64
  | CoGetVolumeStatus u64
  | CoListVolumes
  | CoPutVolumeStatus VolumeStatusRecord
  | CoSetVolumeState u64 string
  | CoGetAttachment u64
  | CoGetGeneration u64
  | CoUnsafeClearAttachment u64
  | CoUnsafeSetGeneration u64 u64
  | CoAttach AttachRequest
  | CoDetach DetachRequest
  | CoGetGateway string
  | CoListGateways
  | CoPutGateway GatewayRecord
  | CoGetExtentPage u64 u64
  | CoListExtentPages u64
  | CoPutExtentPage AllocationPageRecord "64 word"
  | CoAllocateChunkIDs u64 u32
  | CoPutChunkGarbage AllocationChunkGarbageRecord
  | CoListChunkGarbage u64 int
  | CoDeleteChunkGarbage u64 u64

datatype cache_result =
    RsUnit unit
  | RsSpec VolumeSpec
  | RsPage AllocationPageRecord
  | RsPages "AllocationPageRecord list"
  | RsAttachment AttachmentRecord
  | RsNumber u64
  | RsStatus VolumeStatusRecord
  | RsSpecs "VolumeSpec list"
  | RsGateway GatewayRecord
  | RsGateways "GatewayRecord list"
  | RsGarbage "AllocationChunkGarbageRecord list"

text \<open>
  The interfaces VolumeSpecSyncRepository and FreshVolumeMetadataRepository, which a repository may
  have besides. Callers fall back to EnsureVolume and to GetVolume where they are missing.
\<close>

record 'm optional_methods =
  xtSyncVolumeSpec :: "(VolumeSpec \<Rightarrow> 'm \<Rightarrow> (service_error + unit) \<times> 'm) option"
  xtRefreshVolume :: "(u64 \<Rightarrow> 'm \<Rightarrow> (service_error + VolumeSpec) \<times> 'm) option"

definition tagged :: "('a \<Rightarrow> cache_result) \<Rightarrow> (service_error + 'a) \<times> 's \<Rightarrow> (service_error + cache_result) \<times> 's" where
  "tagged f rs = (map_sum id f (fst rs), snd rs)"

fun plain_step :: "'m MetadataRepository \<Rightarrow> 'm optional_methods \<Rightarrow> int \<Rightarrow> cache_op \<Rightarrow> 'm \<Rightarrow> (service_error + cache_result) \<times> 'm" where
  "plain_step meta opt now (CoEnsureVolume v) m = tagged RsUnit (mrEnsureVolume meta v m)"
| "plain_step meta opt now (CoSyncVolumeSpec v) m = tagged RsUnit
     (case xtSyncVolumeSpec opt of Some f \<Rightarrow> f v m | None \<Rightarrow> mrEnsureVolume meta v m)"
| "plain_step meta opt now (CoCreateVolume ds q) m = tagged RsSpec (mrCreateVolume meta ds q m)"
| "plain_step meta opt now (CoUpdateVolume i q) m = tagged RsSpec (mrUpdateVolume meta i q m)"
| "plain_step meta opt now (CoDeleteVolume i) m = tagged RsUnit (mrDeleteVolume meta i m)"
| "plain_step meta opt now (CoGetVolume i) m = tagged RsSpec (mrGetVolume meta i m, m)"
| "plain_step meta opt now (CoRefreshVolume i) m = tagged RsSpec
     (case xtRefreshVolume opt of Some f \<Rightarrow> f i m | None \<Rightarrow> (mrGetVolume meta i m, m))"
| "plain_step meta opt now (CoGetVolumeStatus i) m = tagged RsStatus (mrGetVolumeStatus meta i m, m)"
| "plain_step meta opt now CoListVolumes m = tagged RsSpecs (mrListVolumes meta m, m)"
| "plain_step meta opt now (CoPutVolumeStatus st) m = tagged RsUnit (mrPutVolumeStatus meta st m)"
| "plain_step meta opt now (CoSetVolumeState i st) m = tagged RsSpec (mrSetVolumeState meta i st m)"
| "plain_step meta opt now (CoGetAttachment i) m = tagged RsAttachment (mrGetAttachment meta i m, m)"
| "plain_step meta opt now (CoGetGeneration i) m = tagged RsNumber (mrGetGeneration meta i m, m)"
| "plain_step meta opt now (CoUnsafeClearAttachment i) m = tagged RsAttachment (mrUnsafeClearAttachment meta i m)"
| "plain_step meta opt now (CoUnsafeSetGeneration i k) m = tagged RsNumber (mrUnsafeSetGeneration meta i k m)"
| "plain_step meta opt now (CoAttach q) m = tagged RsAttachment (mrAttach meta (now div 1000000000) q m)"
| "plain_step meta opt now (CoDetach q) m = tagged RsAttachment (mrDetach meta q m)"
| "plain_step meta opt now (CoGetGateway n) m = tagged RsGateway (mrGetGateway meta n m, m)"
| "plain_step meta opt now CoListGateways m = tagged RsGateways (mrListGateways meta m, m)"
| "plain_step meta opt now (CoPutGateway g) m = tagged RsUnit (mrPutGateway meta g m)"
| "plain_step meta opt now (CoGetExtentPage i n) m = tagged RsPage (mrGetExtentPage meta i n m, m)"
| "plain_step meta opt now (CoListExtentPages i) m = tagged RsPages (mrListExtentPages meta i m, m)"
| "plain_step meta opt now (CoPutExtentPage p e) m = tagged RsPage (mrPutExtentPage meta p e m)"
| "plain_step meta opt now (CoAllocateChunkIDs i k) m = tagged RsNumber (mrAllocateChunkIDs meta i k m)"
| "plain_step meta opt now (CoPutChunkGarbage g) m = tagged RsUnit (mrPutChunkGarbage meta (now div 1000000000) g m)"
| "plain_step meta opt now (CoListChunkGarbage i k) m = tagged RsGarbage (mrListChunkGarbage meta i k m, m)"
| "plain_step meta opt now (CoDeleteChunkGarbage i k) m = tagged RsUnit (mrDeleteChunkGarbage meta i k m)"

fun cached_step ::
    "'m optional_methods \<Rightarrow> int \<Rightarrow> cache_op \<Rightarrow> 'm cachedMetadataRepository \<times> 'm \<Rightarrow> (service_error + cache_result) \<times> ('m cachedMetadataRepository \<times> 'm)" where
  "cached_step opt now (CoEnsureVolume v) s = tagged RsUnit (cEnsureVolume v s)"
| "cached_step opt now (CoSyncVolumeSpec v) s = tagged RsUnit (cSyncVolumeSpec now (xtSyncVolumeSpec opt) v s)"
| "cached_step opt now (CoCreateVolume ds q) s = tagged RsSpec (cCreateVolume now ds q s)"
| "cached_step opt now (CoUpdateVolume i q) s = tagged RsSpec (cUpdateVolume now i q s)"
| "cached_step opt now (CoDeleteVolume i) s = tagged RsUnit (cDeleteVolume i s)"
| "cached_step opt now (CoGetVolume i) s = tagged RsSpec (cGetVolume now i s)"
| "cached_step opt now (CoRefreshVolume i) s = tagged RsSpec (cRefreshVolume now (xtRefreshVolume opt) i s)"
| "cached_step opt now (CoGetVolumeStatus i) s = tagged RsStatus (cGetVolumeStatus i s)"
| "cached_step opt now CoListVolumes s = tagged RsSpecs (cListVolumes s)"
| "cached_step opt now (CoPutVolumeStatus st) s = tagged RsUnit (cPutVolumeStatus st s)"
| "cached_step opt now (CoSetVolumeState i st) s = tagged RsSpec (cSetVolumeState now i st s)"
| "cached_step opt now (CoGetAttachment i) s = tagged RsAttachment (cGetAttachment i s)"
| "cached_step opt now (CoGetGeneration i) s = tagged RsNumber (cGetGeneration i s)"
| "cached_step opt now (CoUnsafeClearAttachment i) s = tagged RsAttachment (cUnsafeClearAttachment i s)"
| "cached_step opt now (CoUnsafeSetGeneration i k) s = tagged RsNumber (cUnsafeSetGeneration i k s)"
| "cached_step opt now (CoAttach q) s = tagged RsAttachment (cAttach (now div 1000000000) q s)"
| "cached_step opt now (CoDetach q) s = tagged RsAttachment (cDetach q s)"
| "cached_step opt now (CoGetGateway n) s = tagged RsGateway (cGetGateway n s)"
| "cached_step opt now CoListGateways s = tagged RsGateways (cListGateways s)"
| "cached_step opt now (CoPutGateway g) s = tagged RsUnit (cPutGateway g s)"
| "cached_step opt now (CoGetExtentPage i n) s = tagged RsPage (cGetExtentPage now i n s)"
| "cached_step opt now (CoListExtentPages i) s = tagged RsPages (cListExtentPages now i s)"
| "cached_step opt now (CoPutExtentPage p e) s = tagged RsPage (cPutExtentPage now p e s)"
| "cached_step opt now (CoAllocateChunkIDs i k) s = tagged RsNumber (cAllocateChunkIDs i k s)"
| "cached_step opt now (CoPutChunkGarbage g) s = tagged RsUnit (cPutChunkGarbage (now div 1000000000) g s)"
| "cached_step opt now (CoListChunkGarbage i k) s = tagged RsGarbage (cListChunkGarbage i k s)"
| "cached_step opt now (CoDeleteChunkGarbage i k) s = tagged RsUnit (cDeleteChunkGarbage i k s)"

text \<open>A client: operations with the time at which each runs, and their results in order.\<close>

fun run_steps :: "(int \<Rightarrow> cache_op \<Rightarrow> 's \<Rightarrow> (service_error + cache_result) \<times> 's) \<Rightarrow> (int \<times> cache_op) list \<Rightarrow> 's \<Rightarrow>
    (service_error + cache_result) list \<times> 's" where
  "run_steps step [] s = ([], s)"
| "run_steps step ((now, op) # ops) s =
     (let (r, s1) = step now op s; (rs, s2) = run_steps step ops s1 in (r # rs, s2))"

text \<open>A condition on every operation and on the state in which it runs.\<close>

fun along_run :: "(cache_op \<Rightarrow> 's \<Rightarrow> bool) \<Rightarrow> (int \<Rightarrow> cache_op \<Rightarrow> 's \<Rightarrow> (service_error + cache_result) \<times> 's) \<Rightarrow>
    (int \<times> cache_op) list \<Rightarrow> 's \<Rightarrow> bool" where
  "along_run P step [] s = True"
| "along_run P step ((now, op) # ops) s = (P op s \<and> along_run P step ops (snd (step now op s)))"

subsection \<open>The bound\<close>

lemma store_keeps:
  assumes "cache_inv c"
  shows "cache_inv (store now spec c)" "cached_page (store now spec c) = cached_page c"
    "mget (cmVolumeCache (store now spec c)) = (mget (cmVolumeCache c))(vID spec \<mapsto> \<lparr>cvSpec = spec, cvExpiresAt = now + cmTTL c\<rparr>)"
    "cmNext (store now spec c) = cmNext c" "cmMaxExtentPages (store now spec c) = cmMaxExtentPages c"
proof -
  have "page_index (store now spec c) = page_index c" and pages: "cached_page (store now spec c) = cached_page c"
    by (rule page_index_cong; simp add: store_def)+
  then show "cache_inv (store now spec c)"
    using assms by (simp add: cache_inv_def within_bound_def store_def)
  show "cached_page (store now spec c) = cached_page c"
    by (rule pages)
  show "mget (cmVolumeCache (store now spec c)) = (mget (cmVolumeCache c))(vID spec \<mapsto> \<lparr>cvSpec = spec, cvExpiresAt = now + cmTTL c\<rparr>)"
    "cmNext (store now spec c) = cmNext c" "cmMaxExtentPages (store now spec c) = cmMaxExtentPages c"
    by (simp_all add: store_def)
qed

lemma max_fields [simp]:
  "cmMaxExtentPages (removeCachedPage v n c) = cmMaxExtentPages c"
  "cmMaxExtentPages (fold (removeCachedPage v) ns c) = cmMaxExtentPages c"
  "cmMaxExtentPages (invalidate v c) = cmMaxExtentPages c"
  "cmMaxExtentPages (snd (loadExtentPage now v n c)) = cmMaxExtentPages c"
  "cmMaxExtentPages (fold (storeExtentPage now) ps c) = cmMaxExtentPages c"
proof -
  show r: "cmMaxExtentPages (removeCachedPage v n c) = cmMaxExtentPages c" for n c
    by (simp add: removeCachedPage_def split: option.split)
  show f: "cmMaxExtentPages (fold (removeCachedPage v) ns c) = cmMaxExtentPages c" for ns c
    by (induction ns arbitrary: c) (simp_all add: r)
  show "cmMaxExtentPages (invalidate v c) = cmMaxExtentPages c"
    by (simp add: invalidate_def invalidateExtentPagesLocked_def Let_def f split: option.split)
  show "cmMaxExtentPages (snd (loadExtentPage now v n c)) = cmMaxExtentPages c"
    by (simp add: loadExtentPage_def split: option.split)
  show "cmMaxExtentPages (fold (storeExtentPage now) ps c) = cmMaxExtentPages c"
    by (induction ps arbitrary: c) simp_all
qed

lemma fold_store_keeps: "cache_inv c \<Longrightarrow> cache_inv (fold (storeExtentPage now) ps c)"
  by (induction ps arbitrary: c) (simp_all add: storeExtentPage_keeps(1))

lemma through_keeps:
  assumes "P c" and "\<And>x. P (update x c)"
  shows "P (fst (snd (through f update (c, m))))"
  using assms by (cases "f (cmNext c) m") (auto simp: through_def split: sum.split)

definition bounded_by :: "int \<Rightarrow> 'm cachedMetadataRepository \<Rightarrow> bool" where
  "bounded_by n c \<longleftrightarrow> cache_inv c \<and> cmMaxExtentPages c = n"

lemma bounded_updates:
  assumes "bounded_by n c"
  shows "bounded_by n (invalidate v c)" "bounded_by n (store now spec c)" "bounded_by n (storeExtentPage now p c)"
    "bounded_by n (fold (storeExtentPage now) ps c)" "bounded_by n (snd (loadExtentPage now v k c))"
  using assms
  by (simp_all add: bounded_by_def invalidate_keeps(1) store_keeps(1,5) storeExtentPage_keeps(1) fold_store_keeps
      loadExtentPage_keeps(1))

lemmas cached_ops = cEnsureVolume_def cCreateVolume_def cUpdateVolume_def cDeleteVolume_def cPutVolumeStatus_def
  cSetVolumeState_def cUnsafeClearAttachment_def cUnsafeSetGeneration_def cAttach_def cDetach_def cPutGateway_def
  cListExtentPages_def cPutExtentPage_def cAllocateChunkIDs_def cPutChunkGarbage_def cDeleteChunkGarbage_def
  cSyncVolumeSpec_def cGetVolumeStatus_def cListVolumes_def cGetAttachment_def cGetGeneration_def cGetGateway_def
  cListGateways_def cListChunkGarbage_def

lemma cached_step_bounded:
  assumes "bounded_by n (fst s)"
  shows "bounded_by n (fst (snd (cached_step opt now op s)))"
proof -
  obtain c m where s: "s = (c, m)" by fastforce
  have c: "bounded_by n c" using assms s by simp
  have T: "bounded_by n (fst (snd (through f update (d, m))))"
    if "bounded_by n d" "\<And>x. bounded_by n (update x d)"
    for f :: "'a MetadataRepository \<Rightarrow> 'a \<Rightarrow> (service_error + 'b) \<times> 'a" and update d
    by (rule through_keeps[where P = "bounded_by n"]) (use that in auto)
  note B = bounded_updates[OF c]
  show ?thesis
  proof (cases op)
    case (CoGetVolume i)
    then show ?thesis
      using c B(2) by (auto simp: s tagged_def cGetVolume_def split: option.split intro!: T)
  next
    case (CoRefreshVolume i)
    have "bounded_by n (store now v (invalidate i c))" for v
      using bounded_updates(2)[OF B(1)] .
    then show ?thesis
      using CoRefreshVolume c B(1,2) by (auto simp: s tagged_def cRefreshVolume_def split: option.split intro!: T)
  next
    case (CoGetExtentPage i k)
    obtain o' d where L: "loadExtentPage now i k c = (o', d)" by fastforce
    then have "bounded_by n d" using B(5)[of now i k] by simp
    then show ?thesis
      using CoGetExtentPage L bounded_updates(3)
      by (auto simp: s tagged_def cGetExtentPage_def split: option.split intro!: T)
  qed (use c B in \<open>auto simp: s tagged_def cached_ops intro!: T\<close>)
qed

lemma run_steps_inv:
  assumes "P s" and "\<And>now op s. P s \<Longrightarrow> P (snd (step now op s))"
  shows "P (snd (run_steps step ops s))"
  using assms(1)
proof (induction ops arbitrary: s)
  case (Cons o' ops)
  obtain now op where o: "o' = (now, op)" by fastforce
  obtain r s1 where 1: "step now op s = (r, s1)" by fastforce
  then have "P s1" using assms(2)[OF Cons.prems, of now op] by simp
  then show ?case
    using Cons.IH[of s1] by (simp add: o 1 case_prod_beta)
qed simp

lemma bounded_new: "NewCachedMetadataRepository next ttl = Some c \<Longrightarrow> bounded_by 4096 c"
  by (auto simp: NewCachedMetadataRepository_def bounded_by_def cache_inv_def page_index_def within_bound_def
      defaultExtentPageCacheEntries_def mget_or_def split: if_splits)

text \<open>
  C38. Whatever repository stands behind it, a new cache never holds more than 4096 extent pages: after any
  sequence of operations the list of pages is at most that long, each cached key is in it exactly
  once, and the per-volume index that invalidation walks names exactly the cached pages.
\<close>

theorem cache_stays_bounded:
  assumes "NewCachedMetadataRepository next ttl = Some c"
  shows "let d = fst (snd (run_steps (cached_step opt) ops (c, m)))
    in length (cmExtentPageLRU d) \<le> 4096 \<and> distinct (map (cxKey \<circ> snd) (cmExtentPageLRU d))
      \<and> ((\<exists>x \<in> set (cmExtentPageLRU d). cxKey (snd x) = (v, n)) \<longleftrightarrow> n \<in> set (mget_or [] (cmVolumePages d) v))"
proof -
  let ?d = "fst (snd (run_steps (cached_step opt) ops (c, m)))"
  have "bounded_by 4096 ?d"
    by (rule run_steps_inv[where P = "\<lambda>s. bounded_by 4096 (fst s)"])
      (simp_all add: bounded_new[OF assms(1)] cached_step_bounded)
  then have inv: "page_index ?d" and bound: "int (length (cmExtentPageLRU ?d)) \<le> 4096"
    by (auto simp: bounded_by_def cache_inv_def within_bound_def)
  have "inj_on (cxKey \<circ> snd) (set (cmExtentPageLRU ?d))"
    using page_index_entry(4)[OF inv] by (auto intro!: inj_onI)
  then have "distinct (map (cxKey \<circ> snd) (cmExtentPageLRU ?d))"
    using page_indexD(1)[OF inv] by (simp add: distinct_map)
  moreover have "(\<exists>x \<in> set (cmExtentPageLRU ?d). cxKey (snd x) = (v, n)) \<longleftrightarrow> n \<in> set (mget_or [] (cmVolumePages ?d) v)"
    unfolding cached_page_index[OF inv, of v n, symmetric]
    using cached_page_iff[OF inv, of "(v, n)"] by force
  ultimately show ?thesis
    using bound by (simp add: Let_def)
qed

subsection \<open>Coherence\<close>

text \<open>
  What the cache holds is what the repository would answer. Expired entries are covered too: nothing
  behind the cache changes without it.
\<close>

definition coherent :: "'m MetadataRepository \<Rightarrow> 'm cachedMetadataRepository \<Rightarrow> 'm \<Rightarrow> bool" where
  "coherent meta c m \<longleftrightarrow> cache_inv c \<and> cmNext c = meta
     \<and> (\<forall>i e. mget (cmVolumeCache c) i = Some e \<longrightarrow> mrGetVolume meta i m = Inr (cvSpec e))
     \<and> (\<forall>k x. cached_page c k = Some x \<longrightarrow> mrGetExtentPage meta (fst k) (snd k) m = Inr (cxPage x))"

text \<open>The answers of the repository that an operation keeps, outside a set of volumes or of pages.\<close>

definition keeps_volumes :: "'m MetadataRepository \<Rightarrow> u64 set \<Rightarrow> 'm \<Rightarrow> 'm \<Rightarrow> bool" where
  "keeps_volumes meta V m m' \<longleftrightarrow>
     (\<forall>i v. i \<notin> V \<longrightarrow> mrGetVolume meta i m = Inr v \<longrightarrow> mrGetVolume meta i m' = Inr v)"

definition keeps_pages :: "'m MetadataRepository \<Rightarrow> (u64 \<times> u64) set \<Rightarrow> 'm \<Rightarrow> 'm \<Rightarrow> bool" where
  "keeps_pages meta K m m' \<longleftrightarrow>
     (\<forall>i n p. (i, n) \<notin> K \<longrightarrow> mrGetExtentPage meta i n m = Inr p \<longrightarrow> mrGetExtentPage meta i n m' = Inr p)"

lemma keeps_refl [simp]: "keeps_volumes meta V m m" "keeps_pages meta K m m"
  by (simp_all add: keeps_volumes_def keeps_pages_def)

lemma coherent_keeps:
  "coherent meta c m \<Longrightarrow> keeps_volumes meta {} m m' \<Longrightarrow> keeps_pages meta {} m m' \<Longrightarrow> coherent meta c m'"
  unfolding coherent_def keeps_volumes_def keeps_pages_def by blast

lemma coherent_invalidate:
  assumes "coherent meta c m" "keeps_volumes meta {i} m m'" "keeps_pages meta ({i} \<times> UNIV) m m'"
  shows "coherent meta (invalidate i c) m'"
proof -
  have inv: "cache_inv c" using assms(1) by (simp add: coherent_def)
  show ?thesis
    using assms unfolding coherent_def keeps_volumes_def keeps_pages_def invalidate_keeps(2-4)[OF inv]
    by (simp add: invalidate_keeps(1)[OF inv])
qed

lemma coherent_store:
  assumes "coherent meta c m" "keeps_volumes meta {vID v} m m'" "keeps_pages meta {} m m'"
    "mrGetVolume meta (vID v) m' = Inr v"
  shows "coherent meta (store now v c) m'"
proof -
  have inv: "cache_inv c" using assms(1) by (simp add: coherent_def)
  show ?thesis
    using assms unfolding coherent_def keeps_volumes_def keeps_pages_def store_keeps(2-4)[OF inv]
    by (simp add: store_keeps(1)[OF inv])
qed

lemma coherent_storePage:
  assumes "coherent meta c m" "keeps_volumes meta {} m m'" "keeps_pages meta {(pgVolumeID p, pgPageNo p)} m m'"
    "mrGetExtentPage meta (pgVolumeID p) (pgPageNo p) m' = Inr p"
  shows "coherent meta (storeExtentPage now p c) m'"
proof -
  have inv: "cache_inv c" using assms(1) by (simp add: coherent_def)
  have "mrGetExtentPage meta (fst k) (snd k) m' = Inr (cxPage x)"
    if x: "cached_page (storeExtentPage now p c) k = Some x" for k x
  proof (cases "k = (pgVolumeID p, pgPageNo p)")
    case True
    with map_le_Some[OF storeExtentPage_keeps(2)[OF inv] x] show ?thesis
      using assms(4) by auto
  next
    case False
    with map_le_Some[OF storeExtentPage_keeps(2)[OF inv] x] have "cached_page c k = Some x"
      by simp
    then show ?thesis
      using assms(1,3) False unfolding coherent_def keeps_pages_def by (metis prod.collapse singletonD)
  qed
  then show ?thesis
    using assms(1,2) storeExtentPage_keeps(1)[OF inv] by (simp add: coherent_def keeps_volumes_def)
qed

lemma coherent_storePages:
  assumes "coherent meta c m" "\<And>p. p \<in> set ps \<Longrightarrow> mrGetExtentPage meta (pgVolumeID p) (pgPageNo p) m = Inr p"
  shows "coherent meta (fold (storeExtentPage now) ps c) m"
  using assms
proof (induction ps arbitrary: c)
  case (Cons p ps)
  then have "coherent meta (storeExtentPage now p c) m"
    by (intro coherent_storePage[where m = m]) simp_all
  then show ?case
    using Cons by simp
qed simp

lemma coherent_load:
  assumes "coherent meta c m"
  shows "coherent meta (snd (loadExtentPage now i n c)) m"
    "fst (loadExtentPage now i n c) = Some p \<Longrightarrow> mrGetExtentPage meta i n m = Inr p"
proof -
  have inv: "cache_inv c" using assms by (simp add: coherent_def)
  note L = loadExtentPage_keeps[OF inv, of now i n]
  show "coherent meta (snd (loadExtentPage now i n c)) m"
    using assms L(1,4,5) map_le_Some[OF L(2)] by (simp add: coherent_def)
  show "mrGetExtentPage meta i n m = Inr p" if "fst (loadExtentPage now i n c) = Some p"
    using assms that L(3) by (force simp: coherent_def split: option.splits if_splits)
qed

lemma coherent_new: "NewCachedMetadataRepository meta ttl = Some c \<Longrightarrow> coherent meta c m"
  using bounded_new[of meta ttl c]
  by (auto simp: NewCachedMetadataRepository_def coherent_def bounded_by_def cached_page_def split: if_splits)

subsection \<open>A repository that can be cached\<close>

text \<open>
  What an operation may change of the answers of the repository. Operations that the cache follows by an
  invalidation may change one volume and its pages, those whose result it stores may change that volume
  or that page, and every other one changes neither volumes nor pages.
\<close>

fun invalidated :: "cache_op \<Rightarrow> u64 set" where
  "invalidated (CoEnsureVolume v) = {vID v}"
| "invalidated (CoDeleteVolume i) = {i}"
| "invalidated (CoPutVolumeStatus st) = {sVolumeID st}"
| "invalidated (CoUnsafeClearAttachment i) = {i}"
| "invalidated (CoUnsafeSetGeneration i k) = {i}"
| "invalidated (CoAttach q) = {arVolumeID q}"
| "invalidated (CoDetach q) = {drVolumeID q}"
| "invalidated _ = {}"

fun stored_volume :: "cache_op \<Rightarrow> cache_result \<Rightarrow> u64 set" where
  "stored_volume (CoSyncVolumeSpec v) _ = {vID v}"
| "stored_volume (CoRefreshVolume i) (RsSpec v) = {vID v}"
| "stored_volume (CoCreateVolume ds q) (RsSpec v) = {vID v}"
| "stored_volume (CoUpdateVolume i q) (RsSpec v) = {vID v}"
| "stored_volume (CoSetVolumeState i st) (RsSpec v) = {vID v}"
| "stored_volume _ _ = {}"

fun stored_page :: "cache_op \<Rightarrow> cache_result \<Rightarrow> (u64 \<times> u64) set" where
  "stored_page (CoPutExtentPage p e) (RsPage q) = {(pgVolumeID q, pgPageNo q)}"
| "stored_page _ _ = {}"

locale cacheable_repository =
  fixes meta :: "'m MetadataRepository" and opt :: "'m optional_methods" and minv :: "'m \<Rightarrow> bool"
    and keeps_geometry :: "cache_op \<Rightarrow> 'm \<Rightarrow> bool"
  assumes step_inv: "minv m \<Longrightarrow> minv (snd (plain_step meta opt now op m))"
    and failed_step: "minv m \<Longrightarrow> plain_step meta opt now op m = (Inl e, m') \<Longrightarrow>
      keeps_volumes meta {} m m' \<and> keeps_pages meta {} m m'"
    and volumes_step: "minv m \<Longrightarrow> plain_step meta opt now op m = (Inr x, m') \<Longrightarrow>
      keeps_volumes meta (invalidated op \<union> stored_volume op x) m m'"
    and pages_step: "minv m \<Longrightarrow> keeps_geometry op m \<Longrightarrow> plain_step meta opt now op m = (Inr x, m') \<Longrightarrow>
      keeps_pages meta (invalidated op \<times> UNIV \<union> stored_page op x) m m'"
    and volume_stored: "minv m \<Longrightarrow> plain_step meta opt now op m = (Inr (RsSpec v), m') \<Longrightarrow>
      mrGetVolume meta (vID v) m' = Inr v"
    and sync_stored: "minv m \<Longrightarrow> plain_step meta opt now (CoSyncVolumeSpec s) m = (Inr x, m') \<Longrightarrow>
      mrGetVolume meta (vID s) m' = Inr (NormalizeVolumeSpec s)"
    and page_stored: "minv m \<Longrightarrow> plain_step meta opt now op m = (Inr (RsPage p), m') \<Longrightarrow>
      mrGetExtentPage meta (pgVolumeID p) (pgPageNo p) m' = Inr p"
    and pages_listed: "minv m \<Longrightarrow> mrListExtentPages meta i m = Inr ps \<Longrightarrow> p \<in> set ps \<Longrightarrow>
      mrGetExtentPage meta (pgVolumeID p) (pgPageNo p) m = Inr p"

text \<open>A step through the cache and the same step without it: same result, same repository, coherence.\<close>

definition agrees :: "'m MetadataRepository \<Rightarrow> (service_error + 'a) \<times> 'm \<Rightarrow>
    (service_error + 'a) \<times> ('m cachedMetadataRepository \<times> 'm) \<Rightarrow> bool" where
  "agrees meta plain cached \<longleftrightarrow> fst cached = fst plain \<and> snd (snd cached) = snd plain
     \<and> coherent meta (fst (snd cached)) (snd plain)"

context cacheable_repository
begin

lemma through_agrees:
  assumes "minv m" "coherent meta c m" "plain_step meta opt now op m = plain" "plain = tagged g (f meta m)"
    and update: "\<And>x m'. plain_step meta opt now op m = (Inr (g x), m') \<Longrightarrow> coherent meta (update x c) m'"
  shows "agrees meta plain (tagged g (through f update (c, m)))"
proof -
  have nxt: "cmNext c = meta" using assms(2) by (simp add: coherent_def)
  obtain r m' where F: "f meta m = (r, m')" by fastforce
  show ?thesis
  proof (cases r)
    case (Inl e)
    then have "plain_step meta opt now op m = (Inl e, m')"
      using assms(3,4) F by (simp add: tagged_def)
    then have "coherent meta c m'"
      using failed_step[OF assms(1)] coherent_keeps[OF assms(2)] by blast
    then show ?thesis
      using assms(3,4) F Inl nxt by (simp add: agrees_def tagged_def through_def)
  next
    case (Inr x)
    then have "plain_step meta opt now op m = (Inr (g x), m')"
      using assms(3,4) F by (simp add: tagged_def)
    from update[OF this] show ?thesis
      using assms(3,4) F Inr nxt by (simp add: agrees_def tagged_def through_def)
  qed
qed

lemma step_agrees:
  assumes "minv m" "coherent meta c m" and geometry: "keeps_geometry op m"
  shows "agrees meta (plain_step meta opt now op m) (cached_step opt now op (c, m))"
proof -
  note V = volumes_step[OF assms(1), of now op] and P = pages_step[OF assms(1) geometry, of now]
    and VS = volume_stored[OF assms(1), of now op] and PS = page_stored[OF assms(1), of now op]
  note T = through_agrees[OF assms(1,2), of now op] and C = coherent_store[OF assms(2)]
    coherent_storePage[OF assms(2)] coherent_invalidate[OF assms(2)] coherent_keeps[OF assms(2)]
  show ?thesis
  proof (cases op)
    case (CoGetVolume i)
    show ?thesis
    proof (cases "load now c i")
      case (Some v)
      then have "mrGetVolume meta i m = Inr v"
        using assms(2) by (auto simp: coherent_def load_def split: option.splits if_splits)
      then show ?thesis
        using CoGetVolume Some assms(2) by (simp add: cGetVolume_def agrees_def tagged_def)
    next
      case None
      have "coherent meta (store now v c) m'" if "plain_step meta opt now op m = (Inr (RsSpec v), m')" for v m'
        using C(1) VS[OF that] that CoGetVolume by (auto simp: tagged_def)
      then show ?thesis
        using CoGetVolume None by (auto simp: cGetVolume_def intro!: T)
    qed
  next
    case (CoRefreshVolume i)
    have d: "coherent meta (invalidate i c) m"
      by (rule coherent_invalidate[OF assms(2)]) simp_all
    have "coherent meta (store now v e) m'"
      if "plain_step meta opt now op m = (Inr (RsSpec v), m')" "coherent meta e m" for v e m'
      using coherent_store[OF that(2)] V[OF that(1)] P[OF that(1)] VS[OF that(1)] CoRefreshVolume by auto
    then show ?thesis
      using CoRefreshVolume assms(2) d
      by (auto simp: cRefreshVolume_def split: option.split intro!: through_agrees[OF assms(1), of _ now op])
  next
    case (CoSyncVolumeSpec v)
    have "coherent meta (store now (NormalizeVolumeSpec v) c) m'"
      if "plain_step meta opt now op m = (Inr (RsUnit u), m')" for u m'
      using coherent_store[OF assms(2)] V[OF that] P[OF that] sync_stored[OF assms(1), of now v] that CoSyncVolumeSpec
      by auto
    then show ?thesis
      using CoSyncVolumeSpec by (auto simp: cached_ops split: option.split intro!: T)
  next
    case (CoGetExtentPage i n)
    obtain l d where L: "loadExtentPage now i n c = (l, d)" by fastforce
    have d: "coherent meta d m" and hit: "l = Some p \<Longrightarrow> mrGetExtentPage meta i n m = Inr p" for p
      using coherent_load[OF assms(2), of now i n] L by simp_all
    show ?thesis
    proof (cases l)
      case (Some p)
      then show ?thesis
        using CoGetExtentPage L hit d by (simp add: cGetExtentPage_def agrees_def tagged_def)
    next
      case None
      have "coherent meta (storeExtentPage now p d) m'" if "plain_step meta opt now op m = (Inr (RsPage p), m')" for p m'
        using coherent_storePage[OF d] PS[OF that] that CoGetExtentPage by (auto simp: tagged_def)
      then show ?thesis
        using CoGetExtentPage None L
        by (auto simp: cGetExtentPage_def intro!: through_agrees[OF assms(1) d, of now op])
    qed
  next
    case (CoListExtentPages i)
    have "coherent meta (fold (storeExtentPage now) ps c) m'"
      if "plain_step meta opt now op m = (Inr (RsPages ps), m')" for ps m'
    proof -
      have "mrListExtentPages meta i m = Inr ps" "m' = m"
        using that CoListExtentPages by (cases "mrListExtentPages meta i m"; simp add: tagged_def)+
      then show ?thesis
        using pages_listed[OF assms(1)] coherent_storePages[OF assms(2)] by blast
    qed
    then show ?thesis
      using CoListExtentPages by (auto simp: cached_ops intro!: T)
  qed (use V P VS PS in \<open>auto simp: cached_ops intro!: T C\<close>)
qed

lemma run_agrees:
  assumes "minv m" "coherent meta c m" "along_run keeps_geometry (plain_step meta opt) ops m"
  shows "fst (run_steps (cached_step opt) ops (c, m)) = fst (run_steps (plain_step meta opt) ops m)
    \<and> snd (snd (run_steps (cached_step opt) ops (c, m))) = snd (run_steps (plain_step meta opt) ops m)"
  using assms
proof (induction ops arbitrary: c m)
  case (Cons o' ops)
  obtain now op where o: "o' = (now, op)" by fastforce
  obtain r m1 where plain: "plain_step meta opt now op m = (r, m1)" by fastforce
  obtain c1 where cached: "cached_step opt now op (c, m) = (r, (c1, m1))" and "coherent meta c1 m1"
    using step_agrees[OF Cons.prems(1,2), of op now] Cons.prems(3) plain
    by (cases "cached_step opt now op (c, m)") (auto simp: agrees_def o)
  moreover have "minv m1"
    using step_inv[OF Cons.prems(1), of now op] plain by simp
  ultimately show ?case
    using Cons.IH[of m1 c1] Cons.prems(3) by (simp add: o plain case_prod_beta)
qed simp

end

subsection \<open>The in-memory repository can be cached\<close>

text \<open>
  The in-memory repository has SyncVolumeSpec and no RefreshVolume. A synchronization keeps the
  geometry of a volume if it changes neither its page size nor its chunk size.
\<close>

definition memory_optional :: "repo optional_methods" where
  "memory_optional = \<lparr>xtSyncVolumeSpec = Some SyncVolumeSpec, xtRefreshVolume = None\<rparr>"

definition same_geometry :: "VolumeSpec \<Rightarrow> VolumeSpec \<Rightarrow> bool" where
  "same_geometry v w \<longleftrightarrow> vExtentPageBytes v = vExtentPageBytes w \<and> vChunkSizeBytes v = vChunkSizeBytes w"

fun sync_keeps_geometry :: "cache_op \<Rightarrow> repo \<Rightarrow> bool" where
  "sync_keeps_geometry (CoSyncVolumeSpec v) r =
     (case mget (mVolumes r) (vID v) of None \<Rightarrow> True | Some w \<Rightarrow> same_geometry (NormalizeVolumeSpec v) w)"
| "sync_keeps_geometry _ r = True"

lemma memory_optional_methods [simp]:
  "xtSyncVolumeSpec memory_optional = Some SyncVolumeSpec" "xtRefreshVolume memory_optional = None"
  by (simp_all add: memory_optional_def)

lemma memory_methods:
  "mrEnsureVolume inMemoryRepository = EnsureVolume" "mrCreateVolume inMemoryRepository = CreateVolume"
  "mrUpdateVolume inMemoryRepository = UpdateVolume" "mrDeleteVolume inMemoryRepository = DeleteVolume"
  "mrGetVolume inMemoryRepository = GetVolume" "mrPutVolumeStatus inMemoryRepository = PutVolumeStatus"
  "mrSetVolumeState inMemoryRepository = SetVolumeState"
  "mrUnsafeClearAttachment inMemoryRepository = UnsafeClearAttachment"
  "mrUnsafeSetGeneration inMemoryRepository = UnsafeSetGeneration" "mrAttach inMemoryRepository = Attach"
  "mrDetach inMemoryRepository = Detach" "mrPutGateway inMemoryRepository = PutGateway"
  "mrGetExtentPage inMemoryRepository = GetExtentPage" "mrListExtentPages inMemoryRepository = ListExtentPages"
  "mrPutExtentPage inMemoryRepository = PutExtentPage" "mrAllocateChunkIDs inMemoryRepository = AllocateChunkIDs"
  "mrPutChunkGarbage inMemoryRepository = PutChunkGarbage"
  "mrDeleteChunkGarbage inMemoryRepository = DeleteChunkGarbage"
  by (simp_all add: inMemoryRepository_def)

lemma memory_keeps_volumes:
  assumes "\<And>i v. i \<notin> V \<Longrightarrow> mget (mVolumes r) i = Some v \<Longrightarrow> mget (mVolumes r') i = Some v"
  shows "keeps_volumes inMemoryRepository V r r'"
  using assms by (fastforce simp: keeps_volumes_def inMemoryRepository_def GetVolume_def split: option.splits)

lemma memory_keeps_pages:
  assumes "\<And>i n v. (i, n) \<notin> K \<Longrightarrow> mget (mVolumes r) i = Some v \<Longrightarrow>
      (\<exists>w. mget (mVolumes r') i = Some w \<and> vExtentPageBytes w = vExtentPageBytes v \<and> vChunkSizeBytes w = vChunkSizeBytes v)
      \<and> mget (pages_of r' i) n = mget (pages_of r i) n"
  shows "keeps_pages inMemoryRepository K r r'"
proof -
  have "GetExtentPage i n r' = Inr p" if k: "(i, n) \<notin> K" and p: "GetExtentPage i n r = Inr p" for i n p
  proof -
    obtain v where v: "mget (mVolumes r) i = Some v"
      using p by (auto simp: GetExtentPage_def split: option.splits)
    obtain w where w: "mget (mVolumes r') i = Some w" "vExtentPageBytes w = vExtentPageBytes v"
      "vChunkSizeBytes w = vChunkSizeBytes v"
      using assms[OF k v] by blast
    have same: "mget (pages_of r' i) n = mget (pages_of r i) n"
      using assms[OF k v] by blast
    show ?thesis
      using p v w by (simp add: GetExtentPage_def same split: option.splits)
  qed
  then show ?thesis
    by (simp add: keeps_pages_def inMemoryRepository_def)
qed

lemma memory_step_wf: "repo_wf r \<Longrightarrow> repo_wf (snd (plain_step inMemoryRepository memory_optional now op r))"
  by (cases op) (simp_all add: tagged_def inMemoryRepository_def wf_EnsureVolume wf_CreateVolume wf_UpdateVolume
      wf_DeleteVolume wf_PutVolumeStatus wf_SetVolumeState wf_UnsafeClearAttachment wf_UnsafeSetGeneration wf_Attach
      wf_Detach wf_ops)

text \<open>An operation that fails leaves the repository as it was.\<close>

definition fails_cleanly :: "repo \<Rightarrow> (service_error + 'a) \<times> repo \<Rightarrow> bool" where
  "fails_cleanly r q \<longleftrightarrow> (case fst q of Inl _ \<Rightarrow> snd q = r | Inr _ \<Rightarrow> True)"

lemma fails_cleanly_simps [simp]:
  "fails_cleanly r (Inl e, r)" "fails_cleanly r (Inr x, r')" "fails_cleanly r (tagged g q) = fails_cleanly r q"
  "fails_cleanly r (a, r)"
  by (simp_all add: fails_cleanly_def tagged_def split: sum.split)

lemma memory_fails_cleanly:
  "fails_cleanly r (EnsureVolume v r)" "fails_cleanly r (CreateVolume ds cr r)" "fails_cleanly r (UpdateVolume i ur r)"
  "fails_cleanly r (DeleteVolume i r)" "fails_cleanly r (PutVolumeStatus vs r)" "fails_cleanly r (SetVolumeState i st r)"
  "fails_cleanly r (UnsafeClearAttachment i r)" "fails_cleanly r (UnsafeSetGeneration i k r)"
  "fails_cleanly r (Attach now aq r)" "fails_cleanly r (Detach dq r)" "fails_cleanly r (PutGateway g r)"
  "fails_cleanly r (AllocateChunkIDs i n r)" "fails_cleanly r (PutChunkGarbage now gc r)"
  "fails_cleanly r (DeleteChunkGarbage i k r)" "repo_wf r \<Longrightarrow> fails_cleanly r (PutExtentPage p e r)"
  "fails_cleanly r (SyncVolumeSpec v r)"
  by (simp_all add: EnsureVolume_def SyncVolumeSpec_def CreateVolume_def UpdateVolume_def DeleteVolume_def
        PutVolumeStatus_def SetVolumeState_def UnsafeClearAttachment_def UnsafeSetGeneration_def Attach_def Detach_def
        PutGateway_def PutExtentPage_wf_eq AllocateChunkIDs_def PutChunkGarbage_def DeleteChunkGarbage_def Let_def
        split: option.split sum.split)

lemma memory_failed_step:
  assumes "repo_wf r" "plain_step inMemoryRepository memory_optional now op r = (Inl e, r')"
  shows "r' = r"
proof -
  have "fails_cleanly r (plain_step inMemoryRepository memory_optional now op r)"
    using assms(1) by (cases op) (simp_all add: memory_methods memory_fails_cleanly)
  then show ?thesis
    using assms(2) by (simp add: fails_cleanly_def)
qed

lemma normalize_keeps_geometry:
  "vExtentPageBytes v \<noteq> 0 \<Longrightarrow> vExtentPageBytes (NormalizeVolumeSpec v) = vExtentPageBytes v"
  "vChunkSizeBytes v \<noteq> 0 \<Longrightarrow> vChunkSizeBytes (NormalizeVolumeSpec v) = vChunkSizeBytes v"
  by (simp_all add: NormalizeVolumeSpec_def)

lemma memory_UpdateVolume:
  assumes "repo_wf r" "UpdateVolume i q r = (Inr w, r')"
  obtains v where "mget (mVolumes r) i = Some v" "vID w = i" "vExtentPageBytes w = vExtentPageBytes v"
    "vChunkSizeBytes w = vChunkSizeBytes v" "r' = r\<lparr>mVolumes := mput i w (mVolumes r)\<rparr>"
proof -
  obtain v where v: "mget (mVolumes r) i = Some v"
    using assms(2) by (auto simp: UpdateVolume_def split: option.splits)
  then have wf: "volume_wf i v"
    using repo_wfD(2)[OF assms(1), of i] by (simp add: slot_wf_def volume_exists_def)
  obtain u where u: "rename_volume r i (urName q) v = Inr u"
    using assms(2) v by (auto simp: UpdateVolume_def Let_def split: sum.splits)
  note R = rename_volume_wf[OF u]
  have "vID w = i" "vExtentPageBytes w = vExtentPageBytes v" "vChunkSizeBytes w = vChunkSizeBytes v"
    "r' = r\<lparr>mVolumes := mput i w (mVolumes r)\<rparr>"
    using assms(2) v u wf R
    by (auto simp: UpdateVolume_def Let_def volume_wf_def normalize_keeps_geometry split: sum.splits if_splits)
  with v that show ?thesis by blast
qed

lemma memory_SetVolumeState:
  assumes "repo_wf r" "SetVolumeState i st r = (Inr w, r')"
  obtains v where "mget (mVolumes r) i = Some v" "vID w = i" "vExtentPageBytes w = vExtentPageBytes v"
    "vChunkSizeBytes w = vChunkSizeBytes v" "r' = r\<lparr>mVolumes := mput i w (mVolumes r)\<rparr>"
  using assms repo_wfD(2)[OF assms(1), of i]
  by (auto simp: SetVolumeState_def Let_def slot_wf_def volume_exists_def volume_wf_def split: option.splits)

lemma memory_SyncVolumeSpec:
  assumes "SyncVolumeSpec s r = (Inr x, r')"
  obtains v where "mget (mVolumes r) (vID s) = Some v"
    "r' = r\<lparr>mVolumes := mput (vID s) (NormalizeVolumeSpec s) (mVolumes r)\<rparr>"
  using assms by (auto simp: SyncVolumeSpec_def Let_def volume_exists_def cloneVolumeSpec_def split: if_splits)

lemma memory_CreateVolume:
  assumes "CreateVolume ds q r = (Inr w, r')"
  shows "mget (mVolumes r) (vID w) = None" "r' = add_volume w r"
  using assms
  by (auto simp: CreateVolume_def generateUniqueVolumeIDMemory_def Let_def dest!: generate_id_fresh
      split: sum.splits if_splits)

lemma memory_put_same:
  assumes "mget (mVolumes r) i = Some v" "vExtentPageBytes w = vExtentPageBytes v" "vChunkSizeBytes w = vChunkSizeBytes v"
  shows "keeps_volumes inMemoryRepository {i} r (r\<lparr>mVolumes := mput i w (mVolumes r)\<rparr>)"
    "keeps_pages inMemoryRepository {} r (r\<lparr>mVolumes := mput i w (mVolumes r)\<rparr>)"
  using assms by (auto intro!: memory_keeps_volumes memory_keeps_pages simp: pages_of_def split: if_splits)

definition same_slot :: "repo \<Rightarrow> repo \<Rightarrow> u64 \<Rightarrow> bool" where
  "same_slot r r' j \<longleftrightarrow> mget (mVolumes r') j = mget (mVolumes r) j \<and> mget (mExtentPages r') j = mget (mExtentPages r) j"

lemma same_slot_trivial:
  "same_slot r r j" "mVolumes r' = mVolumes r \<Longrightarrow> mExtentPages r' = mExtentPages r \<Longrightarrow> same_slot r r' j"
  "mVolumes r' = mVolumes r \<Longrightarrow> mExtentPages r' = mExtentPages r \<Longrightarrow> j \<noteq> i \<Longrightarrow> same_slot r (set_volume_state i st r') j"
  by (simp_all add: same_slot_def set_volume_state_def split: option.split)

lemma memory_frame:
  "j \<noteq> vID v \<Longrightarrow> same_slot r (snd (EnsureVolume v r)) j"
  "j \<noteq> i \<Longrightarrow> same_slot r (snd (DeleteVolume i r)) j"
  "same_slot r (snd (PutVolumeStatus st r)) j"
  "j \<noteq> i \<Longrightarrow> same_slot r (snd (UnsafeClearAttachment i r)) j"
  "same_slot r (snd (UnsafeSetGeneration i k r)) j"
  "j \<noteq> arVolumeID q \<Longrightarrow> same_slot r (snd (Attach now q r)) j"
  "j \<noteq> drVolumeID p \<Longrightarrow> same_slot r (snd (Detach p r)) j"
proof -
  show "j \<noteq> vID v \<Longrightarrow> same_slot r (snd (EnsureVolume v r)) j" "j \<noteq> i \<Longrightarrow> same_slot r (snd (DeleteVolume i r)) j"
    by (auto simp: EnsureVolume_def DeleteVolume_def add_volume_def same_slot_def Let_def split: option.split)
  show "same_slot r (snd (PutVolumeStatus st r)) j" "same_slot r (snd (UnsafeSetGeneration i k r)) j"
    by (simp_all add: PutVolumeStatus_def UnsafeSetGeneration_def Let_def same_slot_trivial)
  show "j \<noteq> i \<Longrightarrow> same_slot r (snd (UnsafeClearAttachment i r)) j"
    by (simp add: UnsafeClearAttachment_def Let_def same_slot_trivial)
  show "j \<noteq> drVolumeID p \<Longrightarrow> same_slot r (snd (Detach p r)) j"
    by (simp add: Detach_def Let_def same_slot_trivial)
  show "same_slot r (snd (Attach now q r)) j" if "j \<noteq> arVolumeID q"
    unfolding Attach_def Let_def using that
    by (cases "mget (mVolumes r) (arVolumeID q)") (simp_all add: same_slot_trivial)
qed

lemma same_slot_keeps:
  assumes "\<And>j. j \<notin> V \<Longrightarrow> same_slot r r' j"
  shows "keeps_volumes inMemoryRepository V r r'" "keeps_pages inMemoryRepository (V \<times> UNIV) r r'"
proof -
  have "mget (mVolumes r') j = mget (mVolumes r) j" "pages_of r' j = pages_of r j" if "j \<notin> V" for j
    using assms[OF that] by (simp_all add: same_slot_def pages_of_def mget_or_def)
  then show "keeps_volumes inMemoryRepository V r r'" "keeps_pages inMemoryRepository (V \<times> UNIV) r r'"
    by (intro memory_keeps_volumes memory_keeps_pages; simp)+
qed

lemma memory_create_keeps:
  assumes "CreateVolume ds q r = (Inr w, r')"
  shows "keeps_volumes inMemoryRepository {vID w} r r'" "keeps_pages inMemoryRepository {} r r'"
  using memory_CreateVolume[OF assms]
  by (auto simp: add_volume_def pages_of_def intro!: memory_keeps_volumes memory_keeps_pages split: if_splits)

lemma memory_put_page_keeps:
  assumes "repo_wf r" "PutExtentPage p e r = (Inr p', r')"
  shows "keeps_volumes inMemoryRepository {} r r'"
    "keeps_pages inMemoryRepository {(pgVolumeID p', pgPageNo p')} r r'"
    "GetExtentPage (pgVolumeID p') (pgPageNo p') r' = Inr p'"
proof -
  have ids: "pgVolumeID p' = pgVolumeID p" "pgPageNo p' = pgPageNo p" and ex: "volume_exists r (pgVolumeID p)"
    using assms by (auto simp: PutExtentPage_wf_eq Let_def volume_exists_def split: option.splits if_splits)
  have r': "r' = r\<lparr>mExtentPages := mput (pgVolumeID p) (mput (pgPageNo p) p' (pages_of r (pgVolumeID p))) (mExtentPages r)\<rparr>"
    using PutExtentPage_success[OF assms] by blast
  show "keeps_volumes inMemoryRepository {} r r'"
    "keeps_pages inMemoryRepository {(pgVolumeID p', pgPageNo p')} r r'"
    unfolding r' ids by (auto simp: pages_of_def intro!: memory_keeps_volumes memory_keeps_pages split: if_splits)
  show "GetExtentPage (pgVolumeID p') (pgPageNo p') r' = Inr p'"
    using ex unfolding r' ids by (auto simp: GetExtentPage_def pages_of_def volume_exists_def)
qed

lemma memory_ids:
  assumes "repo_wf r"
  shows "GetVolume i r = Inr v \<Longrightarrow> vID v = i" "GetExtentPage i n r = Inr p \<Longrightarrow> pgVolumeID p = i \<and> pgPageNo p = n"
    "ListExtentPages i r = Inr ps \<Longrightarrow> p \<in> set ps \<Longrightarrow> GetExtentPage (pgVolumeID p) (pgPageNo p) r = Inr p"
proof -
  show "vID v = i" if "GetVolume i r = Inr v"
    using that repo_wfD(2)[OF assms, of i]
    by (auto simp: GetVolume_def slot_wf_def volume_exists_def volume_wf_def split: option.splits)
  have page: "mget (pages_of r i) n = Some p \<Longrightarrow> pgVolumeID p = i \<and> pgPageNo p = n" if "volume_exists r i" for n p
    using pages_of_wf[OF assms that] by (simp add: pages_wf_def)
  show "pgVolumeID p = i \<and> pgPageNo p = n" if "GetExtentPage i n r = Inr p"
    using that page[of n p] by (auto simp: GetExtentPage_def volume_exists_def split: option.splits)
  show "GetExtentPage (pgVolumeID p) (pgPageNo p) r = Inr p" if L: "ListExtentPages i r = Inr ps" "p \<in> set ps"
  proof -
    have ex: "volume_exists r i" and "p \<in> ran (mget (pages_of r i))"
      using L wf_pages_of[OF assms, of i] by (auto simp: ListExtentPages_def set_mvalues split: if_splits)
    then obtain n where "mget (pages_of r i) n = Some p"
      by (auto simp: ran_def)
    with page[OF ex this] ex show ?thesis
      by (auto simp: GetExtentPage_def volume_exists_def)
  qed
qed

lemma tagged_Inr: "tagged g q = (Inr x, r') \<Longrightarrow> \<exists>y. q = (Inr y, r') \<and> x = g y"
  by (cases q; cases "fst q") (auto simp: tagged_def)

lemma memory_queries:
  "mVolumes (snd (PutGateway g r)) = mVolumes r" "mExtentPages (snd (PutGateway g r)) = mExtentPages r"
  "mVolumes (snd (AllocateChunkIDs i n r)) = mVolumes r" "mExtentPages (snd (AllocateChunkIDs i n r)) = mExtentPages r"
  "mVolumes (snd (PutChunkGarbage now gc r)) = mVolumes r" "mExtentPages (snd (PutChunkGarbage now gc r)) = mExtentPages r"
  "mVolumes (snd (DeleteChunkGarbage i k r)) = mVolumes r" "mExtentPages (snd (DeleteChunkGarbage i k r)) = mExtentPages r"
  by (simp_all add: PutGateway_def AllocateChunkIDs_def PutChunkGarbage_def DeleteChunkGarbage_def Let_def
      split: option.split)

text \<open>The operations whose result the cache stores in place of the answer it had.\<close>

fun storing :: "cache_op \<Rightarrow> bool" where
  "storing (CoSyncVolumeSpec v) = True"
| "storing (CoRefreshVolume i) = True"
| "storing (CoCreateVolume ds q) = True"
| "storing (CoUpdateVolume i q) = True"
| "storing (CoSetVolumeState i st) = True"
| "storing (CoPutExtentPage p e) = True"
| "storing _ = False"

lemma memory_unstored:
  assumes "\<not> storing op" "j \<notin> invalidated op"
  shows "same_slot r (snd (plain_step inMemoryRepository memory_optional now op r)) j"
  using assms by (cases op) (simp_all add: tagged_def memory_methods memory_frame memory_queries same_slot_trivial)

lemma memory_changes:
  assumes wf: "repo_wf r" and step: "plain_step inMemoryRepository memory_optional now op r = (Inr x, r')"
  shows "keeps_volumes inMemoryRepository (invalidated op \<union> stored_volume op x) r r'
    \<and> (sync_keeps_geometry op r \<longrightarrow>
        keeps_pages inMemoryRepository (invalidated op \<times> UNIV \<union> stored_page op x) r r')"
proof -
  have unstored: ?thesis if "\<not> storing op"
  proof -
    have "same_slot r r' j" if "j \<notin> invalidated op" for j
      using memory_unstored[OF \<open>\<not> storing op\<close> that, of r now] step by simp
    note S = same_slot_keeps[of "invalidated op", OF this]
    have "stored_volume op x = {}" "stored_page op x = {}"
      using that by (cases op; simp)+
    then show ?thesis using S by simp
  qed
  show ?thesis
  proof (cases op)
    case (CoSyncVolumeSpec s)
    then obtain u where "SyncVolumeSpec s r = (Inr u, r')"
      using step by (auto dest!: tagged_Inr)
    then show ?thesis
    proof (rule memory_SyncVolumeSpec)
      fix v assume v: "mget (mVolumes r) (vID s) = Some v"
        and r': "r' = r\<lparr>mVolumes := mput (vID s) (NormalizeVolumeSpec s) (mVolumes r)\<rparr>"
      show ?thesis
        using memory_put_same(2)[OF v, of "NormalizeVolumeSpec s"]
        unfolding r' CoSyncVolumeSpec
        by (auto simp: v same_geometry_def intro!: memory_keeps_volumes split: if_splits)
    qed
  next
    case (CoRefreshVolume i)
    then have "r' = r"
      using step by (auto simp: memory_methods dest!: tagged_Inr)
    then show ?thesis by simp
  next
    case (CoCreateVolume ds q)
    then obtain w where "CreateVolume ds q r = (Inr w, r')" "x = RsSpec w"
      using step by (auto simp: memory_methods dest!: tagged_Inr)
    then show ?thesis
      using CoCreateVolume memory_create_keeps by simp
  next
    case (CoUpdateVolume i q)
    then obtain w where w: "UpdateVolume i q r = (Inr w, r')" "x = RsSpec w"
      using step by (auto simp: memory_methods dest!: tagged_Inr)
    show ?thesis
      by (rule memory_UpdateVolume[OF wf w(1)]) (use CoUpdateVolume w(2) memory_put_same in simp)
  next
    case (CoSetVolumeState i st)
    then obtain w where w: "SetVolumeState i st r = (Inr w, r')" "x = RsSpec w"
      using step by (auto simp: memory_methods dest!: tagged_Inr)
    show ?thesis
      by (rule memory_SetVolumeState[OF wf w(1)]) (use CoSetVolumeState w(2) memory_put_same in simp)
  next
    case (CoPutExtentPage p e)
    then obtain q where "PutExtentPage p e r = (Inr q, r')" "x = RsPage q"
      using step by (auto simp: memory_methods dest!: tagged_Inr)
    then show ?thesis
      using CoPutExtentPage memory_put_page_keeps[OF wf] by simp
  qed (rule unstored, simp)+
qed

lemma memory_volume_stored:
  assumes wf: "repo_wf r" and step: "plain_step inMemoryRepository memory_optional now op r = (Inr (RsSpec w), r')"
  shows "GetVolume (vID w) r' = Inr w"
proof (cases op)
  case (CoCreateVolume ds q)
  then have "CreateVolume ds q r = (Inr w, r')"
    using step by (auto simp: memory_methods dest!: tagged_Inr)
  from memory_CreateVolume(2)[OF this] show ?thesis
    by (simp add: GetVolume_def add_volume_def)
next
  case (CoUpdateVolume i q)
  then have "UpdateVolume i q r = (Inr w, r')"
    using step by (auto simp: memory_methods dest!: tagged_Inr)
  then show ?thesis
    by (rule memory_UpdateVolume[OF wf]) (simp add: GetVolume_def)
next
  case (CoSetVolumeState i st)
  then have "SetVolumeState i st r = (Inr w, r')"
    using step by (auto simp: memory_methods dest!: tagged_Inr)
  then show ?thesis
    by (rule memory_SetVolumeState[OF wf]) (simp add: GetVolume_def)
next
  case (CoGetVolume i)
  then have "GetVolume i r = Inr w" "r' = r"
    using step by (auto simp: memory_methods dest!: tagged_Inr)
  then show ?thesis
    using memory_ids(1)[OF wf] by auto
next
  case (CoRefreshVolume i)
  then have "GetVolume i r = Inr w" "r' = r"
    using step by (auto simp: memory_methods dest!: tagged_Inr)
  then show ?thesis
    using memory_ids(1)[OF wf] by auto
qed (use step in \<open>auto dest!: tagged_Inr\<close>)

lemma memory_page_stored:
  assumes wf: "repo_wf r" and step: "plain_step inMemoryRepository memory_optional now op r = (Inr (RsPage p), r')"
  shows "GetExtentPage (pgVolumeID p) (pgPageNo p) r' = Inr p"
proof (cases op)
  case (CoPutExtentPage q e)
  then have "PutExtentPage q e r = (Inr p, r')"
    using step by (auto simp: memory_methods dest!: tagged_Inr)
  then show ?thesis
    by (rule memory_put_page_keeps(3)[OF wf])
next
  case (CoGetExtentPage i n)
  then have "GetExtentPage i n r = Inr p" "r' = r"
    using step by (auto simp: memory_methods dest!: tagged_Inr)
  then show ?thesis
    using memory_ids(2)[OF wf] by auto
qed (use step in \<open>auto dest!: tagged_Inr\<close>)

lemma memory_sync_stored:
  assumes "plain_step inMemoryRepository memory_optional now (CoSyncVolumeSpec s) r = (Inr x, r')"
  shows "GetVolume (vID s) r' = Inr (NormalizeVolumeSpec s)"
proof -
  obtain u where "SyncVolumeSpec s r = (Inr u, r')"
    using assms by (auto dest!: tagged_Inr)
  then show ?thesis
    by (rule memory_SyncVolumeSpec) (simp add: GetVolume_def)
qed

interpretation memcache: cacheable_repository inMemoryRepository memory_optional repo_wf sync_keeps_geometry
proof unfold_locales
  fix r r' :: repo and now op
  assume wf: "repo_wf r"
  show "repo_wf (snd (plain_step inMemoryRepository memory_optional now op r))"
    by (rule memory_step_wf[OF wf])
  show "keeps_volumes inMemoryRepository {} r r' \<and> keeps_pages inMemoryRepository {} r r'"
    if "plain_step inMemoryRepository memory_optional now op r = (Inl e, r')" for e
    using memory_failed_step[OF wf that] by simp
  show "keeps_volumes inMemoryRepository (invalidated op \<union> stored_volume op x) r r'"
    if "plain_step inMemoryRepository memory_optional now op r = (Inr x, r')" for x
    using memory_changes[OF wf that] by blast
  show "keeps_pages inMemoryRepository (invalidated op \<times> UNIV \<union> stored_page op x) r r'"
    if "sync_keeps_geometry op r" "plain_step inMemoryRepository memory_optional now op r = (Inr x, r')" for x
    using memory_changes[OF wf that(2)] that(1) by blast
qed (simp_all add: memory_methods memory_volume_stored memory_page_stored memory_ids(3) memory_sync_stored
    del: plain_step.simps(2))

text \<open>
  C37. The cache is invisible to a client that is alone on its repository: starting from a new cache in front of
  a well-formed in-memory repository, every sequence of the operations of the interface, at
  whatever times, returns the results it returns without the cache, errors included, and leaves the
  same repository, as long as no SyncVolumeSpec changes the page size or the chunk size of a volume.
\<close>

theorem cache_is_transparent:
  assumes "NewCachedMetadataRepository inMemoryRepository ttl = Some c" "repo_wf r"
    and "along_run sync_keeps_geometry (plain_step inMemoryRepository memory_optional) ops r"
  shows "fst (run_steps (cached_step memory_optional) ops (c, r))
      = fst (run_steps (plain_step inMemoryRepository memory_optional) ops r)
    \<and> snd (snd (run_steps (cached_step memory_optional) ops (c, r)))
      = snd (run_steps (plain_step inMemoryRepository memory_optional) ops r)"
  by (rule memcache.run_agrees[OF assms(2) coherent_new[OF assms(1)] assms(3)])

subsection \<open>A page changed by another client\<close>

lemma loadExtentPage_hit:
  assumes "cache_inv c" "cached_page c (v, n) = Some x" "now \<le> cxExpiresAt x"
  obtains d where "loadExtentPage now v n c = (Some (cxPage x), d)" "cache_inv d" "cached_page d = cached_page c"
    "cmNext d = cmNext c"
proof -
  have inv: "page_index c" using assms(1) by (simp add: cache_inv_def)
  obtain e where e: "mget (cmExtentPageCache c) (v, n) = Some e" "map_of (cmExtentPageLRU c) e = Some x"
    using assms(2) by (auto simp: cached_page_def split: option.splits)
  let ?d = "c\<lparr>cmExtentPageLRU := MoveToFront e (cmExtentPageLRU c)\<rparr>"
  have "cached_page ?d = cached_page c"
    using page_index_permute(2)[OF inv, of "MoveToFront e (cmExtentPageLRU c)"] page_indexD(1)[OF inv] by simp
  moreover have L: "loadExtentPage now v n c = (Some (cxPage x), ?d)"
    using assms(3) by (simp add: loadExtentPage_def e)
  moreover have "cache_inv ?d"
    using loadExtentPage_keeps(1)[OF assms(1), of now v n] L by simp
  ultimately show ?thesis using that by simp
qed

lemma PutExtentPage_stale:
  assumes "repo_wf r" "volume_exists r (pgVolumeID p)" "e \<noteq> page_revision r (pgVolumeID p) (pgPageNo p)"
  shows "PutExtentPage p e r = (Inl ErrMetadataCASConflict, r)"
  using assms by (auto simp: PutExtentPage_wf_eq Let_def page_revision_def volume_exists_def split: option.splits)

text \<open>
  Why the page sizes are excluded above: SyncVolumeSpec stores the new specification in the cache and
  leaves the cached pages of the volume where they are. A page that was never written carries the
  sizes of its volume, so a read through the cache returns the old sizes where the repository
  returns the new ones.
\<close>

lemma sync_leaves_old_page:
  assumes "cache_inv c" "cmNext c = inMemoryRepository" "mget (mVolumes r) (vID s) = Some v"
    and "cached_page c (vID s, n) = Some x" "now' \<le> cxExpiresAt x" "mget (pages_of r (vID s)) n = None"
  shows "fst (run_steps (cached_step memory_optional)
      [(now, CoSyncVolumeSpec s), (now', CoGetExtentPage (vID s) n)] (c, r)) = [Inr (RsUnit ()), Inr (RsPage (cxPage x))]
    \<and> fst (run_steps (plain_step inMemoryRepository memory_optional)
      [(now, CoSyncVolumeSpec s), (now', CoGetExtentPage (vID s) n)] r)
      = [Inr (RsUnit ()), Inr (RsPage \<lparr>pgVolumeID = vID s, pgPageNo = n,
           pgPageBytes = vExtentPageBytes (NormalizeVolumeSpec s), pgChunkSizeBytes = vChunkSizeBytes (NormalizeVolumeSpec s),
           pgRevision = 0, pgExtents = []\<rparr>)]"
proof -
  let ?r = "r\<lparr>mVolumes := mput (vID s) (NormalizeVolumeSpec s) (mVolumes r)\<rparr>"
  let ?c = "store now (NormalizeVolumeSpec s) c"
  have sync: "SyncVolumeSpec s r = (Inr (), ?r)"
    using assms(3) by (simp add: SyncVolumeSpec_def volume_exists_def cloneVolumeSpec_def Let_def)
  have "cached_page ?c (vID s, n) = Some x" "cache_inv ?c" "cmNext ?c = inMemoryRepository"
    using store_keeps[OF assms(1)] assms(2,4) by simp_all
  then obtain d where "loadExtentPage now' (vID s) n ?c = (Some (cxPage x), d)"
    using loadExtentPage_hit[of ?c "vID s" n x now'] assms(5) by blast
  then show ?thesis
    using assms(2,6)
    by (simp add: tagged_def cSyncVolumeSpec_def through_def sync cGetExtentPage_def memory_methods GetExtentPage_def
        pages_of_def)
qed

text \<open>
  C39. The cache keeps a page that another client has changed. When an unexpired cached page is behind the
  repository, a read returns the old page, and a write with its revision fails as a conflict and
  leaves the old page in the cache: reading and writing again fails in the same way, any number
  of times, until the entry expires.
\<close>

theorem stale_page_survives_conflict:
  assumes "cache_inv c" "cmNext c = inMemoryRepository" "repo_wf r" "volume_exists r v"
    and "cached_page c (v, n) = Some x" "\<forall>t \<in> set ts. t \<le> cxExpiresAt x" "cxPage x = page"
    and "pgVolumeID page = v" "pgPageNo page = n" "pgRevision page \<noteq> page_revision r v n"
  shows "fst (run_steps (cached_step memory_optional) (concat (map (\<lambda>t. [(t, CoGetExtentPage v n),
        (t, CoPutExtentPage (page\<lparr>pgExtents := es\<rparr>) (pgRevision page))]) ts)) (c, r))
      = concat (replicate (length ts) [Inr (RsPage page), Inl ErrMetadataCASConflict])"
  using assms(1,2,5,6)
proof (induction ts arbitrary: c)
  case (Cons t ts)
  obtain d where d: "loadExtentPage t v n c = (Some page, d)" "cache_inv d" "cached_page d = cached_page c"
    "cmNext d = inMemoryRepository"
    using loadExtentPage_hit[OF Cons.prems(1,3), of t] Cons.prems(2,4) assms(7) by auto
  have get: "cached_step memory_optional t (CoGetExtentPage v n) (c, r) = (Inr (RsPage page), (d, r))"
    by (simp add: cGetExtentPage_def d(1) tagged_def)
  have "PutExtentPage (page\<lparr>pgExtents := es\<rparr>) (pgRevision page) r = (Inl ErrMetadataCASConflict, r)"
    using assms(3,4,8-10) by (intro PutExtentPage_stale) simp_all
  then have put: "cached_step memory_optional t (CoPutExtentPage (page\<lparr>pgExtents := es\<rparr>) (pgRevision page)) (d, r)
      = (Inl ErrMetadataCASConflict, (d, r))"
    by (simp add: cPutExtentPage_def through_def d(4) memory_methods tagged_def)
  show ?case
    using Cons.IH[OF d(2,4)] Cons.prems(3,4) d(3) by (simp add: get put case_prod_beta del: cached_step.simps)
qed simp

subsection \<open>Witnesses\<close>

definition demo_cache :: "repo cachedMetadataRepository" where
  "demo_cache = \<lparr>cmNext = inMemoryRepository, cmTTL = 5, cmMaxExtentPages = 4096, cmVolumeCache = [],
     cmExtentPageCache = [], cmExtentPageLRU = [], cmFresh = 0, cmVolumePages = []\<rparr>"

lemma demo_cache_new: "NewCachedMetadataRepository inMemoryRepository 5 = Some demo_cache"
  by (simp add: NewCachedMetadataRepository_def demo_cache_def defaultExtentPageCacheEntries_def)

theorem cache_stays_bounded_witness:
  "length (cmExtentPageLRU (fst (snd (run_steps (cached_step memory_optional) [(0, CoGetExtentPage 7 0), (9, CoGetExtentPage 7 1)]
     (demo_cache, demo_repo))))) \<le> 4096"
  using cache_stays_bounded[OF demo_cache_new, of memory_optional "[(0, CoGetExtentPage 7 0), (9, CoGetExtentPage 7 1)]" demo_repo]
  by (simp only: Let_def)

definition demo_client :: "(int \<times> cache_op) list" where
  "demo_client = [(0, CoGetExtentPage 7 0), (1, CoSyncVolumeSpec (zero_volume\<lparr>vID := 7, vSizeBytes := 8192\<rparr>)),
     (2, CoPutExtentPage demo_page 0), (3, CoRefreshVolume 7), (4, CoGetExtentPage 7 0)]"

theorem cache_is_transparent_witness:
  "along_run sync_keeps_geometry (plain_step inMemoryRepository memory_optional) demo_client demo_repo
   \<and> fst (run_steps (cached_step memory_optional) demo_client (demo_cache, demo_repo))
     = fst (run_steps (plain_step inMemoryRepository memory_optional) demo_client demo_repo)"
proof -
  have "along_run sync_keeps_geometry (plain_step inMemoryRepository memory_optional) demo_client demo_repo"
    by code_simp
  then show ?thesis
    using cache_is_transparent[OF demo_cache_new demo_repo_wf] by blast
qed

definition demo_old_page :: AllocationPageRecord where
  "demo_old_page = demo_page\<lparr>pgPageBytes := DefaultAllocationPageSize, pgChunkSizeBytes := DefaultAllocationChunkSize\<rparr>"

lemma demo_old_page_read: "GetExtentPage 7 0 demo_repo = Inr demo_old_page"
  by code_simp

lemma demo_stale:
  "cache_inv (storeExtentPage 0 demo_old_page demo_cache)"
  "cached_page (storeExtentPage 0 demo_old_page demo_cache) (7, 0)
     = Some \<lparr>cxKey = (7, 0), cxPage = demo_old_page, cxExpiresAt = 5\<rparr>"
  "cmNext (storeExtentPage 0 demo_old_page demo_cache) = inMemoryRepository"
  "volume_exists (snd (PutExtentPage demo_page 0 demo_repo)) 7"
  "page_revision (snd (PutExtentPage demo_page 0 demo_repo)) 7 0 = 1"
proof -
  show "cache_inv (storeExtentPage 0 demo_old_page demo_cache)"
    by (rule storeExtentPage_keeps(1)) (use bounded_new[OF demo_cache_new] in \<open>simp add: bounded_by_def\<close>)
  show "cached_page (storeExtentPage 0 demo_old_page demo_cache) (7, 0)
     = Some \<lparr>cxKey = (7, 0), cxPage = demo_old_page, cxExpiresAt = 5\<rparr>"
    by (simp add: storeExtentPage_def demo_cache_def demo_old_page_def demo_page_def Let_def cached_page_def)
  show "cmNext (storeExtentPage 0 demo_old_page demo_cache) = inMemoryRepository"
    by (simp add: demo_cache_def)
  show "volume_exists (snd (PutExtentPage demo_page 0 demo_repo)) 7"
    "page_revision (snd (PutExtentPage demo_page 0 demo_repo)) 7 0 = 1"
    by code_simp+
qed

theorem stale_page_survives_conflict_witness:
  "fst (cached_step memory_optional 0 (CoGetExtentPage 7 0) (demo_cache, demo_repo)) = Inr (RsPage demo_old_page)
   \<and> fst (run_steps (cached_step memory_optional)
        (concat (map (\<lambda>t. [(t, CoGetExtentPage 7 0), (t, CoPutExtentPage (demo_old_page\<lparr>pgExtents := []\<rparr>) (pgRevision demo_old_page))])
          [1, 2]))
        (storeExtentPage 0 demo_old_page demo_cache, snd (PutExtentPage demo_page 0 demo_repo)))
      = [Inr (RsPage demo_old_page), Inl ErrMetadataCASConflict, Inr (RsPage demo_old_page), Inl ErrMetadataCASConflict]"
proof
  show "fst (cached_step memory_optional 0 (CoGetExtentPage 7 0) (demo_cache, demo_repo)) = Inr (RsPage demo_old_page)"
    by (simp add: tagged_def cGetExtentPage_def loadExtentPage_def through_def demo_cache_def memory_methods
        demo_old_page_read)
  let ?r = "snd (PutExtentPage demo_page 0 demo_repo)"
  have "repo_wf ?r"
    using wf_ops demo_repo_wf by simp
  from stale_page_survives_conflict[OF demo_stale(1,3) this demo_stale(4,2), of "[1, 2]" demo_old_page "[]"]
  show "fst (run_steps (cached_step memory_optional)
        (concat (map (\<lambda>t. [(t, CoGetExtentPage 7 0), (t, CoPutExtentPage (demo_old_page\<lparr>pgExtents := []\<rparr>) (pgRevision demo_old_page))])
          [1, 2]))
        (storeExtentPage 0 demo_old_page demo_cache, ?r))
      = [Inr (RsPage demo_old_page), Inl ErrMetadataCASConflict, Inr (RsPage demo_old_page), Inl ErrMetadataCASConflict]"
    using demo_stale(5) by (simp add: demo_old_page_def demo_page_def del: run_steps.simps cached_step.simps)
qed

end
