(* ===== verification/Dataplane.thy ===== *)
theory Dataplane
  imports GatewayService WireStream WireV2
begin

unbundle bit_operations_syntax

section \<open>The data plane of a gateway (gateway/dataplane)\<close>

text \<open>
  The table of authenticated sessions (session.go) and the server that reads frames from a connection,
  calls the gateway service and writes the responses (server.go), in both versions of the
  protocol. Each frame is handled as one step on the sessions and the service; connections meet
  between frames. The verifier of tokens is the interface the server is configured with; the text
  of the handshake bodies and of times is a parameter. The clock, the nonce of the server and the
  fate of each write to the connection are arguments; logging is not modelled.
\<close>

subsection \<open>Sessions (session.go)\<close>

record Session =
  ssID :: u64
  ssVolumeID :: u64
  ssAttachmentID :: string
  ssGeneration :: u64
  ssHostID :: string
  ssDeviceID :: u32
  ssPathID :: u32
  ssExpiresAt :: int
  ssSessionKey :: bytes
  ssSeq :: SeqChecker

record SessionTable =
  stByID :: "(u64, Session) gomap"
  stNextID :: u64

definition NewSessionTable :: SessionTable where
  "NewSessionTable = \<lparr>stByID = [], stNextID = 1\<rparr>"

text \<open>The first free id from \<open>i\<close> on; one step more than there are sessions always finds one.\<close>

fun next_free :: "nat \<Rightarrow> (u64, 'v) gomap \<Rightarrow> u64 \<Rightarrow> u64" where
  "next_free 0 m i = i"
| "next_free (Suc n) m i = (if mget m i \<noteq> None then next_free n m (i + 1) else i)"

definition AddSession :: "Session \<Rightarrow> SessionTable \<Rightarrow> Session \<times> SessionTable" where
  "AddSession s t =
     (let i = next_free (Suc (length (stByID t))) (stByID t) (stNextID t); s' = s\<lparr>ssID := i\<rparr>
      in (s', t\<lparr>stByID := mput i s' (stByID t), stNextID := i + 1\<rparr>))"

definition RemoveSession :: "u64 \<Rightarrow> SessionTable \<Rightarrow> SessionTable" where
  "RemoveSession i t = t\<lparr>stByID := mdel i (stByID t)\<rparr>"

definition GetSession :: "int \<Rightarrow> u64 \<Rightarrow> SessionTable \<Rightarrow> Session option \<times> SessionTable" where
  "GetSession now i t =
     (case mget (stByID t) i of
        None \<Rightarrow> (None, t)
      | Some s \<Rightarrow> if now > ssExpiresAt s then (None, RemoveSession i t) else (Some s, t))"

definition RevokeByVolume :: "u64 \<Rightarrow> SessionTable \<Rightarrow> SessionTable" where
  "RevokeByVolume volumeID t = t\<lparr>stByID := filter (\<lambda>(i, s). ssVolumeID s \<noteq> volumeID) (stByID t)\<rparr>"

text \<open>A session is shared by its table: what a holder writes to it is found by the next lookup.\<close>

definition update_session :: "Session \<Rightarrow> SessionTable \<Rightarrow> SessionTable" where
  "update_session s t = t\<lparr>stByID := mput (ssID s) s (stByID t)\<rparr>"

subsection \<open>Tokens and session keys (gateway/auth/token.go)\<close>

definition AuthModeTokenHMACV1 :: string where "AuthModeTokenHMACV1 = ''token-hmac-v1''"

datatype token_error = TokenExpired | TokenInvalid | TokenBadSignature

record DataplaneTokenClaims =
  tcTokenID :: string
  tcVolumeID :: u64
  tcAttachmentID :: string
  tcDeviceID :: u32
  tcHostID :: string
  tcGatewayID :: string
  tcGeneration :: u64
  tcIssuedAt :: string
  tcExpiresAt :: string
  tcAuthMode :: string
  tcAllowedPathIDs :: "u32 list"

record VerifiedToken =
  vtClaims :: DataplaneTokenClaims
  vtExpiresAt :: int

text \<open>The bytes of a string.\<close>

definition string_bytes :: "string \<Rightarrow> bytes" where
  "string_bytes s = map of_char s"

definition DeriveSessionKey :: "bytes \<Rightarrow> string \<Rightarrow> string \<Rightarrow> string \<Rightarrow> u64 \<Rightarrow> bytes" where
  "DeriveSessionKey sessionDerivationKey tokenRaw clientNonce serverNonce sessionID =
     (if length sessionDerivationKey = 0 then []
      else hmac_sha256 sessionDerivationKey
             (string_bytes tokenRaw @ [0] @ string_bytes clientNonce @ [0] @ string_bytes serverNonce @ [0]
              @ put_u64 sessionID))"

subsection \<open>Configuration\<close>

text \<open>The table of sessions is state; whether completed requests are traced is a matter of logging.\<close>

record Config =
  cfPathID :: u32
  cfGatewayID :: string
  cfMaxIOSize :: u32
  cfMaxZeroLikeIOSize :: u32
  cfMaxSegments :: u32
  cfMaxInflightRequests :: u32
  cfMaxInflightBytes :: u64
  cfUseWireV2 :: bool
  cfTokenVerifier :: "(int \<Rightarrow> string \<Rightarrow> token_error + VerifiedToken) option"
  cfSessionDerivationKey :: bytes

definition DefaultMaxIOSize :: u32 where "DefaultMaxIOSize = 4 * 1024 * 1024 - 64 * 1024"
definition DefaultMaxZeroLikeIOSize :: u32 where "DefaultMaxZeroLikeIOSize = 256 * 1024 * 1024"

record ('m, 'o) Server =
  dsService :: "('m, 'o) Service"
  dsConfig :: Config

definition NewServer :: "('m, 'o) Service \<Rightarrow> Config \<Rightarrow> ('m, 'o) Server" where
  "NewServer svc cfg =
     \<lparr>dsService = svc,
      dsConfig = cfg\<lparr>cfMaxIOSize := (if cfMaxIOSize cfg = 0 then DefaultMaxIOSize else cfMaxIOSize cfg),
        cfMaxZeroLikeIOSize := (if cfMaxZeroLikeIOSize cfg = 0 then DefaultMaxZeroLikeIOSize
                                else cfMaxZeroLikeIOSize cfg),
        cfMaxSegments := (if cfMaxSegments cfg = 0 then 32 else cfMaxSegments cfg),
        cfMaxInflightRequests := (if cfMaxInflightRequests cfg = 0 then 128 else cfMaxInflightRequests cfg),
        cfMaxInflightBytes := (if cfMaxInflightBytes cfg = 0 then 8 * 1024 * 1024 else cfMaxInflightBytes cfg)\<rparr>\<rparr>"

definition maxLogicalLengthForOp :: "('m, 'o) Server \<Rightarrow> u32 \<Rightarrow> u32" where
  "maxLogicalLengthForOp s op =
     (if op = OpDiscard \<or> op = OpWriteZeroes then cfMaxZeroLikeIOSize (dsConfig s) else cfMaxIOSize (dsConfig s))"

definition validateLogicalLength :: "('m, 'o) Server \<Rightarrow> u32 \<Rightarrow> u32 \<Rightarrow> bool" where
  "validateLogicalLength s op len \<longleftrightarrow>
     (let maxLength = maxLogicalLengthForOp s op in maxLength = 0 \<or> len \<le> maxLength)"

definition supportedOpsMask :: u64 where
  "supportedOpsMask =
     fold (\<lambda>op v. v OR push_bit (unat op) 1)
       [OpRead, OpWrite, OpFlush, OpDiscard, OpWriteZeroes, OpHeartbeat, OpPathProbe, OpGetVolumeInfo] 0"

definition pathCapability :: "('m, 'o) Server \<Rightarrow> PathCapability" where
  "pathCapability s =
     (let cfg = dsConfig s
      in \<lparr>pcMaxIOSize = cfMaxIOSize cfg, pcMaxSegments = cfMaxSegments cfg, pcSupportedOpsMask = supportedOpsMask,
          pcFeatures = 0, pcMaxInflightRequests = cfMaxInflightRequests cfg, pcMaxInflightBytes = cfMaxInflightBytes cfg,
          pcMaxZeroLikeIOSize = cfMaxZeroLikeIOSize cfg\<rparr>)"

subsection \<open>Statuses\<close>

definition SBSErrorCodeNotFound :: string where "SBSErrorCodeNotFound = ''not_found''"
definition SBSErrorCodeBadRequest :: string where "SBSErrorCodeBadRequest = ''bad_request''"
definition SBSErrorCodeStaleGeneration :: string where "SBSErrorCodeStaleGeneration = ''stale_generation''"
definition SBSErrorCodeAttachmentMismatch :: string where "SBSErrorCodeAttachmentMismatch = ''attachment_mismatch''"
definition SBSErrorCodeIdempotencyConflict :: string where "SBSErrorCodeIdempotencyConflict = ''idempotency_conflict''"
definition SBSErrorCodeTimeout :: string where "SBSErrorCodeTimeout = ''timeout''"

definition mapSBSError :: "service_error \<Rightarrow> i32 option" where
  "mapSBSError err =
     (case err of
        ErrSBS code retryable \<Rightarrow>
          Some (if code = SBSErrorCodeNotFound then ErrNoSuchVolume
                else if code = SBSErrorCodeBadRequest \<or> code = SBSErrorCodeIdempotencyConflict then ErrInvalidRange
                else if code = SBSErrorCodeStaleGeneration then ErrGenerationMismatch
                else if code = SBSErrorCodeAttachmentMismatch then ErrUnauthorized
                else if code = SBSErrorCodeUnavailable then (if retryable then ErrRetryable else ErrNoHealthyReplica)
                else if code = SBSErrorCodeTimeout then ErrTimeout
                else ErrInternal)
      | _ \<Rightarrow> None)"

definition mapError :: "service_error \<Rightarrow> i32" where
  "mapError err =
     (case mapSBSError err of
        Some status \<Rightarrow> status
      | None \<Rightarrow>
          if err = ErrVolumeNotFound then ErrNoSuchVolume
          else if err \<in> {ErrBadAlignment, ErrDiscardAlignment, ErrOutOfRange, ErrBadDataLength} then ErrInvalidRange
          else if err \<in> {ErrAttachConflict, ErrDetachConflict, ErrHostIDRequired} then ErrUnauthorized
          else ErrInternal)"

definition mapErrorV2 :: "service_error \<Rightarrow> i32" where
  "mapErrorV2 err =
     (case mapSBSError err of
        Some status \<Rightarrow> status
      | None \<Rightarrow>
          if err = ErrVolumeNotFound then ErrNoSuchVolume
          else if err \<in> {ErrBadAlignment, ErrDiscardAlignment, ErrOutOfRange, ErrBadDataLength} then ErrInvalidRange
          else if err \<in> {ErrAttachConflict, ErrDetachConflict, ErrHostIDRequired} then ErrUnauthorized
          else 14)"

definition responseOp :: "u32 \<Rightarrow> u32" where
  "responseOp op =
     (if op = OpRead then OpReadResp
      else if op = OpWrite then OpWriteResp
      else if op = OpFlush then OpFlushResp
      else if op = OpDiscard then OpDiscardResp
      else if op = OpWriteZeroes then OpWriteZeroesResp
      else op)"

definition responseOpV2 :: "u32 \<Rightarrow> u32" where
  "responseOpV2 op =
     (if op = OpRead then OpReadResp
      else if op = OpWrite then OpWriteResp
      else if op = OpFlush then OpFlushResp
      else if op = OpDiscard then OpDiscardResp
      else if op = OpWriteZeroes then OpWriteZeroesResp
      else op)"

subsection \<open>Requests of version 1\<close>

text \<open>
  What the handling of one request sees of its surroundings: the clock, for sessions in nanoseconds, the
  moment the service reads, the latency it reports and whether the response could be written.
\<close>

record request_env =
  rqNow :: int
  rqMoment :: moment
  rqLatencyUS :: u32
  rqWritten :: bool

text \<open>A call of the service as the status and the body of a response.\<close>

definition answered ::
    "(service_error \<Rightarrow> i32) \<Rightarrow> ('a \<Rightarrow> bytes) \<Rightarrow> (service_error + 'a) \<times> ('m, 'o) gateway \<Rightarrow> (i32 \<times> bytes) \<times> ('m, 'o) gateway" where
  "answered status body rg =
     (case rg of (Inl err, g) \<Rightarrow> ((status err, []), g) | (Inr x, g) \<Rightarrow> ((StatusOK, body x), g))"

definition request_outcome ::
    "('m, 'o) Server \<Rightarrow> moment \<Rightarrow> Header \<Rightarrow> bytes \<Rightarrow> ('m, 'o) gateway \<Rightarrow> (i32 \<times> bytes) \<times> ('m, 'o) gateway" where
  "request_outcome s t h payload g =
     (let svc = dsService s; op = hOp h; vol = hVolumeID h; off = hOffsetBytes h; len = ucast (hLengthBytes h) :: u64
      in if op = OpRead then
           (if \<not> validateLogicalLength s op (hLengthBytes h) then ((ErrInvalidRange, []), g)
            else answered mapError (\<lambda>data. data) (Read svc t vol off len g))
         else if op = OpWrite then
           (case DecodeWritePayload payload of
              Inl _ \<Rightarrow> ((ErrInternal, []), g)
            | Inr (_, data) \<Rightarrow>
                if \<not> validateLogicalLength s op (of_nat (length data)) then ((ErrInvalidRange, []), g)
                else answered mapError (\<lambda>_. []) (Write svc t vol off (of_nat (length data)) data g))
         else if op = OpFlush then answered mapError (\<lambda>_. []) (Flush svc t vol g)
         else if op = OpDiscard then
           (if \<not> validateLogicalLength s op (hLengthBytes h) then ((ErrInvalidRange, []), g)
            else answered mapError (\<lambda>_. []) (Discard svc t vol off len g))
         else if op = OpWriteZeroes then
           (if \<not> validateLogicalLength s op (hLengthBytes h) then ((ErrInvalidRange, []), g)
            else answered mapError (\<lambda>_. []) (Zero svc t vol off len g))
         else if op = OpHeartbeat then ((StatusOK, []), g)
         else if op = OpPathProbe \<or> op = OpGetVolumeInfo
           then ((StatusOK, EncodePathCapabilityPayload (pathCapability s)), g)
         else ((ErrInternal, []), g))"

definition zero_header :: Header where
  "zero_header =
     \<lparr>hMagic = 0, hVersion = 0, hHeaderLen = 0, hOp = 0, hFlags = 0, hRequestID = 0, hVolumeID = 0, hGeneration = 0,
      hOffsetBytes = 0, hLengthBytes = 0, hCRC32C = 0\<rparr>"

definition handleRequest ::
    "('m, 'o) Server \<Rightarrow> request_env \<Rightarrow> Header \<Rightarrow> bytes \<Rightarrow> ('m, 'o) gateway \<Rightarrow>
     (ResponseHeader \<times> bytes) \<times> ('m, 'o) gateway" where
  "handleRequest s e h payload g =
     (case request_outcome s (rqMoment e) h payload g of
        ((status, out), g) \<Rightarrow>
          ((\<lparr>rBase = zero_header\<lparr>hOp := responseOp (hOp h), hFlags := hFlags h, hRequestID := hRequestID h,
                       hVolumeID := hVolumeID h, hGeneration := hGeneration h\<rparr>,
             rStatusCode = status, rBackendLatencyUS = rqLatencyUS e, rGatewayLatencyUS = rqLatencyUS e,
             rPathID = cfPathID (dsConfig s), rReserved = 0\<rparr>, out), g))"

text \<open>
  The loop over the frames of a connection: one environment for each request it serves. The result is
  the list of response frames written, in order, and the state when the loop stops or waits.
\<close>

fun serveV1 ::
    "('m, 'o) Server \<Rightarrow> request_env list \<Rightarrow> StreamDecoder \<Rightarrow> read_event list \<Rightarrow> ('m, 'o) gateway \<Rightarrow>
     bytes list \<times> ('m, 'o) gateway" where
  "serveV1 s [] d evs g = ([], g)"
| "serveV1 s (e # es) d evs g =
     (case ReadFrame d evs of
        None \<Rightarrow> ([], g)
      | Some (Inl _, _, _) \<Rightarrow> ([], g)
      | Some (Inr (h, payload), d', evs') \<Rightarrow>
          (case handleRequest s e h payload g of
             ((resp, out), g') \<Rightarrow>
               if \<not> rqWritten e then ([], g')
               else (case serveV1 s es d' evs' g' of (frames, g'') \<Rightarrow> (EncodeResponseMessage resp out # frames, g''))))"

definition handleConnV1 ::
    "('m, 'o) Server \<Rightarrow> request_env list \<Rightarrow> bytes \<Rightarrow> read_event list \<Rightarrow> ('m, 'o) gateway \<Rightarrow> bytes list \<times> ('m, 'o) gateway" where
  "handleConnV1 s es first6 evs g =
     serveV1 s es (NewStreamDecoder (cfMaxIOSize (dsConfig s) + 24)) (Data first6 # evs) g"

subsection \<open>Requests of version 2\<close>

record ('m, 'o) dataplane =
  dpSessions :: SessionTable
  dpGateway :: "('m, 'o) gateway"

definition request_outcomeV2 ::
    "('m, 'o) Server \<Rightarrow> moment \<Rightarrow> HeaderV2 \<Rightarrow> bytes \<Rightarrow> u64 \<Rightarrow> ('m, 'o) gateway \<Rightarrow> (i32 \<times> bytes) \<times> ('m, 'o) gateway" where
  "request_outcomeV2 s t h payload vol g =
     (let svc = dsService s; op = h2Op h; off = h2OffsetBytes h; len = ucast (h2LengthBytes h) :: u64
      in if op = OpRead then
           (if \<not> validateLogicalLength s OpRead (h2LengthBytes h) then ((ErrInvalidRange, []), g)
            else answered mapErrorV2 (\<lambda>data. data) (Read svc t vol off len g))
         else if op = OpWrite then
           (case DecodeWritePayload payload of
              Inl _ \<Rightarrow> ((ErrBadAuthTag, []), g)
            | Inr (_, data) \<Rightarrow>
                if \<not> validateLogicalLength s OpWrite (of_nat (length data)) then ((ErrInvalidRange, []), g)
                else answered mapErrorV2 (\<lambda>_. []) (Write svc t vol off (of_nat (length data)) data g))
         else if op = OpFlush then answered mapErrorV2 (\<lambda>_. []) (Flush svc t vol g)
         else if op = OpDiscard then
           (if \<not> validateLogicalLength s OpDiscard (h2LengthBytes h) then ((ErrInvalidRange, []), g)
            else answered mapErrorV2 (\<lambda>_. []) (Discard svc t vol off len g))
         else if op = OpWriteZeroes then
           (if \<not> validateLogicalLength s OpWriteZeroes (h2LengthBytes h) then ((ErrInvalidRange, []), g)
            else answered mapErrorV2 (\<lambda>_. []) (Zero svc t vol off len g))
         else if op = OpHeartbeat then ((StatusOK, []), g)
         else if op = OpPathProbe \<or> op = OpGetVolumeInfo
           then ((StatusOK, EncodePathCapabilityPayload (pathCapability s)), g)
         else ((ErrBadAuthTag, []), g))"

definition handleRequestV2 ::
    "('m, 'o) Server \<Rightarrow> request_env \<Rightarrow> HeaderV2 \<Rightarrow> bytes \<Rightarrow> Session \<Rightarrow> ('m, 'o) gateway \<Rightarrow>
     (ResponseHeaderV2 \<times> bytes) \<times> ('m, 'o) gateway" where
  "handleRequestV2 s e h payload sess g =
     (case request_outcomeV2 s (rqMoment e) h payload (ssVolumeID sess) g of
        ((status, out), g) \<Rightarrow>
          ((\<lparr>r2Base = zero_header2\<lparr>h2Op := responseOpV2 (h2Op h), h2Flags := h2Flags h, h2RequestID := h2RequestID h,
                        h2VolumeID := ssVolumeID sess, h2Generation := ssGeneration sess, h2SessionID := ssID sess,
                        h2SeqNo := h2SeqNo h\<rparr>,
             r2StatusCode = status, r2BackendLatencyUS = rqLatencyUS e, r2GatewayLatencyUS = rqLatencyUS e,
             r2PathID = cfPathID (dsConfig s), r2Reserved = 0\<rparr>, out), g))"

text \<open>\<open>Some\<close> is the status a stale session is closed with.\<close>

definition sessionStillCurrent :: "('m, 'o) Server \<Rightarrow> Session \<Rightarrow> 'm \<times> 'o \<Rightarrow> i32 option" where
  "sessionStillCurrent s sess w =
     (case volumeState (dsService s) (ssVolumeID sess) w of
        Inl _ \<Rightarrow> Some ErrSessionClosed
      | Inr st \<Rightarrow>
          if vsGeneration st \<noteq> ssGeneration sess then Some ErrGenerationMatch
          else if vsAttachmentID st \<noteq> ssAttachmentID sess \<or> vsAttachedHostID st \<noteq> ssHostID sess
             \<or> vsAttachedDeviceID st \<noteq> ssDeviceID sess then Some ErrSessionClosed
          else None)"

text \<open>
  One frame on an open connection: \<open>Inl\<close> is the status of the error frame after which the connection is
  closed, \<open>Inr\<close> the response.
\<close>

definition frame_outcome ::
    "('m, 'o) Server \<Rightarrow> request_env \<Rightarrow> HeaderV2 \<Rightarrow> bytes \<Rightarrow> bytes \<Rightarrow> ('m, 'o) dataplane \<Rightarrow>
     (i32 + bytes) \<times> ('m, 'o) dataplane" where
  "frame_outcome s e h payload tag p =
     (case GetSession (rqNow e) (h2SessionID h) (dpSessions p) of
        (None, t) \<Rightarrow> (Inl ErrSessionClosed, p\<lparr>dpSessions := t\<rparr>)
      | (Some sess, t) \<Rightarrow>
          let p = p\<lparr>dpSessions := t\<rparr>;
              answer = (\<lambda>sess p.
                case handleRequestV2 s e h payload sess (dpGateway p) of
                  ((resp, out), g) \<Rightarrow>
                    (Inr (fst (EncodeResponseMessageV2 resp out (ComputeAuthTag (ssSessionKey sess) (r2Base resp) out))),
                     p\<lparr>dpGateway := g\<rparr>))
          in case sessionStillCurrent s sess (gwWorld (dpGateway p)) of
               Some status \<Rightarrow> (Inl status, p\<lparr>dpSessions := RemoveSession (ssID sess) t\<rparr>)
             | None \<Rightarrow>
                 if h2Op h \<noteq> OpHello \<and> h2Op h \<noteq> OpHelloAck then
                   if h2AuthLen h \<noteq> of_nat AuthTagSize \<or> length tag \<noteq> AuthTagSize then (Inl ErrBadAuthTag, p)
                   else case VerifyAuthTag (ssSessionKey sess) h payload tag of
                     Inl _ \<Rightarrow> (Inl ErrBadAuthTag, p)
                   | Inr _ \<Rightarrow>
                       (case CheckNext (ssSeq sess) (h2SeqNo h) of
                          (Inl _, _) \<Rightarrow> (Inl ErrReplayDetected, p)
                        | (Inr _, q) \<Rightarrow>
                            let sess = sess\<lparr>ssSeq := q\<rparr>
                            in answer sess (p\<lparr>dpSessions := update_session sess t\<rparr>))
                 else answer sess p)"

definition auth_error_frame :: "i32 \<Rightarrow> bytes" where
  "auth_error_frame code =
     fst (EncodeResponseMessageV2
       \<lparr>r2Base = zero_header2\<lparr>h2Op := OpAuthErr\<rparr>, r2StatusCode = code, r2BackendLatencyUS = 0,
        r2GatewayLatencyUS = 0, r2PathID = 0, r2Reserved = 0\<rparr> [] [])"

fun serveV2 ::
    "('m, 'o) Server \<Rightarrow> request_env list \<Rightarrow> bytes \<Rightarrow> ('m, 'o) dataplane \<Rightarrow> bytes list \<times> ('m, 'o) dataplane" where
  "serveV2 s [] stream p = ([], p)"
| "serveV2 s (e # es) stream p =
     (case ReadFrameV2 (cfMaxIOSize (dsConfig s) + 24) stream of
        (Inl _, _, _) \<Rightarrow> ([], p)
      | (Inr (payload, tag), h, stream') \<Rightarrow>
          (case frame_outcome s e h payload tag p of
             (Inl code, p') \<Rightarrow> ([auth_error_frame code], p')
           | (Inr frame, p') \<Rightarrow>
               if \<not> rqWritten e then ([], p')
               else (case serveV2 s es stream' p' of (frames, p'') \<Rightarrow> (frame # frames, p''))))"

subsection \<open>The handshake\<close>

text \<open>The text of the handshake bodies and of times.\<close>

record hello_text =
  txDecodeHello :: "bytes \<Rightarrow> HelloPayload option"
  txEncodeHelloAck :: "HelloAckPayload \<Rightarrow> bytes"
  txRFC3339 :: "int \<Rightarrow> string"

definition validateHelloSession :: "('m, 'o) Server \<Rightarrow> HelloPayload \<Rightarrow> VerifiedToken \<Rightarrow> VolumeState \<Rightarrow> bool" where
  "validateHelloSession s hello verified st \<longleftrightarrow>
     (let claims = vtClaims verified; cfg = dsConfig s
      in \<not> (tcGatewayID claims \<noteq> '''' \<and> cfGatewayID cfg \<noteq> '''' \<and> tcGatewayID claims \<noteq> cfGatewayID cfg)
         \<and> vsAttachmentID st = tcAttachmentID claims \<and> vsGeneration st = tcGeneration claims
         \<and> vsAttachedHostID st = tcHostID claims \<and> vsAttachedDeviceID st = tcDeviceID claims
         \<and> hpHostID hello = tcHostID claims \<and> hpDeviceID hello = tcDeviceID claims
         \<and> hpRequestedPathID hello = cfPathID cfg
         \<and> (tcAllowedPathIDs claims = [] \<or> cfPathID cfg \<in> set (tcAllowedPathIDs claims))
         \<and> AuthModeTokenHMACV1 \<in> set (hpSupportedAuth hello))"

text \<open>
  The handshake in the parts the source runs it in: the checks of the first frame, the session without
  its id and key, the key once the id is known, and the frame that acknowledges the session.
\<close>

definition hello_check ::
    "('m, 'o) Server \<Rightarrow> hello_text \<Rightarrow> (int \<Rightarrow> string \<Rightarrow> token_error + VerifiedToken) \<Rightarrow> int \<Rightarrow> HeaderV2 \<Rightarrow> bytes \<Rightarrow>
     'm \<times> 'o \<Rightarrow> i32 + (HelloPayload \<times> VerifiedToken)" where
  "hello_check s tx verify now h payload w =
     (if h2Op h \<noteq> OpHello \<or> h2SessionID h \<noteq> 0 \<or> h2SeqNo h \<noteq> 0 then Inl ErrSessionClosed
      else case txDecodeHello tx payload of
        None \<Rightarrow> Inl ErrBadAuthTag
      | Some hello \<Rightarrow>
          (case verify now (hpToken hello) of
             Inl err \<Rightarrow> Inl (if err = TokenExpired then ErrTokenExpired else ErrBadAuthTag)
           | Inr verified \<Rightarrow>
               (case volumeState (dsService s) (tcVolumeID (vtClaims verified)) w of
                  Inl _ \<Rightarrow> Inl ErrSessionClosed
                | Inr st \<Rightarrow>
                    if \<not> validateHelloSession s hello verified st then Inl ErrSessionClosed
                    else Inr (hello, verified))))"

definition hello_session :: "('m, 'o) Server \<Rightarrow> VerifiedToken \<Rightarrow> Session" where
  "hello_session s verified =
     (let claims = vtClaims verified
      in \<lparr>ssID = 0, ssVolumeID = tcVolumeID claims, ssAttachmentID = tcAttachmentID claims,
          ssGeneration = tcGeneration claims, ssHostID = tcHostID claims, ssDeviceID = tcDeviceID claims,
          ssPathID = cfPathID (dsConfig s), ssExpiresAt = vtExpiresAt verified, ssSessionKey = [],
          ssSeq = \<lparr>lastSeqNo = 0\<rparr>\<rparr>)"

definition hello_key :: "('m, 'o) Server \<Rightarrow> HelloPayload \<Rightarrow> string \<Rightarrow> u64 \<Rightarrow> bytes" where
  "hello_key s hello serverNonce sessionID =
     (let cfg = dsConfig s;
          derivationKey = (if length (cfSessionDerivationKey cfg) = 0
                           then string_bytes (hpToken hello) else cfSessionDerivationKey cfg)
      in DeriveSessionKey derivationKey (hpToken hello) (hpClientNonce hello) serverNonce sessionID)"

definition hello_ack ::
    "('m, 'o) Server \<Rightarrow> hello_text \<Rightarrow> HeaderV2 \<Rightarrow> VerifiedToken \<Rightarrow> string \<Rightarrow> u64 \<Rightarrow> bytes" where
  "hello_ack s tx h verified serverNonce sessionID =
     (let claims = vtClaims verified; cfg = dsConfig s;
          ackPayload = txEncodeHelloAck tx
            \<lparr>haSessionID = sessionID, haServerNonce = serverNonce, haSelectedAuth = AuthModeTokenHMACV1,
             haExpiresAt = txRFC3339 tx (vtExpiresAt verified), haPathID = cfPathID cfg,
             haMaxInflightRequests = cfMaxInflightRequests cfg,
             haMaxInflightBytes = cfMaxInflightBytes cfg, haMaxIOSize = cfMaxIOSize cfg,
             haMaxZeroLikeIOSize = cfMaxZeroLikeIOSize cfg\<rparr>;
          ackH = zero_header2\<lparr>h2Op := OpHelloAck, h2RequestID := h2RequestID h,
            h2VolumeID := tcVolumeID claims, h2Generation := tcGeneration claims,
            h2SessionID := sessionID, h2SeqNo := 0\<rparr>
      in case fst (EncodeMessageV2 ackH ackPayload []) of Inl _ \<Rightarrow> [] | Inr frame \<Rightarrow> frame)"

text \<open>
  The first frame of a connection of version 2: \<open>Inl\<close> is the status of the error frame, \<open>Inr\<close> the frame that
  acknowledges the new session.
\<close>

definition hello_outcome ::
    "('m, 'o) Server \<Rightarrow> hello_text \<Rightarrow> (int \<Rightarrow> string \<Rightarrow> token_error + VerifiedToken) \<Rightarrow> int \<Rightarrow> string \<Rightarrow> HeaderV2 \<Rightarrow> bytes \<Rightarrow>
     ('m, 'o) dataplane \<Rightarrow> (i32 + bytes) \<times> ('m, 'o) dataplane" where
  "hello_outcome s tx verify now serverNonce h payload p =
     (case hello_check s tx verify now h payload (gwWorld (dpGateway p)) of
        Inl code \<Rightarrow> (Inl code, p)
      | Inr (hello, verified) \<Rightarrow>
          let (sess0, t) = AddSession (hello_session s verified) (dpSessions p);
              sess = sess0\<lparr>ssSessionKey := hello_key s hello serverNonce (ssID sess0)\<rparr>
          in (Inr (hello_ack s tx h verified serverNonce (ssID sess)), p\<lparr>dpSessions := update_session sess t\<rparr>))"

lemmas hello_defs = hello_outcome_def hello_check_def hello_session_def hello_key_def hello_ack_def

text \<open>The bytes a reader that joins short reads finds before the stream fails or ends.\<close>

fun stream_bytes :: "read_event list \<Rightarrow> bytes" where
  "stream_bytes [] = []"
| "stream_bytes (Data bs # evs) = bs @ stream_bytes evs"
| "stream_bytes (ReadFailed eof # evs) = []"

text \<open>The surroundings of a handshake: the clock, the nonce and whether the answer could be written.\<close>

record hello_env =
  heNow :: int
  heServerNonce :: string
  heWritten :: bool

definition handleConnV2 ::
    "('m, 'o) Server \<Rightarrow> hello_text \<Rightarrow> (int \<Rightarrow> string \<Rightarrow> token_error + VerifiedToken) \<Rightarrow> hello_env \<Rightarrow> request_env list \<Rightarrow> bytes \<Rightarrow>
     read_event list \<Rightarrow> ('m, 'o) dataplane \<Rightarrow> bytes list \<times> ('m, 'o) dataplane" where
  "handleConnV2 s tx verify he es first6 evs p =
     (case ReadFrameV2 (cfMaxIOSize (dsConfig s) + 24) (first6 @ stream_bytes evs) of
        (Inl _, _, _) \<Rightarrow> ([auth_error_frame ErrBadAuthTag], p)
      | (Inr (payload, _), h, stream) \<Rightarrow>
          (case hello_outcome s tx verify (heNow he) (heServerNonce he) h payload p of
             (Inl code, p') \<Rightarrow> ([auth_error_frame code], p')
           | (Inr frame, p') \<Rightarrow>
               if \<not> heWritten he then ([], p')
               else (case serveV2 s es stream p' of (frames, p'') \<Rightarrow> (frame # frames, p''))))"

text \<open>Reading exactly \<open>n\<close> bytes; \<open>None\<close> is a stream that fails, ends or keeps waiting before that.\<close>

fun read_exactly :: "nat \<Rightarrow> read_event list \<Rightarrow> (bytes \<times> read_event list) option" where
  "read_exactly n [] = (if n = 0 then Some ([], []) else None)"
| "read_exactly n (Data bs # evs) =
     (if n = 0 then Some ([], Data bs # evs)
      else if n \<le> length bs then Some (take n bs, Data (drop n bs) # evs)
      else map_option (\<lambda>(got, evs'). (bs @ got, evs')) (read_exactly (n - length bs) evs))"
| "read_exactly n (ReadFailed eof # evs) = (if n = 0 then Some ([], ReadFailed eof # evs) else None)"

definition handleConn ::
    "('m, 'o) Server \<Rightarrow> hello_text \<Rightarrow> hello_env \<Rightarrow> request_env list \<Rightarrow> read_event list \<Rightarrow> ('m, 'o) dataplane \<Rightarrow>
     bytes list \<times> ('m, 'o) dataplane" where
  "handleConn s tx he es evs p =
     (case read_exactly 6 evs of
        None \<Rightarrow> ([], p)
      | Some (first6, evs') \<Rightarrow>
          if get_u32 (slice 0 4 first6) \<noteq> Magic then ([], p)
          else
            let v1 = (case handleConnV1 s es first6 evs' (dpGateway p) of (frames, g) \<Rightarrow> (frames, p\<lparr>dpGateway := g\<rparr>))
            in if get_u16 (slice 4 6 first6) = 2 \<and> cfUseWireV2 (dsConfig s) \<and> length (cfSessionDerivationKey (dsConfig s)) > 0
               then (case cfTokenVerifier (dsConfig s) of
                       None \<Rightarrow> v1
                     | Some verify \<Rightarrow> handleConnV2 s tx verify he es first6 evs' p)
               else v1)"

definition RevokeSessionsForVolume :: "u64 \<Rightarrow> ('m, 'o) dataplane \<Rightarrow> ('m, 'o) dataplane" where
  "RevokeSessionsForVolume volumeID p = p\<lparr>dpSessions := RevokeByVolume volumeID (dpSessions p)\<rparr>"

subsection \<open>The table of sessions\<close>

lemma next_free_from:
  "\<exists>k \<le> n. next_free n m i = i + of_nat k \<and> (\<forall>j < k. mget m (i + of_nat j) \<noteq> None)
     \<and> (k < n \<longrightarrow> mget m (i + of_nat k) = None)"
proof (induction n arbitrary: i)
  case (Suc n)
  show ?case
  proof (cases "mget m i = None")
    case True
    then show ?thesis by (intro exI[of _ 0]) simp
  next
    case False
    obtain k where k: "k \<le> n" "next_free n m (i + 1) = i + 1 + of_nat k"
      "\<forall>j < k. mget m (i + 1 + of_nat j) \<noteq> None" "k < n \<longrightarrow> mget m (i + 1 + of_nat k) = None"
      using Suc.IH[of "i + 1"] by blast
    have "mget m (i + of_nat j) \<noteq> None" if "j < Suc k" for j
      using that k(3) False by (cases j) (simp_all add: add.assoc)
    moreover have "i + 1 + of_nat k = i + of_nat (Suc k)"
      by (simp add: add.assoc)
    ultimately show ?thesis
      using k(1,2,4) False unfolding \<open>i + 1 + of_nat k = i + of_nat (Suc k)\<close>
      by (intro exI[of _ "Suc k"]) simp
  qed
qed simp

text \<open>As long as there are fewer than \<open>2 ^ 64\<close> sessions, the search ends at an id that no session has.\<close>

lemma next_free_fresh:
  assumes "length m < 2 ^ 64 - 1"
  shows "mget m (next_free (Suc (length m)) m i) = None"
proof (rule ccontr)
  assume taken: "mget m (next_free (Suc (length m)) m i) \<noteq> None"
  obtain k where k: "k \<le> Suc (length m)" "next_free (Suc (length m)) m i = i + of_nat k"
    "\<forall>j < k. mget m (i + of_nat j) \<noteq> None" "k < Suc (length m) \<longrightarrow> mget m (i + of_nat k) = None"
    using next_free_from by blast
  have k': "k = Suc (length m)"
    using taken k by (metis le_neq_implies_less)
  let ?f = "\<lambda>j. i + of_nat j :: u64"
  have "inj_on ?f {..<k}"
    using assms k' by (auto intro!: inj_onI simp: of_nat_inverse word_of_nat_eq_iff take_bit_nat_eq_self)
  then have "card (?f ` {..<k}) = k"
    by (simp add: card_image)
  moreover have "?f ` {..<k} \<subseteq> fst ` set m"
    using k(3) by (force simp: map_of_eq_None_iff)
  then have "card (?f ` {..<k}) \<le> card (fst ` set m)"
    by (intro card_mono) simp_all
  moreover have "card (fst ` set m) \<le> length m"
    by (metis card_length length_map list.set_map)
  ultimately show False
    using k' by simp
qed

subsection \<open>One frame\<close>

definition authorised :: "('m, 'o) Server \<Rightarrow> request_env \<Rightarrow> HeaderV2 \<Rightarrow> bytes \<Rightarrow> bytes \<Rightarrow> Session \<Rightarrow> ('m, 'o) dataplane \<Rightarrow> bool" where
  "authorised s e h payload tag sess p \<longleftrightarrow>
     mget (stByID (dpSessions p)) (h2SessionID h) = Some sess \<and> rqNow e \<le> ssExpiresAt sess
     \<and> (\<exists>st. volumeState (dsService s) (ssVolumeID sess) (gwWorld (dpGateway p)) = Inr st
          \<and> vsGeneration st = ssGeneration sess \<and> vsAttachmentID st = ssAttachmentID sess
          \<and> vsAttachedHostID st = ssHostID sess \<and> vsAttachedDeviceID st = ssDeviceID sess)
     \<and> tag = ComputeAuthTag (ssSessionKey sess) h payload \<and> h2SeqNo h = lastSeqNo (ssSeq sess) + 1"

definition data_frame :: "HeaderV2 \<Rightarrow> bool" where
  "data_frame h \<longleftrightarrow> h2Op h \<noteq> OpHello \<and> h2Op h \<noteq> OpHelloAck"

lemma hello_frame_inert: "\<not> data_frame h \<Longrightarrow> snd (request_outcomeV2 s t h payload vol g) = g"
  by (auto simp: data_frame_def request_outcomeV2_def Let_def v2_ops op_defs)

lemma sessionStillCurrent_None:
  "sessionStillCurrent s sess w = None \<longleftrightarrow>
     (\<exists>st. volumeState (dsService s) (ssVolumeID sess) w = Inr st
          \<and> vsGeneration st = ssGeneration sess \<and> vsAttachmentID st = ssAttachmentID sess
          \<and> vsAttachedHostID st = ssHostID sess \<and> vsAttachedDeviceID st = ssDeviceID sess)"
  by (auto simp: sessionStillCurrent_def split: sum.splits)

lemma handleRequestV2_gateway:
  "snd (handleRequestV2 s e h payload sess g) = snd (request_outcomeV2 s (rqMoment e) h payload (ssVolumeID sess) g)"
  by (simp add: handleRequestV2_def split: prod.split)

lemma GetSession_cases:
  obtains (none) t' where "GetSession now i t = (None, t')" "t' = t \<or> (\<exists>i. t' = RemoveSession i t)"
  | (some) sess where "GetSession now i t = (Some sess, t)" "mget (stByID t) i = Some sess" "now \<le> ssExpiresAt sess"
proof (cases "mget (stByID t) i")
  case None
  then show ?thesis
    by (intro none[of t]) (simp_all add: GetSession_def)
next
  case (Some sess)
  show ?thesis
  proof (cases "now \<le> ssExpiresAt sess")
    case True
    with Some show ?thesis
      by (intro some[of sess]) (simp_all add: GetSession_def)
  next
    case False
    with Some show ?thesis
      by (intro none[of "RemoveSession i t"]) (auto simp: GetSession_def)
  qed
qed

text \<open>Every way a frame can be handled.\<close>

lemma frame_cases:
  assumes "frame_outcome s e h payload tag p = (r, p')"
  obtains (closed) code where "r = Inl code" "dpGateway p' = dpGateway p"
      "dpSessions p' = dpSessions p \<or> (\<exists>i. dpSessions p' = RemoveSession i (dpSessions p))"
  | (inert) frame where "r = Inr frame" "\<not> data_frame h" "p' = p"
  | (served) sess frame where "r = Inr frame" "data_frame h" "authorised s e h payload tag sess p"
      "dpGateway p' = snd (request_outcomeV2 s (rqMoment e) h payload (ssVolumeID sess) (dpGateway p))"
      "dpSessions p' = update_session (sess\<lparr>ssSeq := \<lparr>lastSeqNo = h2SeqNo h\<rparr>\<rparr>) (dpSessions p)"
proof -
  consider (none) t where "GetSession (rqNow e) (h2SessionID h) (dpSessions p) = (None, t)"
      "t = dpSessions p \<or> (\<exists>i. t = RemoveSession i (dpSessions p))"
    | (some) sess where "GetSession (rqNow e) (h2SessionID h) (dpSessions p) = (Some sess, dpSessions p)"
      "mget (stByID (dpSessions p)) (h2SessionID h) = Some sess" "rqNow e \<le> ssExpiresAt sess"
    by (rule GetSession_cases)
  then show ?thesis
  proof cases
    case none
    then have "r = Inl ErrSessionClosed" "p' = p\<lparr>dpSessions := t\<rparr>"
      using assms by (simp_all add: frame_outcome_def)
    then show ?thesis
      using none(2) by (intro closed) auto
  next
    case some
    show ?thesis
    proof (cases "sessionStillCurrent s sess (gwWorld (dpGateway p))")
      case (Some status)
      then have "r = Inl status" "p' = p\<lparr>dpSessions := RemoveSession (ssID sess) (dpSessions p)\<rparr>"
        using assms some by (simp_all add: frame_outcome_def Let_def)
      then show ?thesis
        by (intro closed) auto
    next
      case None
      note st = None[unfolded sessionStillCurrent_None]
      show ?thesis
      proof (cases "data_frame h")
        case False
        have "snd (handleRequestV2 s e h payload sess (dpGateway p)) = dpGateway p"
          by (simp add: handleRequestV2_gateway hello_frame_inert[OF False])
        then obtain resp out where R: "handleRequestV2 s e h payload sess (dpGateway p) = ((resp, out), dpGateway p)"
          by (metis prod.collapse)
        have "(\<exists>frame. r = Inr frame) \<and> p' = p"
          using assms some None False R by (auto simp: frame_outcome_def Let_def data_frame_def)
        then show ?thesis
          using inert False by blast
      next
        case True
        show ?thesis
        proof (cases "h2AuthLen h = of_nat AuthTagSize \<and> length tag = AuthTagSize
            \<and> VerifyAuthTag (ssSessionKey sess) h payload tag = Inr () \<and> h2SeqNo h = lastSeqNo (ssSeq sess) + 1")
          case False
          then have "(\<exists>code. r = Inl code) \<and> p' = p"
            using assms some None True
            by (auto simp: frame_outcome_def Let_def data_frame_def CheckNext_def split: sum.splits if_splits)
          then show ?thesis
            using closed by blast
        next
          case ok: True
          let ?sess = "sess\<lparr>ssSeq := \<lparr>lastSeqNo = h2SeqNo h\<rparr>\<rparr>"
          obtain resp out g where R: "handleRequestV2 s e h payload ?sess (dpGateway p) = ((resp, out), g)"
            by (metis prod.collapse)
          have "CheckNext (ssSeq sess) (h2SeqNo h) = (Inr (), \<lparr>lastSeqNo = h2SeqNo h\<rparr>)"
            using ok by (simp add: CheckNext_def)
          then have "r = Inr (fst (EncodeResponseMessageV2 resp out (ComputeAuthTag (ssSessionKey ?sess) (r2Base resp) out)))"
            "p' = p\<lparr>dpSessions := update_session ?sess (dpSessions p), dpGateway := g\<rparr>"
            using assms some None True ok R by (auto simp: frame_outcome_def Let_def data_frame_def)
          moreover have "authorised s e h payload tag sess p"
            using ok some st by (auto simp: authorised_def VerifyAuthTag_def split: if_splits)
          moreover have "g = snd (request_outcomeV2 s (rqMoment e) h payload (ssVolumeID sess) (dpGateway p))"
            using handleRequestV2_gateway[of s e h payload ?sess "dpGateway p"] R by simp
          ultimately show ?thesis
            using True served by simp
        qed
      qed
    qed
  qed
qed

text \<open>An authorised data request is served.\<close>

lemma frame_served:
  assumes "authorised s e h payload tag sess p" "data_frame h" "h2AuthLen h = of_nat AuthTagSize"
  shows "\<exists>frame. frame_outcome s e h payload tag p =
    (Inr frame, p\<lparr>dpSessions := update_session (sess\<lparr>ssSeq := \<lparr>lastSeqNo = h2SeqNo h\<rparr>\<rparr>) (dpSessions p),
       dpGateway := snd (request_outcomeV2 s (rqMoment e) h payload (ssVolumeID sess) (dpGateway p))\<rparr>)"
proof -
  let ?sess = "sess\<lparr>ssSeq := \<lparr>lastSeqNo = h2SeqNo h\<rparr>\<rparr>"
  have tag: "length tag = AuthTagSize" "VerifyAuthTag (ssSessionKey sess) h payload tag = Inr ()"
    using assms(1) by (simp_all add: authorised_def VerifyAuthTag_def ComputeAuthTag_def AuthTagSize_def)
  have seq: "CheckNext (ssSeq sess) (h2SeqNo h) = (Inr (), \<lparr>lastSeqNo = h2SeqNo h\<rparr>)"
    using assms(1) by (simp add: authorised_def CheckNext_def)
  have get: "GetSession (rqNow e) (h2SessionID h) (dpSessions p) = (Some sess, dpSessions p)"
    using assms(1) by (simp add: authorised_def GetSession_def)
  have current: "sessionStillCurrent s sess (gwWorld (dpGateway p)) = None"
    using assms(1) unfolding sessionStillCurrent_None authorised_def by blast
  obtain resp out g where R: "handleRequestV2 s e h payload ?sess (dpGateway p) = ((resp, out), g)"
    by (metis prod.collapse)
  then have "g = snd (request_outcomeV2 s (rqMoment e) h payload (ssVolumeID sess) (dpGateway p))"
    using handleRequestV2_gateway[of s e h payload ?sess "dpGateway p"] by simp
  then show ?thesis
    using assms(2,3) tag seq get current R by (simp add: frame_outcome_def Let_def data_frame_def)
qed

text \<open>
  C4. No frame changes the state of a gateway without authority. If handling a frame of an open connection
  changes the service or its repositories, the frame names a session that has not expired, whose
  generation, attachment, host and device are those of its volume at that moment, its tag is the
  authentication code of the frame under the key of the session, its sequence number is the next one
  of the session, and the change is what the request does to the volume of the session, whatever
  volume the frame names.
\<close>

theorem frame_changes_need_authority:
  assumes "frame_outcome s e h payload tag p = (r, p')" "dpGateway p' \<noteq> dpGateway p"
  shows "\<exists>sess. mget (stByID (dpSessions p)) (h2SessionID h) = Some sess \<and> rqNow e \<le> ssExpiresAt sess
    \<and> (\<exists>st. volumeState (dsService s) (ssVolumeID sess) (gwWorld (dpGateway p)) = Inr st
         \<and> vsGeneration st = ssGeneration sess \<and> vsAttachmentID st = ssAttachmentID sess
         \<and> vsAttachedHostID st = ssHostID sess \<and> vsAttachedDeviceID st = ssDeviceID sess)
    \<and> tag = ComputeAuthTag (ssSessionKey sess) h payload \<and> h2SeqNo h = lastSeqNo (ssSeq sess) + 1
    \<and> dpGateway p' = snd (request_outcomeV2 s (rqMoment e) h payload (ssVolumeID sess) (dpGateway p))"
  using assms(1)
proof (cases rule: frame_cases)
  case served
  then show ?thesis
    unfolding authorised_def by blast
qed (use assms(2) in auto)

subsection \<open>Witnesses\<close>

text \<open>An attached volume, and a client that opens a session for it and flushes it.\<close>

definition attached_gateway :: "(repo, unit) gateway" where
  "attached_gateway = \<lparr>gwWorld = (run_ops [OpAttach 100 demo_attach] demo_repo, ()), gwMetrics = NewMetricsCollector\<rparr>"

definition demo_server :: "(repo, unit) Server" where
  "demo_server = NewServer (memory_service unsupportedDataRepository ''gw1'')
     \<lparr>cfPathID = 4, cfGatewayID = ''gw1'', cfMaxIOSize = 0, cfMaxZeroLikeIOSize = 0, cfMaxSegments = 0,
      cfMaxInflightRequests = 0, cfMaxInflightBytes = 0, cfUseWireV2 = True, cfTokenVerifier = None,
      cfSessionDerivationKey = [9]\<rparr>"

definition demo_token :: VerifiedToken where
  "demo_token = \<lparr>vtClaims = \<lparr>tcTokenID = ''t1'', tcVolumeID = 7, tcAttachmentID = ''att-00000007-0001'', tcDeviceID = 1,
     tcHostID = ''h1'', tcGatewayID = ''gw1'', tcGeneration = 1, tcIssuedAt = '''', tcExpiresAt = '''', tcAuthMode = AuthModeTokenHMACV1,
     tcAllowedPathIDs = [4]\<rparr>, vtExpiresAt = 500\<rparr>"

definition demo_verify :: "int \<Rightarrow> string \<Rightarrow> token_error + VerifiedToken" where
  "demo_verify now raw = (if raw = ''secret'' then if now > 500 then Inl TokenExpired else Inr demo_token
                          else Inl TokenInvalid)"

definition demo_text :: hello_text where
  "demo_text = \<lparr>txDecodeHello = (\<lambda>_. Some \<lparr>hpToken = ''secret'', hpClientNonce = ''c'', hpDeviceID = 1, hpHostID = ''h1'',
     hpSupportedAuth = [AuthModeTokenHMACV1], hpRequestedPathID = 4\<rparr>), txEncodeHelloAck = (\<lambda>_. []), txRFC3339 = (\<lambda>_. '''')\<rparr>"

definition demo_key :: bytes where
  "demo_key = DeriveSessionKey [9] ''secret'' ''c'' ''s'' 1"

definition demo_flush :: HeaderV2 where
  "demo_flush = zero_header2\<lparr>h2Op := OpFlush, h2SessionID := 1, h2SeqNo := 1, h2AuthLen := 32\<rparr>"

definition demo_env :: request_env where
  "demo_env = \<lparr>rqNow = 200, rqMoment = noon, rqLatencyUS = 5, rqWritten = True\<rparr>"

definition demo_session :: Session where
  "demo_session = \<lparr>ssID = 1, ssVolumeID = 7, ssAttachmentID = ''att-00000007-0001'', ssGeneration = 1, ssHostID = ''h1'',
     ssDeviceID = 1, ssPathID = 4, ssExpiresAt = 500, ssSessionKey = demo_key, ssSeq = \<lparr>lastSeqNo = 0\<rparr>\<rparr>"

definition demo_dataplane :: "(repo, unit) dataplane" where
  "demo_dataplane = \<lparr>dpSessions = \<lparr>stByID = [(1, demo_session)], stNextID = 2\<rparr>, dpGateway = attached_gateway\<rparr>"

lemma attached_state:
  "\<exists>st. volumeState (dsService demo_server) 7 (gwWorld attached_gateway) = Inr st \<and> vsGeneration st = 1
     \<and> vsAttachmentID st = ''att-00000007-0001'' \<and> vsAttachedHostID st = ''h1'' \<and> vsAttachedDeviceID st = 1"
proof -
  have "case volumeState (dsService demo_server) 7 (gwWorld attached_gateway) of Inl _ \<Rightarrow> False
     | Inr st \<Rightarrow> vsGeneration st = 1 \<and> vsAttachmentID st = ''att-00000007-0001'' \<and> vsAttachedHostID st = ''h1''
         \<and> vsAttachedDeviceID st = 1"
    by code_simp
  then show ?thesis
    by (auto split: sum.splits)
qed

lemma demo_hello:
  "snd (hello_outcome demo_server demo_text demo_verify 150 ''s'' (zero_header2\<lparr>h2Op := OpHello\<rparr>) []
     \<lparr>dpSessions = NewSessionTable, dpGateway = attached_gateway\<rparr>) = demo_dataplane"
proof -
  obtain st where st: "volumeState (dsService demo_server) 7 (gwWorld attached_gateway) = Inr st" "vsGeneration st = 1"
    "vsAttachmentID st = ''att-00000007-0001''" "vsAttachedHostID st = ''h1''" "vsAttachedDeviceID st = 1"
    using attached_state by blast
  have "validateHelloSession demo_server \<lparr>hpToken = ''secret'', hpClientNonce = ''c'', hpDeviceID = 1, hpHostID = ''h1'',
     hpSupportedAuth = [AuthModeTokenHMACV1], hpRequestedPathID = 4\<rparr> demo_token st"
    by (simp add: validateHelloSession_def demo_server_def NewServer_def demo_token_def st)
  then show ?thesis
    using st(1)
    by (simp add: hello_defs Let_def zero_header2_def demo_text_def demo_verify_def AddSession_def NewSessionTable_def
        update_session_def demo_dataplane_def demo_session_def demo_key_def demo_server_def NewServer_def demo_token_def)
qed

lemma demo_authorised:
  "authorised demo_server demo_env demo_flush [] (ComputeAuthTag demo_key demo_flush []) demo_session demo_dataplane"
  using attached_state
  by (simp add: authorised_def demo_flush_def demo_env_def demo_session_def demo_dataplane_def)

lemma demo_flush_data: "data_frame demo_flush" "h2AuthLen demo_flush = of_nat AuthTagSize"
  by (simp_all add: demo_flush_def data_frame_def v2_ops op_defs AuthTagSize_def)

lemma demo_flush_counted:
  "gwMetrics (snd (request_outcomeV2 demo_server t demo_flush payload v attached_gateway)) \<noteq> gwMetrics attached_gateway"
proof -
  have "snd (request_outcomeV2 demo_server t demo_flush payload v attached_gateway)
      = snd (Flush (dsService demo_server) t v attached_gateway)"
    by (simp add: request_outcomeV2_def demo_flush_def op_defs answered_def split: prod.split sum.split)
  then show ?thesis
    by (auto simp: Flush_def recorded_def Record_def Let_def attached_gateway_def NewMetricsCollector_def)
qed

theorem frame_changes_need_authority_witness:
  "\<exists>frame p'. frame_outcome demo_server demo_env demo_flush [] (ComputeAuthTag demo_key demo_flush []) demo_dataplane
       = (Inr frame, p')
     \<and> (\<exists>sess. mget (stByID (dpSessions demo_dataplane)) 1 = Some sess \<and> h2SeqNo demo_flush = lastSeqNo (ssSeq sess) + 1)"
proof -
  obtain frame p' where F: "frame_outcome demo_server demo_env demo_flush [] (ComputeAuthTag demo_key demo_flush [])
      demo_dataplane = (Inr frame, p')"
    and g: "dpGateway p' = snd (request_outcomeV2 demo_server noon demo_flush [] 7 attached_gateway)"
    using frame_served[OF demo_authorised demo_flush_data]
    by (auto simp: demo_env_def demo_session_def demo_dataplane_def)
  have "dpGateway p' \<noteq> dpGateway demo_dataplane"
    using g demo_flush_counted[of noon "[]" 7] by (auto simp: demo_dataplane_def)
  from frame_changes_need_authority[OF F this] F show ?thesis
    by (auto simp: demo_flush_def)
qed

end
