(* ===== verification/KernelWire.thy ===== *)
theory KernelWire
  imports WireStream WireV2
begin

section \<open>The wire client of the kernel module (kernel/module/namrbd_blk.c)\<close>

text \<open>
  How the block driver encodes its requests and checks the responses, in both versions of the protocol. A
  block request is its operation, its first sector, its number of bytes and, for a write, its data. Buffers
  are the bytes written to them, and the allocations of the driver succeed. The retries, the path selection,
  the admission limits and the block layer are not modelled. The lemmas show that the decoder of the gateway
  delivers the requests of the driver, and what the driver makes of a response of the gateway.
\<close>

datatype namrbd_req_op = REQ_OP_READ | REQ_OP_WRITE | REQ_OP_DISCARD | REQ_OP_WRITE_ZEROES | REQ_OP_OTHER

datatype errno = EAGAIN | ENOENT | ESTALE | EINVAL | EIO | EBADMSG | EMSGSIZE | EACCES

definition NAMRBD_WIRE_HDR_LEN :: nat where "NAMRBD_WIRE_HDR_LEN = 56"
definition NAMRBD_WIRE_RESP_LEN :: nat where "NAMRBD_WIRE_RESP_LEN = 76"
definition NAMRBD_WIRE_MAGIC :: u32 where "NAMRBD_WIRE_MAGIC = 0x4E4D4252"
definition NAMRBD_WIRE_VERSION :: u16 where "NAMRBD_WIRE_VERSION = 1"
definition NAMRBD_WIRE_OP_READ :: u32 where "NAMRBD_WIRE_OP_READ = 0x0001"
definition NAMRBD_WIRE_OP_WRITE :: u32 where "NAMRBD_WIRE_OP_WRITE = 0x0002"
definition NAMRBD_WIRE_OP_FLUSH :: u32 where "NAMRBD_WIRE_OP_FLUSH = 0x0003"
definition NAMRBD_WIRE_OP_DISCARD :: u32 where "NAMRBD_WIRE_OP_DISCARD = 0x0004"
definition NAMRBD_WIRE_OP_WRITE_ZEROES :: u32 where "NAMRBD_WIRE_OP_WRITE_ZEROES = 0x0005"
definition NAMRBD_WIRE_OP_PATH_PROBE :: u32 where "NAMRBD_WIRE_OP_PATH_PROBE = 0x0007"
definition NAMRBD_WIRE_OP_READ_RESP :: u32 where "NAMRBD_WIRE_OP_READ_RESP = 0x8001"
definition NAMRBD_WIRE_OP_WRITE_RESP :: u32 where "NAMRBD_WIRE_OP_WRITE_RESP = 0x8002"
definition NAMRBD_WIRE_OP_FLUSH_RESP :: u32 where "NAMRBD_WIRE_OP_FLUSH_RESP = 0x8003"
definition NAMRBD_WIRE_OP_DISCARD_RESP :: u32 where "NAMRBD_WIRE_OP_DISCARD_RESP = 0x8004"
definition NAMRBD_WIRE_OP_WRITE_ZEROES_RESP :: u32 where "NAMRBD_WIRE_OP_WRITE_ZEROES_RESP = 0x8005"
definition NAMRBD_WIRE_OP_ERROR_RESP :: u32 where "NAMRBD_WIRE_OP_ERROR_RESP = 0x8fff"
definition NAMRBD_WIREV2_HDR_LEN :: nat where "NAMRBD_WIREV2_HDR_LEN = 76"
definition NAMRBD_WIREV2_RESP_LEN :: nat where "NAMRBD_WIREV2_RESP_LEN = 96"
definition NAMRBD_WIREV2_AUTH_TAG_LEN :: nat where "NAMRBD_WIREV2_AUTH_TAG_LEN = 32"
definition NAMRBD_WIREV2_MAGIC :: u32 where "NAMRBD_WIREV2_MAGIC = 0x4E4D4252"
definition NAMRBD_WIREV2_VERSION :: u16 where "NAMRBD_WIREV2_VERSION = 2"

lemmas kernel_sizes = NAMRBD_WIRE_HDR_LEN_def NAMRBD_WIRE_RESP_LEN_def NAMRBD_WIREV2_HDR_LEN_def
  NAMRBD_WIREV2_RESP_LEN_def NAMRBD_WIREV2_AUTH_TAG_LEN_def
lemmas kernel_ops = NAMRBD_WIRE_OP_READ_def NAMRBD_WIRE_OP_WRITE_def NAMRBD_WIRE_OP_FLUSH_def NAMRBD_WIRE_OP_DISCARD_def
  NAMRBD_WIRE_OP_WRITE_ZEROES_def NAMRBD_WIRE_OP_PATH_PROBE_def NAMRBD_WIRE_OP_READ_RESP_def NAMRBD_WIRE_OP_WRITE_RESP_def
  NAMRBD_WIRE_OP_FLUSH_RESP_def NAMRBD_WIRE_OP_DISCARD_RESP_def NAMRBD_WIRE_OP_WRITE_ZEROES_RESP_def
  NAMRBD_WIRE_OP_ERROR_RESP_def

subsection \<open>Version 1\<close>

definition namrbd_wire_encode_header :: "u32 \<Rightarrow> u32 \<Rightarrow> u64 \<Rightarrow> u64 \<Rightarrow> u64 \<Rightarrow> u64 \<Rightarrow> u32 \<Rightarrow> bytes" where
  "namrbd_wire_encode_header op flags request_id volume_id generation offset_bytes length_bytes =
     (let buf = put_u32 0x4E4D4252 @ put_u16 1 @ put_u16 (of_nat NAMRBD_WIRE_HDR_LEN) @ put_u32 op @ put_u32 flags
            @ put_u64 request_id @ put_u64 volume_id @ put_u64 generation @ put_u64 offset_bytes @ put_u32 length_bytes
            @ put_u32 0;
          crc = crc32c (take (NAMRBD_WIRE_HDR_LEN - 4) buf)
      in take 52 buf @ put_u32 crc)"

definition namrbd_wire_response_op :: "u32 \<Rightarrow> u32" where
  "namrbd_wire_response_op op =
     (if op = NAMRBD_WIRE_OP_READ then NAMRBD_WIRE_OP_READ_RESP
      else if op = NAMRBD_WIRE_OP_WRITE then NAMRBD_WIRE_OP_WRITE_RESP
      else if op = NAMRBD_WIRE_OP_FLUSH then NAMRBD_WIRE_OP_FLUSH_RESP
      else if op = NAMRBD_WIRE_OP_DISCARD then NAMRBD_WIRE_OP_DISCARD_RESP
      else if op = NAMRBD_WIRE_OP_WRITE_ZEROES then NAMRBD_WIRE_OP_WRITE_ZEROES_RESP
      else if op = NAMRBD_WIRE_OP_PATH_PROBE then NAMRBD_WIRE_OP_PATH_PROBE
      else NAMRBD_WIRE_OP_ERROR_RESP)"

fun namrbd_wire_op_for_req :: "namrbd_req_op \<Rightarrow> u32" where
  "namrbd_wire_op_for_req REQ_OP_READ = NAMRBD_WIRE_OP_READ"
| "namrbd_wire_op_for_req REQ_OP_WRITE = NAMRBD_WIRE_OP_WRITE"
| "namrbd_wire_op_for_req REQ_OP_DISCARD = NAMRBD_WIRE_OP_DISCARD"
| "namrbd_wire_op_for_req REQ_OP_WRITE_ZEROES = NAMRBD_WIRE_OP_WRITE_ZEROES"
| "namrbd_wire_op_for_req REQ_OP_OTHER = 0"

definition namrbd_wire_request_length :: "u32 \<Rightarrow> namrbd_req_op \<Rightarrow> u32 \<Rightarrow> u32" where
  "namrbd_wire_request_length rq_bytes op payload_len = (if op = REQ_OP_WRITE then payload_len else rq_bytes)"

definition namrbd_wire_validate_response_header :: "bytes \<Rightarrow> u32 \<Rightarrow> u64 \<Rightarrow> u64 \<Rightarrow> u64 \<Rightarrow> errno option" where
  "namrbd_wire_validate_response_header hdr expected_op request_id volume_id generation =
     (if get_u32 (slice 0 4 hdr) \<noteq> NAMRBD_WIRE_MAGIC then Some EBADMSG
      else if get_u16 (slice 4 6 hdr) \<noteq> NAMRBD_WIRE_VERSION then Some EBADMSG
      else if get_u16 (slice 6 8 hdr) \<noteq> of_nat NAMRBD_WIRE_RESP_LEN then Some EBADMSG
      else
        let resp_op = get_u32 (slice 8 12 hdr)
        in if resp_op \<noteq> expected_op \<and> resp_op \<noteq> NAMRBD_WIRE_OP_ERROR_RESP then Some EBADMSG
           else if get_u64 (slice 16 24 hdr) \<noteq> request_id then Some EBADMSG
           else if get_u64 (slice 24 32 hdr) \<noteq> volume_id then Some EBADMSG
           else if get_u64 (slice 32 40 hdr) \<noteq> generation then Some ESTALE
           else None)"

text \<open>
  The payload of a write is an empty write tag and the data of the request, in the order of its segments. Its
  length is computed from the size of the request.
\<close>

definition namrbd_rw_collect_payload :: "namrbd_req_op \<Rightarrow> u32 \<Rightarrow> bytes \<Rightarrow> bytes \<times> u32" where
  "namrbd_rw_collect_payload op rq_bytes data =
     (if op \<noteq> REQ_OP_WRITE then ([], 0) else (replicate 24 0 @ data, rq_bytes + 24))"

definition namrbd_rw_copy_read_payload :: "u32 \<Rightarrow> bytes \<Rightarrow> errno + bytes" where
  "namrbd_rw_copy_read_payload rq_bytes payload =
     (if of_nat (length payload) \<noteq> rq_bytes then Inl EINVAL else Inr payload)"

definition namrbd_status_to_errno :: "i32 \<Rightarrow> errno option" where
  "namrbd_status_to_errno status =
     (if status = 0 then None
      else if status = 7 \<or> status = 10 \<or> status = 11 \<or> status = 12 then Some EAGAIN
      else if status = 4 then Some ENOENT
      else if status = 5 then Some ESTALE
      else if status = 6 then Some EINVAL
      else Some EIO)"

text \<open>A block request on its way: what the driver remembers of it.\<close>

record namrbd_pending_req =
  nrRequestID :: u64
  nrVolumeID :: u64
  nrGeneration :: u64
  nrOp :: namrbd_req_op
  nrExpectedOp :: u32
  nrRqBytes :: u32
  nrMaxRespLen :: u32

text \<open>
  Building one request: the bytes for the socket and the record that waits for the response, or nothing for an
  operation the protocol does not have. The admission limits, the path semaphore and the socket come around
  this part of the function.
\<close>

definition submit_request ::
    "u64 \<Rightarrow> u64 \<Rightarrow> u64 \<Rightarrow> namrbd_req_op \<Rightarrow> u64 \<Rightarrow> u32 \<Rightarrow> bytes \<Rightarrow> (bytes \<times> namrbd_pending_req) option" where
  "submit_request request_id volume_id generation op rq_pos rq_bytes data =
     (let (payload, payload_len) = namrbd_rw_collect_payload op rq_bytes data;
          wire_op = namrbd_wire_op_for_req op
      in if wire_op = 0 then None
         else Some (namrbd_wire_encode_header wire_op 0 request_id volume_id generation (push_bit 9 rq_pos)
                      (namrbd_wire_request_length rq_bytes op payload_len) @ payload,
                    \<lparr>nrRequestID = request_id, nrVolumeID = volume_id, nrGeneration = generation, nrOp = op,
                     nrExpectedOp = namrbd_wire_response_op wire_op, nrRqBytes = rq_bytes,
                     nrMaxRespLen = (if op = REQ_OP_READ then rq_bytes else 0)\<rparr>))"

text \<open>
  The receiving thread on the bytes of one response: an error, or the data that completes the request, with
  the bytes it has not read. \<open>None\<close> is a socket that has not delivered enough.
\<close>

definition receive_response :: "namrbd_pending_req \<Rightarrow> bytes \<Rightarrow> ((errno + bytes) \<times> bytes) option" where
  "receive_response pending stream =
     (if length stream < NAMRBD_WIRE_RESP_LEN then None
      else
        let resp_hdr = take NAMRBD_WIRE_RESP_LEN stream; rest = drop NAMRBD_WIRE_RESP_LEN stream
        in if get_u64 (slice 16 24 resp_hdr) \<noteq> nrRequestID pending then Some (Inl EBADMSG, rest)
           else case namrbd_wire_validate_response_header resp_hdr (nrExpectedOp pending) (nrRequestID pending)
                  (nrVolumeID pending) (nrGeneration pending) of
             Some err \<Rightarrow> Some (Inl err, rest)
           | None \<Rightarrow>
               let resp_len = get_u32 (slice 48 52 resp_hdr)
               in if resp_len > nrMaxRespLen pending then Some (Inl EMSGSIZE, rest)
                  else if length rest < unat resp_len then None
                  else
                    let resp_payload = take (unat resp_len) rest; rest' = drop (unat resp_len) rest
                    in case namrbd_status_to_errno (get_u32 (slice 56 60 resp_hdr)) of
                         Some err \<Rightarrow> Some (Inl err, rest')
                       | None \<Rightarrow>
                           if nrOp pending = REQ_OP_READ
                           then Some (namrbd_rw_copy_read_payload (nrRqBytes pending) resp_payload, rest')
                           else Some (Inr [], rest'))"

subsection \<open>Version 2\<close>

definition namrbd_wirev2_encode_header ::
    "u32 \<Rightarrow> u32 \<Rightarrow> u64 \<Rightarrow> u64 \<Rightarrow> u64 \<Rightarrow> u64 \<Rightarrow> u64 \<Rightarrow> u64 \<Rightarrow> u32 \<Rightarrow> u16 \<Rightarrow> bytes" where
  "namrbd_wirev2_encode_header op flags request_id volume_id generation session_id seq_no offset_bytes length_bytes auth_len =
     (let buf = put_u32 NAMRBD_WIREV2_MAGIC @ put_u16 NAMRBD_WIREV2_VERSION @ put_u16 (of_nat NAMRBD_WIREV2_HDR_LEN)
            @ put_u32 op @ put_u32 flags @ put_u64 request_id @ put_u64 volume_id @ put_u64 generation
            @ put_u64 session_id @ put_u64 seq_no @ put_u64 offset_bytes @ put_u32 length_bytes @ put_u16 auth_len
            @ put_u16 0 @ put_u32 0;
          crc = crc32c (take 72 buf)
      in take 72 buf @ put_u32 crc)"

definition namrbd_wirev2_build_aad :: "bytes \<Rightarrow> bytes" where
  "namrbd_wirev2_build_aad hdr =
     put_u16 NAMRBD_WIREV2_VERSION @ put_u32 (get_u32 (slice 8 12 hdr)) @ put_u64 (get_u64 (slice 16 24 hdr))
     @ put_u64 (get_u64 (slice 24 32 hdr)) @ put_u64 (get_u64 (slice 32 40 hdr)) @ put_u64 (get_u64 (slice 40 48 hdr))
     @ put_u64 (get_u64 (slice 48 56 hdr)) @ put_u64 (get_u64 (slice 56 64 hdr)) @ put_u32 (get_u32 (slice 64 68 hdr))"

definition namrbd_wirev2_compute_auth_tag :: "bytes \<Rightarrow> bytes \<Rightarrow> bytes \<Rightarrow> bytes" where
  "namrbd_wirev2_compute_auth_tag session_key hdr payload = hmac_sha256 session_key (namrbd_wirev2_build_aad hdr @ payload)"

definition namrbd_wirev2_validate_response_header ::
    "bytes \<Rightarrow> u32 \<Rightarrow> u64 \<Rightarrow> u64 \<Rightarrow> u64 \<Rightarrow> u64 \<Rightarrow> u64 \<Rightarrow> errno option" where
  "namrbd_wirev2_validate_response_header hdr expected_op request_id volume_id generation session_id seq_no =
     (if get_u32 (slice 0 4 hdr) \<noteq> NAMRBD_WIREV2_MAGIC then Some EBADMSG
      else if get_u16 (slice 4 6 hdr) \<noteq> NAMRBD_WIREV2_VERSION then Some EBADMSG
      else if get_u16 (slice 6 8 hdr) \<noteq> of_nat NAMRBD_WIREV2_RESP_LEN then Some EBADMSG
      else
        let resp_op = get_u32 (slice 8 12 hdr)
        in if resp_op \<noteq> expected_op \<and> resp_op \<noteq> NAMRBD_WIRE_OP_ERROR_RESP then Some EBADMSG
           else if get_u64 (slice 16 24 hdr) \<noteq> request_id then Some EBADMSG
           else if get_u64 (slice 24 32 hdr) \<noteq> volume_id then Some EBADMSG
           else if get_u64 (slice 32 40 hdr) \<noteq> generation then Some ESTALE
           else if session_id \<noteq> 0 \<and> get_u64 (slice 40 48 hdr) \<noteq> session_id then Some EBADMSG
           else if seq_no \<noteq> 0 \<and> get_u64 (slice 48 56 hdr) \<noteq> seq_no then Some EBADMSG
           else None)"

text \<open>The frame that opens a session: the length of the body is written after the checksum.\<close>

definition hello_request :: "u64 \<Rightarrow> u64 \<Rightarrow> u64 \<Rightarrow> bytes \<Rightarrow> bytes" where
  "hello_request request_id volume_id generation body =
     (let hdr = namrbd_wirev2_encode_header OpHello 0 request_id volume_id generation 0 0 0 0 0
      in take 64 hdr @ put_u32 (of_nat (length body)) @ drop 68 hdr @ body)"

section \<open>The client and the decoder of the gateway\<close>

definition client_header :: "u32 \<Rightarrow> u64 \<Rightarrow> u64 \<Rightarrow> u64 \<Rightarrow> u64 \<Rightarrow> u32 \<Rightarrow> Header" where
  "client_header op request_id volume_id generation offset_bytes length_bytes =
     (let h = (NewRequestHeader op request_id volume_id generation offset_bytes 0)\<lparr>hLengthBytes := length_bytes\<rparr>
      in h\<lparr>hCRC32C := crc32c (header_body h)\<rparr>)"

lemma client_header_fields [simp]:
  "hOp (client_header op rid vol gen off len) = op" "hFlags (client_header op rid vol gen off len) = 0"
  "hRequestID (client_header op rid vol gen off len) = rid" "hVolumeID (client_header op rid vol gen off len) = vol"
  "hGeneration (client_header op rid vol gen off len) = gen" "hOffsetBytes (client_header op rid vol gen off len) = off"
  "hLengthBytes (client_header op rid vol gen off len) = len" "hMagic (client_header op rid vol gen off len) = Magic"
  "hVersion (client_header op rid vol gen off len) = VersionV1" "hHeaderLen (client_header op rid vol gen off len) = HeaderSize"
  by (simp_all add: client_header_def NewRequestHeader_def Let_def)

lemma client_header_crc:
  "hCRC32C (client_header op rid vol gen off len) = crc32c (header_body (client_header op rid vol gen off len))"
  by (simp add: client_header_def Let_def)

lemma encode_client_header:
  "namrbd_wire_encode_header op 0 rid vol gen off len =
     header_body (client_header op rid vol gen off len) @ put_u32 (hCRC32C (client_header op rid vol gen off len))"
  by (simp add: namrbd_wire_encode_header_def client_header_crc Let_def kernel_sizes header_body_def Magic_def VersionV1_def
      HeaderSize_def)

lemma length_encode_header [simp]: "length (namrbd_wire_encode_header op flags rid vol gen off len) = 56"
  by (simp add: namrbd_wire_encode_header_def Let_def kernel_sizes)

text \<open>The gateway delivers a header-only request of the client however its bytes are split.\<close>

lemma Next_client_range:
  assumes op: "opUsesLengthAsRangeWithoutRequestPayload op"
    and buf: "sdBuf d = namrbd_wire_encode_header op 0 rid vol gen off len @ rest"
  shows "Next d = (Inr (Some (client_header op rid vol gen off len, [])), d\<lparr>sdBuf := rest\<rparr>)"
proof -
  let ?w = "namrbd_wire_encode_header op 0 rid vol gen off len" and ?h = "client_header op rid vol gen off len"
  have w: "parseHeader ?w = ?h" "header_crc ?w = crc32c (header_body ?h)"
    by (simp_all add: encode_client_header parseHeader_body header_crc_eq)
  have "take 56 (sdBuf d) = ?w" "drop 56 (sdBuf d) = rest" "\<not> length (sdBuf d) < 56"
    using buf by simp_all
  moreover have "DecodeMessage ?w = Inr (?h, [])"
    using op by (simp add: DecodeMessage_def Let_def w client_header_crc)
  ultimately show ?thesis
    using op w(1) by (simp add: Next_def Let_def)
qed

lemma ReadFrame_client_range:
  assumes "opUsesLengthAsRangeWithoutRequestPayload op"
    and "sdBuf d @ concat cs = namrbd_wire_encode_header op 0 rid vol gen off len @ rest"
  shows "\<exists>d' cs'. ReadFrame d (map Data cs) = Some (Inr (client_header op rid vol gen off len, []), d', map Data cs')
    \<and> sdBuf d' @ concat cs' = rest \<and> sdMaxPayloadLen d' = sdMaxPayloadLen d"
proof (rule ReadFrame_whole[OF _ _ refl assms(2)])
  show "Next d = (Inr (Some (client_header op rid vol gen off len, [])), d\<lparr>sdBuf := rest\<rparr>)"
    if "sdBuf d = namrbd_wire_encode_header op 0 rid vol gen off len @ rest" for d rest
    by (rule Next_client_range[OF assms(1) that])
  show "Next d = (Inr None, d)"
    if "sdBuf d = take n (namrbd_wire_encode_header op 0 rid vol gen off len)"
      "n < length (namrbd_wire_encode_header op 0 rid vol gen off len)" for d n
    using that by (simp add: Next_def)
qed

text \<open>A write of the client is the frame of the codec for its payload.\<close>

lemma client_write:
  assumes "n = of_nat (length data)"
  shows "submit_request rid vol gen REQ_OP_WRITE pos n data =
    Some (encode_frame (NewRequestHeader OpWrite rid vol gen (push_bit 9 pos) 0, replicate 24 0 @ data),
      \<lparr>nrRequestID = rid, nrVolumeID = vol, nrGeneration = gen, nrOp = REQ_OP_WRITE, nrExpectedOp = OpWriteResp,
       nrRqBytes = n, nrMaxRespLen = 0\<rparr>)"
proof -
  have "client_header OpWrite rid vol gen off (n + 24)
      = wire_header (NewRequestHeader OpWrite rid vol gen off 0) (replicate 24 0 @ data)" for off
    by (simp add: client_header_def wire_header_def NewRequestHeader_def Let_def assms add.commute)
  then have "namrbd_wire_encode_header OpWrite 0 rid vol gen off (n + 24) @ replicate 24 0 @ data
      = encode_frame (NewRequestHeader OpWrite rid vol gen off 0, replicate 24 0 @ data)" for off
    by (simp add: encode_client_header encode_frame_def EncodeMessage_layout)
  then show ?thesis
    by (simp add: submit_request_def namrbd_rw_collect_payload_def namrbd_wire_request_length_def
        namrbd_wire_response_op_def kernel_ops op_defs Let_def)
qed

lemma client_read:
  "submit_request rid vol gen REQ_OP_READ pos n data =
    Some (namrbd_wire_encode_header OpRead 0 rid vol gen (push_bit 9 pos) n,
      \<lparr>nrRequestID = rid, nrVolumeID = vol, nrGeneration = gen, nrOp = REQ_OP_READ, nrExpectedOp = OpReadResp,
       nrRqBytes = n, nrMaxRespLen = n\<rparr>)"
  by (simp add: submit_request_def namrbd_rw_collect_payload_def namrbd_wire_request_length_def
      namrbd_wire_response_op_def kernel_ops op_defs Let_def)

text \<open>What the client makes of a response of the gateway.\<close>

lemma response_header_fields:
  "get_u32 (slice 0 4 (header_body b @ put_u32 c @ put_response_tail r)) = hMagic b"
  "get_u16 (slice 4 6 (header_body b @ put_u32 c @ put_response_tail r)) = hVersion b"
  "get_u16 (slice 6 8 (header_body b @ put_u32 c @ put_response_tail r)) = hHeaderLen b"
  "get_u32 (slice 8 12 (header_body b @ put_u32 c @ put_response_tail r)) = hOp b"
  "get_u64 (slice 16 24 (header_body b @ put_u32 c @ put_response_tail r)) = hRequestID b"
  "get_u64 (slice 24 32 (header_body b @ put_u32 c @ put_response_tail r)) = hVolumeID b"
  "get_u64 (slice 32 40 (header_body b @ put_u32 c @ put_response_tail r)) = hGeneration b"
  "get_u32 (slice 48 52 (header_body b @ put_u32 c @ put_response_tail r)) = hLengthBytes b"
  "get_u32 (slice 56 60 (header_body b @ put_u32 c @ put_response_tail r)) = rStatusCode r"
  by (simp_all add: header_body_def put_response_tail_def slice_def)

lemma wire_response_names [simp]:
  "hOp (rBase (wire_response r p)) = hOp (rBase r)"
  "hRequestID (rBase (wire_response r p)) = hRequestID (rBase r)"
  "hVolumeID (rBase (wire_response r p)) = hVolumeID (rBase r)"
  "hGeneration (rBase (wire_response r p)) = hGeneration (rBase r)"
  by (simp_all add: wire_response_def Let_def)

lemma receive_gateway_response:
  assumes r: "hOp (rBase r) = nrExpectedOp q" "hRequestID (rBase r) = nrRequestID q" "hVolumeID (rBase r) = nrVolumeID q"
      "hGeneration (rBase r) = nrGeneration q"
    and ok: "rStatusCode r = StatusOK" "length out < 2 ^ 32" "length out \<le> unat (nrMaxRespLen q)"
    and read: "nrOp q = REQ_OP_READ \<Longrightarrow> of_nat (length out) = nrRqBytes q" "nrOp q \<noteq> REQ_OP_READ \<Longrightarrow> out = []"
  shows "receive_response q (EncodeResponseMessage r out @ rest) = Some (Inr out, rest)"
proof -
  let ?w = "wire_response r out"
  define s where "s = EncodeResponseMessage r out @ rest"
  have len: "unat (of_nat (length out) :: u32) = length out"
    by (rule unat_of_nat_length) (use ok(2) in simp)
  have hdr: "take 76 s = header_body (rBase ?w) @ put_u32 (hCRC32C (rBase ?w)) @ put_response_tail r"
    and tl: "drop 76 s = out @ rest" and long: "\<not> length s < 76"
    by (simp_all add: s_def EncodeResponseMessage_layout)
  have valid: "namrbd_wire_validate_response_header (take 76 s) (nrExpectedOp q) (nrRequestID q) (nrVolumeID q)
      (nrGeneration q) = None"
    unfolding hdr namrbd_wire_validate_response_header_def response_header_fields wire_response_names wire_response_fields r
    by (simp add: kernel_sizes NAMRBD_WIRE_MAGIC_def NAMRBD_WIRE_VERSION_def Magic_def VersionV1_def ResponseHdrLen_def)
  have fits: "\<not> nrMaxRespLen q < of_nat (length out)"
    using ok(3) by (simp add: word_less_nat_alt len not_less)
  have status: "namrbd_status_to_errno (rStatusCode r) = None"
    by (simp add: ok(1) namrbd_status_to_errno_def StatusOK_def)
  have fields: "get_u64 (slice 16 24 (take 76 s)) = nrRequestID q"
    "get_u32 (slice 48 52 (take 76 s)) = of_nat (length out)" "get_u32 (slice 56 60 (take 76 s)) = rStatusCode r"
    unfolding hdr response_header_fields wire_response_names wire_response_fields r by simp_all
  have "receive_response q s =
      (if nrOp q = REQ_OP_READ then Some (namrbd_rw_copy_read_payload (nrRqBytes q) out, rest) else Some (Inr [], rest))"
    using long fits
    by (simp add: receive_response_def kernel_sizes fields valid tl len status Let_def)
  then show ?thesis
    using read by (cases "nrOp q = REQ_OP_READ") (simp_all add: s_def namrbd_rw_copy_read_payload_def)
qed

end
