(* ===== verification/DataplanePath.thy ===== *)
theory DataplanePath
  imports Dataplane ServicePath KernelWire
begin

section \<open>The data plane between the kernel client and the repositories\<close>

text \<open>
  Properties that span components. A version 2 session dies with the attachment it was opened for, whatever
  happens to the volume later. Over version 1 the block driver, the connection loop, the gateway service, the
  extent map and the chunk store together read back what they wrote. The handshake of version 2 fails between
  the block driver and the gateway, in both directions.
\<close>

subsection \<open>Sessions of ended attachments\<close>

lemma volumeState_memory:
  assumes "repo_wf r" "svcMetadata svc = inMemoryRepository" "volumeState svc i w = Inr st" "fst w = r"
  shows "vsAttachmentID st = current_id r i"
proof -
  obtain v where v: "mget (mVolumes r) i = Some v"
    and st: "volumeStateFromSpec svc (cloneVolumeSpec v) w = Inr st"
    using assms(2-4) by (auto simp: volumeState_def GetVolume_def split: option.splits)
  have "volume_wf i v"
    using repo_wfD(2)[OF assms(1), of i] v by (simp add: slot_wf_def volume_exists_def)
  then show ?thesis
    using st assms(2,4)
    by (auto simp: volumeStateFromSpec_def GetAttachment_def current_id_def volume_wf_def split: if_splits)
qed

lemma frame_of_stale_session:
  assumes "mget (stByID (dpSessions p)) (h2SessionID h) = Some sess" "ssID sess = h2SessionID h"
    and "sessionStillCurrent s sess (gwWorld (dpGateway p)) \<noteq> None"
  shows "\<exists>code. frame_outcome s e h payload tag p
    = (Inl code, p\<lparr>dpSessions := RemoveSession (h2SessionID h) (dpSessions p)\<rparr>)"
  using assms by (auto simp: frame_outcome_def GetSession_def Let_def)

text \<open>
  C8. Once the attachment a session was opened for has ended, the session is of no use: after any later control
  operations, including attaches of the same host and device, a frame that names it is refused, changes
  nothing in the gateway and removes the session. As for the attachment ids themselves, the volume is not
  deleted in between, its generation is not overwritten by hand and the generation counter does not wrap.
\<close>

theorem ended_attachment_closes_session:
  assumes attached: "repo_wf r" "gen_ok r (ssVolumeID sess)" "current_id r (ssVolumeID sess) = ssAttachmentID sess"
      "ssAttachmentID sess \<noteq> ''''"
    and ops: "\<forall>x \<in> set (ops1 @ ops2). keeps_generation x"
      "unat (current_gen r (ssVolumeID sess)) + length (ops1 @ ops2) < 2 ^ 64"
    and ended: "current_id (run_ops ops1 r) (ssVolumeID sess) \<noteq> ssAttachmentID sess"
    and server: "svcMetadata (dsService s) = inMemoryRepository" "fst (gwWorld (dpGateway p)) = run_ops (ops1 @ ops2) r"
    and frame: "mget (stByID (dpSessions p)) (h2SessionID h) = Some sess" "ssID sess = h2SessionID h"
  shows "\<exists>code. frame_outcome s e h payload tag p
    = (Inl code, p\<lparr>dpSessions := RemoveSession (h2SessionID h) (dpSessions p)\<rparr>)"
proof (rule frame_of_stale_session[OF frame])
  have "current_id (run_ops (ops1 @ ops2) r) (ssVolumeID sess) \<noteq> ssAttachmentID sess"
    using attached(2-4) ops ended by (rule attachment_id_gone)
  moreover have "repo_wf (run_ops (ops1 @ ops2) r)"
    using attached(1) by (rule wf_run_ops)
  ultimately show "sessionStillCurrent s sess (gwWorld (dpGateway p)) \<noteq> None"
    unfolding sessionStillCurrent_None using volumeState_memory[OF _ server(1) _ server(2)] by metis
qed

text \<open>The volume of the demonstration session after its host has detached and attached again.\<close>

definition reattached :: "(repo, unit) dataplane" where
  "reattached = demo_dataplane\<lparr>dpGateway := attached_gateway\<lparr>gwWorld :=
     (run_ops ([OpDetach demo_detach] @ [OpAttach 200 demo_attach]) (run_ops [OpAttach 100 demo_attach] demo_repo), ())\<rparr>\<rparr>"

theorem ended_attachment_closes_session_witness:
  "\<exists>code. frame_outcome demo_server demo_env demo_flush [] (ComputeAuthTag demo_key demo_flush []) reattached
     = (Inl code, reattached\<lparr>dpSessions := RemoveSession 1 (dpSessions reattached)\<rparr>)"
proof -
  let ?r = "run_ops [OpAttach 100 demo_attach] demo_repo"
  have "repo_wf ?r"
    using demo_repo_wf by (rule wf_run_ops)
  moreover have "ssVolumeID demo_session = 7" "ssAttachmentID demo_session = ''att-00000007-0001''"
    by (simp_all add: demo_session_def)
  moreover have "svcMetadata (dsService demo_server) = inMemoryRepository"
    "fst (gwWorld (dpGateway reattached)) = run_ops ([OpDetach demo_detach] @ [OpAttach 200 demo_attach]) ?r"
    by (simp_all add: demo_server_def NewServer_def reattached_def)
  moreover have "mget (stByID (dpSessions reattached)) (h2SessionID demo_flush) = Some demo_session"
    "ssID demo_session = h2SessionID demo_flush" "h2SessionID demo_flush = 1"
    by (simp_all add: reattached_def demo_dataplane_def demo_flush_def demo_session_def)
  ultimately show ?thesis
    using ended_attachment_closes_session[of ?r demo_session "[OpDetach demo_detach]" "[OpAttach 200 demo_attach]" demo_server
        reattached demo_flush demo_env "[]" "ComputeAuthTag demo_key demo_flush []"]
    by (simp add: demo_attached del: run_ops_simps)
qed

subsection \<open>From the block driver to the chunks and back\<close>

lemma unat_lt_32: "unat (m :: u32) < 2 ^ 32"
  using unsigned_less[of m, where ?'a = nat] by simp

lemma ucast_of_unat: "(ucast (m :: u32) :: u64) = of_nat (unat m)"
  using unat_lt_32[of m] by (simp add: word_unat_eq_iff unat_ucast_u32 unat_of_nat take_bit_nat_eq_self)

lemma write_request_answered:
  assumes sv: "serves v g" "dsService s = memory_gateway_service i"
    and h: "hOp h = OpWrite" "hVolumeID h = vID v" "hOffsetBytes h = off"
    and data: "length data < 2 ^ 32" "validateLogicalLength s OpWrite (of_nat (length data))"
    and ok: "validateRange (vBlockSize v) (vSizeBytes v) off (of_nat (length data)) = Inr ()"
      "protectedWriteRejectionForVolume v = None"
  obtains g' where "request_outcome s t h (replicate 24 0 @ data) g = ((StatusOK, []), g')"
    "memory_inv v (gwWorld g')" "volume_spec (fst (gwWorld g')) (vID v) = Some v"
    "\<forall>j < unat (vSizeBytes v). memory_bytes v (gwWorld g') j =
       (if unat off \<le> j \<and> j < unat off + length data then data ! (j - unat off) else memory_bytes v (gwWorld g) j)"
proof -
  have "length data < 2 ^ 63"
    using data(1) by simp
  then obtain w' where out: "write_outcome (memory_gateway_service i) (atUnix t) (vID v) off (of_nat (length data)) data (gwWorld g)
      = returned (Inr (), w')"
    and w': "memory_inv v w'" "volume_spec (fst w') (vID v) = Some v"
    and bytes: "unat (of_nat (length data) :: u64) = length data" "\<forall>j < unat (vSizeBytes v). memory_bytes v w' j =
       (if unat off \<le> j \<and> j < unat off + unat (of_nat (length data) :: u64) then data ! (j - unat off)
        else memory_bytes v (gwWorld g) j)"
    using write_outcome_memory[OF sv(1) _ ok(1) refl ok(2), of i "atUnix t"] by metis
  obtain g' where W: "Write (memory_gateway_service i) t (vID v) off (of_nat (length data)) data g = (Inr (), g')"
    and g': "gwWorld g' = w'"
    using out by (auto simp: Write_def recorded_def returned_def)
  have "request_outcome s t h (replicate 24 0 @ data) g = ((StatusOK, []), g')"
    using h data(2) W by (simp add: request_outcome_def DecodeWritePayload_def answered_def sv(2) op_defs Let_def)
  then show ?thesis
    using that w' bytes by (simp add: g')
qed

lemma read_request_answered:
  assumes "vol_ok v" "memory_inv v (gwWorld g)" "volume_spec (fst (gwWorld g)) (vID v) = Some v"
    and "unat (vSizeBytes v) \<le> 2 ^ 63" "dsService s = memory_gateway_service i"
    and h: "hOp h = OpRead" "hVolumeID h = vID v" "hOffsetBytes h = off" "hLengthBytes h = m"
    and ok: "validateLogicalLength s OpRead m" "validateRange (vBlockSize v) (vSizeBytes v) off (ucast m) = Inr ()"
  obtains g' where "request_outcome s t h [] g
     = ((StatusOK, map (memory_bytes v (gwWorld g)) [unat off..<unat off + unat m]), g')"
    "unat off + unat m \<le> unat (vSizeBytes v)"
proof -
  have m: "unat (ucast m :: u64) = unat m"
    by (simp add: unat_ucast_u32)
  have "unat m < 2 ^ 63"
    using unat_lt_32[of m] by simp
  then have inside: "unat off + unat m \<le> unat (vSizeBytes v)"
    using range_inside[OF assms(4) _ ok(2)] by (simp add: m)
  then obtain g' where "Read (memory_gateway_service i) t (vID v) off (ucast m) g
      = (Inr (map (memory_bytes v (gwWorld g)) [unat off..<unat off + unat m]), g')"
    using read_memory[OF assms(1-3) ok(2), of i t] by (simp add: m prod_eq_iff)
  then show ?thesis
    using that h ok(1) inside by (simp add: request_outcome_def answered_def assms(5) op_defs Let_def)
qed

text \<open>The client completes what the server answered to it.\<close>

lemma response_of_request:
  assumes "request_outcome s (rqMoment e) h payload g = ((StatusOK, out), g')"
    and q: "nrExpectedOp q = responseOp (hOp h)" "nrRequestID q = hRequestID h" "nrVolumeID q = hVolumeID h"
      "nrGeneration q = hGeneration h"
    and out: "length out < 2 ^ 32" "length out \<le> unat (nrMaxRespLen q)"
      "nrOp q = REQ_OP_READ \<Longrightarrow> of_nat (length out) = nrRqBytes q" "nrOp q \<noteq> REQ_OP_READ \<Longrightarrow> out = []"
  obtains resp where "handleRequest s e h payload g = ((resp, out), g')"
    "\<And>rest. receive_response q (EncodeResponseMessage resp out @ rest) = Some (Inr out, rest)"
proof -
  define resp where "resp = fst (fst (handleRequest s e h payload g))"
  have "handleRequest s e h payload g = ((resp, out), g')"
    by (simp add: resp_def handleRequest_def assms(1))
  moreover have "receive_response q (EncodeResponseMessage resp out @ rest) = Some (Inr out, rest)" for rest
    by (rule receive_gateway_response)
      (use out in \<open>simp_all add: resp_def handleRequest_def assms(1) q\<close>)
  ultimately show ?thesis
    using that by blast
qed

text \<open>The connection loop receives the write and the read of the client, however they are cut.\<close>

lemma client_frames_delivered:
  assumes "stream_frame limit f" "opUsesLengthAsRangeWithoutRequestPayload op"
    and "first6 @ concat cs = encode_frame f @ namrbd_wire_encode_header op 0 rid vol gen off len"
  obtains d' evs' d'' evs'' where
    "ReadFrame (NewStreamDecoder limit) (Data first6 # map Data cs) = Some (Inr (received f), d', evs')"
    "ReadFrame d' evs' = Some (Inr (client_header op rid vol gen off len, []), d'', evs'')"
proof -
  let ?d = "NewStreamDecoder limit"
  have "stream_frame (sdMaxPayloadLen ?d) f" "sdBuf ?d @ concat (first6 # cs) = encode_frame f @ namrbd_wire_encode_header op 0 rid vol gen off len"
    using assms(1,3) by (simp_all add: NewStreamDecoder_def)
  from ReadFrame_frame[OF this] obtain d' cs' where
    F: "ReadFrame ?d (map Data (first6 # cs)) = Some (Inr (received f), d', map Data cs')"
    and "sdBuf d' @ concat cs' = namrbd_wire_encode_header op 0 rid vol gen off len @ []"
    by auto
  from ReadFrame_client_range[OF assms(2) this(2)] obtain d'' cs'' where
    "ReadFrame d' (map Data cs') = Some (Inr (client_header op rid vol gen off len, []), d'', map Data cs'')"
    by auto
  with F show ?thesis
    using that by simp
qed

lemma client_write_fits:
  assumes "unat limit + 24 < 2 ^ 32" "length data \<le> unat limit"
  shows "stream_frame (limit + 24) (NewRequestHeader OpWrite rid vol gen off 0, replicate 24 0 @ data)"
proof -
  have "unat (limit + 24) = unat limit + 24"
    using assms(1) by (simp add: unat_word_ariths)
  then show ?thesis
    using assms(2) by (simp add: stream_frame_def NewRequestHeader_def opUsesLengthAsRangeWithoutRequestPayload_def op_defs)
qed

lemma client_write_header:
  "hOp (wire_header (NewRequestHeader OpWrite rid vol gen off 0) p) = OpWrite"
  "hVolumeID (wire_header (NewRequestHeader OpWrite rid vol gen off 0) p) = vol"
  "hRequestID (wire_header (NewRequestHeader OpWrite rid vol gen off 0) p) = rid"
  "hGeneration (wire_header (NewRequestHeader OpWrite rid vol gen off 0) p) = gen"
  "hOffsetBytes (wire_header (NewRequestHeader OpWrite rid vol gen off 0) p) = off"
  by (simp_all add: wire_header_def NewRequestHeader_def Let_def)

lemma range_op: "opUsesLengthAsRangeWithoutRequestPayload OpRead"
  by (simp add: opUsesLengthAsRangeWithoutRequestPayload_def)

text \<open>
  C7. End to end. The block driver sends a write and then a read of a served volume. However the network cuts
  the two requests into pieces, the gateway answers both, the driver completes both, and the read returns the
  written data in the range of the write and elsewhere what a read returned before the write.
\<close>

theorem kernel_write_then_read:
  assumes sv: "serves v g" "dsService s = memory_gateway_service i" "protectedWriteRejectionForVolume v = None"
    and W: "submit_request wid (vID v) gen REQ_OP_WRITE wpos n data = Some (wreq, wpending)"
      "length data = unat n" "n \<le> cfMaxIOSize (dsConfig s)"
      "validateRange (vBlockSize v) (vSizeBytes v) (push_bit 9 wpos) (ucast n) = Inr ()"
    and R: "submit_request rid (vID v) gen REQ_OP_READ rpos m [] = Some (rreq, rpending)"
      "m \<le> cfMaxIOSize (dsConfig s)"
      "validateRange (vBlockSize v) (vSizeBytes v) (push_bit 9 rpos) (ucast m) = Inr ()"
    and limit: "unat (cfMaxIOSize (dsConfig s)) + 24 < 2 ^ 32"
    and wire: "first6 @ concat cs = wreq @ rreq" "rqWritten e1" "rqWritten e2"
    and before: "fst (Read (memory_gateway_service i) t (vID v) (push_bit 9 rpos) (ucast m) g) = Inr old"
  shows "\<exists>f1 f2 g'. handleConnV1 s [e1, e2] first6 (map Data cs) g = ([f1, f2], g')
     \<and> receive_response wpending (f1 @ f2) = Some (Inr [], f2)
     \<and> receive_response rpending f2 = Some (Inr (map (\<lambda>j.
          if unat (push_bit 9 wpos) \<le> j \<and> j < unat (push_bit 9 wpos) + length data
          then data ! (j - unat (push_bit 9 wpos)) else old ! (j - unat (push_bit 9 rpos)))
          [unat (push_bit 9 rpos)..<unat (push_bit 9 rpos) + unat m]), [])"
proof -
  let ?woff = "push_bit 9 wpos :: u64" and ?roff = "push_bit 9 rpos :: u64" and ?data24 = "replicate 24 0 @ data"
  let ?h1 = "NewRequestHeader OpWrite wid (vID v) gen ?woff 0" and ?h2 = "client_header OpRead rid (vID v) gen ?roff m"
  have v: "vol_ok v" "unat (vSizeBytes v) \<le> 2 ^ 63" "memory_inv v (gwWorld g)" "volume_spec (fst (gwWorld g)) (vID v) = Some v"
    using sv(1) by (simp_all add: serves_def)
  have n: "n = of_nat (length data)" "length data < 2 ^ 32" "(ucast n :: u64) = of_nat (length data)"
    using W(2) unat_lt_32[of n] ucast_of_unat[of n] by simp_all
  have w: "wreq = encode_frame (?h1, ?data24)" "wpending = \<lparr>nrRequestID = wid, nrVolumeID = vID v, nrGeneration = gen,
      nrOp = REQ_OP_WRITE, nrExpectedOp = OpWriteResp, nrRqBytes = n, nrMaxRespLen = 0\<rparr>"
    using W(1) client_write[OF n(1)] by simp_all
  have r: "rreq = namrbd_wire_encode_header OpRead 0 rid (vID v) gen ?roff m" "rpending = \<lparr>nrRequestID = rid,
      nrVolumeID = vID v, nrGeneration = gen, nrOp = REQ_OP_READ, nrExpectedOp = OpReadResp, nrRqBytes = m, nrMaxRespLen = m\<rparr>"
    using R(1) client_read by simp_all
  have fits: "length data \<le> unat (cfMaxIOSize (dsConfig s))"
    using W(2,3) by (simp add: word_le_nat_alt)
  obtain d' evs' d'' evs'' where
    F: "ReadFrame (NewStreamDecoder (cfMaxIOSize (dsConfig s) + 24)) (Data first6 # map Data cs)
        = Some (Inr (received (?h1, ?data24)), d', evs')" "ReadFrame d' evs' = Some (Inr (?h2, []), d'', evs'')"
    using client_frames_delivered[OF client_write_fits[OF limit fits] range_op wire(1)[unfolded w(1) r(1)]] by metis
  have lens: "validateLogicalLength s OpWrite (of_nat (length data))" "validateLogicalLength s OpRead m"
    using W(3) R(2) n(1) by (simp_all add: validateLogicalLength_def maxLogicalLengthForOp_def op_defs)
  obtain g1 where g1: "request_outcome s (rqMoment e1) (wire_header ?h1 ?data24) ?data24 g = ((StatusOK, []), g1)"
      "memory_inv v (gwWorld g1)" "volume_spec (fst (gwWorld g1)) (vID v) = Some v"
    and bytes: "\<forall>j < unat (vSizeBytes v). memory_bytes v (gwWorld g1) j =
       (if unat ?woff \<le> j \<and> j < unat ?woff + length data then data ! (j - unat ?woff) else memory_bytes v (gwWorld g) j)"
    by (rule write_request_answered[OF sv(1,2) client_write_header(1,2,5) n(2) lens(1) W(4)[unfolded n(3)] sv(3)])
  obtain g2 where g2: "request_outcome s (rqMoment e2) ?h2 [] g1
      = ((StatusOK, map (memory_bytes v (gwWorld g1)) [unat ?roff..<unat ?roff + unat m]), g2)"
    and inside: "unat ?roff + unat m \<le> unat (vSizeBytes v)"
    by (rule read_request_answered[OF v(1) g1(2,3) v(2) sv(2) client_header_fields(1,4,6,7) lens(2) R(3)])
  let ?out = "map (memory_bytes v (gwWorld g1)) [unat ?roff..<unat ?roff + unat m]"
  obtain resp1 where R1: "handleRequest s e1 (wire_header ?h1 ?data24) ?data24 g = ((resp1, []), g1)"
    "\<And>rest. receive_response wpending (EncodeResponseMessage resp1 [] @ rest) = Some (Inr [], rest)"
    by (rule response_of_request[OF g1(1), of wpending]) (simp_all add: w(2) NewRequestHeader_def responseOp_def op_defs)
  obtain resp2 where R2: "handleRequest s e2 ?h2 [] g1 = ((resp2, ?out), g2)"
    "\<And>rest. receive_response rpending (EncodeResponseMessage resp2 ?out @ rest) = Some (Inr ?out, rest)"
    by (rule response_of_request[OF g2, of rpending])
      (use unat_lt_32[of m] in \<open>simp_all add: r(2) responseOp_def\<close>)
  have old: "old = map (memory_bytes v (gwWorld g)) [unat ?roff..<unat ?roff + unat m]"
    using before read_memory[OF v(1,3,4) R(3), of i t] inside by (simp add: unat_ucast_u32)
  have "?out = map (\<lambda>j. if unat ?woff \<le> j \<and> j < unat ?woff + length data then data ! (j - unat ?woff)
      else old ! (j - unat ?roff)) [unat ?roff..<unat ?roff + unat m]"
    using bytes inside by (auto simp: old)
  moreover have "handleConnV1 s [e1, e2] first6 (map Data cs) g = ([EncodeResponseMessage resp1 [], EncodeResponseMessage resp2 ?out], g2)"
    using wire(2,3) by (simp add: handleConnV1_def F received_def R1(1) R2(1))
  ultimately show ?thesis
    using R1(2) R2(2)[of "[]"] by simp
qed

definition block_server :: "(repo, MemoryStore) Server" where
  "block_server = NewServer (memory_gateway_service ''gw-a'')
     \<lparr>cfPathID = 4, cfGatewayID = ''gw-a'', cfMaxIOSize = 65536, cfMaxZeroLikeIOSize = 0, cfMaxSegments = 0,
      cfMaxInflightRequests = 0, cfMaxInflightBytes = 0, cfUseWireV2 = False, cfTokenVerifier = None,
      cfSessionDerivationKey = []\<rparr>"

theorem kernel_write_then_read_witness:
  "\<exists>wreq wpending rreq rpending f1 f2 g'.
     submit_request 1 3 1 REQ_OP_WRITE 0 4 [1, 2, 3, 4] = Some (wreq, wpending)
     \<and> submit_request 2 3 1 REQ_OP_READ 0 4 [] = Some (rreq, rpending)
     \<and> handleConnV1 block_server [demo_env, demo_env] (take 6 (wreq @ rreq)) (map Data [drop 6 (wreq @ rreq)])
         (serving served_volume) = ([f1, f2], g')
     \<and> receive_response wpending (f1 @ f2) = Some (Inr [], f2)
     \<and> receive_response rpending f2 = Some (Inr [1, 2, 3, 4], [])"
proof -
  obtain wreq wpending where W: "submit_request 1 3 1 REQ_OP_WRITE 0 4 [1, 2, 3, 4] = Some (wreq, wpending)"
    using client_write[of 4 "[1, 2, 3, 4]" 1 3 1 0] by simp
  obtain rreq rpending where R: "submit_request 2 3 1 REQ_OP_READ 0 4 [] = Some (rreq, rpending)"
    using client_read[of 2 3 1 0 4 "[]"] by blast
  have v: "validateRange (vBlockSize served_volume) (vSizeBytes served_volume) 0 4 = Inr ()"
    "protectedWriteRejectionForVolume served_volume = None"
    by code_simp+
  have s: "dsService block_server = memory_gateway_service ''gw-a''" "cfMaxIOSize (dsConfig block_server) = 65536" "rqWritten demo_env"
    by (simp_all add: block_server_def NewServer_def demo_env_def)
  obtain old where old: "fst (Read (memory_gateway_service ''gw-a'') noon 3 0 4 (serving served_volume)) = Inr old"
    using read_memory[of served_volume "serving served_volume" 0 4 "''gw-a''" noon] examples_served(1) v(1)
    by (simp add: serves_def served_volume_facts)
  have "first6 @ concat [rest] = wreq @ rreq \<Longrightarrow> \<exists>f1 f2 g'.
      handleConnV1 block_server [demo_env, demo_env] first6 (map Data [rest]) (serving served_volume) = ([f1, f2], g')
      \<and> receive_response wpending (f1 @ f2) = Some (Inr [], f2)
      \<and> receive_response rpending f2 = Some (Inr [1, 2, 3, 4], [])" for first6 rest
    using kernel_write_then_read[OF examples_served(1) s(1) v(2), unfolded served_volume_facts(3), OF W _ _ _ R _ _ _ _ s(3) s(3),
        unfolded s(2), of first6 "[rest]" noon old] v(1) old
    by (simp add: upt_rec)
  moreover have "take 6 (wreq @ rreq) @ concat [drop 6 (wreq @ rreq)] = wreq @ rreq"
    by (simp only: concat.simps append_Nil2 append_take_drop_id)
  ultimately show ?thesis
    using W R by blast
qed

subsection \<open>The handshake of version 2 and the client\<close>

lemma hello_header:
  obtains xs ys where "length xs = 64" "length ys = 4"
    "namrbd_wirev2_encode_header OpHello 0 rid vol gen 0 0 0 0 0 = xs @ put_u32 0 @ ys @ put_u32 (crc32c (xs @ put_u32 0 @ ys))"
proof -
  let ?xs = "put_u32 NAMRBD_WIREV2_MAGIC @ put_u16 NAMRBD_WIREV2_VERSION @ put_u16 (of_nat NAMRBD_WIREV2_HDR_LEN) @ put_u32 OpHello
    @ put_u32 0 @ put_u64 rid @ put_u64 vol @ put_u64 gen @ put_u64 0 @ put_u64 0 @ put_u64 0"
  let ?ys = "put_u16 0 @ put_u16 0"
  have "length ?xs = 64" "length ?ys = 4"
    by simp_all
  moreover have "namrbd_wirev2_encode_header OpHello 0 rid vol gen 0 0 0 0 0
      = ?xs @ put_u32 0 @ ?ys @ put_u32 (crc32c (?xs @ put_u32 0 @ ?ys))"
    by (simp add: namrbd_wirev2_encode_header_def Let_def)
  ultimately show ?thesis
    using that by blast
qed

text \<open>A frame whose length field was filled in after the checksum is not accepted.\<close>

lemma ReadFrameV2_rejects:
  assumes "length hdr = 76" "\<And>tail x. DecodeMessageV2 (hdr @ tail) \<noteq> Inr x"
  shows "\<exists>err. fst (ReadFrameV2 limit (hdr @ rest)) = Inl err"
  using assms(1) assms(2)[of "[]"] assms(2)
  by (auto simp: ReadFrameV2_def ReadFull_def Let_def HeaderSizeV2_def split: sum.splits prod.splits)

lemma ReadFrameV2_late_length:
  assumes "length xs = 64" "length ys = 4" "n \<noteq> 0"
  shows "\<exists>err. fst (ReadFrameV2 limit ((xs @ put_u32 n @ ys @ put_u32 (crc32c (xs @ put_u32 0 @ ys))) @ rest)) = Inl err"
proof (rule ReadFrameV2_rejects)
  fix tail x
  have "crc32c (xs @ put_u32 n @ ys) \<noteq> crc32c (xs @ put_u32 0 @ ys)"
    using crc32c_detects_field[of xs n ys 0] assms(3) by blast
  then show "DecodeMessageV2 ((xs @ put_u32 n @ ys @ put_u32 (crc32c (xs @ put_u32 0 @ ys))) @ tail) \<noteq> Inr x"
    using assms(1,2) by (auto simp: DecodeMessageV2_def Let_def parseHeaderV2_def slice_def HeaderSizeV2_def)
qed (use assms in simp)

lemma hello_ack_frame:
  assumes "hello_outcome s tx verify now nonce h payload p = (Inr frame, p')"
  shows "\<exists>ack body tail. frame = header_body2 (wire_header2 ack body) @ tail"
  using assms
  by (auto simp: hello_defs Let_def EncodeMessageV2_layout auth_op_def split: if_splits option.splits sum.splits prod.splits)

lemma client_rejects_request_header:
  "namrbd_wirev2_validate_response_header (take 96 (header_body2 (wire_header2 h p) @ tail)) expected rid vol gen sid seq
     = Some EBADMSG"
proof -
  have "get_u16 (slice 6 8 (take 96 (header_body2 (wire_header2 h p) @ tail))) = h2HeaderLen (wire_header2 h p)"
    by (simp add: header_body2_def slice_def take_append drop_append del: wire_header2_fields)
  then show ?thesis
    by (simp add: namrbd_wirev2_validate_response_header_def kernel_sizes HeaderSizeV2_def)
qed

lemma hello_error_keeps: "hello_outcome s tx verify now nonce h payload p = (Inl code, p') \<Longrightarrow> p' = p"
  by (auto simp: hello_defs Let_def split: if_splits option.splits sum.splits prod.splits)

text \<open>
  C36. The version 2 handshake cannot complete between the block driver and the gateway. The driver writes the
  length of its greeting into the header after it has computed the checksum, so the gateway rejects every
  greeting with a body. And the acknowledgement of the gateway, which carries a request header of 76 bytes, is
  rejected by the driver, which expects the 96 bytes of a response header.
\<close>

theorem kernel_handshake_fails:
  assumes "body \<noteq> []" "length body < 2 ^ 32"
    and ack: "hello_outcome s tx verify now nonce h payload p = (Inr frame, p')"
  shows "(\<exists>err. fst (ReadFrameV2 limit (hello_request rid vol gen body @ rest)) = Inl err)
     \<and> namrbd_wirev2_validate_response_header (take NAMRBD_WIREV2_RESP_LEN (frame @ later)) OpHelloAck rid vol gen 0 0
         = Some EBADMSG"
proof
  obtain xs ys where X: "length xs = 64" "length ys = 4"
    "namrbd_wirev2_encode_header OpHello 0 rid vol gen 0 0 0 0 0 = xs @ put_u32 0 @ ys @ put_u32 (crc32c (xs @ put_u32 0 @ ys))"
    by (rule hello_header)
  have "(of_nat (length body) :: u32) \<noteq> 0"
    using assms(1,2) unat_of_nat_length[of "length body", where 'a = 32] by auto
  from ReadFrameV2_late_length[OF X(1,2) this, of limit "body @ rest"]
  show "\<exists>err. fst (ReadFrameV2 limit (hello_request rid vol gen body @ rest)) = Inl err"
    using X by (simp add: hello_request_def)
  show "namrbd_wirev2_validate_response_header (take NAMRBD_WIREV2_RESP_LEN (frame @ later)) OpHelloAck rid vol gen 0 0 = Some EBADMSG"
    using hello_ack_frame[OF ack] client_rejects_request_header unfolding kernel_sizes by (metis append_assoc)
qed

theorem kernel_handshake_fails_witness:
  "\<exists>frame p'. hello_outcome demo_server demo_text demo_verify 150 ''s'' (zero_header2\<lparr>h2Op := OpHello\<rparr>) []
       \<lparr>dpSessions = NewSessionTable, dpGateway = attached_gateway\<rparr> = (Inr frame, p')
     \<and> (\<exists>err. fst (ReadFrameV2 4096 (hello_request 1 7 1 [123, 125])) = Inl err)
     \<and> namrbd_wirev2_validate_response_header (take NAMRBD_WIREV2_RESP_LEN (frame @ replicate 20 0)) OpHelloAck 1 7 1 0 0
         = Some EBADMSG"
proof -
  let ?p = "\<lparr>dpSessions = NewSessionTable, dpGateway = attached_gateway\<rparr>" and ?h = "zero_header2\<lparr>h2Op := OpHello\<rparr>"
  have "snd (hello_outcome demo_server demo_text demo_verify 150 ''s'' ?h [] ?p) \<noteq> ?p"
    unfolding demo_hello by (simp add: demo_dataplane_def NewSessionTable_def)
  then obtain frame p' where H: "hello_outcome demo_server demo_text demo_verify 150 ''s'' ?h [] ?p = (Inr frame, p')"
    using hello_error_keeps[of demo_server demo_text demo_verify 150 "''s''" ?h "[]" ?p]
    by (cases "hello_outcome demo_server demo_text demo_verify 150 ''s'' ?h [] ?p";
        cases "fst (hello_outcome demo_server demo_text demo_verify 150 ''s'' ?h [] ?p)") auto
  have "[123, 125] \<noteq> ([] :: bytes)" "length ([123, 125] :: bytes) < 2 ^ 32"
    by simp_all
  from kernel_handshake_fails[OF this H, of 4096 1 7 1 "[]" "replicate 20 0"] H show ?thesis
    by auto
qed

end
