(* ===== verification/SessionRaces.thy ===== *)
theory SessionRaces
  imports Dataplane "HOL-Library.Multiset"
begin

section \<open>Sessions shared by concurrent connections\<close>

text \<open>
  Every connection runs in its own goroutine, and a frame may name any session, not only the one its
  connection opened. The table of sessions is guarded by a lock, the sessions in it are not: a connection
  holds a pointer while it checks and serves a frame, and others may change the session or remove it
  from the table meanwhile. Here a session is an object in a heap, the table maps ids to addresses, and
  the goroutines of the connections interleave between all accesses to the table, to the sessions and
  to the gateway: the lookup, the check against the volume, the check of the tag, the read and the
  write of the last sequence number (CheckNext takes no lock), the request itself and the answer; in
  a handshake, the checks, the insertion of the session and the assignment of its key. A lookup of
  the volume and a request to the service are one step each.
\<close>

subsection \<open>Connections\<close>

record frame_in =
  fiEnv :: request_env
  fiHeader :: HeaderV2
  fiPayload :: bytes
  fiTag :: bytes

record hello_in =
  hiEnv :: hello_env
  hiHeader :: HeaderV2
  hiPayload :: bytes

text \<open>Where the goroutine of a connection stands, with the address of the session it holds.\<close>

datatype conn_pc =
    CpFresh
  | CpHello hello_in
  | CpAdd hello_in HelloPayload VerifiedToken
  | CpKey hello_in HelloPayload VerifiedToken nat
  | CpAck hello_in "i32 + bytes"
  | CpOpen
  | CpGet frame_in
  | CpExpired frame_in
  | CpCurrent frame_in nat
  | CpStale frame_in nat i32
  | CpVerify frame_in nat
  | CpCheck frame_in nat
  | CpStore frame_in nat SeqChecker
  | CpServe frame_in nat
  | CpReply frame_in "i32 + bytes"
  | CpClosed

text \<open>The state the connections share; the last field lists the data requests that have been served.\<close>

record ('m, 'o) shared =
  shHeap :: "Session list"
  shByID :: "(u64, nat) gomap"
  shNextID :: u64
  shGateway :: "('m, 'o) gateway"
  shConns :: "conn_pc list"
  shServed :: "(u64 \<times> u64) list"

definition started :: "('m, 'o) gateway \<Rightarrow> ('m, 'o) shared" where
  "started g = \<lparr>shHeap = [], shByID = [], shNextID = 1, shGateway = g, shConns = [], shServed = []\<rparr>"

abbreviation frame_id :: "frame_in \<Rightarrow> u64" where "frame_id f \<equiv> h2SessionID (fiHeader f)"
abbreviation frame_seq :: "frame_in \<Rightarrow> u64" where "frame_seq f \<equiv> h2SeqNo (fiHeader f)"
abbreviation last_seq :: "Session list \<Rightarrow> nat \<Rightarrow> u64" where "last_seq hp a \<equiv> lastSeqNo (ssSeq (hp ! a))"

text \<open>
  One step of a connection. Before a frame has arrived and after the connection is closed there is none.
\<close>

fun conn_step ::
    "('m, 'o) Server \<Rightarrow> hello_text \<Rightarrow> (int \<Rightarrow> string \<Rightarrow> token_error + VerifiedToken) \<Rightarrow> conn_pc \<Rightarrow> ('m, 'o) shared \<Rightarrow>
     conn_pc \<times> ('m, 'o) shared" where
  "conn_step s tx verify (CpHello x) q =
     (case hello_check s tx verify (heNow (hiEnv x)) (hiHeader x) (hiPayload x) (gwWorld (shGateway q)) of
        Inl code \<Rightarrow> (CpAck x (Inl code), q)
      | Inr (hello, verified) \<Rightarrow> (CpAdd x hello verified, q))"
| "conn_step s tx verify (CpAdd x hello verified) q =
     (let i = next_free (Suc (length (shByID q))) (shByID q) (shNextID q); a = length (shHeap q)
      in (CpKey x hello verified a,
          q\<lparr>shHeap := shHeap q @ [(hello_session s verified)\<lparr>ssID := i\<rparr>], shByID := mput i a (shByID q),
            shNextID := i + 1\<rparr>))"
| "conn_step s tx verify (CpKey x hello verified a) q =
     (let sess = shHeap q ! a; nonce = heServerNonce (hiEnv x)
      in (CpAck x (Inr (hello_ack s tx (hiHeader x) verified nonce (ssID sess))),
          q\<lparr>shHeap := (shHeap q)[a := sess\<lparr>ssSessionKey := hello_key s hello nonce (ssID sess)\<rparr>]\<rparr>))"
| "conn_step s tx verify (CpAck x r) q =
     ((case r of Inl _ \<Rightarrow> CpClosed | Inr _ \<Rightarrow> if heWritten (hiEnv x) then CpOpen else CpClosed), q)"
| "conn_step s tx verify (CpGet f) q =
     (case mget (shByID q) (frame_id f) of
        None \<Rightarrow> (CpReply f (Inl ErrSessionClosed), q)
      | Some a \<Rightarrow> (if rqNow (fiEnv f) > ssExpiresAt (shHeap q ! a) then CpExpired f else CpCurrent f a, q))"
| "conn_step s tx verify (CpExpired f) q =
     (CpReply f (Inl ErrSessionClosed), q\<lparr>shByID := mdel (frame_id f) (shByID q)\<rparr>)"
| "conn_step s tx verify (CpCurrent f a) q =
     (case sessionStillCurrent s (shHeap q ! a) (gwWorld (shGateway q)) of
        Some code \<Rightarrow> (CpStale f a code, q)
      | None \<Rightarrow> (if data_frame (fiHeader f) then CpVerify f a else CpServe f a, q))"
| "conn_step s tx verify (CpStale f a code) q =
     (CpReply f (Inl code), q\<lparr>shByID := mdel (ssID (shHeap q ! a)) (shByID q)\<rparr>)"
| "conn_step s tx verify (CpVerify f a) q =
     (if h2AuthLen (fiHeader f) \<noteq> of_nat AuthTagSize \<or> length (fiTag f) \<noteq> AuthTagSize
      then (CpReply f (Inl ErrBadAuthTag), q)
      else case VerifyAuthTag (ssSessionKey (shHeap q ! a)) (fiHeader f) (fiPayload f) (fiTag f) of
             Inl _ \<Rightarrow> (CpReply f (Inl ErrBadAuthTag), q)
           | Inr _ \<Rightarrow> (CpCheck f a, q))"
| "conn_step s tx verify (CpCheck f a) q =
     (case CheckNext (ssSeq (shHeap q ! a)) (frame_seq f) of
        (Inl _, _) \<Rightarrow> (CpReply f (Inl ErrReplayDetected), q)
      | (Inr _, sq) \<Rightarrow> (CpStore f a sq, q))"
| "conn_step s tx verify (CpStore f a sq) q =
     (CpServe f a, q\<lparr>shHeap := (shHeap q)[a := (shHeap q ! a)\<lparr>ssSeq := sq\<rparr>]\<rparr>)"
| "conn_step s tx verify (CpServe f a) q =
     (let sess = shHeap q ! a
      in case handleRequestV2 s (fiEnv f) (fiHeader f) (fiPayload f) sess (shGateway q) of
           ((resp, out), g) \<Rightarrow>
             (CpReply f (Inr (fst (EncodeResponseMessageV2 resp out (ComputeAuthTag (ssSessionKey sess) (r2Base resp) out)))),
              q\<lparr>shGateway := g,
                shServed := shServed q @ (if data_frame (fiHeader f) then [(frame_id f, frame_seq f)] else [])\<rparr>))"
| "conn_step s tx verify (CpReply f r) q =
     ((case r of Inl _ \<Rightarrow> CpClosed | Inr _ \<Rightarrow> if rqWritten (fiEnv f) then CpOpen else CpClosed), q)"
| "conn_step s tx verify pc q = (pc, q)"

text \<open>
  What can happen next: a connection is accepted, a frame arrives on one that waits for it, a connection
  takes its next step, the sessions of a volume are revoked, or the control plane changes the gateway.
\<close>

datatype ('m, 'o) action =
    Accept
  | ReceiveHello nat hello_in
  | Receive nat frame_in
  | Go nat
  | Revoke u64
  | Control "('m, 'o) gateway \<Rightarrow> ('m, 'o) gateway"

fun act ::
    "('m, 'o) Server \<Rightarrow> hello_text \<Rightarrow> (int \<Rightarrow> string \<Rightarrow> token_error + VerifiedToken) \<Rightarrow> ('m, 'o) action \<Rightarrow>
     ('m, 'o) shared \<Rightarrow> ('m, 'o) shared" where
  "act s tx verify Accept q = q\<lparr>shConns := shConns q @ [CpFresh]\<rparr>"
| "act s tx verify (ReceiveHello k x) q =
     (if k < length (shConns q) \<and> shConns q ! k = CpFresh then q\<lparr>shConns := (shConns q)[k := CpHello x]\<rparr> else q)"
| "act s tx verify (Receive k f) q =
     (if k < length (shConns q) \<and> shConns q ! k = CpOpen then q\<lparr>shConns := (shConns q)[k := CpGet f]\<rparr> else q)"
| "act s tx verify (Go k) q =
     (if k < length (shConns q)
      then case conn_step s tx verify (shConns q ! k) q of (pc, q') \<Rightarrow> q'\<lparr>shConns := (shConns q)[k := pc]\<rparr>
      else q)"
| "act s tx verify (Revoke v) q = q\<lparr>shByID := filter (\<lambda>(i, a). ssVolumeID (shHeap q ! a) \<noteq> v) (shByID q)\<rparr>"
| "act s tx verify (Control f) q = q\<lparr>shGateway := f (shGateway q)\<rparr>"

fun run_actions ::
    "('m, 'o) Server \<Rightarrow> hello_text \<Rightarrow> (int \<Rightarrow> string \<Rightarrow> token_error + VerifiedToken) \<Rightarrow> ('m, 'o) action list \<Rightarrow>
     ('m, 'o) shared \<Rightarrow> ('m, 'o) shared" where
  "run_actions s tx verify [] q = q"
| "run_actions s tx verify (x # xs) q = run_actions s tx verify xs (act s tx verify x q)"

text \<open>
  The checks of sequence numbers do not overlap: no connection reads the last number of a session while
  another one is about to write it.
\<close>

fun storing_at :: "nat \<Rightarrow> conn_pc \<Rightarrow> bool" where
  "storing_at a (CpStore f b sq) = (b = a)"
| "storing_at a _ = False"

fun exclusive :: "('m, 'o) shared \<Rightarrow> ('m, 'o) action \<Rightarrow> bool" where
  "exclusive q (Go k) =
     (if k < length (shConns q)
      then case shConns q ! k of CpCheck f a \<Rightarrow> list_all (\<lambda>pc. \<not> storing_at a pc) (shConns q) | _ \<Rightarrow> True
      else True)"
| "exclusive q _ = True"

fun exclusive_run ::
    "('m, 'o) Server \<Rightarrow> hello_text \<Rightarrow> (int \<Rightarrow> string \<Rightarrow> token_error + VerifiedToken) \<Rightarrow> ('m, 'o) action list \<Rightarrow>
     ('m, 'o) shared \<Rightarrow> bool" where
  "exclusive_run s tx verify [] q = True"
| "exclusive_run s tx verify (x # xs) q = (exclusive q x \<and> exclusive_run s tx verify xs (act s tx verify x q))"

subsection \<open>The invariant\<close>

text \<open>
  After \<open>n\<close> steps: ids of sessions are distinct and below the next one, the table points to sessions with
  the id they are found under, and no session has seen a number above \<open>n\<close>.
\<close>

definition sessions_ok :: "nat \<Rightarrow> Session list \<Rightarrow> (u64, nat) gomap \<Rightarrow> u64 \<Rightarrow> bool" where
  "sessions_ok n hp t nxt \<longleftrightarrow> distinct (map ssID hp) \<and> wf_map t \<and> 0 < unat nxt \<and> unat nxt \<le> n + 1
     \<and> (\<forall>a < length hp. unat (ssID (hp ! a)) < unat nxt \<and> unat (last_seq hp a) \<le> n)
     \<and> (\<forall>i a. mget t i = Some a \<longrightarrow> a < length hp \<and> ssID (hp ! a) = i)"

text \<open>A request has been seen by its session.\<close>

definition seen :: "Session list \<Rightarrow> u64 \<times> u64 \<Rightarrow> bool" where
  "seen hp x \<longleftrightarrow> (\<exists>a < length hp. ssID (hp ! a) = fst x \<and> unat (snd x) \<le> unat (last_seq hp a))"

definition holds :: "Session list \<Rightarrow> frame_in \<Rightarrow> nat \<Rightarrow> bool" where
  "holds hp f a \<longleftrightarrow> a < length hp \<and> ssID (hp ! a) = frame_id f"

fun pending :: "conn_pc \<Rightarrow> (u64 \<times> u64) multiset" where
  "pending (CpServe f a) = (if data_frame (fiHeader f) then {#(frame_id f, frame_seq f)#} else {#})"
| "pending _ = {#}"

fun pc_ok :: "Session list \<Rightarrow> conn_pc \<Rightarrow> bool" where
  "pc_ok hp (CpKey x hello verified a) = (a < length hp)"
| "pc_ok hp (CpCurrent f a) = holds hp f a"
| "pc_ok hp (CpStale f a code) = holds hp f a"
| "pc_ok hp (CpVerify f a) = holds hp f a"
| "pc_ok hp (CpCheck f a) = holds hp f a"
| "pc_ok hp (CpStore f a sq) =
     (holds hp f a \<and> sq = \<lparr>lastSeqNo = frame_seq f\<rparr> \<and> frame_seq f = last_seq hp a + 1)"
| "pc_ok hp (CpServe f a) =
     (holds hp f a \<and> (data_frame (fiHeader f) \<longrightarrow> unat (frame_seq f) \<le> unat (last_seq hp a)))"
| "pc_ok hp _ = True"

definition each_once :: "'a multiset \<Rightarrow> bool" where
  "each_once M \<longleftrightarrow> (\<forall>x. count M x \<le> 1)"

lemma each_once_add: "each_once M \<Longrightarrow> count M x = 0 \<Longrightarrow> each_once (add_mset x M)"
  by (simp add: each_once_def)

lemma each_once_distinct: "each_once (mset xs + M) \<Longrightarrow> distinct xs"
proof -
  assume "each_once (mset xs + M)"
  then have once: "count (mset xs) x \<le> 1" for x
    unfolding each_once_def by (metis add_leD1 count_union)
  have "count (mset xs) x = (if x \<in> set xs then 1 else 0)" for x
    using once[of x] count_greater_zero_iff[of "mset xs" x] by (auto simp: not_in_iff simp del: count_greater_zero_iff)
  then show "distinct xs"
    by (simp add: distinct_count_atmost_1)
qed

text \<open>
  The invariant of a state whose connections stand at the places \<open>C\<close>: on each session at most one
  is about to write the last number, and no request is served or about to be served twice.
\<close>

definition served_inv :: "nat \<Rightarrow> ('m, 'o) shared \<Rightarrow> conn_pc multiset \<Rightarrow> bool" where
  "served_inv n q C \<longleftrightarrow> sessions_ok n (shHeap q) (shByID q) (shNextID q)
     \<and> (\<forall>pc \<in># C. pc_ok (shHeap q) pc) \<and> (\<forall>a. size (filter_mset (storing_at a) C) \<le> 1)
     \<and> each_once (mset (shServed q) + \<Sum>\<^sub># (image_mset pending C))
     \<and> (\<forall>x \<in> set (shServed q). seen (shHeap q) x)"

lemma sessionStillCurrent_id [simp]:
  "sessionStillCurrent s (sess\<lparr>ssID := i\<rparr>) w = sessionStillCurrent s sess w"
  by (simp add: sessionStillCurrent_def split: sum.split)

lemma sessions_ok_mono: "sessions_ok n hp t nxt \<Longrightarrow> sessions_ok (Suc n) hp t nxt"
  unfolding sessions_ok_def by (meson le_SucI add_le_mono1 le_trans lessI less_imp_le)

lemma same_session:
  assumes "sessions_ok n hp t nxt" "a < length hp" "b < length hp" "ssID (hp ! a) = ssID (hp ! b)"
  shows "a = b"
  using assms by (simp add: sessions_ok_def distinct_conv_nth) metis

lemma sessions_ok_shrink:
  assumes "sessions_ok n hp t nxt" "wf_map t'" "\<And>i a. mget t' i = Some a \<Longrightarrow> mget t i = Some a"
  shows "sessions_ok n hp t' nxt"
  using assms unfolding sessions_ok_def by blast

text \<open>A step that changes no session and serves nothing.\<close>

lemma served_inv_quiet:
  assumes "served_inv n q (add_mset pc R)" "shHeap q' = shHeap q" "shNextID q' = shNextID q" "shServed q' = shServed q"
    and "wf_map (shByID q')" "\<And>i a. mget (shByID q') i = Some a \<Longrightarrow> mget (shByID q) i = Some a"
    and "pc_ok (shHeap q) pc'" "pending pc' = pending pc" "\<And>a. \<not> storing_at a pc'"
  shows "served_inv (Suc n) q' (add_mset pc' R)"
proof -
  have "sessions_ok (Suc n) (shHeap q') (shByID q') (shNextID q')"
    using assms(1-6) unfolding served_inv_def by (metis sessions_ok_mono sessions_ok_shrink)
  moreover have "size (filter_mset (storing_at a) (add_mset pc' R)) \<le> 1" for a
  proof -
    have "size (filter_mset (storing_at a) R) \<le> size (filter_mset (storing_at a) (add_mset pc R))"
      by (intro size_mset_mono) simp
    also have "\<dots> \<le> 1"
      using assms(1) by (simp only: served_inv_def)
    finally show ?thesis
      using assms(9) by simp
  qed
  ultimately show ?thesis
    using assms(1,2,4,7,8) by (simp add: served_inv_def)
qed

lemma served_inv_wf: "served_inv n q C \<Longrightarrow> wf_map (shByID q)"
  by (simp add: served_inv_def sessions_ok_def)

text \<open>A new session gets an id that no session had before.\<close>

lemma next_id_fresh:
  assumes "sessions_ok n hp t nxt"
  shows "mget t nxt = None" "next_free (Suc (length t)) t nxt = nxt"
proof -
  show "mget t nxt = None"
    using assms by (cases "mget t nxt") (auto simp: sessions_ok_def)
  then show "next_free (Suc (length t)) t nxt = nxt" by simp
qed

lemma pc_ok_extend:
  assumes "pc_ok hp pc"
  shows "pc_ok (hp @ [s]) pc"
  using assms by (cases pc) (auto simp: holds_def nth_append)

lemma seen_extend: "seen hp x \<Longrightarrow> seen (hp @ [s]) x"
  unfolding seen_def by (metis length_append_singleton less_Suc_eq nth_append)

lemma sessions_ok_add:
  assumes "sessions_ok n hp t nxt" "n + 2 < 2 ^ 64" "ssID s = nxt" "lastSeqNo (ssSeq s) = 0"
  shows "sessions_ok (Suc n) (hp @ [s]) (mput nxt (length hp) t) (nxt + 1)"
proof -
  have up: "unat (nxt + 1) = unat nxt + 1"
    using assms(1,2) by (simp add: sessions_ok_def unat_word_ariths)
  have "nxt \<notin> ssID ` set hp"
    using assms(1) by (auto simp: sessions_ok_def in_set_conv_nth)
  then show ?thesis
    using assms(1,3,4) up unfolding sessions_ok_def
    by (auto simp: nth_append less_Suc_eq intro: le_SucI split: if_splits)
qed

lemma served_inv_add:
  assumes "served_inv n q (add_mset (CpAdd x hello verified) R)" "n + 2 < 2 ^ 64"
    and "conn_step s tx verify (CpAdd x hello verified) q = (pc', q')"
  shows "served_inv (Suc n) q' (add_mset pc' R)"
proof -
  have ok: "sessions_ok n (shHeap q) (shByID q) (shNextID q)"
    using assms(1) by (simp add: served_inv_def)
  show ?thesis
    using assms(1,3) sessions_ok_add[OF ok assms(2), of "(hello_session s verified)\<lparr>ssID := shNextID q\<rparr>"]
    by (auto simp: served_inv_def Let_def next_id_fresh(2)[OF ok] hello_session_def pc_ok_extend seen_extend
        simp del: next_free.simps)
qed

text \<open>Changes of a session that keep its id and never lower its last number.\<close>

lemma sessions_ok_update:
  assumes "sessions_ok n hp t nxt" "a < length hp" "ssID s = ssID (hp ! a)" "unat (lastSeqNo (ssSeq s)) \<le> n"
  shows "sessions_ok n (hp[a := s]) t nxt"
proof -
  have "map ssID (hp[a := s]) = map ssID hp"
    using assms(2,3) by (intro nth_equalityI) (auto simp: nth_list_update)
  then show ?thesis
    using assms unfolding sessions_ok_def by (auto simp: nth_list_update)
qed

lemma seen_update:
  assumes "seen hp x" "a < length hp" "ssID s = ssID (hp ! a)" "unat (last_seq hp a) \<le> unat (lastSeqNo (ssSeq s))"
  shows "seen (hp[a := s]) x"
proof -
  obtain b where "b < length hp" "ssID (hp ! b) = fst x" "unat (snd x) \<le> unat (last_seq hp b)"
    using assms(1) by (auto simp: seen_def)
  then show ?thesis
    using assms(2-4) unfolding seen_def by (intro exI[of _ b]) (auto simp: nth_list_update)
qed

lemma pc_ok_update:
  assumes "pc_ok hp pc" "a < length hp" "ssID s = ssID (hp ! a)" "unat (last_seq hp a) \<le> unat (lastSeqNo (ssSeq s))"
    and "storing_at a pc \<Longrightarrow> lastSeqNo (ssSeq s) = last_seq hp a"
  shows "pc_ok (hp[a := s]) pc"
  using assms by (cases pc) (auto simp: holds_def nth_list_update)

lemma served_inv_key:
  assumes "served_inv n q (add_mset (CpKey x hello verified a) R)"
    and "conn_step s tx verify (CpKey x hello verified a) q = (pc', q')"
  shows "served_inv (Suc n) q' (add_mset pc' R)"
proof -
  have ok: "sessions_ok n (shHeap q) (shByID q) (shNextID q)" and a: "a < length (shHeap q)"
    using assms(1) by (simp_all add: served_inv_def)
  have "unat (last_seq (shHeap q) a) \<le> n"
    using ok a by (simp add: sessions_ok_def)
  then show ?thesis
    using assms sessions_ok_update[OF ok a] a
    by (auto simp: served_inv_def Let_def intro!: sessions_ok_mono pc_ok_update seen_update)
qed

lemma served_inv_check:
  assumes "served_inv n q (add_mset (CpCheck f a) R)" "\<forall>p \<in># R. \<not> storing_at a p"
    and "conn_step s tx verify (CpCheck f a) q = (pc', q')"
  shows "served_inv (Suc n) q' (add_mset pc' R)"
proof (cases "frame_seq f = last_seq (shHeap q) a + 1")
  case True
  then have pc': "pc' = CpStore f a \<lparr>lastSeqNo = frame_seq f\<rparr>" "q' = q"
    using assms(3) by (auto simp: CheckNext_def Let_def)
  have "filter_mset (storing_at a) R = {#}"
    using assms(2) by simp
  then have "size (filter_mset (storing_at b) (add_mset pc' R)) \<le> 1" for b
    using assms(1) by (cases "b = a") (auto simp: pc' served_inv_def)
  then show ?thesis
    using assms(1) True sessions_ok_mono by (auto simp: served_inv_def pc')
next
  case False
  then have "pc' = CpReply f (Inl ErrReplayDetected)" "q' = q"
    using assms(3) by (auto simp: CheckNext_def Let_def)
  then show ?thesis
    using assms(1) by (intro served_inv_quiet[OF assms(1)]) (simp_all add: served_inv_wf)
qed

lemma fresh_request:
  assumes "served_inv n q (add_mset (CpStore f a sq) R)" "n + 2 < 2 ^ 64"
  shows "unat (frame_seq f) = unat (last_seq (shHeap q) a) + 1"
    "count (mset (shServed q) + \<Sum>\<^sub># (image_mset pending R)) (frame_id f, frame_seq f) = 0"
proof -
  have ok: "sessions_ok n (shHeap q) (shByID q) (shNextID q)"
    and held: "a < length (shHeap q)" "ssID (shHeap q ! a) = frame_id f"
    and seq: "frame_seq f = last_seq (shHeap q) a + 1"
    using assms(1) by (simp_all add: served_inv_def holds_def)
  have "unat (last_seq (shHeap q) a) \<le> n"
    using ok held(1) by (simp add: sessions_ok_def)
  then show up: "unat (frame_seq f) = unat (last_seq (shHeap q) a) + 1"
    using assms(2) unfolding seq by (simp add: unat_word_ariths)
  have late: "\<not> unat (frame_seq f) \<le> unat (last_seq (shHeap q) b)"
    if "b < length (shHeap q)" "ssID (shHeap q ! b) = frame_id f" for b
    using same_session[OF ok held(1) that(1)] that(2) held(2) up by simp
  have "(frame_id f, frame_seq f) \<notin> set (shServed q)"
    using assms(1) late by (fastforce simp: served_inv_def seen_def)
  moreover have "(frame_id f, frame_seq f) \<notin># pending p" if "p \<in># R" for p
  proof -
    have "pc_ok (shHeap q) p"
      using assms(1) that by (simp add: served_inv_def)
    then show ?thesis
      using late by (cases p) (auto simp: holds_def)
  qed
  ultimately show "count (mset (shServed q) + \<Sum>\<^sub># (image_mset pending R)) (frame_id f, frame_seq f) = 0"
    by (auto simp: count_eq_zero_iff)
qed

lemma served_inv_store:
  assumes "served_inv n q (add_mset (CpStore f a sq) R)" "n + 2 < 2 ^ 64"
    and "conn_step s tx verify (CpStore f a sq) q = (pc', q')"
  shows "served_inv (Suc n) q' (add_mset pc' R)"
proof -
  let ?s = "(shHeap q ! a)\<lparr>ssSeq := \<lparr>lastSeqNo = frame_seq f\<rparr>\<rparr>"
  have ok: "sessions_ok n (shHeap q) (shByID q) (shNextID q)"
    and held: "a < length (shHeap q)" "ssID (shHeap q ! a) = frame_id f" and sq: "sq = \<lparr>lastSeqNo = frame_seq f\<rparr>"
    using assms(1) by (simp_all add: served_inv_def holds_def)
  have q': "pc' = CpServe f a" "q' = q\<lparr>shHeap := (shHeap q)[a := ?s]\<rparr>"
    using assms(3) sq by simp_all
  note new = fresh_request[OF assms(1,2)]
  have "unat (last_seq (shHeap q) a) \<le> n"
    using ok held(1) by (simp add: sessions_ok_def)
  then have sessions: "sessions_ok (Suc n) ((shHeap q)[a := ?s]) (shByID q) (shNextID q)"
    using sessions_ok_update[OF sessions_ok_mono[OF ok] held(1), of ?s] new(1) by simp
  have one: "size (filter_mset (storing_at b) (add_mset (CpStore f a sq) R)) \<le> 1" for b
    using assms(1) unfolding served_inv_def by blast
  have alone: "\<not> storing_at a p" if "p \<in># R" for p
    using one[of a] that by simp
  have pcs: "pc_ok ((shHeap q)[a := ?s]) p" if "p \<in># R" for p
    using assms(1) that alone[OF that] new(1) held(1)
    by (intro pc_ok_update) (auto simp: served_inv_def)
  have "seen ((shHeap q)[a := ?s]) x" if "x \<in> set (shServed q)" for x
    using assms(1) that new(1) held(1) by (intro seen_update) (auto simp: served_inv_def)
  moreover have "size (filter_mset (storing_at b) (add_mset (CpServe f a) R)) \<le> 1" for b
    using le_trans[OF size_mset_mono one[of b], of "filter_mset (storing_at b) R"] by simp
  moreover have "each_once (mset (shServed q) + \<Sum>\<^sub># (image_mset pending (add_mset (CpServe f a) R)))"
    using assms(1) each_once_add[OF _ new(2)] by (simp add: served_inv_def)
  moreover have "pc_ok ((shHeap q)[a := ?s]) (CpServe f a)"
    using held by (simp add: holds_def)
  ultimately show ?thesis
    using sessions pcs by (simp add: served_inv_def q')
qed

lemma served_inv_serve:
  assumes "served_inv n q (add_mset (CpServe f a) R)"
    and "conn_step s tx verify (CpServe f a) q = (pc', q')"
  shows "served_inv (Suc n) q' (add_mset pc' R)"
proof -
  obtain resp out g where "handleRequestV2 s (fiEnv f) (fiHeader f) (fiPayload f) (shHeap q ! a) (shGateway q) = ((resp, out), g)"
    by (metis prod.collapse)
  then obtain r where q': "pc' = CpReply f r" "q' = q\<lparr>shGateway := g,
      shServed := shServed q @ (if data_frame (fiHeader f) then [(frame_id f, frame_seq f)] else [])\<rparr>"
    using assms(2) by (auto simp: Let_def)
  have "data_frame (fiHeader f) \<Longrightarrow> seen (shHeap q) (frame_id f, frame_seq f)"
    using assms(1) by (auto simp: served_inv_def holds_def seen_def)
  then show ?thesis
    using assms(1) sessions_ok_mono unfolding q' by (auto simp: served_inv_def)
qed

lemma served_inv_step:
  assumes inv: "served_inv n q (add_mset pc R)" and bound: "n + 2 < 2 ^ 64"
    and step: "conn_step s tx verify pc q = (pc', q')"
    and excl: "\<And>f a. pc = CpCheck f a \<Longrightarrow> \<forall>p \<in># R. \<not> storing_at a p"
  shows "served_inv (Suc n) q' (add_mset pc' R)"
proof -
  have wf: "wf_map (shByID q)"
    by (rule served_inv_wf[OF inv])
  have held: "mget (shByID q) i = Some a \<Longrightarrow> a < length (shHeap q) \<and> ssID (shHeap q ! a) = i" for i a
    using inv by (simp add: served_inv_def sessions_ok_def)
  have ok: "pc_ok (shHeap q) pc"
    using inv by (simp add: served_inv_def)
  note quiet = served_inv_quiet[OF inv]
  show ?thesis
  proof (cases pc)
    case (CpAdd x hello verified)
    then show ?thesis using served_inv_add inv bound step by blast
  next
    case (CpKey x hello verified a)
    then show ?thesis using served_inv_key inv step by blast
  next
    case (CpCheck f a)
    then show ?thesis using served_inv_check inv step excl by blast
  next
    case (CpStore f a sq)
    then show ?thesis using served_inv_store inv bound step by blast
  next
    case (CpServe f a)
    then show ?thesis using served_inv_serve inv step by blast
  next
    case (CpHello x)
    then show ?thesis
      using step wf by (auto intro!: quiet split: sum.splits)
  next
    case (CpGet f)
    then show ?thesis
      using step wf held by (auto simp: holds_def intro!: quiet split: option.splits if_splits)
  next
    case (CpCurrent f a)
    then show ?thesis
      using step wf ok by (auto intro!: quiet split: option.splits if_splits)
  next
    case (CpVerify f a)
    then show ?thesis
      using step wf ok by (auto intro!: quiet split: sum.splits if_splits)
  next
    case (CpAck x r)
    then show ?thesis
      using step wf by (auto intro!: quiet split: sum.splits if_splits)
  next
    case (CpReply f r)
    then show ?thesis
      using step wf by (auto intro!: quiet split: sum.splits if_splits)
  qed (use step wf in \<open>auto intro!: quiet split: if_splits\<close>)
qed

lemma mset_put:
  assumes "k < length xs"
  obtains R where "mset xs = add_mset (xs ! k) R" "\<And>y. mset (xs[k := y]) = add_mset y R"
proof
  show "mset xs = add_mset (xs ! k) (mset xs - {#xs ! k#})"
    using assms by simp
  show "\<And>y. mset (xs[k := y]) = add_mset y (mset xs - {#xs ! k#})"
    using assms by (simp add: mset_update)
qed

lemma served_inv_act:
  assumes inv: "served_inv n q (mset (shConns q))" and bound: "n + 2 < 2 ^ 64" and excl: "exclusive q x"
  shows "served_inv (Suc n) (act s tx verify x q) (mset (shConns (act s tx verify x q)))"
proof -
  have same: "served_inv (Suc n) q (mset (shConns q))"
    using inv sessions_ok_mono by (auto simp: served_inv_def)
  have arrived: "served_inv (Suc n) (q\<lparr>shConns := (shConns q)[k := pc]\<rparr>) (mset ((shConns q)[k := pc]))"
    if k: "k < length (shConns q)" "shConns q ! k = old" and pc: "pc_ok (shHeap q) pc" "pending pc = pending old"
      "\<And>a. \<not> storing_at a pc" for k pc old
  proof -
    obtain R where R: "mset (shConns q) = add_mset old R" "mset ((shConns q)[k := pc]) = add_mset pc R"
      using mset_put[OF k(1)] k(2) by metis
    show ?thesis
      unfolding R(2) using pc served_inv_wf[OF inv] by (intro served_inv_quiet[OF inv[unfolded R(1)]]) simp_all
  qed
  show ?thesis
  proof (cases x)
    case Accept
    then show ?thesis
      using same by (auto simp: served_inv_def)
  next
    case (ReceiveHello k y)
    then show ?thesis
      using same arrived[of k CpFresh "CpHello y"] by simp
  next
    case (Receive k f)
    then show ?thesis
      using same arrived[of k CpOpen "CpGet f"] by simp
  next
    case (Revoke v)
    let ?t = "filter (\<lambda>(i, a). ssVolumeID (shHeap q ! a) \<noteq> v) (shByID q)"
    have wf: "distinct (map fst (shByID q))"
      using served_inv_wf[OF inv] by (simp add: wf_map_def mkeys_def)
    then have "wf_map ?t" "\<And>i a. mget ?t i = Some a \<Longrightarrow> mget (shByID q) i = Some a"
      by (auto simp: wf_map_def mkeys_def distinct_map_filter dest!: map_of_SomeD)
    then have "sessions_ok (Suc n) (shHeap q) ?t (shNextID q)"
      using same sessions_ok_shrink unfolding served_inv_def by metis
    then show ?thesis
      using Revoke same by (simp add: served_inv_def)
  next
    case (Control f)
    then show ?thesis
      using same by (simp add: served_inv_def)
  next
    case (Go k)
    show ?thesis
    proof (cases "k < length (shConns q)")
      case True
      obtain pc q' where step: "conn_step s tx verify (shConns q ! k) q = (pc, q')" by fastforce
      obtain R where R: "mset (shConns q) = add_mset (shConns q ! k) R" "mset ((shConns q)[k := pc]) = add_mset pc R"
        using mset_put[OF True] by metis
      have "\<forall>p \<in># R. \<not> storing_at a p" if "shConns q ! k = CpCheck f a" for f a
      proof -
        have "\<forall>p \<in># mset (shConns q). \<not> storing_at a p"
          using excl Go True that by (simp add: list_all_iff)
        then show ?thesis by (simp add: R(1))
      qed
      from served_inv_step[OF inv[unfolded R(1)] bound step this]
      show ?thesis
        using Go True step R(2) by (simp add: served_inv_def)
    next
      case False
      then show ?thesis using Go same by simp
    qed
  qed
qed

lemma served_inv_run:
  assumes "served_inv n q (mset (shConns q))" "n + length xs + 1 < 2 ^ 64" "exclusive_run s tx verify xs q"
  shows "\<exists>m. served_inv m (run_actions s tx verify xs q) (mset (shConns (run_actions s tx verify xs q)))"
  using assms
proof (induction xs arbitrary: n q)
  case (Cons x xs)
  have "served_inv (Suc n) (act s tx verify x q) (mset (shConns (act s tx verify x q)))"
    using Cons.prems by (intro served_inv_act) simp_all
  then show ?case
    using Cons.IH[of "Suc n" "act s tx verify x q"] Cons.prems by simp
qed auto

text \<open>
  C5. No request is served twice unless two checks of its sequence number overlap. Over all connections of a
  server, however their goroutines interleave, with each other and with revocations and the control
  plane, and whatever sessions their frames name, no two served data requests have the same session
  and sequence number, as long as no connection reads the last number of a session between the
  read and the write of another one, and there are fewer than \<open>2 ^ 64 - 1\<close> steps: ids of closed
  sessions are not given out again, and a session never serves a number it has seen.
\<close>

theorem requests_served_once:
  assumes "exclusive_run s tx verify acts (started g)" "length acts < 2 ^ 64 - 1"
  shows "distinct (shServed (run_actions s tx verify acts (started g)))"
proof -
  let ?q = "run_actions s tx verify acts (started g)"
  have "served_inv 0 (started g) (mset (shConns (started g)))"
    by (simp add: started_def served_inv_def sessions_ok_def each_once_def)
  then obtain m where "served_inv m ?q (mset (shConns ?q))"
    using served_inv_run[of 0 "started g" acts s tx verify] assms by auto
  then show ?thesis
    unfolding served_inv_def by (blast intro: each_once_distinct)
qed

subsection \<open>Sessions that only one connection uses\<close>

text \<open>
  The checks cannot overlap when every session is named by the frames of one connection only, as the
  clients that open a session per connection do. The server does not enforce it.
\<close>

fun frame_of :: "conn_pc \<Rightarrow> frame_in option" where
  "frame_of (CpGet f) = Some f"
| "frame_of (CpExpired f) = Some f"
| "frame_of (CpCurrent f a) = Some f"
| "frame_of (CpStale f a code) = Some f"
| "frame_of (CpVerify f a) = Some f"
| "frame_of (CpCheck f a) = Some f"
| "frame_of (CpStore f a sq) = Some f"
| "frame_of (CpServe f a) = Some f"
| "frame_of (CpReply f r) = Some f"
| "frame_of _ = None"

definition uses_own :: "(u64 \<Rightarrow> nat) \<Rightarrow> conn_pc list \<Rightarrow> bool" where
  "uses_own owner conns \<longleftrightarrow>
     (\<forall>k < length conns. \<forall>f. frame_of (conns ! k) = Some f \<longrightarrow> owner (frame_id f) = k)"

definition sends_own :: "(u64 \<Rightarrow> nat) \<Rightarrow> ('m, 'o) action \<Rightarrow> bool" where
  "sends_own owner x = (case x of Receive k f \<Rightarrow> owner (frame_id f) = k | _ \<Rightarrow> True)"

lemma conn_step_frame:
  "conn_step s tx verify pc q = (pc', q') \<Longrightarrow> frame_of pc' = Some f \<Longrightarrow> frame_of pc = Some f"
  by (cases pc) (auto simp: Let_def split: sum.splits option.splits if_splits prod.splits)

lemma conn_step_conns: "conn_step s tx verify pc q = (pc', q') \<Longrightarrow> shConns q' = shConns q"
  by (cases pc) (auto simp: Let_def split: sum.splits option.splits if_splits prod.splits)

lemma uses_own_act:
  assumes "uses_own owner (shConns q)" "sends_own owner x"
  shows "uses_own owner (shConns (act s tx verify x q))"
proof (cases x)
  case (Go k)
  obtain pc q' where "conn_step s tx verify (shConns q ! k) q = (pc, q')" by fastforce
  then show ?thesis
    using assms(1) Go conn_step_frame by (fastforce simp: uses_own_def nth_list_update)
qed (use assms in \<open>auto simp: uses_own_def sends_own_def nth_list_update nth_append less_Suc_eq\<close>)

lemma own_exclusive:
  assumes "served_inv n q (mset (shConns q))" "uses_own owner (shConns q)"
  shows "exclusive q x"
proof (cases x)
  case (Go k)
  have "\<not> storing_at a pc" if k: "k < length (shConns q)" "shConns q ! k = CpCheck f a" and pc: "pc \<in> set (shConns q)" for f a pc
  proof
    assume "storing_at a pc"
    then obtain g sq where pc': "pc = CpStore g a sq" by (cases pc) auto
    obtain j where j: "j < length (shConns q)" "shConns q ! j = pc"
      using pc by (auto simp: in_set_conv_nth)
    have ok: "p \<in> set (shConns q) \<Longrightarrow> pc_ok (shHeap q) p" for p
      using assms(1) by (simp add: served_inv_def)
    have "pc_ok (shHeap q) (CpCheck f a)" "pc_ok (shHeap q) (CpStore g a sq)"
      using ok[OF nth_mem[OF k(1)]] ok[OF pc] k(2) pc' by (simp_all del: pc_ok.simps)
    then have "frame_id g = frame_id f"
      by (simp add: holds_def)
    moreover have "owner (frame_id f) = k"
      using assms(2) k by (simp add: uses_own_def)
    moreover have "owner (frame_id g) = j"
      using assms(2) j pc' by (simp add: uses_own_def)
    ultimately have "j = k" by simp
    then show False
      using k(2) j(2) pc' by simp
  qed
  then show ?thesis
    using Go by (auto simp: list_all_iff split: conn_pc.split)
qed simp_all

lemma own_exclusive_run:
  assumes "served_inv n q (mset (shConns q))" "uses_own owner (shConns q)" "n + length xs + 1 < 2 ^ 64"
    and "\<forall>x \<in> set xs. sends_own owner x"
  shows "exclusive_run s tx verify xs q"
  using assms
proof (induction xs arbitrary: n q)
  case (Cons x xs)
  have x: "exclusive q x"
    by (rule own_exclusive[OF Cons.prems(1,2)])
  have "served_inv (Suc n) (act s tx verify x q) (mset (shConns (act s tx verify x q)))"
    using Cons.prems x by (intro served_inv_act) simp_all
  then show ?case
    using Cons.IH[of "Suc n" "act s tx verify x q"] uses_own_act[OF Cons.prems(2)] Cons.prems x by simp
qed simp

lemma started_inv: "served_inv 0 (started g) (mset (shConns (started g)))"
  by (simp add: started_def served_inv_def sessions_ok_def each_once_def)

lemma own_sessions_exclusive:
  assumes "\<forall>x \<in> set acts. sends_own owner x" "length acts < 2 ^ 64 - 1"
  shows "exclusive_run s tx verify acts (started g)"
  using own_exclusive_run[OF started_inv _ _ assms(1)] assms(2) by (simp add: started_def uses_own_def)

subsection \<open>Two connections race for one session\<close>

text \<open>A frame that passes every check of the session at address \<open>a\<close>.\<close>

definition acceptable :: "('m, 'o) Server \<Rightarrow> frame_in \<Rightarrow> nat \<Rightarrow> ('m, 'o) shared \<Rightarrow> bool" where
  "acceptable s f a q \<longleftrightarrow> mget (shByID q) (frame_id f) = Some a \<and> a < length (shHeap q)
     \<and> rqNow (fiEnv f) \<le> ssExpiresAt (shHeap q ! a)
     \<and> sessionStillCurrent s (shHeap q ! a) (gwWorld (shGateway q)) = None
     \<and> data_frame (fiHeader f) \<and> h2AuthLen (fiHeader f) = of_nat AuthTagSize
     \<and> fiTag f = ComputeAuthTag (ssSessionKey (shHeap q ! a)) (fiHeader f) (fiPayload f)
     \<and> frame_seq f = last_seq (shHeap q) a + 1"

lemma tag_accepted:
  "length (ComputeAuthTag key h payload) = AuthTagSize" "VerifyAuthTag key h payload (ComputeAuthTag key h payload) = Inr ()"
  by (simp_all add: VerifyAuthTag_def ComputeAuthTag_def AuthTagSize_def)

text \<open>The steps up to the write of the sequence number change nothing but the place of the connection.\<close>

lemma accepted_steps:
  assumes "acceptable s f a q"
  shows "conn_step s tx verify (CpGet f) q = (CpCurrent f a, q)"
    "conn_step s tx verify (CpCurrent f a) q = (CpVerify f a, q)"
    "conn_step s tx verify (CpVerify f a) q = (CpCheck f a, q)"
    "conn_step s tx verify (CpCheck f a) q = (CpStore f a \<lparr>lastSeqNo = frame_seq f\<rparr>, q)"
  using assms by (auto simp: acceptable_def tag_accepted CheckNext_def Let_def)

lemma acceptable_conns [simp]: "acceptable s f a (q\<lparr>shConns := cs\<rparr>) = acceptable s f a q"
  by (simp add: acceptable_def)

lemma go:
  assumes "k < length (shConns q)" "shConns q ! k = pc" "conn_step s tx verify pc q = (pc', q')"
  shows "act s tx verify (Go k) q = q'\<lparr>shConns := (shConns q)[k := pc']\<rparr>"
  using assms by simp

lemma both_reach_store:
  assumes jk: "j < length (shConns q)" "k < length (shConns q)" "j \<noteq> k"
    and waiting: "shConns q ! j = CpOpen" "shConns q ! k = CpOpen"
    and ok: "acceptable s f a q" "acceptable s f' a q"
  shows "run_actions s tx verify (Receive j f # Receive k f' # concat (replicate 4 [Go j, Go k]) @ rest) q =
    run_actions s tx verify rest (q\<lparr>shConns := (shConns q)
      [j := CpStore f a \<lparr>lastSeqNo = frame_seq f\<rparr>, k := CpStore f' a \<lparr>lastSeqNo = frame_seq f'\<rparr>]\<rparr>)"
proof -
  define at where "at pc pc' = q\<lparr>shConns := (shConns q)[j := pc, k := pc']\<rparr>" for pc pc'
  have step: "act s tx verify (Go k) (act s tx verify (Go j) (at pc pc')) = at new new'"
    if "conn_step s tx verify pc (at pc pc') = (new, at pc pc')" "conn_step s tx verify pc' (at new pc') = (new', at new pc')"
    for pc pc' new new'
    using that jk by (simp add: at_def list_update_swap[of k j])
  note steps = accepted_steps[of s f a "at pc pc'" for pc pc'] accepted_steps[of s f' a "at pc pc'" for pc pc']
  have acc: "acceptable s f a (at pc pc')" "acceptable s f' a (at pc pc')" for pc pc'
    using ok by (simp_all add: at_def)
  have "act s tx verify (Receive k f') (act s tx verify (Receive j f) q) = at (CpGet f) (CpGet f')"
    using jk waiting by (simp add: at_def)
  moreover have "concat (replicate 4 [Go j, Go k]) = [Go j, Go k, Go j, Go k, Go j, Go k, Go j, Go k :: ('a, 'b) action]"
    by (simp add: numeral_eq_Suc)
  ultimately have "run_actions s tx verify (Receive j f # Receive k f' # concat (replicate 4 [Go j, Go k]) @ rest) q =
      run_actions s tx verify rest (at (CpStore f a \<lparr>lastSeqNo = frame_seq f\<rparr>) (CpStore f' a \<lparr>lastSeqNo = frame_seq f'\<rparr>))"
    using step[OF steps(1)[OF acc(1)] steps(5)[OF acc(2)]] step[OF steps(2)[OF acc(1)] steps(6)[OF acc(2)]]
      step[OF steps(3)[OF acc(1)] steps(7)[OF acc(2)]] step[OF steps(4)[OF acc(1)] steps(8)[OF acc(2)]]
    by (simp del: act.simps conn_step.simps)
  then show ?thesis
    by (simp add: at_def)
qed

text \<open>The effect of a data request on the gateway.\<close>

definition served_effect :: "('m, 'o) Server \<Rightarrow> frame_in \<Rightarrow> Session \<Rightarrow> ('m, 'o) gateway \<Rightarrow> ('m, 'o) gateway" where
  "served_effect s f sess g =
     snd (request_outcomeV2 s (rqMoment (fiEnv f)) (fiHeader f) (fiPayload f) (ssVolumeID sess) g)"

lemma serve_step:
  assumes "data_frame (fiHeader f)"
  obtains r where "conn_step s tx verify (CpServe f a) q = (CpReply f (Inr r),
    q\<lparr>shGateway := served_effect s f (shHeap q ! a) (shGateway q), shServed := shServed q @ [(frame_id f, frame_seq f)]\<rparr>)"
  using assms
  by (simp add: Let_def case_prod_beta handleRequestV2_gateway served_effect_def)

lemma store_then_serve:
  assumes "k < length (shConns q)" "shConns q ! k = CpStore f a sq" "data_frame (fiHeader f)"
  shows "shServed (run_actions s tx verify [Go k, Go k] q) = shServed q @ [(frame_id f, frame_seq f)]"
  using assms by (simp add: Let_def case_prod_beta)

lemma both_serve:
  assumes jk: "j < length (shConns q)" "k < length (shConns q)" "j \<noteq> k"
    and at: "shConns q ! j = CpStore f a sq" "shConns q ! k = CpStore f' a sq'" "a < length (shHeap q)"
    and data: "data_frame (fiHeader f)" "data_frame (fiHeader f')"
  shows "shServed (run_actions s tx verify [Go j, Go k, Go j, Go k] q)
      = shServed q @ [(frame_id f, frame_seq f), (frame_id f', frame_seq f')]"
    "shGateway (run_actions s tx verify [Go j, Go k, Go j, Go k] q)
      = served_effect s f' (shHeap q ! a) (served_effect s f (shHeap q ! a) (shGateway q))"
proof -
  let ?hp = "(shHeap q)[a := (shHeap q ! a)\<lparr>ssSeq := sq'\<rparr>]"
  let ?q = "q\<lparr>shHeap := ?hp, shConns := (shConns q)[j := CpServe f a, k := CpServe f' a]\<rparr>"
  have stored: "act s tx verify (Go k) (act s tx verify (Go j) q) = ?q"
    using jk at by simp
  obtain r where r: "conn_step s tx verify (CpServe f a) ?q = (CpReply f (Inr r),
      ?q\<lparr>shGateway := served_effect s f (shHeap ?q ! a) (shGateway ?q), shServed := shServed ?q @ [(frame_id f, frame_seq f)]\<rparr>)"
    using serve_step[OF data(1)] by metis
  have "shConns ?q ! j = CpServe f a" "j < length (shConns ?q)"
    using jk by simp_all
  note first = go[OF this(2,1) r]
  let ?q1 = "act s tx verify (Go j) ?q"
  obtain r' where r': "conn_step s tx verify (CpServe f' a) ?q1 = (CpReply f' (Inr r'),
      ?q1\<lparr>shGateway := served_effect s f' (shHeap ?q1 ! a) (shGateway ?q1), shServed := shServed ?q1 @ [(frame_id f', frame_seq f')]\<rparr>)"
    using serve_step[OF data(2)] by metis
  have "shConns ?q1 ! k = CpServe f' a" "k < length (shConns ?q1)"
    using jk unfolding first by simp_all
  note second = go[OF this(2,1) r']
  have effect: "served_effect s h (shHeap ?q ! a) = served_effect s h (shHeap q ! a)" for h
    using at(3) by (simp add: served_effect_def fun_eq_iff)
  have "run_actions s tx verify [Go j, Go k, Go j, Go k] q = act s tx verify (Go k) ?q1"
    by (simp only: run_actions.simps stored)
  note final = this[unfolded second]
  show "shServed (run_actions s tx verify [Go j, Go k, Go j, Go k] q)
      = shServed q @ [(frame_id f, frame_seq f), (frame_id f', frame_seq f')]"
    "shGateway (run_actions s tx verify [Go j, Go k, Go j, Go k] q)
      = served_effect s f' (shHeap q ! a) (served_effect s f (shHeap q ! a) (shGateway q))"
    unfolding final using effect by (simp_all add: first del: act.simps)
qed

text \<open>
  C6. A request is served twice when two checks of its sequence number overlap. Let two open connections
  receive the same data frame, which names a current session, carries its tag and the next sequence
  number. If the goroutines run in lockstep, both find the number acceptable before either has
  written it: the request is served twice, and the gateway is changed by it twice.
\<close>

theorem raced_frame_served_twice:
  assumes "j < length (shConns q)" "k < length (shConns q)" "j \<noteq> k"
    and "shConns q ! j = CpOpen" "shConns q ! k = CpOpen"
    and "acceptable s f a q" "acceptable s (f\<lparr>fiEnv := e\<rparr>) a q"
  shows "let q' = run_actions s tx verify (Receive j f # Receive k (f\<lparr>fiEnv := e\<rparr>) # concat (replicate 6 [Go j, Go k])) q
    in shServed q' = shServed q @ [(frame_id f, frame_seq f), (frame_id f, frame_seq f)]
    \<and> shGateway q' = served_effect s (f\<lparr>fiEnv := e\<rparr>) (shHeap q ! a) (served_effect s f (shHeap q ! a) (shGateway q))"
proof -
  let ?f = "f\<lparr>fiEnv := e\<rparr>" and ?sq = "\<lparr>lastSeqNo = frame_seq f\<rparr>"
  let ?q = "q\<lparr>shConns := (shConns q)[j := CpStore f a ?sq, k := CpStore ?f a ?sq]\<rparr>"
  have "concat (replicate 6 [Go j, Go k]) = concat (replicate 4 [Go j, Go k]) @ [Go j, Go k, Go j, Go k :: ('a, 'b) action]"
    by (simp add: numeral_eq_Suc)
  then have q': "run_actions s tx verify (Receive j f # Receive k ?f # concat (replicate 6 [Go j, Go k])) q
      = run_actions s tx verify [Go j, Go k, Go j, Go k] ?q"
    using both_reach_store[OF assms(1-7)] by simp
  have data: "a < length (shHeap ?q)" "data_frame (fiHeader f)" "data_frame (fiHeader ?f)"
    using assms(6) by (simp_all add: acceptable_def)
  show ?thesis
    unfolding q' Let_def using assms(1-3) both_serve[OF _ _ assms(3) _ _ data, of ?sq ?sq s tx verify] by simp
qed

subsection \<open>A frame handled without interference\<close>

text \<open>
  The steps of a frame that no other connection interrupts are \<open>frame_outcome\<close> on the table with the
  sessions in place of their addresses, and those of a handshake are \<open>hello_outcome\<close>.
\<close>

definition table_of :: "Session list \<Rightarrow> (u64, nat) gomap \<Rightarrow> (u64, Session) gomap" where
  "table_of hp t = map (\<lambda>(i, a). (i, hp ! a)) t"

definition dataplane_of :: "('m, 'o) shared \<Rightarrow> ('m, 'o) dataplane" where
  "dataplane_of q = \<lparr>dpSessions = \<lparr>stByID = table_of (shHeap q) (shByID q), stNextID = shNextID q\<rparr>,
     dpGateway = shGateway q\<rparr>"

primrec conn_steps ::
    "nat \<Rightarrow> ('m, 'o) Server \<Rightarrow> hello_text \<Rightarrow> (int \<Rightarrow> string \<Rightarrow> token_error + VerifiedToken) \<Rightarrow> conn_pc \<times> ('m, 'o) shared \<Rightarrow>
     conn_pc \<times> ('m, 'o) shared" where
  "conn_steps 0 s tx verify x = x"
| "conn_steps (Suc n) s tx verify x =
     (case fst x of CpReply f r \<Rightarrow> x | CpAck y r \<Rightarrow> x
      | _ \<Rightarrow> conn_steps n s tx verify (conn_step s tx verify (fst x) (snd x)))"

lemma table_of_get: "mget (table_of hp t) i = map_option ((!) hp) (mget t i)"
  by (induction t) (auto simp: table_of_def)

lemma table_of_del: "table_of hp (mdel i t) = mdel i (table_of hp t)"
  by (induction t) (auto simp: table_of_def AList.delete_eq)

lemma table_of_put: "table_of hp (mput i a t) = mput i (hp ! a) (table_of hp t)"
  by (induction t) (auto simp: table_of_def)

lemma table_of_update:
  assumes "sessions_ok n hp t nxt" "mget t i = Some a"
  shows "table_of (hp[a := s]) t = mput i s (table_of hp t)"
proof -
  have wf: "distinct (map fst t)" and addr: "\<And>j b. (j, b) \<in> set t \<Longrightarrow> b < length hp \<and> ssID (hp ! b) = j"
    using assms(1) by (auto simp: sessions_ok_def wf_map_def mkeys_def)
  have "table_of (hp[a := s]) u = mput i s (table_of hp u)"
    if "mget u i = Some a" "distinct (map fst u)" "set u \<subseteq> set t" for u
    using that
  proof (induction u)
    case (Cons x u)
    obtain j b where x: "x = (j, b)" by fastforce
    have b: "b < length hp" "ssID (hp ! b) = j"
      using addr[of j b] Cons.prems(3) x by auto
    have a: "a < length hp" "ssID (hp ! a) = i"
      using addr[OF map_of_SomeD[OF assms(2)]] by auto
    show ?case
    proof (cases "j = i")
      case True
      have "table_of (hp[a := s]) u = table_of hp u"
        unfolding table_of_def
      proof (rule map_cong[OF refl])
        fix y assume y: "y \<in> set u"
        obtain k c where k: "y = (k, c)" by fastforce
        have "ssID (hp ! c) = k" "k \<noteq> i"
          using addr[of k c] Cons.prems(2,3) y k x True by force+
        then show "(case y of (i, b) \<Rightarrow> (i, hp[a := s] ! b)) = (case y of (i, b) \<Rightarrow> (i, hp ! b))"
          using a(2) k by (cases "c = a") auto
      qed
      then show ?thesis
        using Cons.prems(1) True x a(1) by (simp add: table_of_def)
    next
      case False
      then have "b \<noteq> a" using a(2) b(2) by auto
      then show ?thesis
        using False Cons x by (simp add: table_of_def)
    qed
  qed simp
  from this[OF assms(2) wf] show ?thesis by simp
qed

lemma seq_replaced [simp]: "(x :: SeqChecker)\<lparr>lastSeqNo := i\<rparr> = \<lparr>lastSeqNo = i\<rparr>"
  by (cases x) simp

lemma dataplane_of_fields [simp]:
  "dpGateway (dataplane_of q) = shGateway q"
  "(dataplane_of q)\<lparr>dpSessions := dpSessions (dataplane_of q)\<rparr> = dataplane_of q"
  by (simp_all add: dataplane_of_def)

lemma conn_steps_done [simp]:
  "conn_steps n s tx verify (CpReply f r, q) = (CpReply f r, q)"
  "conn_steps n s tx verify (CpAck y r, q) = (CpAck y r, q)"
  by (cases n; simp)+

lemma frame_alone:
  assumes ok: "sessions_ok n (shHeap q) (shByID q) (shNextID q)"
  shows "\<exists>r q'. conn_steps 6 s tx verify (CpGet f, q) = (CpReply f r, q')
    \<and> frame_outcome s (fiEnv f) (fiHeader f) (fiPayload f) (fiTag f) (dataplane_of q) = (r, dataplane_of q')"
proof (cases "mget (shByID q) (frame_id f)")
  case None
  then show ?thesis
    by (simp add: numeral_eq_Suc frame_outcome_def dataplane_of_def GetSession_def table_of_get)
next
  case (Some a)
  let ?sess = "shHeap q ! a" and ?h = "fiHeader f"
  have a: "a < length (shHeap q)" "ssID ?sess = frame_id f"
    using ok Some by (simp_all add: sessions_ok_def)
  show ?thesis
  proof (cases "rqNow (fiEnv f) > ssExpiresAt ?sess")
    case True
    then show ?thesis
      using Some
      by (simp add: numeral_eq_Suc frame_outcome_def dataplane_of_def GetSession_def table_of_get RemoveSession_def
          table_of_del)
  next
    case False
    then have get: "GetSession (rqNow (fiEnv f)) (frame_id f) (dpSessions (dataplane_of q)) = (Some ?sess, dpSessions (dataplane_of q))"
      using Some by (simp add: GetSession_def dataplane_of_def table_of_get)
    have current: "conn_steps 6 s tx verify (CpGet f, q) = conn_steps 5 s tx verify (CpCurrent f a, q)"
      using False Some by (simp add: numeral_eq_Suc)
    show ?thesis
    proof (cases "sessionStillCurrent s ?sess (gwWorld (shGateway q))")
      case (Some code)
      then show ?thesis
        using get unfolding current
        by (simp add: numeral_eq_Suc frame_outcome_def Let_def dataplane_of_def RemoveSession_def table_of_del)
    next
      case None
      have serve: "\<exists>r q''. conn_steps (Suc m) s tx verify (CpServe f a, q') = (CpReply f r, q'')
          \<and> (case handleRequestV2 s (fiEnv f) ?h (fiPayload f) (shHeap q' ! a) (dpGateway (dataplane_of q')) of
               ((resp, out), g) \<Rightarrow> (Inr (fst (EncodeResponseMessageV2 resp out
                   (ComputeAuthTag (ssSessionKey (shHeap q' ! a)) (r2Base resp) out))), (dataplane_of q')\<lparr>dpGateway := g\<rparr>))
             = (r, dataplane_of q'')" for m q'
        by (simp add: dataplane_of_def Let_def split: prod.split)
      show ?thesis
      proof (cases "data_frame ?h")
        case False
        then have serves: "conn_steps 5 s tx verify (CpCurrent f a, q) = conn_steps (Suc 3) s tx verify (CpServe f a, q)"
          using None by (simp add: numeral_eq_Suc)
        have "(h2Op ?h \<noteq> OpHello \<and> h2Op ?h \<noteq> OpHelloAck) = False"
          using False by (simp add: data_frame_def)
        then show ?thesis
          using serve[of 3 q] None unfolding current serves frame_outcome_def
          by (simp only: get Let_def prod.case option.case if_False dataplane_of_fields)
      next
        case True
        then have verify: "conn_steps 5 s tx verify (CpCurrent f a, q) = conn_steps 4 s tx verify (CpVerify f a, q)"
          using None by (simp add: numeral_eq_Suc)
        have data: "h2Op ?h \<noteq> OpHello" "h2Op ?h \<noteq> OpHelloAck"
          using True by (simp_all add: data_frame_def)
        show ?thesis
        proof (cases "h2AuthLen ?h = of_nat AuthTagSize \<and> length (fiTag f) = AuthTagSize
            \<and> VerifyAuthTag (ssSessionKey ?sess) ?h (fiPayload f) (fiTag f) = Inr ()")
          case False
          then have "conn_steps 4 s tx verify (CpVerify f a, q) = (CpReply f (Inl ErrBadAuthTag), q)"
            by (auto simp: numeral_eq_Suc split: sum.splits)
          then show ?thesis
            using False None data unfolding current verify
            by (auto simp: frame_outcome_def get Let_def split: sum.splits)
        next
          case tagged: True
          show ?thesis
          proof (cases "frame_seq f = lastSeqNo (ssSeq ?sess) + 1")
            case False
            then have "conn_steps 4 s tx verify (CpVerify f a, q) = (CpReply f (Inl ErrReplayDetected), q)"
              using tagged by (simp add: numeral_eq_Suc CheckNext_def Let_def)
            then show ?thesis
              using tagged False None data unfolding current verify
              by (simp add: frame_outcome_def get Let_def CheckNext_def)
          next
            case next': True
            let ?new = "?sess\<lparr>ssSeq := \<lparr>lastSeqNo = frame_seq f\<rparr>\<rparr>"
            let ?q = "q\<lparr>shHeap := (shHeap q)[a := ?new]\<rparr>"
            have steps: "conn_steps 4 s tx verify (CpVerify f a, q) = conn_steps (Suc 0) s tx verify (CpServe f a, ?q)"
              using tagged next' by (simp add: numeral_eq_Suc CheckNext_def Let_def)
            have "dataplane_of ?q = (dataplane_of q)\<lparr>dpSessions := update_session ?new (dpSessions (dataplane_of q))\<rparr>"
              using table_of_update[OF ok Some, of ?new] a(2) by (simp add: dataplane_of_def update_session_def)
            then show ?thesis
              using serve[of 0 ?q] tagged next' None data a(1) unfolding current verify steps
              by (simp add: frame_outcome_def get Let_def CheckNext_def)
          qed
        qed
      qed
    qed
  qed
qed

lemma hello_alone:
  assumes ok: "sessions_ok n (shHeap q) (shByID q) (shNextID q)"
  shows "\<exists>r q'. conn_steps 3 s tx verify (CpHello x, q) = (CpAck x r, q')
    \<and> hello_outcome s tx verify (heNow (hiEnv x)) (heServerNonce (hiEnv x)) (hiHeader x) (hiPayload x) (dataplane_of q)
      = (r, dataplane_of q')"
proof (cases "hello_check s tx verify (heNow (hiEnv x)) (hiHeader x) (hiPayload x) (gwWorld (shGateway q))")
  case (Inl code)
  then show ?thesis
    by (simp add: numeral_eq_Suc hello_outcome_def dataplane_of_def)
next
  case (Inr hv)
  obtain hello verified where hv: "hv = (hello, verified)" by fastforce
  let ?i = "shNextID q" and ?a = "length (shHeap q)"
  let ?sess = "(hello_session s verified)\<lparr>ssID := ?i\<rparr>"
  let ?new = "?sess\<lparr>ssSessionKey := hello_key s hello (heServerNonce (hiEnv x)) ?i\<rparr>"
  note free = next_id_fresh(1)[OF ok]
  then have "mget (table_of (shHeap q) (shByID q)) ?i = None"
    by (simp add: table_of_get)
  then have add: "AddSession (hello_session s verified) (dpSessions (dataplane_of q)) =
      (?sess, \<lparr>stByID = mput ?i ?sess (table_of (shHeap q) (shByID q)), stNextID = ?i + 1\<rparr>)"
    by (simp add: AddSession_def dataplane_of_def Let_def)
  have old: "table_of (shHeap q @ [s']) (shByID q) = table_of (shHeap q) (shByID q)" for s'
    unfolding table_of_def
  proof (rule map_cong[OF refl])
    fix y assume "y \<in> set (shByID q)"
    then have "mget (shByID q) (fst y) = Some (snd y)"
      using ok by (simp add: sessions_ok_def wf_map_def mkeys_def)
    then have "snd y < ?a"
      using ok by (simp add: sessions_ok_def)
    then show "(case y of (i, a) \<Rightarrow> (i, (shHeap q @ [s']) ! a)) = (case y of (i, a) \<Rightarrow> (i, shHeap q ! a))"
      by (cases y) (simp add: nth_append)
  qed
  have "mput ?i s2 (mput ?i s1 t) = mput ?i s2 t" for s1 s2 and t :: "(u64, Session) gomap"
    by (induction t) auto
  then show ?thesis
    using Inr add free hv
    by (simp add: numeral_eq_Suc hello_outcome_def Let_def update_session_def dataplane_of_def table_of_put old
        list_update_append)
qed

text \<open>
  Between the insertion of a session and the assignment of its key, another connection can use it with the
  empty key: a frame with the code of the frame under the empty key as its tag is served.
\<close>

lemma served_before_key:
  assumes jk: "j < length (shConns q)" "k < length (shConns q)" "j \<noteq> k"
    and at: "shConns q ! j = CpAdd x hello verified" "shConns q ! k = CpOpen"
    and free: "mget (shByID q) (shNextID q) = None"
    and current: "sessionStillCurrent s (hello_session s verified) (gwWorld (shGateway q)) = None"
      "rqNow (fiEnv f) \<le> vtExpiresAt verified"
    and frame: "frame_id f = shNextID q" "frame_seq f = 1" "data_frame (fiHeader f)"
      "h2AuthLen (fiHeader f) = of_nat AuthTagSize" "fiTag f = ComputeAuthTag [] (fiHeader f) (fiPayload f)"
  shows "shServed (run_actions s tx verify (Go j # Receive k f # replicate 6 (Go k)) q)
    = shServed q @ [(shNextID q, 1)]"
proof -
  let ?i = "shNextID q" and ?a = "length (shHeap q)"
  define at where "at pc = q\<lparr>shHeap := shHeap q @ [(hello_session s verified)\<lparr>ssID := ?i\<rparr>],
    shByID := mput ?i ?a (shByID q), shNextID := ?i + 1, shConns := (shConns q)[j := CpKey x hello verified ?a, k := pc]\<rparr>" for pc
  have arrived: "act s tx verify (Receive k f) (act s tx verify (Go j) q) = at (CpGet f)"
    using jk at free by (simp add: at_def Let_def)
  have acc: "acceptable s f ?a (at pc)" for pc
    using current frame by (simp add: acceptable_def at_def) (simp add: hello_session_def Let_def)
  have step: "act s tx verify (Go k) (at pc) = at pc'" if "conn_step s tx verify pc (at pc) = (pc', at pc)" for pc pc'
    using that jk by (simp add: at_def)
  let ?q = "at (CpStore f ?a \<lparr>lastSeqNo = frame_seq f\<rparr>)"
  have run: "run_actions s tx verify (Go j # Receive k f # replicate 6 (Go k)) q = run_actions s tx verify [Go k, Go k] ?q"
    using arrived accepted_steps[OF acc, THEN step] by (simp add: numeral_eq_Suc del: act.simps conn_step.simps)
  have "shServed (run_actions s tx verify [Go k, Go k] ?q) = shServed ?q @ [(frame_id f, frame_seq f)]"
    using jk frame(3) by (intro store_then_serve) (simp_all add: at_def)
  then show ?thesis
    unfolding run using frame(1,2) by (simp add: at_def del: run_actions.simps)
qed

subsection \<open>Witnesses\<close>

text \<open>
  Two clients of the attached volume open a session each; then both send the frame that flushes the volume
  under the first session.
\<close>

definition demo_hello_in :: hello_in where
  "demo_hello_in = \<lparr>hiEnv = \<lparr>heNow = 150, heServerNonce = ''s'', heWritten = True\<rparr>,
     hiHeader = zero_header2\<lparr>h2Op := OpHello\<rparr>, hiPayload = []\<rparr>"

definition demo_frame_in :: frame_in where
  "demo_frame_in = \<lparr>fiEnv = demo_env, fiHeader = demo_flush, fiPayload = [],
     fiTag = ComputeAuthTag demo_key demo_flush []\<rparr>"

definition demo_handshakes :: "(repo, unit) action list" where
  "demo_handshakes = [Accept, Accept, ReceiveHello 0 demo_hello_in, Go 0, Go 0, Go 0, Go 0,
     ReceiveHello 1 demo_hello_in, Go 1, Go 1, Go 1, Go 1]"

definition demo_opened :: "(repo, unit) shared" where
  "demo_opened = \<lparr>shHeap = [demo_session, demo_session\<lparr>ssID := 2, ssSessionKey := DeriveSessionKey [9] ''secret'' ''c'' ''s'' 2\<rparr>],
     shByID = [(1, 0), (2, 1)], shNextID = 3, shGateway = attached_gateway, shConns = [CpOpen, CpOpen], shServed = []\<rparr>"

lemma demo_opened_reached:
  "run_actions demo_server demo_text demo_verify demo_handshakes (started attached_gateway) = demo_opened"
proof -
  obtain st where st: "volumeState (dsService demo_server) 7 (gwWorld attached_gateway) = Inr st" "vsGeneration st = 1"
    "vsAttachmentID st = ''att-00000007-0001''" "vsAttachedHostID st = ''h1''" "vsAttachedDeviceID st = 1"
    using attached_state by blast
  let ?hello = "\<lparr>hpToken = ''secret'', hpClientNonce = ''c'', hpDeviceID = 1, hpHostID = ''h1'',
     hpSupportedAuth = [AuthModeTokenHMACV1], hpRequestedPathID = 4\<rparr>"
  have "validateHelloSession demo_server ?hello demo_token st"
    by (simp add: validateHelloSession_def demo_server_def NewServer_def demo_token_def st)
  then have check: "hello_check demo_server demo_text demo_verify 150 (zero_header2\<lparr>h2Op := OpHello\<rparr>) [] (gwWorld attached_gateway)
      = Inr (?hello, demo_token)"
    using st(1) by (simp add: hello_check_def zero_header2_def demo_text_def demo_verify_def demo_token_def)
  have session: "(hello_session demo_server demo_token)\<lparr>ssID := i\<rparr> = demo_session\<lparr>ssID := i, ssSessionKey := []\<rparr>" for i
    by (simp add: hello_session_def demo_token_def demo_session_def demo_server_def NewServer_def Let_def)
  have key: "hello_key demo_server ?hello ''s'' i = DeriveSessionKey [9] ''secret'' ''c'' ''s'' i" for i
    by (simp add: hello_key_def demo_server_def NewServer_def Let_def)
  have first: "demo_session\<lparr>ssID := 1, ssSessionKey := DeriveSessionKey [9] ''secret'' ''c'' ''s'' 1\<rparr> = demo_session"
    by (simp add: demo_session_def demo_key_def)
  show ?thesis
    using check session key first
    by (simp add: demo_handshakes_def demo_opened_def demo_hello_in_def started_def Let_def)
qed

lemma demo_acceptable:
  "acceptable demo_server (demo_frame_in\<lparr>fiEnv := demo_env\<rparr>) 0 demo_opened"
proof -
  have "sessionStillCurrent demo_server demo_session (gwWorld attached_gateway) = None"
    using attached_state by (simp add: sessionStillCurrent_None demo_session_def)
  then show ?thesis
    using demo_flush_data
    by (simp add: acceptable_def demo_opened_def demo_frame_in_def)
      (simp add: demo_flush_def demo_session_def demo_env_def)
qed

lemma run_actions_append: "run_actions s tx verify (xs @ ys) q = run_actions s tx verify ys (run_actions s tx verify xs q)"
  by (induction xs arbitrary: q) simp_all

lemma served_grows: "prefix (shServed q) (shServed (run_actions s tx verify xs q))"
proof (induction xs arbitrary: q)
  case (Cons x xs)
  have step: "prefix (shServed q) (shServed q')" if "conn_step s tx verify pc q = (pc', q')" for pc pc' q'
    using that by (cases pc) (auto simp: Let_def split: sum.splits option.splits if_splits prod.splits)
  have "prefix (shServed q) (shServed (act s tx verify x q))"
    by (cases x) (auto split: prod.split dest: step)
  then show ?case
    using Cons.IH[of "act s tx verify x q"] by (auto intro: prefix_order.trans)
qed simp

lemma demo_served:
  "shServed (run_actions demo_server demo_text demo_verify (Receive 0 demo_frame_in # replicate 6 (Go 0)) demo_opened) = [(1, 1)]"
proof -
  define at where "at pc = demo_opened\<lparr>shConns := [pc, CpOpen]\<rparr>" for pc
  have same: "demo_frame_in\<lparr>fiEnv := demo_env\<rparr> = demo_frame_in"
    by (simp add: demo_frame_in_def)
  have acc: "acceptable demo_server demo_frame_in 0 (at pc)" for pc
    using demo_acceptable unfolding same by (simp add: at_def)
  have step: "act demo_server demo_text demo_verify (Go 0) (at pc) = at pc'"
    if "conn_step demo_server demo_text demo_verify pc (at pc) = (pc', at pc)" for pc pc'
    using that by (simp add: at_def)
  have "act demo_server demo_text demo_verify (Receive 0 demo_frame_in) demo_opened = at (CpGet demo_frame_in)"
    by (simp add: at_def demo_opened_def)
  then have run: "run_actions demo_server demo_text demo_verify (Receive 0 demo_frame_in # replicate 6 (Go 0)) demo_opened
      = run_actions demo_server demo_text demo_verify [Go 0, Go 0] (at (CpStore demo_frame_in 0 \<lparr>lastSeqNo = frame_seq demo_frame_in\<rparr>))"
    using accepted_steps[OF acc, THEN step] by (simp add: numeral_eq_Suc del: act.simps conn_step.simps)
  show ?thesis
    unfolding run
    by (subst store_then_serve)
      (use demo_flush_data in \<open>simp_all add: at_def demo_opened_def demo_frame_in_def, simp_all add: demo_flush_def\<close>)
qed

theorem requests_served_once_witness:
  "let acts = demo_handshakes @ (Receive 0 demo_frame_in # replicate 6 (Go 0))
         @ Go 0 # Receive 0 demo_frame_in # replicate 6 (Go 0)
   in \<exists>log. shServed (run_actions demo_server demo_text demo_verify acts (started attached_gateway)) = (1, 1) # log
        \<and> (1, 1) \<notin> set log"
proof -
  let ?first = "Receive 0 demo_frame_in # replicate 6 (Go 0)"
  let ?acts = "demo_handshakes @ ?first @ Go 0 # ?first"
  let ?served = "shServed (run_actions demo_server demo_text demo_verify ?acts (started attached_gateway))"
  have "\<forall>x \<in> set ?acts. sends_own (\<lambda>i. 0) x"
    by (simp add: demo_handshakes_def sends_own_def)
  then have "exclusive_run demo_server demo_text demo_verify ?acts (started attached_gateway)"
    by (rule own_sessions_exclusive) (simp add: demo_handshakes_def)
  then have "distinct ?served"
    by (rule requests_served_once) (simp add: demo_handshakes_def)
  moreover have "prefix [(1, 1)] ?served"
    using served_grows[of "run_actions demo_server demo_text demo_verify ?first demo_opened"] demo_served
    unfolding run_actions_append demo_opened_reached by metis
  ultimately show ?thesis
    unfolding Let_def by (auto simp: prefix_def)
qed

theorem raced_frame_served_twice_witness:
  "shServed (run_actions demo_server demo_text demo_verify
      (Receive 0 demo_frame_in # Receive 1 demo_frame_in # concat (replicate 6 [Go 0, Go 1]))
      (run_actions demo_server demo_text demo_verify demo_handshakes (started attached_gateway)))
    = [(1, 1), (1, 1)]"
proof -
  have same: "demo_frame_in\<lparr>fiEnv := demo_env\<rparr> = demo_frame_in"
    by (simp add: demo_frame_in_def)
  have "shServed demo_opened = []" "frame_id demo_frame_in = 1" "frame_seq demo_frame_in = 1"
    by (simp_all add: demo_opened_def demo_frame_in_def demo_flush_def)
  then show ?thesis
    using raced_frame_served_twice[of 0 demo_opened 1 demo_server demo_frame_in 0 demo_env demo_text demo_verify]
      demo_acceptable
    unfolding demo_opened_reached same by (simp add: Let_def demo_opened_def del: run_actions.simps)
qed

end
