(* ===== verification/Spec2Isabelle.thy ===== *)
theory Spec2Isabelle
  imports WireStream WireV2 ChunkSweep ServicePath CacheCoherence DataplanePath SessionRaces
begin

text \<open>
  A verification development for NAMRBD, a network block device.

  \<^bold>\<open>The program.\<close> A block driver in the kernel of a host (kernel/module) sends reads, writes, discards and
  zero requests over a binary protocol (protocol/wirev1, protocol/wirev2) to a gateway. The data plane of the
  gateway (gateway/dataplane) authenticates the sessions of version 2, decodes the frames and calls the gateway
  service (gateway/service/service.go). The service asks a metadata repository for the volume, checks the request
  and hands it to a data repository. The chunk-extent data repository (chunk_extent_data.go) keeps a volume as
  fixed-size chunks in an object store (gateway/store) and the map from logical chunks to stored chunks as extent
  pages in the metadata repository. It never overwrites a chunk: it stores new chunks under fresh ids, publishes
  them by a compare-and-swap of the page and leaves the old ones to a garbage collector (chunk_gc.go). The
  control plane attaches and detaches hosts and moves a volume between gateways by handoffs (path_plan_status.go,
  handoff.go); every attach bumps the generation of the volume, which fences the earlier attachment.

  \<^bold>\<open>Conventions.\<close> They are in \<open>Prelude\<close>: machine integers are words and wrap, byte slices are lists of bytes,
  errors are \<open>Inl\<close>, Go maps are association lists with distinct keys, an interface is a record of functions and a
  missing optional interface is \<open>None\<close>. The clock, random draws, measured latencies and what the network does are
  arguments, so the theorems hold for all of them. A method under a mutex is one atomic step.
  Where a method of the source reads the clock more than once the model uses one reading.

  \<^bold>\<open>Theories and sources.\<close>
  \<^item> \<open>Prelude\<close>, \<open>Hashes\<close>: shared notions; CRC32C, SHA-256 and HMAC of the Go library as functions that compute.
    A CRC32C tells apart two messages that differ in one 32-bit field.
  \<^item> \<open>WireV1\<close> (protocol/wirev1 types, codec, body), \<open>WireStream\<close> (stream_decoder, conn, dispatch): frames, payload
    bodies, the incremental decoder and the connections. Encoding and decoding are inverse, accepted frames are
    checksummed, and any cutting of the byte stream delivers the frames that were sent.
  \<^item> \<open>WireV2\<close> (protocol/wirev2): frames, authentication tag, replay check.
  \<^item> \<open>VolumeId\<close> (volumeid), \<open>VolumeTypes\<close> (gateway/service/repository.go): ids, records, normalisation, validation.
  \<^item> \<open>MemoryMetadata\<close> (memory_metadata.go): the in-memory metadata repository, every method. Well-formedness is kept
    by every sequence of operations; ended attachment ids never come back; page writes compare and swap; chunk
    ids are never handed out twice.
  \<^item> \<open>Interfaces\<close>, \<open>MemoryRepository\<close>: the repository interface as a record, the laws of its extent pages as the
    locales \<open>page_repository\<close> and \<open>reliable_page_repository\<close>, and their interpretation on the in-memory repository.
  \<^item> \<open>ObjectStore\<close> (gateway/store/store.go, memory.go, gateway/service/chunk_payload.go): the store interface with its
    laws (\<open>object_store\<close>, \<open>reliable_object_store\<close>), interpreted on the memory store, and chunk payloads.
  \<^item> \<open>ExtentMap\<close>, \<open>ChunkExtent\<close> (chunk_extent_data.go, discard_observation.go): the compressed extents of a page, and
    reads, page writes as a step machine, discards and zeroes.
  \<^item> \<open>VolumeBytes\<close>, \<open>ChunkWriters\<close>, \<open>ConcurrentData\<close>, \<open>DataPath\<close>: the abstract volume as a function from byte indices
    to bytes, and the refinement. The locale \<open>data_path\<close> joins the two contracts; each step of a page write, with
    steps of other writers and sweeps in between, leaves the bytes alone or commits its write as a whole.
    \<open>reliable_data_path\<close> adds that calls return; both are interpreted on the in-memory parts.
  \<^item> \<open>ChunkGC\<close>, \<open>ChunkSweep\<close> (chunk_gc.go, chunk_gc_bounded.go): a sweep deletes only garbage, and the rotating
    sweeper reaches and sweeps every volume. Next to concurrent writers a sweep is one step.
  \<^item> \<open>PathPlan\<close> (path_plan_status.go, handoff.go): the reconciliation of a volume's path plan, fencing epochs and the
    stages of a handoff.
  \<^item> \<open>Metrics\<close>, \<open>GatewayService\<close>, \<open>ServicePath\<close> (metrics.go, service.go): attach, detach, reads, writes, discards and
    zeroes of the service with their counters; attach and detach under handoffs; what a client reads after it
    wrote, discarded or zeroed through the service.
  \<^item> \<open>CachedMetadata\<close>, \<open>CacheCoherence\<close> (cached_metadata.go): the metadata cache is bounded, is invisible to a client
    that is alone on its repository and does not change the geometry of a volume (locale \<open>cacheable_repository\<close>,
    interpreted on the in-memory one), and keeps a page that another client has changed.
  \<^item> \<open>Dataplane\<close> (gateway/dataplane/server.go, session.go, gateway/auth/token.go): sessions, handshake, both request
    handlers and the connection loops, each frame and each handshake as one step. A frame changes the gateway only
    with the authority of its session.
  \<^item> \<open>SessionRaces\<close> (server.go, session.go, protocol/wirev2/seq.go): the same frames and handshakes in the steps between
    which other connections can run, with the sessions as shared objects. No data request is served twice as long
    as two checks of the sequence number of one session do not overlap, which holds when no two connections use the
    same session; when they overlap a request can be served twice, and a session accepts the empty key until its
    key is assigned. Run without interference the steps are those of \<open>Dataplane\<close> (\<open>frame_alone\<close>, \<open>hello_alone\<close>).
  \<^item> \<open>KernelWire\<close> (kernel/module/namrbd_blk.c): the encoders of the block driver and its checks of the responses.
  \<^item> \<open>DataplanePath\<close>: a write and a read of the driver through the data plane, the service, the extent map and the
    store; sessions of ended attachments; the handshake between the driver and the gateway.

  \<^bold>\<open>Bounds and fuel.\<close> A page write makes at most eight attempts, as the source does; the step machine that runs it gets
  64 steps, and \<open>page_write_ends\<close> shows that it always ends within them. The eviction of the cache gets the length of
  its list as fuel, which is the number of pages it could remove. The search for a free session id gets the number of
  sessions plus one, and there is a free id among as many candidates. Volume ids are drawn from an explicit list of
  random values and the creation fails when 64 draws are taken, as in the source. The connection loops recurse on
  the list of the requests they serve, so a theorem about any list is one about a loop that runs for as long. Ranges
  that reach 2^63 bytes and counters that wrap are excluded by explicit hypotheses where they would matter.

  \<^bold>\<open>Not modelled.\<close>
  \<^item> The storage cluster (sbs), its local nodes and the gRPC client of the gateway (sbs.go, sbs_data_repository.go,
    gateway/sbsgrpc): distributed transactions on external databases. They stand behind the repository interfaces,
    which are parameters here. So do the etcd repository (gateway/metadata) and the redis store.
  \<^item> Issuing and verifying tokens and the text of JSON bodies and times: library formats; the verifier and the texts are
    parameters of the handshake.
  \<^item> The rest of the kernel module: block layer, sockets, retries, path selection, netlink (also control).
  \<^item> gateway/httpapi, cmd, iscsi, internal, web, packaging: input and output, configuration and process handling
    around the services. protocol/session and protocol/policy are not imported by any other package.
  \<^item> Logging, contexts and deadlines: a call that is cut off returns the error of its context like any other error.
  \<^item> Memory effects below single reads and writes: a read of a shared field sees the last write to it.
\<close>

end
